(* ===== verification/Prelude.thy ===== *)
theory Prelude
  imports Main "HOL-Library.Multiset"
begin

text \<open>
  What every component of the development shares: Go's fixed-width integers, instants
  and durations; \<open>sort.Search\<close>; and the loop "keep the best element seen so far",
  which the repository writes again and again (earliest deadline, latest measurement,
  largest routing credit), with the laws that loop obeys for any strict weak order,
  stated once as a locale.
\<close>

named_theorems go_consts \<open>string constants of the Go packages\<close>

section \<open>Integers, instants and durations\<close>

text \<open>
  An instant (\<open>time.Time\<close>) is the number of nanoseconds since January 1, year 1, so
  that Go's zero \<open>time.Time{}\<close> is 0. A duration is a signed 64-bit number of
  nanoseconds. \<open>t.Sub(u)\<close> saturates at the bounds of int64.
\<close>

type_synonym instant = int
type_synonym duration = int

definition max_int64 :: int where "max_int64 = 9223372036854775807"
definition min_int64 :: int where "min_int64 = - 9223372036854775808"
definition max_int32 :: int where "max_int32 = 2147483647"

definition time_sub :: "instant \<Rightarrow> instant \<Rightarrow> duration" where
  "time_sub t u = max min_int64 (min max_int64 (t - u))"

definition is_zero_time :: "instant \<Rightarrow> bool" where
  "is_zero_time t \<longleftrightarrow> t = 0"

text \<open>Two's complement wrap-around of 64-bit and 32-bit integers.\<close>

definition wrap64 :: "int \<Rightarrow> int" where
  "wrap64 x = (x + 9223372036854775808) mod 18446744073709551616 - 9223372036854775808"

definition wrap32 :: "int \<Rightarrow> int" where
  "wrap32 x = (x + 2147483648) mod 4294967296 - 2147483648"

definition int64_range :: "int \<Rightarrow> bool" where
  "int64_range x \<longleftrightarrow> min_int64 \<le> x \<and> x \<le> max_int64"

lemma wrap64_id [simp]: "int64_range x \<Longrightarrow> wrap64 x = x"
  by (simp add: wrap64_def int64_range_def min_int64_def max_int64_def)

lemma wrap64_range: "int64_range (wrap64 x)"
proof -
  have "0 \<le> (x + 9223372036854775808) mod 18446744073709551616"
    and "(x + 9223372036854775808) mod 18446744073709551616 < 18446744073709551616"
    by simp_all
  then show ?thesis
    by (simp add: wrap64_def int64_range_def min_int64_def max_int64_def)
qed

lemma wrap32_id [simp]: "- 2147483648 \<le> x \<Longrightarrow> x \<le> max_int32 \<Longrightarrow> wrap32 x = x"
  by (simp add: wrap32_def max_int32_def)

lemma time_sub_exact [simp]: "int64_range (t - u) \<Longrightarrow> time_sub t u = t - u"
  by (simp add: time_sub_def int64_range_def)

lemma time_sub_mono: "t \<le> t' \<Longrightarrow> time_sub t u \<le> time_sub t' u"
  by (auto simp: time_sub_def)

lemma time_sub_antimono: "u \<le> u' \<Longrightarrow> time_sub t u' \<le> time_sub t u"
  by (auto simp: time_sub_def)

section \<open>sort.Search\<close>

text \<open>
  Go's binary search over \<open>[0, n)\<close>: the loop of \<open>sort.Search\<close> (standard library).
  Callers give it a predicate that should be false, then true.
\<close>

function go_search_loop :: "(nat \<Rightarrow> bool) \<Rightarrow> nat \<Rightarrow> nat \<Rightarrow> nat" where
  "go_search_loop f i j =
     (if i < j
      then (let h = (i + j) div 2
            in if \<not> f h then go_search_loop f (h + 1) j else go_search_loop f i h)
      else i)"
  by pat_completeness auto
termination
  by (relation "measure (\<lambda>(f, i, j). j - i)") auto

declare go_search_loop.simps [simp del]

definition go_search :: "nat \<Rightarrow> (nat \<Rightarrow> bool) \<Rightarrow> nat" where
  "go_search n f = go_search_loop f 0 n"

text \<open>
  What the loop guarantees for every predicate, monotone or not: it stops at a boundary.
\<close>

lemma go_search_loop_boundary:
  assumes "i \<le> j" and "i = 0 \<or> \<not> f (i - 1)" and "j < n \<longrightarrow> f j" and "j \<le> n"
  shows "i \<le> go_search_loop f i j \<and> go_search_loop f i j \<le> j
    \<and> (go_search_loop f i j = 0 \<or> \<not> f (go_search_loop f i j - 1))
    \<and> (go_search_loop f i j < n \<longrightarrow> f (go_search_loop f i j))"
  using assms
proof (induction f i j rule: go_search_loop.induct)
  case (1 f i j)
  show ?case
  proof (cases "i < j")
    case False
    then have eq: "go_search_loop f i j = i" by (simp add: go_search_loop.simps [of f i j])
    from False 1 have "i = j" by simp
    with eq 1 show ?thesis by simp
  next
    case True
    define h where "h = (i + j) div 2"
    from True have h: "i \<le> h" "h < j" by (auto simp: h_def)
    show ?thesis
    proof (cases "f h")
      case True
      with \<open>i < j\<close> have eq: "go_search_loop f i j = go_search_loop f i h"
        by (simp add: go_search_loop.simps [of f i j] h_def Let_def)
      have "i \<le> go_search_loop f i h \<and> go_search_loop f i h \<le> h
        \<and> (go_search_loop f i h = 0 \<or> \<not> f (go_search_loop f i h - 1))
        \<and> (go_search_loop f i h < n \<longrightarrow> f (go_search_loop f i h))"
        using 1 True h \<open>i < j\<close> h_def by auto
      then show ?thesis using eq h by auto
    next
      case False
      with \<open>i < j\<close> have eq: "go_search_loop f i j = go_search_loop f (h + 1) j"
        by (simp add: go_search_loop.simps [of f i j] h_def Let_def)
      have "h + 1 \<le> go_search_loop f (h + 1) j \<and> go_search_loop f (h + 1) j \<le> j
        \<and> (go_search_loop f (h + 1) j = 0 \<or> \<not> f (go_search_loop f (h + 1) j - 1))
        \<and> (go_search_loop f (h + 1) j < n \<longrightarrow> f (go_search_loop f (h + 1) j))"
        using 1 False h \<open>i < j\<close> h_def by auto
      then show ?thesis using eq h by auto
    qed
  qed
qed

lemma go_search_boundary:
  "go_search n f \<le> n"
  "go_search n f < n \<Longrightarrow> f (go_search n f)"
  "0 < go_search n f \<Longrightarrow> \<not> f (go_search n f - 1)"
  using go_search_loop_boundary [of 0 n f n] by (auto simp: go_search_def)

text \<open>For a predicate that stays true once true, the result is the first true index.\<close>

lemma go_search_least:
  assumes mono: "\<And>i j. i \<le> j \<Longrightarrow> j < n \<Longrightarrow> f i \<Longrightarrow> f j" and "k < n"
  shows "f k \<longleftrightarrow> go_search n f \<le> k"
proof
  assume "f k"
  show "go_search n f \<le> k"
  proof (rule ccontr)
    assume "\<not> go_search n f \<le> k"
    then have gt: "k < go_search n f" by simp
    moreover have "go_search n f - 1 < n"
      using go_search_boundary(1) [of n f] gt by simp
    ultimately have "f (go_search n f - 1)" using mono [of k "go_search n f - 1"] \<open>f k\<close> by simp
    moreover have "\<not> f (go_search n f - 1)"
      using go_search_boundary(3) [of n f] gt by simp
    ultimately show False by simp
  qed
next
  assume le: "go_search n f \<le> k"
  with \<open>k < n\<close> have "f (go_search n f)" using go_search_boundary(2) [of n f] by simp
  with le \<open>k < n\<close> show "f k" using mono by blast
qed

section \<open>Keeping the best element seen so far\<close>

text \<open>
  \<open>best := none; for x in xs { if best == none || better(x, best) { best = x } }\<close>
\<close>

definition keep_best :: "('a \<Rightarrow> 'a \<Rightarrow> bool) \<Rightarrow> 'a option \<Rightarrow> 'a \<Rightarrow> 'a option" where
  "keep_best better b x =
     (case b of None \<Rightarrow> Some x | Some y \<Rightarrow> if better x y then Some x else Some y)"

primrec scan_best :: "('a \<Rightarrow> 'a \<Rightarrow> bool) \<Rightarrow> 'a option \<Rightarrow> 'a list \<Rightarrow> 'a option" where
  "scan_best better b [] = b"
| "scan_best better b (x # xs) = scan_best better (keep_best better b x) xs"

lemma keep_best_simps [simp]:
  "keep_best better None x = Some x"
  "keep_best better (Some y) x = Some (if better x y then x else y)"
  by (simp_all add: keep_best_def)

lemma scan_best_Some: "\<exists>y. scan_best better (Some x) xs = Some y"
  by (induction xs arbitrary: x) auto

lemma scan_best_None_iff [simp]: "scan_best better None xs = None \<longleftrightarrow> xs = []"
  using scan_best_Some by (cases xs) (auto, fastforce)

lemma scan_best_in: "scan_best better b xs = Some y \<Longrightarrow> b = Some y \<or> y \<in> set xs"
  by (induction xs arbitrary: b) (auto simp: keep_best_def split: option.splits if_splits)

lemma scan_best_append:
  "scan_best better b (xs @ ys) = scan_best better (scan_best better b xs) ys"
  by (induction xs arbitrary: b) auto

text \<open>
  The contract of a comparison: on the elements that satisfy \<open>D\<close> (for floats: no NaN)
  it is a strict weak order.
\<close>

locale selection =
  fixes D :: "'a \<Rightarrow> bool" and better :: "'a \<Rightarrow> 'a \<Rightarrow> bool"
  assumes asym: "D x \<Longrightarrow> D y \<Longrightarrow> better x y \<Longrightarrow> \<not> better y x"
    and neg_trans: "D x \<Longrightarrow> D y \<Longrightarrow> D z \<Longrightarrow> \<not> better x y \<Longrightarrow> \<not> better y z \<Longrightarrow> \<not> better x z"
begin

lemma irrefl: "D x \<Longrightarrow> \<not> better x x"
  using asym by blast

lemma trans: "D x \<Longrightarrow> D y \<Longrightarrow> D z \<Longrightarrow> better x y \<Longrightarrow> better y z \<Longrightarrow> better x z"
  using asym neg_trans by blast

lemma scan_start_not_better:
  assumes "D x" and "\<forall>z \<in> set xs. D z" and "scan_best better (Some x) xs = Some y"
  shows "\<not> better x y \<and> (\<forall>z \<in> set xs. \<not> better z y)"
  using assms
proof (induction xs arbitrary: x)
  case Nil
  then show ?case using irrefl by auto
next
  case (Cons a xs)
  define c where "c = (if better a x then a else x)"
  have run: "scan_best better (Some c) xs = Some y" and Dc: "D c"
    using Cons.prems by (auto simp: c_def)
  from Cons.IH [OF Dc _ run] Cons.prems
  have IH: "\<not> better c y" "\<forall>z \<in> set xs. \<not> better z y" by auto
  have Dy: "D y" using scan_best_in [OF run] Dc Cons.prems by auto
  have "\<not> better x c" and "\<not> better a c"
    using Cons.prems asym [of a x] irrefl by (auto simp: c_def)
  then have "\<not> better x y" "\<not> better a y"
    using IH(1) neg_trans [of x c y] neg_trans [of a c y] Cons.prems Dc Dy by auto
  with IH(2) show ?case by auto
qed

lemma scan_optimal:
  assumes "\<forall>z \<in> set xs. D z" and "scan_best better None xs = Some y"
  shows "y \<in> set xs" and "\<And>z. z \<in> set xs \<Longrightarrow> \<not> better z y"
proof -
  from assms(2) obtain x xs' where xs: "xs = x # xs'" by (cases xs) auto
  with assms(2) have run: "scan_best better (Some x) xs' = Some y" by simp
  from scan_start_not_better [OF _ _ run] assms(1) xs
  have best: "\<not> better x y \<and> (\<forall>z \<in> set xs'. \<not> better z y)" by simp
  show "y \<in> set xs" using scan_best_in [OF run] xs by auto
  show "\<And>z. z \<in> set xs \<Longrightarrow> \<not> better z y" using best xs by auto
qed

end

section \<open>Lists\<close>

text \<open>\<open>slices.Delete(xs, i, i+1)\<close> and \<open>slices.Insert\<close> by \<open>append\<close> and \<open>copy\<close>.\<close>

definition delete_at :: "nat \<Rightarrow> 'a list \<Rightarrow> 'a list" where
  "delete_at i xs = take i xs @ drop (Suc i) xs"

definition insert_at :: "nat \<Rightarrow> 'a \<Rightarrow> 'a list \<Rightarrow> 'a list" where
  "insert_at i x xs = take i xs @ x # drop i xs"

lemma mset_delete_at: "i < length xs \<Longrightarrow> mset (delete_at i xs) = mset xs - {#xs ! i#}"
  by (subst (2) id_take_nth_drop [of i xs]) (simp_all add: delete_at_def)

lemma mset_insert_at [simp]: "mset (insert_at i x xs) = add_mset x (mset xs)"
  by (simp add: insert_at_def) (metis append_take_drop_id mset_append)

lemma length_delete_at [simp]: "i < length xs \<Longrightarrow> length (delete_at i xs) = length xs - 1"
  by (simp add: delete_at_def)

lemma length_insert_at [simp]: "length (insert_at i x xs) = Suc (length xs)"
  by (simp add: insert_at_def)

lemma set_insert_at [simp]: "set (insert_at i x xs) = insert x (set xs)"
  by (metis mset_insert_at set_mset_add_mset_insert set_mset_mset)

lemma set_delete_at_subset: "set (delete_at i xs) \<subseteq> set xs"
  by (auto simp: delete_at_def dest: in_set_takeD in_set_dropD)

text \<open>The position of the first element that satisfies \<open>P\<close>.\<close>

primrec find_index :: "('a \<Rightarrow> bool) \<Rightarrow> 'a list \<Rightarrow> nat option" where
  "find_index P [] = None"
| "find_index P (x # xs) = (if P x then Some 0 else map_option Suc (find_index P xs))"

lemma find_index_None_iff: "find_index P xs = None \<longleftrightarrow> (\<forall>x \<in> set xs. \<not> P x)"
  by (induction xs) auto

lemma find_index_Some:
  "find_index P xs = Some i \<Longrightarrow> i < length xs \<and> P (xs ! i) \<and> (\<forall>j < i. \<not> P (xs ! j))"
proof (induction xs arbitrary: i)
  case (Cons x xs)
  then show ?case by (auto split: if_splits simp: less_Suc_eq_0_disj)
qed simp

section \<open>Sorting by a comparison\<close>

text \<open>
  \<open>sort.Slice\<close>, \<open>slices.SortFunc\<close> and \<open>sort.Strings\<close>: insertion sort by the
  given comparison. Go leaves the order of equal elements open; each use says why that
  does not matter there.
\<close>

primrec insert_by :: "('a \<Rightarrow> 'a \<Rightarrow> bool) \<Rightarrow> 'a \<Rightarrow> 'a list \<Rightarrow> 'a list" where
  "insert_by lt x [] = [x]"
| "insert_by lt x (y # ys) = (if lt y x then y # insert_by lt x ys else x # y # ys)"

primrec sort_by :: "('a \<Rightarrow> 'a \<Rightarrow> bool) \<Rightarrow> 'a list \<Rightarrow> 'a list" where
  "sort_by lt [] = []"
| "sort_by lt (x # xs) = insert_by lt x (sort_by lt xs)"

lemma mset_insert_by [simp]: "mset (insert_by lt x xs) = add_mset x (mset xs)"
  by (induction xs) auto

lemma mset_sort_by [simp]: "mset (sort_by lt xs) = mset xs"
  by (induction xs) auto

lemma set_insert_by [simp]: "set (insert_by lt x xs) = insert x (set xs)"
  by (metis mset_insert_by set_mset_add_mset_insert set_mset_mset)

lemma set_sort_by [simp]: "set (sort_by lt xs) = set xs"
  by (metis mset_sort_by set_mset_mset)

lemma length_sort_by [simp]: "length (sort_by lt xs) = length xs"
  by (metis mset_sort_by size_mset)

lemma distinct_sort_by [simp]: "distinct (sort_by lt xs) = distinct xs"
  by (metis mset_sort_by mset_eq_imp_distinct_iff)

context selection
begin

lemma sorted_insert_by:
  assumes "D x" "\<forall>y \<in> set ys. D y" "sorted_wrt (\<lambda>a b. \<not> better b a) ys"
  shows "sorted_wrt (\<lambda>a b. \<not> better b a) (insert_by better x ys)"
  using assms
proof (induction ys)
  case (Cons y ys)
  show ?case
  proof (cases "better y x")
    case True
    with Cons asym [of y x] show ?thesis by auto
  next
    case False
    then have "\<forall>z \<in> set ys. \<not> better z x"
      using Cons.prems neg_trans [of _ y x] by auto
    with False Cons.prems show ?thesis by auto
  qed
qed simp

lemma sorted_sort_by:
  "\<forall>y \<in> set ys. D y \<Longrightarrow> sorted_wrt (\<lambda>a b. \<not> better b a) (sort_by better ys)"
  by (induction ys) (auto intro!: sorted_insert_by)

end

text \<open>Go compares strings by their bytes.\<close>

fun string_lt :: "string \<Rightarrow> string \<Rightarrow> bool" where
  "string_lt [] ys = (ys \<noteq> [])"
| "string_lt (x # xs) [] = False"
| "string_lt (x # xs) (y # ys) =
     (if (of_char x :: nat) < of_char y then True
      else if (of_char y :: nat) < of_char x then False else string_lt xs ys)"

lemma string_lt_Nil [simp]: "\<not> string_lt xs []"
  by (cases xs) simp_all

lemma string_lt_irrefl [simp]: "\<not> string_lt a a"
  by (induction a) auto

lemma string_lt_asym: "string_lt a b \<Longrightarrow> \<not> string_lt b a"
  by (induction a b rule: string_lt.induct) (auto split: if_splits)

lemma string_lt_linear: "string_lt a b \<or> a = b \<or> string_lt b a"
  by (induction a b rule: string_lt.induct) auto

lemma string_lt_trans: "string_lt a b \<Longrightarrow> string_lt b c \<Longrightarrow> string_lt a c"
proof (induction a b arbitrary: c rule: string_lt.induct)
  case (1 ys)
  then show ?case by (cases c) (cases ys; auto)+
next
  case (3 x xs y ys)
  then show ?case by (cases c) (auto split: if_splits)
qed simp

interpretation string_order: selection "\<lambda>_. True" string_lt
proof unfold_locales
  fix a b c :: string
  show "string_lt a b \<Longrightarrow> \<not> string_lt b a" by (rule string_lt_asym)
  assume "\<not> string_lt a b" "\<not> string_lt b c"
  then show "\<not> string_lt a c"
    using string_lt_linear [of a b] string_lt_linear [of b c] string_lt_trans string_lt_asym by metis
qed

interpretation int_order: selection "\<lambda>_. True" "(<) :: int \<Rightarrow> int \<Rightarrow> bool"
  by unfold_locales auto

end
