(* ===== verification/Float64.thy ===== *)
theory Float64
  imports Prelude Complex_Main "HOL-Library.Log_Nat"
begin

text \<open>
  Go's \<open>float64\<close>: IEEE 754 binary64 with rounding to nearest, ties to even, executable.
  A finite value is a sign and a magnitude (so that the two zeros are distinct); the
  arithmetic computes the exact rational result and rounds it. Operations are the ones
  the repository uses: \<open>+ - * /\<close>, comparisons, \<open>math.Min\<close>, \<open>math.IsNaN\<close>,
  \<open>math.IsInf\<close>, and conversions from and to int64. Fused multiply-add, which the Go
  specification permits on some targets, is not modelled.
\<close>

section \<open>Values and rounding\<close>

datatype f64 = NaN | Inf (neg: bool) | Fin (neg: bool) (mag: rat)

definition pow2 :: "int \<Rightarrow> rat" where
  "pow2 e = (if 0 \<le> e then 2 ^ nat e else 1 / 2 ^ nat (- e))"

text \<open>The largest \<open>k\<close> with \<open>pow2 k \<le> x\<close>, from the bit lengths of numerator and denominator.\<close>

definition floor_log2 :: "rat \<Rightarrow> int" where
  "floor_log2 x =
     (let (p, q) = quotient_of x; k = bitlen p - bitlen q
      in if pow2 k \<le> x then k else k - 1)"

text \<open>Round to nearest integer, ties to even.\<close>

definition round_even :: "rat \<Rightarrow> int" where
  "round_even x =
     (let n = \<lfloor>x\<rfloor>; d = x - of_int n
      in if d < 1 / 2 then n else if 1 / 2 < d then n + 1 else if even n then n else n + 1)"

text \<open>The exponent of the last place: 53 significant bits, not below \<open>2^-1074\<close>.\<close>

definition ulp_exp :: "rat \<Rightarrow> int" where
  "ulp_exp x = max (- 1074) (floor_log2 x - 52)"

definition round_mag :: "rat \<Rightarrow> rat" where
  "round_mag x =
     (if x \<le> 0 then 0 else of_int (round_even (x / pow2 (ulp_exp x))) * pow2 (ulp_exp x))"

definition round_f64 :: "bool \<Rightarrow> rat \<Rightarrow> f64" where
  "round_f64 s x = (let r = round_mag x in if r < pow2 1024 then Fin s r else Inf s)"

section \<open>Comparison\<close>

fun is_nan :: "f64 \<Rightarrow> bool" where
  "is_nan NaN = True"
| "is_nan _ = False"

fun is_fin :: "f64 \<Rightarrow> bool" where
  "is_fin (Fin _ _) = True"
| "is_fin _ = False"

text \<open>The value of a float in the extended order: a rank (-1 for -Inf, 1 for +Inf) and a rational.\<close>

fun f_rank :: "f64 \<Rightarrow> int" where
  "f_rank (Inf s) = (if s then - 1 else 1)"
| "f_rank _ = 0"

fun f_val :: "f64 \<Rightarrow> rat" where
  "f_val (Fin s m) = (if s then - m else m)"
| "f_val _ = 0"

definition f_less :: "f64 \<Rightarrow> f64 \<Rightarrow> bool" where
  "f_less a b \<longleftrightarrow> \<not> is_nan a \<and> \<not> is_nan b \<and>
     (f_rank a < f_rank b \<or> f_rank a = f_rank b \<and> f_val a < f_val b)"

definition f_eq :: "f64 \<Rightarrow> f64 \<Rightarrow> bool" where
  "f_eq a b \<longleftrightarrow> \<not> is_nan a \<and> \<not> is_nan b \<and> f_rank a = f_rank b \<and> f_val a = f_val b"

definition f_leq :: "f64 \<Rightarrow> f64 \<Rightarrow> bool" where
  "f_leq a b \<longleftrightarrow> f_less a b \<or> f_eq a b"

lemmas f_order_defs = f_less_def f_eq_def f_leq_def

section \<open>Arithmetic\<close>

fun f_neg :: "f64 \<Rightarrow> f64" where
  "f_neg NaN = NaN"
| "f_neg (Inf s) = Inf (\<not> s)"
| "f_neg (Fin s m) = Fin (\<not> s) m"

fun f_add :: "f64 \<Rightarrow> f64 \<Rightarrow> f64" where
  "f_add (Fin s m) (Fin t n) =
     (let v = f_val (Fin s m) + f_val (Fin t n)
      in if v = 0 then Fin (s \<and> t) 0 else round_f64 (v < 0) \<bar>v\<bar>)"
| "f_add (Inf s) (Inf t) = (if s = t then Inf s else NaN)"
| "f_add (Inf s) (Fin _ _) = Inf s"
| "f_add (Fin _ _) (Inf t) = Inf t"
| "f_add _ _ = NaN"

definition f_sub :: "f64 \<Rightarrow> f64 \<Rightarrow> f64" where
  "f_sub a b = f_add a (f_neg b)"

fun f_mul :: "f64 \<Rightarrow> f64 \<Rightarrow> f64" where
  "f_mul (Fin s m) (Fin t n) = round_f64 (s \<noteq> t) (m * n)"
| "f_mul (Inf s) (Inf t) = Inf (s \<noteq> t)"
| "f_mul (Inf s) (Fin t n) = (if n = 0 then NaN else Inf (s \<noteq> t))"
| "f_mul (Fin s m) (Inf t) = (if m = 0 then NaN else Inf (s \<noteq> t))"
| "f_mul _ _ = NaN"

fun f_div :: "f64 \<Rightarrow> f64 \<Rightarrow> f64" where
  "f_div (Fin s m) (Fin t n) =
     (if n = 0 then (if m = 0 then NaN else Inf (s \<noteq> t)) else round_f64 (s \<noteq> t) (m / n))"
| "f_div (Inf s) (Inf t) = NaN"
| "f_div (Inf s) (Fin t n) = Inf (s \<noteq> t)"
| "f_div (Fin s m) (Inf t) = Fin (s \<noteq> t) 0"
| "f_div _ _ = NaN"

text \<open>\<open>math.Min\<close>: -Inf wins over NaN, and -0 is less than 0.\<close>

definition f_min :: "f64 \<Rightarrow> f64 \<Rightarrow> f64" where
  "f_min a b =
     (if a = Inf True \<or> b = Inf True then Inf True
      else if is_nan a \<or> is_nan b then NaN
      else if f_eq a (Fin False 0) \<and> f_eq a b then (if neg a then a else b)
      else if f_less a b then a else b)"

text \<open>Conversion of an integer (of any Go integer type) and of a constant.\<close>

definition f_of_int :: "int \<Rightarrow> f64" where
  "f_of_int n = round_f64 (n < 0) (of_int \<bar>n\<bar>)"

text \<open>
  \<open>int64(x)\<close> truncates towards zero. Where the result does not fit, Go leaves the value
  to the implementation: it is the parameter \<open>oor\<close> of the model.
\<close>

definition f_to_int64 :: "(f64 \<Rightarrow> int) \<Rightarrow> f64 \<Rightarrow> int" where
  "f_to_int64 oor x =
     (case x of
        Fin s m \<Rightarrow> (let n = (if s then - \<lfloor>m\<rfloor> else \<lfloor>m\<rfloor>) in if int64_range n then n else oor x)
      | _ \<Rightarrow> oor x)"

abbreviation f_zero :: f64 where "f_zero \<equiv> Fin False 0"
abbreviation f_inf :: f64 where "f_inf \<equiv> Inf False"

section \<open>The order\<close>

lemma f_less_irrefl [simp]: "\<not> f_less a a"
  by (simp add: f_less_def)

lemma f_less_trans: "f_less a b \<Longrightarrow> f_less b c \<Longrightarrow> f_less a c"
  by (auto simp: f_less_def)

lemma f_less_asym: "f_less a b \<Longrightarrow> \<not> f_less b a"
  by (auto simp: f_less_def)

lemma f_less_total: "\<not> is_nan a \<Longrightarrow> \<not> is_nan b \<Longrightarrow> f_less a b \<or> f_eq a b \<or> f_less b a"
  by (auto simp: f_order_defs)

lemma f_eq_refl: "\<not> is_nan a \<Longrightarrow> f_eq a a"
  by (simp add: f_eq_def)

lemma f_eq_sym: "f_eq a b \<Longrightarrow> f_eq b a"
  by (simp add: f_eq_def)

lemma f_eq_trans: "f_eq a b \<Longrightarrow> f_eq b c \<Longrightarrow> f_eq a c"
  by (simp add: f_eq_def)

lemma f_eq_less_trans: "f_eq a b \<Longrightarrow> f_less b c \<Longrightarrow> f_less a c"
  by (simp add: f_order_defs)

lemma f_less_eq_trans: "f_less a b \<Longrightarrow> f_eq b c \<Longrightarrow> f_less a c"
  by (auto simp: f_order_defs)

lemma f_not_less: "\<not> is_nan a \<Longrightarrow> \<not> is_nan b \<Longrightarrow> \<not> f_less a b \<longleftrightarrow> f_leq b a"
  by (auto simp: f_order_defs)

lemma f_leq_refl: "\<not> is_nan a \<Longrightarrow> f_leq a a"
  by (simp add: f_leq_def f_eq_refl)

lemma f_leq_trans: "f_leq a b \<Longrightarrow> f_leq b c \<Longrightarrow> f_leq a c"
  by (auto simp: f_order_defs)

lemma f_leq_antisym: "f_leq a b \<Longrightarrow> f_leq b a \<Longrightarrow> f_eq a b"
  by (auto simp: f_order_defs)

lemma f_eq_leq_eq: "f_eq x u \<Longrightarrow> f_leq u v \<Longrightarrow> f_eq y v \<Longrightarrow> f_leq x y"
  by (auto simp: f_order_defs)

lemma f_leq_not_nan: "f_leq a b \<Longrightarrow> \<not> is_nan a \<and> \<not> is_nan b"
  by (auto simp: f_order_defs)

lemma f_less_not_nan: "f_less a b \<Longrightarrow> \<not> is_nan a \<and> \<not> is_nan b"
  by (auto simp: f_order_defs)

lemma f_less_neg_trans:
  "\<not> is_nan b \<Longrightarrow> \<not> f_less a b \<Longrightarrow> \<not> f_less b c \<Longrightarrow> \<not> f_less a c"
  by (auto simp: f_less_def)

text \<open>Numbers other than NaN are strictly weakly ordered: least-element scans apply to them.\<close>

interpretation f64_order: selection "\<lambda>a. \<not> is_nan a" f_less
proof unfold_locales
  fix a b c :: f64
  show "f_less a b \<Longrightarrow> \<not> f_less b a" by (rule f_less_asym)
  assume "\<not> is_nan b" "\<not> f_less a b" "\<not> f_less b c"
  then show "\<not> f_less a c" by (rule f_less_neg_trans)
qed

section \<open>Rounding is exact where it can be, and monotone\<close>

lemma pow2_pos [simp]: "0 < pow2 e"
  by (simp add: pow2_def)

lemma pow2_nonzero [simp]: "pow2 e \<noteq> 0"
  using pow2_pos [of e] by linarith

lemma pow2_of_nat: "pow2 (int n) = 2 ^ n"
  by (simp add: pow2_def)

lemma pow2_neg_nat: "pow2 (- int n) = 1 / 2 ^ n"
  by (cases n) (simp_all add: pow2_def nat_add_distrib)

lemma pow2_double: "pow2 (e + 1) = 2 * pow2 e"
proof (cases "0 \<le> e")
  case True
  then show ?thesis by (simp add: pow2_def nat_add_distrib)
next
  case False
  define n where "n = nat (- e - 1)"
  from False have e: "e = - int (Suc n)" by (simp add: n_def)
  then have "pow2 (e + 1) = 1 / 2 ^ n"
    using pow2_neg_nat [of n] by simp
  moreover have "pow2 e = 1 / 2 ^ Suc n"
    unfolding e by (rule pow2_neg_nat)
  ultimately show ?thesis by simp
qed

lemma pow2_add_nat: "pow2 (e + int n) = 2 ^ n * pow2 e"
proof (induction n)
  case (Suc n)
  have "pow2 (e + int (Suc n)) = pow2 ((e + int n) + 1)" by (simp add: algebra_simps)
  also have "\<dots> = 2 * pow2 (e + int n)" by (rule pow2_double)
  finally show ?case using Suc by simp
qed simp

lemma pow2_add: "pow2 (a + b) = pow2 a * pow2 b"
proof (cases "0 \<le> b")
  case True
  then show ?thesis using pow2_add_nat [of a "nat b"] pow2_of_nat [of "nat b"] by simp
next
  case False
  then have "pow2 a = pow2 ((a + b) + int (nat (- b)))" by simp
  also have "\<dots> = 2 ^ nat (- b) * pow2 (a + b)" by (rule pow2_add_nat)
  finally show ?thesis using False by (simp add: pow2_def [of b])
qed

lemma pow2_diff: "pow2 (a - b) = pow2 a / pow2 b"
  using pow2_add [of "a - b" b] by simp

lemma pow2_strict_mono: "a < b \<Longrightarrow> pow2 a < pow2 b"
proof -
  assume "a < b"
  define n where "n = nat (b - a)"
  have b: "b = a + int n" and n: "0 < n" using \<open>a < b\<close> by (auto simp: n_def)
  have "(1::rat) < 2 ^ n" using n by (simp add: one_less_power)
  then show ?thesis using pow2_pos [of a] by (simp add: b pow2_add_nat)
qed

lemma pow2_le_iff [simp]: "pow2 a \<le> pow2 b \<longleftrightarrow> a \<le> b"
  by (metis linorder_not_less order.asym order_le_less pow2_strict_mono)

lemma pow2_less_iff [simp]: "pow2 a < pow2 b \<longleftrightarrow> a < b"
  by (metis linorder_not_less pow2_le_iff)

lemma floor_log2_bounds:
  assumes "0 < x"
  shows "pow2 (floor_log2 x) \<le> x" and "x < pow2 (floor_log2 x + 1)"
proof -
  obtain p q where pq: "quotient_of x = (p, q)" by (cases "quotient_of x")
  have q: "0 < q" using quotient_of_denom_pos [OF pq] .
  have x: "x = of_int p / of_int q" using quotient_of_div [OF pq] .
  have p: "0 < p" using assms q by (simp add: x zero_less_divide_iff)
  define k where "k = bitlen p - bitlen q"
  have bounds: "\<And>n. 0 < n \<Longrightarrow> pow2 (bitlen n - 1) \<le> of_int n \<and> of_int n < pow2 (bitlen n)"
  proof -
    fix n :: int
    assume n: "0 < n"
    have "2 ^ nat (bitlen n - 1) \<le> n" and hi: "n < 2 ^ nat (bitlen n)"
      using bitlen_bounds [OF n] by auto
    have b: "0 < bitlen n"
    proof (rule ccontr)
      assume "\<not> 0 < bitlen n"
      then show False using hi n by simp
    qed
    from \<open>2 ^ nat (bitlen n - 1) \<le> n\<close> hi
    have "(of_int (2 ^ nat (bitlen n - 1)) :: rat) \<le> of_int n"
      and "(of_int n :: rat) < of_int (2 ^ nat (bitlen n))"
      by (simp_all only: of_int_le_iff of_int_less_iff)
    with b show "pow2 (bitlen n - 1) \<le> of_int n \<and> of_int n < pow2 (bitlen n)"
      by (simp add: pow2_def)
  qed
  from bounds [OF p] bounds [OF q] have
    "pow2 (bitlen p - 1) \<le> x * of_int q" "x * of_int q < pow2 (bitlen p)"
    "pow2 (bitlen q - 1) \<le> of_int q" "of_int q < pow2 (bitlen q)"
    using q by (auto simp: x)
  then have lo: "pow2 (bitlen p - 1) \<le> x * pow2 (bitlen q)"
    and hi: "x * pow2 (bitlen q - 1) < pow2 (bitlen p)"
    using assms
     apply (meson less_imp_le mult_left_mono order_trans)
    using \<open>pow2 (bitlen q - 1) \<le> of_int q\<close> \<open>x * of_int q < pow2 (bitlen p)\<close> assms
    by (meson le_less_trans less_imp_le mult_left_mono)
  have "pow2 (k - 1) = pow2 (bitlen p - 1) / pow2 (bitlen q)"
    unfolding k_def by (subst pow2_diff [symmetric]) (simp add: algebra_simps)
  with lo have 1: "pow2 (k - 1) \<le> x" by (simp add: divide_le_eq)
  have "pow2 (k + 1) = pow2 (bitlen p) / pow2 (bitlen q - 1)"
    unfolding k_def by (subst pow2_diff [symmetric]) (simp add: algebra_simps)
  with hi have 2: "x < pow2 (k + 1)" by (simp add: less_divide_eq)
  have fl: "floor_log2 x = (if pow2 k \<le> x then k else k - 1)"
    by (simp add: floor_log2_def pq k_def)
  show "pow2 (floor_log2 x) \<le> x" "x < pow2 (floor_log2 x + 1)"
    using 1 2 by (auto simp: fl not_le)
qed

lemma floor_log2_unique:
  assumes "pow2 k \<le> x" "x < pow2 (k + 1)"
  shows "floor_log2 x = k"
proof -
  have "0 < x" using assms(1) pow2_pos less_le_trans by blast
  from floor_log2_bounds [OF this] assms
  have "pow2 k < pow2 (floor_log2 x + 1)" "pow2 (floor_log2 x) < pow2 (k + 1)"
    using le_less_trans by blast+
  then show ?thesis by simp
qed

lemma floor_log2_mono: "0 < x \<Longrightarrow> x \<le> y \<Longrightarrow> floor_log2 x \<le> floor_log2 y"
proof -
  assume "0 < x" "x \<le> y"
  then have "pow2 (floor_log2 x) < pow2 (floor_log2 y + 1)"
    using floor_log2_bounds(1) [of x] floor_log2_bounds(2) [of y] by linarith
  then show ?thesis by simp
qed

lemma floor_log2_less:
  assumes "0 < x"
  shows "x < pow2 k \<longleftrightarrow> floor_log2 x < k"
proof
  assume "x < pow2 k"
  then have "pow2 (floor_log2 x) < pow2 k" using floor_log2_bounds(1) [OF assms] by linarith
  then show "floor_log2 x < k" by simp
next
  assume "floor_log2 x < k"
  then have "pow2 (floor_log2 x + 1) \<le> pow2 k" by simp
  then show "x < pow2 k" using floor_log2_bounds(2) [OF assms] by linarith
qed

lemma round_even_of_int [simp]: "round_even (of_int n) = n"
  by (simp add: round_even_def)

lemma round_even_near: "\<bar>of_int (round_even x) - x\<bar> \<le> 1 / 2"
proof -
  have "of_int \<lfloor>x\<rfloor> \<le> x" "x < of_int \<lfloor>x\<rfloor> + 1" by linarith+
  then show ?thesis by (auto simp: round_even_def Let_def)
qed

lemma round_even_mono: "x \<le> y \<Longrightarrow> round_even x \<le> round_even y"
proof -
  assume le: "x \<le> y"
  then have f: "\<lfloor>x\<rfloor> \<le> \<lfloor>y\<rfloor>" by (rule floor_mono)
  show ?thesis
  proof (cases "\<lfloor>x\<rfloor> = \<lfloor>y\<rfloor>")
    case True
    with le show ?thesis by (auto simp: round_even_def Let_def)
  next
    case False
    with f have "\<lfloor>x\<rfloor> + 1 \<le> \<lfloor>y\<rfloor>" by simp
    moreover have "round_even x \<le> \<lfloor>x\<rfloor> + 1" "\<lfloor>y\<rfloor> \<le> round_even y"
      by (auto simp: round_even_def Let_def)
    ultimately show ?thesis by linarith
  qed
qed

lemma ulp_exp_bound: "0 < x \<Longrightarrow> x < pow2 (ulp_exp x + 53)"
proof -
  assume "0 < x"
  then have "x < pow2 (floor_log2 x + 1)" by (rule floor_log2_bounds)
  also have "\<dots> \<le> pow2 (ulp_exp x + 53)" by (simp add: ulp_exp_def)
  finally show ?thesis .
qed

lemma round_mag_le:
  assumes "0 < x"
  shows "round_mag x \<le> pow2 (ulp_exp x + 53)"
proof -
  have "x / pow2 (ulp_exp x) \<le> of_int (2 ^ 53)"
    using ulp_exp_bound [OF assms] pow2_add [of "ulp_exp x" 53]
    by (simp add: divide_le_eq pow2_def [of 53] mult.commute)
  then have "round_even (x / pow2 (ulp_exp x)) \<le> round_even (of_int (2 ^ 53))"
    by (rule round_even_mono)
  then have "round_even (x / pow2 (ulp_exp x)) \<le> 2 ^ 53"
    by (simp only: round_even_of_int)
  then have "(of_int (round_even (x / pow2 (ulp_exp x))) :: rat) \<le> of_int (2 ^ 53)"
    by (simp only: of_int_le_iff)
  then have "of_int (round_even (x / pow2 (ulp_exp x))) * pow2 (ulp_exp x) \<le> of_int (2 ^ 53) * pow2 (ulp_exp x)"
    by (rule mult_right_mono) (simp add: less_imp_le)
  then show ?thesis using assms
    by (simp add: round_mag_def pow2_add pow2_def [of 53] mult.commute)
qed

lemma round_mag_ge:
  assumes "0 < x" and normal: "- 1074 < ulp_exp x"
  shows "pow2 (ulp_exp x + 52) \<le> round_mag x"
proof -
  have e: "ulp_exp x + 52 = floor_log2 x" using normal by (simp add: ulp_exp_def)
  have "pow2 (ulp_exp x + 52) \<le> x" unfolding e using assms(1) by (rule floor_log2_bounds)
  then have "of_int (2 ^ 52) \<le> x / pow2 (ulp_exp x)"
    using pow2_add [of "ulp_exp x" 52] by (simp add: le_divide_eq pow2_def [of 52] mult.commute)
  then have "round_even (of_int (2 ^ 52)) \<le> round_even (x / pow2 (ulp_exp x))"
    by (rule round_even_mono)
  then have "2 ^ 52 \<le> round_even (x / pow2 (ulp_exp x))"
    by (simp only: round_even_of_int)
  then have "(of_int (2 ^ 52) :: rat) \<le> of_int (round_even (x / pow2 (ulp_exp x)))"
    by (simp only: of_int_le_iff)
  then have "of_int (2 ^ 52) * pow2 (ulp_exp x) \<le> of_int (round_even (x / pow2 (ulp_exp x))) * pow2 (ulp_exp x)"
    by (rule mult_right_mono) (simp add: less_imp_le)
  then show ?thesis using assms
    by (simp add: round_mag_def pow2_add pow2_def [of 52] mult.commute)
qed

lemma round_mag_nonneg [simp]: "0 \<le> round_mag x"
proof (cases "0 < x")
  case True
  then have "round_even 0 \<le> round_even (x / pow2 (ulp_exp x))"
    by (intro round_even_mono) (simp add: less_imp_le)
  moreover have "round_even 0 = 0" using round_even_of_int [of 0] by simp
  ultimately show ?thesis using True by (simp add: round_mag_def less_imp_le)
qed (simp add: round_mag_def)

lemma round_mag_mono:
  assumes "x \<le> y"
  shows "round_mag x \<le> round_mag y"
proof (cases "0 < x")
  case False
  then have "round_mag x = 0" by (simp add: round_mag_def)
  then show ?thesis by simp
next
  case True
  with assms have y: "0 < y" by simp
  have ulp: "ulp_exp x \<le> ulp_exp y"
    using floor_log2_mono [OF True assms] by (simp add: ulp_exp_def)
  show ?thesis
  proof (cases "ulp_exp x = ulp_exp y")
    case same: True
    have "round_even (x / pow2 (ulp_exp y)) \<le> round_even (y / pow2 (ulp_exp y))"
      using assms by (intro round_even_mono divide_right_mono) (auto simp: less_imp_le)
    then show ?thesis using True y same
      by (simp add: round_mag_def less_imp_le mult_right_mono)
  next
    case False
    with ulp have less: "ulp_exp x < ulp_exp y" by simp
    then have "- 1074 < ulp_exp y" by (simp add: ulp_exp_def)
    then have "pow2 (ulp_exp y + 52) \<le> round_mag y" by (rule round_mag_ge [OF y])
    moreover have "pow2 (ulp_exp x + 53) \<le> pow2 (ulp_exp y + 52)" using less by simp
    ultimately show ?thesis using round_mag_le [OF True] by linarith
  qed
qed

text \<open>A multiple of the last place is its own rounding; integers up to \<open>2^53\<close> are.\<close>

lemma round_mag_exact:
  assumes "0 < x" and x: "x = of_int k * pow2 e" and ulp: "ulp_exp x \<le> e"
  shows "round_mag x = x"
proof -
  define n where "n = nat (e - ulp_exp x)"
  have "e = ulp_exp x + int n" using ulp by (simp add: n_def)
  then have "pow2 e = 2 ^ n * pow2 (ulp_exp x)" by (metis pow2_add_nat)
  then have "x / pow2 (ulp_exp x) = of_int k * (2 ^ n * pow2 (ulp_exp x)) / pow2 (ulp_exp x)"
    using x by simp
  also have "\<dots> = of_int (k * 2 ^ n)" by simp
  finally have q: "x / pow2 (ulp_exp x) = of_int (k * 2 ^ n)" .
  have "round_mag x = of_int (round_even (of_int (k * 2 ^ n))) * pow2 (ulp_exp x)"
    unfolding round_mag_def q [symmetric] using assms(1) by simp
  also have "\<dots> = (x / pow2 (ulp_exp x)) * pow2 (ulp_exp x)"
    unfolding round_even_of_int q ..
  finally show ?thesis by simp
qed

lemma round_mag_of_int:
  assumes "0 \<le> n" "n \<le> 9007199254740992"
  shows "round_mag (of_int n) = of_int n"
proof -
  consider "n = 0" | "n = 2 ^ 53" | "0 < n" "n < 2 ^ 53" using assms by fastforce
  then show ?thesis
  proof cases
    case 1
    then show ?thesis by (simp add: round_mag_def)
  next
    case 2
    have x: "(of_int n :: rat) = of_int 1 * pow2 53" using 2 by (simp add: pow2_def)
    have "floor_log2 (of_int n) = 53"
      by (rule floor_log2_unique) (simp_all add: 2 pow2_def)
    then have "ulp_exp (of_int n) \<le> 53" by (simp add: ulp_exp_def)
    with x 2 show ?thesis by (intro round_mag_exact [of _ 1 53]) simp_all
  next
    case 3
    have "(of_int n :: rat) < of_int (2 ^ 53)" using 3(2) by (simp only: of_int_less_iff)
    then have "(of_int n :: rat) < pow2 53" by (simp add: pow2_def)
    moreover have "pow2 (floor_log2 (of_int n)) \<le> of_int n" using 3 by (intro floor_log2_bounds) simp
    ultimately have "pow2 (floor_log2 (of_int n)) < pow2 53" by linarith
    then have "ulp_exp (of_int n) \<le> 0" by (simp add: ulp_exp_def)
    with 3 show ?thesis by (intro round_mag_exact [of _ n 0]) (simp_all add: pow2_def)
  qed
qed

lemma small_lt_pow2_1024: "n \<le> 9007199254740992 \<Longrightarrow> (of_int n :: rat) < pow2 1024"
proof -
  assume "n \<le> 9007199254740992"
  then have "(of_int n :: rat) \<le> of_int (2 ^ 53)" by (simp only: of_int_le_iff) simp
  also have "\<dots> = pow2 53" by (simp add: pow2_def)
  also have "\<dots> < pow2 1024" by simp
  finally show ?thesis .
qed

lemma f_of_int_small:
  "\<bar>n\<bar> \<le> 9007199254740992 \<Longrightarrow> f_of_int n = Fin (n < 0) (of_int \<bar>n\<bar>)"
  unfolding f_of_int_def round_f64_def
  by (simp only: round_mag_of_int small_lt_pow2_1024 Let_def abs_ge_zero if_True)

lemma f_of_int_0 [simp]: "f_of_int 0 = Fin False 0"
  by (simp add: f_of_int_small)

lemma f_add_of_int:
  assumes "\<bar>a\<bar> \<le> 9007199254740992" "\<bar>b\<bar> \<le> 9007199254740992" "\<bar>a + b\<bar> \<le> 9007199254740992"
  shows "f_add (f_of_int a) (f_of_int b) = f_of_int (a + b)"
proof -
  have val: "\<And>n. f_val (Fin (n < 0) (of_int \<bar>n\<bar>)) = of_int n" by auto
  have "f_add (f_of_int a) (f_of_int b) =
    (if of_int a + of_int b = (0::rat) then Fin (a < 0 \<and> b < 0) 0
     else round_f64 (of_int a + of_int b < (0::rat)) \<bar>of_int a + of_int b\<bar>)"
    unfolding f_of_int_small [OF assms(1)] f_of_int_small [OF assms(2)] f_add.simps val Let_def ..
  also have "of_int a + of_int b = (of_int (a + b) :: rat)" by simp
  finally have eq: "f_add (f_of_int a) (f_of_int b) =
    (if (of_int (a + b) :: rat) = 0 then Fin (a < 0 \<and> b < 0) 0
     else round_f64 ((of_int (a + b) :: rat) < 0) \<bar>of_int (a + b)\<bar>)" .
  show ?thesis
  proof (cases "a + b = 0")
    case True
    then have "\<not> (a < 0 \<and> b < 0)" by linarith
    with True show ?thesis unfolding eq by (simp del: of_int_add)
  next
    case False
    then have "(of_int (a + b) :: rat) \<noteq> 0" by (simp only: of_int_eq_0_iff not_False_eq_True)
    moreover have "((of_int (a + b) :: rat) < 0) = (a + b < 0)" by (rule of_int_less_0_iff)
    moreover have "\<bar>of_int (a + b)\<bar> = (of_int \<bar>a + b\<bar> :: rat)" by (rule of_int_abs [symmetric])
    ultimately show ?thesis unfolding eq by (simp only: if_False f_of_int_def)
  qed
qed

lemma f_neg_of_int: "n \<noteq> 0 \<Longrightarrow> \<bar>n\<bar> \<le> 9007199254740992 \<Longrightarrow> f_neg (f_of_int n) = f_of_int (- n)"
  by (simp add: f_of_int_small) linarith

lemma f_add_neg_zero: "f_add (Fin s m) (Fin True 0) = f_add (Fin s m) (Fin False 0)" if "m \<noteq> 0"
  using that by simp

lemma f_sub_of_int:
  assumes "\<bar>a\<bar> \<le> 9007199254740992" "\<bar>b\<bar> \<le> 9007199254740992" "\<bar>a - b\<bar> \<le> 9007199254740992"
  shows "f_sub (f_of_int a) (f_of_int b) = f_of_int (a - b)"
proof (cases "b = 0")
  case False
  then show ?thesis
    using assms f_add_of_int [of a "- b"] by (simp add: f_sub_def f_neg_of_int)
next
  case True
  have "f_sub (f_of_int a) (f_of_int 0) = f_add (f_of_int a) (f_of_int 0)"
  proof (cases "a = 0")
    case True
    then show ?thesis by (simp add: f_sub_def)
  next
    case False
    then show ?thesis using assms(1) by (simp add: f_sub_def f_of_int_small)
  qed
  also have "\<dots> = f_of_int (a + 0)" using assms by (intro f_add_of_int) simp_all
  finally show ?thesis using True by simp
qed

lemma f_less_of_int:
  "\<bar>a\<bar> \<le> 9007199254740992 \<Longrightarrow> \<bar>b\<bar> \<le> 9007199254740992 \<Longrightarrow>
    f_less (f_of_int a) (f_of_int b) \<longleftrightarrow> a < b"
  by (auto simp: f_of_int_small f_less_def)

lemma f_eq_of_int:
  "\<bar>a\<bar> \<le> 9007199254740992 \<Longrightarrow> \<bar>b\<bar> \<le> 9007199254740992 \<Longrightarrow>
    f_eq (f_of_int a) (f_of_int b) \<longleftrightarrow> a = b"
  by (auto simp: f_of_int_small f_eq_def)

lemma f_leq_of_int:
  "\<bar>a\<bar> \<le> 9007199254740992 \<Longrightarrow> \<bar>b\<bar> \<le> 9007199254740992 \<Longrightarrow>
    f_leq (f_of_int a) (f_of_int b) \<longleftrightarrow> a \<le> b"
  by (auto simp: f_leq_def f_less_of_int f_eq_of_int)

lemma f_div_of_int:
  assumes "\<bar>a\<bar> \<le> 9007199254740992" "0 < b" "\<bar>a * b\<bar> \<le> 9007199254740992" "b \<le> 9007199254740992"
  shows "f_div (f_of_int (a * b)) (f_of_int b) = f_of_int a"
proof -
  have s: "(a * b < 0) = (a < 0)" using assms(2) by (simp add: mult_less_0_iff)
  have "(of_int \<bar>a * b\<bar> :: rat) / of_int \<bar>b\<bar> = of_int \<bar>a\<bar>"
    using assms(2) by (simp add: abs_mult)
  with assms show ?thesis
    by (simp add: f_of_int_small [of "a * b"] f_of_int_small [of b] s) (simp add: f_of_int_def s)
qed

lemma f_not_nan_of_int [simp]: "\<not> is_nan (f_of_int n)"
  by (simp add: f_of_int_def round_f64_def Let_def)

lemma round_f64_not_nan [simp]: "\<not> is_nan (round_f64 s x)"
  by (simp add: round_f64_def Let_def)

text \<open>
  Fast paths for evaluation: a whole number up to \<open>2^53\<close> needs no rounding, and nothing up
  to there overflows.
\<close>

lemma round_f64_small:
  assumes "x \<le> 9007199254740992"
  shows "round_f64 s x = Fin s (round_mag x)"
proof -
  have "round_mag x \<le> round_mag (of_int 9007199254740992)" using assms by (intro round_mag_mono) simp
  also have "\<dots> = of_int 9007199254740992" by (rule round_mag_of_int) simp_all
  also have "\<dots> < pow2 1024" by (rule small_lt_pow2_1024) simp
  finally show ?thesis by (simp add: round_f64_def)
qed

text \<open>A rational in lowest terms: evaluation keeps the two integers, not the expression they come from.\<close>

definition lowest_terms :: "rat \<Rightarrow> rat" where
  "lowest_terms x = (case quotient_of x of (p, q) \<Rightarrow> if q = 1 then of_int p else of_int p / of_int q)"

lemma lowest_terms_id: "lowest_terms x = x"
  using quotient_of_div [of x] by (cases "quotient_of x") (auto simp: lowest_terms_def)

lemma round_mag_code [code]:
  "round_mag x =
     (if x \<le> 0 then 0
      else let u = lowest_terms (pow2 (ulp_exp x)); y = lowest_terms (x / u) in of_int (round_even y) * u)"
  by (simp add: round_mag_def lowest_terms_id Let_def)

lemma round_f64_code [code]:
  "round_f64 s x =
     (case quotient_of x of (p, q) \<Rightarrow>
        if q = 1 \<and> 0 \<le> p \<and> p \<le> 9007199254740992 then Fin s (of_int p)
        else
          (let r = lowest_terms (round_mag x) in
           if p \<le> 9007199254740992 * q then Fin s r
           else if r \<le> 0 \<or> floor_log2 r < 1024 then Fin s r
           else Inf s))"
proof -
  obtain p q where pq: "quotient_of x = (p, q)" by (cases "quotient_of x")
  have big: "round_mag x < pow2 1024 \<longleftrightarrow> round_mag x \<le> 0 \<or> floor_log2 (round_mag x) < 1024"
    using floor_log2_less [of "round_mag x" 1024] less_trans [of "round_mag x" 0 "pow2 1024"]
    by (cases "round_mag x \<le> 0") (auto simp: le_less)
  from pq have x: "x = of_int p / of_int q" "0 < q"
    using quotient_of_div quotient_of_denom_pos by auto
  show ?thesis
  proof (cases "q = 1 \<and> 0 \<le> p \<and> p \<le> 9007199254740992")
    case True
    then have "x = of_int p" using x by simp
    with True pq show ?thesis
      by (simp add: round_f64_def round_mag_of_int small_lt_pow2_1024)
  next
    case False
    have "x \<le> 9007199254740992" if "p \<le> 9007199254740992 * q"
    proof -
      from that have "of_int p \<le> (9007199254740992 * of_int q :: rat)"
        by (metis of_int_le_iff of_int_mult of_int_numeral)
      with x show ?thesis by (simp add: divide_le_eq)
    qed
    then have "p \<le> 9007199254740992 * q \<Longrightarrow> round_f64 s x = Fin s (round_mag x)"
      by (simp add: round_f64_small)
    with False pq show ?thesis by (auto simp: round_f64_def Let_def big lowest_terms_id)
  qed
qed

text \<open>Signed rounding is monotone, hence so are subtraction and division by a positive number.\<close>

definition round_signed :: "rat \<Rightarrow> f64" where
  "round_signed v = round_f64 (v < 0) \<bar>v\<bar>"

lemma round_signed_mono:
  assumes "v \<le> w"
  shows "f_leq (round_signed v) (round_signed w)"
proof -
  consider "0 \<le> v" | "v < 0" "0 \<le> w" | "w < 0" by linarith
  then show ?thesis
  proof cases
    case 1
    with assms have "round_mag \<bar>v\<bar> \<le> round_mag \<bar>w\<bar>" by (intro round_mag_mono) simp
    with 1 assms show ?thesis
      by (auto simp: round_signed_def round_f64_def Let_def f_order_defs)
  next
    case 2
    have "- round_mag (- v) \<le> 0" "0 \<le> round_mag w" by simp_all
    then have "- round_mag (- v) \<le> round_mag w" by linarith
    with 2 show ?thesis
      by (auto simp: round_signed_def round_f64_def Let_def f_order_defs)
  next
    case 3
    with assms have "round_mag \<bar>w\<bar> \<le> round_mag \<bar>v\<bar>" by (intro round_mag_mono) simp
    with 3 assms show ?thesis
      by (auto simp: round_signed_def round_f64_def Let_def f_order_defs)
  qed
qed

lemma f_add_fin:
  "f_eq (f_add (Fin s m) (Fin t n)) (round_signed (f_val (Fin s m) + f_val (Fin t n)))"
proof (cases "f_val (Fin s m) + f_val (Fin t n) = 0")
  case True
  then have "f_add (Fin s m) (Fin t n) = Fin (s \<and> t) 0" by simp
  moreover have "round_signed 0 = Fin False 0"
    by (simp add: round_signed_def round_f64_def round_mag_def)
  ultimately show ?thesis unfolding True by (simp add: f_eq_def)
next
  case False
  then have "f_add (Fin s m) (Fin t n) = round_signed (f_val (Fin s m) + f_val (Fin t n))"
    by (simp add: round_signed_def Let_def)
  then show ?thesis by (metis f_eq_refl round_f64_not_nan round_signed_def)
qed

lemma f_add_mono_fin:
  assumes "f_leq (Fin s m) (Fin t n)"
  shows "f_leq (f_add (Fin s m) (Fin u k)) (f_add (Fin t n) (Fin u k))"
proof -
  have "f_val (Fin s m) \<le> f_val (Fin t n)" using assms by (auto simp: f_order_defs)
  then have "f_leq (round_signed (f_val (Fin s m) + f_val (Fin u k)))
      (round_signed (f_val (Fin t n) + f_val (Fin u k)))"
    by (intro round_signed_mono) simp
  with f_add_fin [of s m u k] show ?thesis
    using f_add_fin [of t n u k] by (rule f_eq_leq_eq)
qed

lemma f_leq_pos_inf: "f_leq a (Inf False) \<longleftrightarrow> \<not> is_nan a"
  by (cases a) (auto simp: f_order_defs)

lemma f_leq_neg_inf: "f_leq (Inf True) a \<longleftrightarrow> \<not> is_nan a"
  by (cases a) (auto simp: f_order_defs)

lemma f_leq_inf_cases:
  "f_leq a b \<Longrightarrow> a = Inf True \<or> b = Inf False \<or> (\<exists>s m t n. a = Fin s m \<and> b = Fin t n)
    \<or> a = Inf False \<and> b = Inf False \<or> a = Inf True \<and> b = Inf True"
  by (cases a; cases b) (auto simp: f_order_defs split: if_splits)

lemma f_add_neg_inf: "\<not> is_nan (f_add (Inf True) c) \<Longrightarrow> f_add (Inf True) c = Inf True"
  by (cases c) (auto split: if_splits)

lemma f_add_pos_inf: "\<not> is_nan (f_add (Inf False) c) \<Longrightarrow> f_add (Inf False) c = Inf False"
  by (cases c) (auto split: if_splits)

lemma f_add_mono_left:
  assumes "f_leq a b" "\<not> is_nan (f_add a c)" "\<not> is_nan (f_add b c)"
  shows "f_leq (f_add a c) (f_add b c)"
proof -
  consider "a = Inf True" | "b = Inf False" | s m t n where "a = Fin s m" "b = Fin t n"
    using f_leq_inf_cases [OF assms(1)] by blast
  then show ?thesis
  proof cases
    case 1
    then show ?thesis using assms f_add_neg_inf [of c] by (simp add: f_leq_neg_inf)
  next
    case 2
    then show ?thesis using assms f_add_pos_inf [of c] by (simp add: f_leq_pos_inf)
  next
    case 3
    show ?thesis
    proof (cases c)
      case (Fin u k)
      then show ?thesis using 3 assms(1) f_add_mono_fin by simp
    next
      case (Inf u)
      then show ?thesis using 3 by (simp add: f_leq_refl)
    next
      case NaN
      then show ?thesis using 3 assms(2) by simp
    qed
  qed
qed

lemma f_sub_mono_left:
  assumes "f_leq a b" "\<not> is_nan (f_sub a c)" "\<not> is_nan (f_sub b c)"
  shows "f_leq (f_sub a c) (f_sub b c)"
  using assms unfolding f_sub_def by (rule f_add_mono_left)

section \<open>Monotone sums and quotients\<close>

lemma f_add_comm: "f_add a b = f_add b a"
  by (cases a; cases b) (auto simp: add.commute Let_def conj_commute)

lemma f_add_mono:
  assumes "f_leq a b" "f_leq c d" "\<not> is_nan (f_add a c)" "\<not> is_nan (f_add b c)" "\<not> is_nan (f_add b d)"
  shows "f_leq (f_add a c) (f_add b d)"
proof -
  have "f_leq (f_add a c) (f_add b c)" using assms by (intro f_add_mono_left)
  moreover have "f_leq (f_add b c) (f_add b d)"
    using assms f_add_mono_left [of c d b] by (simp add: f_add_comm)
  ultimately show ?thesis by (rule f_leq_trans)
qed

text \<open>Sums of nonnegative numbers are nonnegative; they never become NaN.\<close>

lemma f_add_nonneg: "f_leq f_zero a \<Longrightarrow> f_leq f_zero b \<Longrightarrow> f_leq f_zero (f_add a b)"
proof (cases a; cases b)
  fix s m t n assume ab: "a = Fin s m" "b = Fin t n" "f_leq f_zero a" "f_leq f_zero b"
  then have v: "0 \<le> f_val (Fin s m) + f_val (Fin t n)" by (auto simp: f_order_defs split: if_splits)
  then have "f_leq (round_signed 0) (round_signed (f_val (Fin s m) + f_val (Fin t n)))"
    by (rule round_signed_mono)
  moreover have "f_eq f_zero (round_signed 0)"
    by (simp add: round_signed_def round_f64_def round_mag_def f_eq_def)
  ultimately show ?thesis using ab f_add_fin [of s m t n] f_eq_leq_eq by blast
qed (auto simp: f_order_defs split: if_splits)

text \<open>A well-formed value has a nonnegative magnitude; every operation returns one.\<close>

fun wf_f64 :: "f64 \<Rightarrow> bool" where
  "wf_f64 (Fin s m) = (0 \<le> m)"
| "wf_f64 _ = True"

lemma f_div_pos:
  assumes "0 \<le> m" "0 < n"
  shows "f_eq (f_div (Fin s m) (Fin False n)) (round_signed (f_val (Fin s m) / n))"
proof (cases "m = 0")
  case True
  then show ?thesis using assms by (auto simp: round_signed_def round_f64_def round_mag_def f_eq_def)
next
  case False
  then have "f_div (Fin s m) (Fin False n) = round_signed (f_val (Fin s m) / n)"
    using assms by (auto simp: round_signed_def divide_less_0_iff abs_divide)
  then show ?thesis by (metis f_eq_refl round_f64_not_nan round_signed_def)
qed

lemma f_div_mono:
  assumes "f_leq (Fin s m) (Fin t k)" "0 \<le> m" "0 \<le> k" "0 < n"
  shows "f_leq (f_div (Fin s m) (Fin False n)) (f_div (Fin t k) (Fin False n))"
proof -
  have "f_val (Fin s m) \<le> f_val (Fin t k)" using assms(1) by (auto simp: f_order_defs)
  then have "f_val (Fin s m) / n \<le> f_val (Fin t k) / n" using assms(4) by (intro divide_right_mono) simp_all
  then have "f_leq (round_signed (f_val (Fin s m) / n)) (round_signed (f_val (Fin t k) / n))"
    by (rule round_signed_mono)
  with f_div_pos [OF assms(2,4)] show ?thesis using f_div_pos [OF assms(3,4)] by (rule f_eq_leq_eq)
qed

lemma f_div_mono_wf:
  assumes "f_leq a b" "wf_f64 a" "wf_f64 b" "0 < n"
  shows "f_leq (f_div a (Fin False n)) (f_div b (Fin False n))"
proof (cases a; cases b)
  fix s m t k assume "a = Fin s m" "b = Fin t k"
  with assms f_div_mono [of s m t k n] show ?thesis by simp
qed (use assms in \<open>auto simp: f_order_defs round_f64_def Let_def split: if_splits\<close>)

lemma wf_round [simp]: "wf_f64 (round_f64 s x)"
  by (simp add: round_f64_def Let_def)

lemma wf_of_int [simp]: "wf_f64 (f_of_int n)"
  by (simp add: f_of_int_def)

end
