(* ===== verification/FFDistribution.thy ===== *)
theory FFDistribution
  imports Float64 "HOL-Library.Word"
begin

text \<open>
  \<open>internal/firstfloor/service_samples.go\<close> and \<open>service_distribution.go\<close>: measured
  native executions ("paired samples" of a service duration and the idle gap before it),
  hydrated into an immutable distribution per physical trial, and its queries. Sampling
  takes the random draws of \<open>math/rand\<close> as arguments. The pointers \<open>*int64\<close> are
  options; \<open>Clone\<close> copies a pointer's target and is the identity on values.
\<close>

section \<open>Samples\<close>

record ServiceSample =
  ss_serviceDurationNanos :: int
  ss_precedingIdleNanos :: "int option"
  ss_trialID :: string

definition Clone :: "ServiceSample \<Rightarrow> ServiceSample" where
  "Clone s = \<lparr>ss_serviceDurationNanos = ss_serviceDurationNanos s,
     ss_precedingIdleNanos = (case ss_precedingIdleNanos s of None \<Rightarrow> None | Some v \<Rightarrow> Some v),
     ss_trialID = ss_trialID s\<rparr>"

definition CloneServiceSamples :: "ServiceSample list option \<Rightarrow> ServiceSample list option" where
  "CloneServiceSamples samples =
     (case samples of None \<Rightarrow> None | Some ss \<Rightarrow> Some (map Clone ss))"

lemma Clone_id [simp]: "Clone s = s"
  by (simp add: Clone_def split: option.splits)

section \<open>The hydrated distribution\<close>

record ConditionalSupport =
  cs_distanceNanos :: int
  cs_trialCount :: nat
  cs_outsideSupport :: bool

record serviceGroup =
  sg_gap :: int
  sg_samples :: "ServiceSample list"

record serviceTrial =
  st_startup :: "ServiceSample list"
  st_groups :: "serviceGroup list"

record ServiceDistribution =
  sd_trials :: "serviceTrial list"
  sd_services :: "int list"

text \<open>
  \<open>identity\<close> (server.go) is a check on the trial ID's text; the distribution is
  generic in it, and the theory of the server supplies it.
\<close>

definition sample_ok :: "(string \<Rightarrow> bool) \<Rightarrow> ServiceSample \<Rightarrow> bool" where
  "sample_ok identity s \<longleftrightarrow> \<not> (ss_serviceDurationNanos s \<le> 0 \<or> \<not> identity (ss_trialID s)
     \<or> (case ss_precedingIdleNanos s of None \<Rightarrow> False | Some i \<Rightarrow> i < 0))"

text \<open>
  The comparison of \<open>sort.Slice\<close>: startup rows (nil idle) first, then idle, then service.
  \<open>sort.Slice\<close> is not stable; rows that compare equal have the same idle and service and
  belong to the same trial, so they are equal and every sort gives the same list.
\<close>

definition row_key :: "ServiceSample \<Rightarrow> int \<times> int \<times> int" where
  "row_key s = (case ss_precedingIdleNanos s of
      None \<Rightarrow> (0, 0, ss_serviceDurationNanos s)
    | Some i \<Rightarrow> (1, i, ss_serviceDurationNanos s))"

definition row_less :: "ServiceSample \<Rightarrow> ServiceSample \<Rightarrow> bool" where
  "row_less a b =
     (case (ss_precedingIdleNanos a, ss_precedingIdleNanos b) of
        (Some i, Some j) \<Rightarrow>
          (if i \<noteq> j then i < j else ss_serviceDurationNanos a < ss_serviceDurationNanos b)
      | (None, Some _) \<Rightarrow> True
      | (_, None) \<Rightarrow> False)"

definition service_less :: "ServiceSample \<Rightarrow> ServiceSample \<Rightarrow> bool" where
  "service_less a b \<longleftrightarrow> ss_serviceDurationNanos a < ss_serviceDurationNanos b"

text \<open>One run of equal gaps of the sorted rows: the inner loop of the hydration.\<close>

function group_rows :: "ServiceSample list \<Rightarrow> serviceTrial \<Rightarrow> serviceTrial" where
  "group_rows [] t = t"
| "group_rows (r # rows) t =
     (let same = (\<lambda>s. ss_precedingIdleNanos s = ss_precedingIdleNanos r);
          run = r # takeWhile same rows; rest = dropWhile same rows
      in group_rows rest
           (case ss_precedingIdleNanos r of
              None \<Rightarrow> t\<lparr>st_startup := sort_by service_less run\<rparr>
            | Some gap \<Rightarrow> t\<lparr>st_groups := st_groups t @ [\<lparr>sg_gap = gap, sg_samples = run\<rparr>]\<rparr>))"
  by pat_completeness auto
termination
  by (relation "measure (\<lambda>(rows, t). length rows)") (auto simp: le_imp_less_Suc length_dropWhile_le)

declare group_rows.simps [simp del]

definition hydrate_trial :: "ServiceSample list \<Rightarrow> string \<Rightarrow> serviceTrial" where
  "hydrate_trial samples tid =
     group_rows (sort_by row_less (filter (\<lambda>s. ss_trialID s = tid) samples))
       \<lparr>st_startup = [], st_groups = []\<rparr>"

definition NewServiceDistribution ::
  "(string \<Rightarrow> bool) \<Rightarrow> ServiceSample list \<Rightarrow> string + ServiceDistribution" where
  "NewServiceDistribution identity samples =
     (if samples = [] then Inl ''paired service samples required''
      else if \<not> list_all (sample_ok identity) samples
      then Inl ''positive service, nonnegative actual idle and physical trial ID required''
      else Inr \<lparr>sd_trials = map (hydrate_trial (map Clone samples))
                  (sort_by string_lt (remdups (map ss_trialID samples))),
                sd_services = sort_by (<) (map ss_serviceDurationNanos samples)\<rparr>)"

section \<open>Queries\<close>

text \<open>
  \<open>nearest\<close> returns the neighbouring groups \<open>a\<close> and \<open>b\<close>, their distance and whether
  the gap lies outside the trial's observed range.
\<close>

definition nearest ::
  "serviceTrial \<Rightarrow> int option \<Rightarrow> ServiceSample list \<times> ServiceSample list \<times> int \<times> bool" where
  "nearest t gap =
     (case gap of
        None \<Rightarrow> (st_startup t, [], 0, False)
      | Some g \<Rightarrow>
          (let gs = st_groups t; n = length gs in
           if n = 0 then ([], [], 0, False)
           else
             (let i = go_search n (\<lambda>i. g \<le> sg_gap (gs ! i));
                  outside = (g < sg_gap (gs ! 0) \<or> sg_gap (gs ! (n - 1)) < g)
              in if i = n
                 then (sg_samples (gs ! (i - 1)), [], wrap64 (g - sg_gap (gs ! (i - 1))), outside)
                 else if i = 0 \<or> sg_gap (gs ! i) = g
                 then (sg_samples (gs ! i), [], wrap64 (sg_gap (gs ! i) - g), outside)
                 else
                   (let x = gs ! i; y = gs ! (i - 1);
                        left = wrap64 (g - sg_gap y); right = wrap64 (sg_gap x - g)
                    in if left < right then (sg_samples y, [], left, outside)
                       else if right < left then (sg_samples x, [], right, outside)
                       else (sg_samples y, sg_samples x, left, outside)))))"

definition support_step :: "int option \<Rightarrow> ConditionalSupport \<Rightarrow> serviceTrial \<Rightarrow> ConditionalSupport" where
  "support_step gap out t =
     (let (a, b, distance, outside) = nearest t gap in
      if length a + length b = 0 then out
      else out\<lparr>cs_trialCount := cs_trialCount out + 1,
               cs_distanceNanos := max (cs_distanceNanos out) distance,
               cs_outsideSupport := (cs_outsideSupport out \<or> outside)\<rparr>)"

definition empty_support :: ConditionalSupport where
  "empty_support = \<lparr>cs_distanceNanos = 0, cs_trialCount = 0, cs_outsideSupport = False\<rparr>"

definition support :: "ServiceDistribution option \<Rightarrow> int option \<Rightarrow> ConditionalSupport" where
  "support d gap =
     (case d of
        None \<Rightarrow> empty_support
      | Some sd \<Rightarrow>
          if (case gap of None \<Rightarrow> False | Some g \<Rightarrow> g < 0) then empty_support
          else foldl (support_step gap) empty_support (sd_trials sd))"

definition serviceUpperBound :: "ServiceSample list \<Rightarrow> int \<Rightarrow> nat" where
  "serviceUpperBound samples value =
     go_search (length samples) (\<lambda>i. value < ss_serviceDurationNanos (samples ! i))"

text \<open>The probability mass, times the trial count, of services up to \<open>value\<close>.\<close>

definition mass_step :: "int option \<Rightarrow> int \<Rightarrow> f64 \<Rightarrow> serviceTrial \<Rightarrow> f64" where
  "mass_step gap value mass t =
     (let (a, b, _, _) = nearest t gap; n = length a + length b in
      if 0 < n
      then f_add mass
             (f_div (f_of_int (int (serviceUpperBound a value + serviceUpperBound b value)))
                    (f_of_int (int n)))
      else mass)"

definition mass_upto :: "ServiceDistribution \<Rightarrow> int option \<Rightarrow> int \<Rightarrow> f64" where
  "mass_upto d gap value = foldl (mass_step gap value) f_zero (sd_trials d)"

definition quantile_reached :: "ServiceDistribution \<Rightarrow> int option \<Rightarrow> nat \<Rightarrow> f64 \<Rightarrow> int \<Rightarrow> bool" where
  "quantile_reached d gap trials percentile value =
     (let mass = mass_upto d gap value
      in f_less f_zero mass \<and>
         f_leq (f_div percentile (f_of_int 100)) (f_div mass (f_of_int (int trials))))"

text \<open>The value, the support and whether the query has an answer.\<close>

definition QuantileNanos ::
  "ServiceDistribution option \<Rightarrow> int option \<Rightarrow> f64 \<Rightarrow> int \<times> ConditionalSupport \<times> bool" where
  "QuantileNanos d gap percentile =
     (let sup = support d gap in
      if cs_trialCount sup = 0 \<or> is_nan percentile \<or> f_less percentile f_zero
         \<or> f_less (f_of_int 100) percentile
      then (0, sup, False)
      else case d of
        None \<Rightarrow> (0, sup, False)
      | Some sd \<Rightarrow>
          (let services = sd_services sd;
               index = go_search (length services)
                 (\<lambda>i. quantile_reached sd gap (cs_trialCount sup) percentile (services ! i))
           in if index = length services then (0, sup, False)
              else (services ! index, sup, True)))"

section \<open>Sampling\<close>

text \<open>
  \<open>rng.IntN(n)\<close> and \<open>rng.Float64()\<close> are draws: functions of the bound, which the
  documentation of \<open>math/rand/v2\<close> places in \<open>[0, n)\<close> and \<open>[0, 1)\<close>. The result
  None is the panic at the end of each function.
\<close>

definition zero_sample :: ServiceSample where
  "zero_sample = \<lparr>ss_serviceDurationNanos = 0, ss_precedingIdleNanos = None, ss_trialID = []\<rparr>"

fun sample_loop :: "serviceTrial list \<Rightarrow> int option \<Rightarrow> nat \<Rightarrow> (nat \<Rightarrow> nat) \<Rightarrow> ServiceSample option" where
  "sample_loop [] gap trial intN = None"
| "sample_loop (t # ts) gap trial intN =
     (let (a, b, _, _) = nearest t gap in
      if length a + length b = 0 then sample_loop ts gap trial intN
      else if trial = 0
      then (let n = intN (length a + length b)
            in Some (if n < length a then a ! n else b ! (n - length a)))
      else sample_loop ts gap (trial - 1) intN)"

definition Sample ::
  "ServiceDistribution option \<Rightarrow> int option \<Rightarrow> (nat \<Rightarrow> nat) \<Rightarrow> (nat \<Rightarrow> nat)
    \<Rightarrow> (ServiceSample \<times> ConditionalSupport \<times> bool) option" where
  "Sample d gap intN1 intN2 =
     (let sup = support d gap in
      if cs_trialCount sup = 0 then Some (zero_sample, sup, False)
      else (case d of
        None \<Rightarrow> None
      | Some sd \<Rightarrow>
          (case sample_loop (sd_trials sd) gap (intN1 (cs_trialCount sup)) intN2 of
             None \<Rightarrow> None
           | Some s \<Rightarrow> Some (s, sup, True))))"

definition residual_step :: "int option \<Rightarrow> int \<Rightarrow> f64 \<Rightarrow> serviceTrial \<Rightarrow> f64" where
  "residual_step gap elapsed mass t =
     (let (a, b, _, _) = nearest t gap; n = length a + length b in
      if 0 < n
      then f_add mass
             (f_div (f_of_int (int n - int (serviceUpperBound a elapsed) - int (serviceUpperBound b elapsed)))
                    (f_of_int (int n)))
      else mass)"

fun residual_loop ::
  "serviceTrial list \<Rightarrow> int option \<Rightarrow> int \<Rightarrow> f64 \<Rightarrow> (nat \<Rightarrow> nat) \<Rightarrow> ServiceSample option" where
  "residual_loop [] gap elapsed pick intN = None"
| "residual_loop (t # ts) gap elapsed pick intN =
     (let (a, b, _, _) = nearest t gap; n = length a + length b in
      if n = 0 then residual_loop ts gap elapsed pick intN
      else
        (let ai = serviceUpperBound a elapsed; bi = serviceUpperBound b elapsed;
             survivors = n - ai - bi
         in if survivors = 0 then residual_loop ts gap elapsed pick intN
            else
              (let pick' = f_sub pick (f_div (f_of_int (int survivors)) (f_of_int (int n)))
               in if f_less pick' f_zero
                  then (let j = intN survivors
                        in Some (if j < length a - ai then a ! (ai + j)
                                 else b ! (bi + j - (length a - ai))))
                  else residual_loop ts gap elapsed pick' intN)))"

definition SampleResidual ::
  "ServiceDistribution option \<Rightarrow> int option \<Rightarrow> int \<Rightarrow> f64 \<Rightarrow> (nat \<Rightarrow> nat)
    \<Rightarrow> (ServiceSample \<times> ConditionalSupport \<times> bool) option" where
  "SampleResidual d gap elapsed float64 intN =
     (let sup = support d gap in
      if cs_trialCount sup = 0 \<or> elapsed < 0 then Some (zero_sample, sup, False)
      else (case d of
        None \<Rightarrow> None
      | Some sd \<Rightarrow>
          (let mass = foldl (residual_step gap elapsed) f_zero (sd_trials sd)
           in if f_eq mass f_zero then Some (zero_sample, sup, False)
              else (case residual_loop (sd_trials sd) gap elapsed (f_mul float64 mass) intN of
                      None \<Rightarrow> None
                    | Some s \<Rightarrow> Some (s, sup, True)))))"

end
