(* ===== verification/FFTypes.thy ===== *)
theory FFTypes
  imports FFDistribution
begin

text \<open>
  \<open>internal/firstfloor/types.go\<close>: the data of the native executor. Strings are byte
  lists, \<open>float64\<close> is \<open>f64\<close>, a pointer to a scalar is an option and raw payload bytes
  are lists of 8-bit words. The records of the runner and of the actor's state are in the
  theories of their operations.
\<close>

type_synonym bytes = "8 word list"

section \<open>Constants\<close>

abbreviation MaxHeaderBytes :: int where "MaxHeaderBytes \<equiv> 65536"
abbreviation MaxFrameBytes :: int where "MaxFrameBytes \<equiv> 67108864"
abbreviation MaxProgressBytes :: int where "MaxProgressBytes \<equiv> 4096"
abbreviation MaxErrorBytes :: int where "MaxErrorBytes \<equiv> 1024"

abbreviation modeServing :: string where "modeServing \<equiv> ''serving''"
abbreviation modeProfiling :: string where "modeProfiling \<equiv> ''profiling''"
abbreviation phaseQueued :: string where "phaseQueued \<equiv> ''queued''"
abbreviation phaseDeferred :: string where "phaseDeferred \<equiv> ''deferred''"
abbreviation phaseRunning :: string where "phaseRunning \<equiv> ''running''"
abbreviation phaseFinished :: string where "phaseFinished \<equiv> ''finished''"
abbreviation DeadlineDrop :: string where "DeadlineDrop \<equiv> ''drop''"
abbreviation DeadlineKeep :: string where "DeadlineKeep \<equiv> ''keep''"
abbreviation DeadlineDefer :: string where "DeadlineDefer \<equiv> ''defer''"
abbreviation OutcomeDeadlineDrop :: string where "OutcomeDeadlineDrop \<equiv> ''deadline_drop''"
abbreviation ReasonDeadlineDefer :: string where "ReasonDeadlineDefer \<equiv> ''deadline_defer''"
abbreviation FailureMemoryAllocation :: string where
  "FailureMemoryAllocation \<equiv> ''MemoryAllocationFailed''"
abbreviation OutcomePreprocessFailed :: string where
  "OutcomePreprocessFailed \<equiv> ''preprocess_failed''"
abbreviation OutcomeBatchError :: string where "OutcomeBatchError \<equiv> ''batch_error''"
abbreviation outcomeCompleted :: string where "outcomeCompleted \<equiv> ''completed''"

definition EffectiveDeadlinePolicy :: "string \<Rightarrow> string" where
  "EffectiveDeadlinePolicy v = (if v = '''' then DeadlineKeep else v)"

section \<open>Requests and responses\<close>

record Field =
  f_Name :: string
  f_Data :: "bytes list"

record SLO =
  slo_percentile :: f64
  slo_targetMS :: f64

record RequestContext =
  rc_requestID :: string
  rc_workloadUID :: string
  rc_definition :: string
  rc_receivedAt :: instant
  rc_senderElapsedMS :: f64
  rc_completionMarginMS :: f64
  rc_slo :: SLO
  rc_lifetimeMS :: f64

record Request =
  rq_id :: string
  rq_context :: RequestContext
  rq_inputs :: "Field list"

record ProfileRequest =
  pf_batchSize :: nat
  pf_inputs :: "Field list"
  pf_trialID :: string

section \<open>Profiles and policy\<close>

record BatchProfile =
  bp_size :: int
  bp_serviceSamples :: "ServiceSample list"
  bp_distribution :: "ServiceDistribution option"
  bp_energyPerItemJ :: f64

record ProfileBundle =
  pb_profileID :: string
  pb_batches :: "BatchProfile list"

record Policy =
  p_decisionID :: string
  p_profileID :: string
  p_maxBatchWaitMS :: f64
  p_maxBatchSize :: int
  p_deadlinePolicy :: string
  p_fixedBatchSize :: int
  p_batches :: "BatchProfile list"

text \<open>
  The execution conditions of \<open>Config\<close> that are only compared for equality
  (images, artifact, packages, affinity) are the field \<open>c_execution\<close>.
\<close>

record ExecutionConditions =
  ec_runtimeImage :: string
  ec_backend :: string
  ec_artifact :: string
  ec_artifactImage :: string
  ec_artifactFiles :: "string list"
  ec_preprocessor :: string
  ec_preprocessorImage :: string
  ec_preprocessorPath :: string
  ec_runtimePackages :: "(string \<times> string) list"
  ec_powerMode :: string
  ec_memoryRequestBytes :: int
  ec_memoryLimitBytes :: int
  ec_gpuUUID :: string
  ec_acceleratorResource :: string
  ec_warmupBatchSizes :: "int list"
  ec_warmupIterations :: int

record Config =
  c_execution :: ExecutionConditions
  c_model :: string
  c_inputs :: "string list"
  c_outputs :: "string list"
  c_maxNewTokens :: int
  c_runnerCommand :: "string list"
  c_runnerTimeoutMS :: int
  c_maxQueueRequests :: int
  c_maxQueueBytes :: int
  c_maxRequestBytes :: int
  c_mode :: string
  c_batchSizes :: "int list"
  c_maxBatchSize :: int
  c_profilePath :: string
  c_policy :: Policy

section \<open>Progress, request states and choices\<close>

record Progress =
  pr_requestID :: string
  pr_workloadUID :: string
  pr_definition :: string
  pr_phase :: string
  pr_at :: instant
  pr_batchID :: nat
  pr_batchSize :: nat
  pr_profileID :: string
  pr_decisionID :: string
  pr_queueMS :: f64
  pr_serviceMS :: f64
  pr_backendMS :: f64
  pr_preprocessMS :: f64
  pr_postprocessMS :: f64
  pr_firstTokenMS :: f64
  pr_units :: int
  pr_nativeElapsedMS :: f64
  pr_executionComplete :: bool
  pr_outcome :: string
  pr_serviceSample :: "ServiceSample option"

record Response =
  re_modelName :: string
  re_id :: string
  re_outputs :: "Field list"
  re_progress :: Progress
  re_executionComplete :: bool

record ProfileResponse =
  ps_batchSize :: nat
  ps_batchIDs :: "nat list"
  ps_nativeSamplesMS :: "f64 list"
  ps_serviceSamples :: "ServiceSample list"
  ps_backendSamplesMS :: "f64 list"
  ps_preprocessSamplesMS :: "f64 list"
  ps_postprocessSamplesMS :: "f64 list"
  ps_firstTokenSamplesMS :: "f64 list"
  ps_units :: "int list"
  ps_nativeElapsedMS :: f64
  ps_executionComplete :: bool

text \<open>
  \<open>RequestState\<close>: the frozen context of a request plus its local monotonic spans.
\<close>

record RequestState =
  rs_context :: RequestContext
  rs_queueMS :: f64
  rs_elapsedMS :: f64
  rs_arrivalRate :: f64
  rs_phase :: string
  rs_batchID :: nat
  rs_batchSize :: nat
  rs_serviceElapsedMS :: f64
  rs_profileID :: string
  rs_decisionID :: string
  rs_remainingLifetimeMS :: "f64 option"
  rs_precedingIdleNanos :: "int option"
  rs_exchangeElapsedNanos :: "int option"

record BatchChoice =
  bc_requestID :: string
  bc_workloadUID :: string
  bc_definition :: string
  bc_size :: int
  bc_waitMS :: f64
  bc_reason :: string
  bc_decisionIdleNanos :: "int option"
  bc_decisionIdleApproximate :: bool

definition zero_choice :: BatchChoice where
  "zero_choice = \<lparr>bc_requestID = [], bc_workloadUID = [], bc_definition = [], bc_size = 0,
     bc_waitMS = f_zero, bc_reason = [], bc_decisionIdleNanos = None,
     bc_decisionIdleApproximate = False\<rparr>"

definition zero_slo :: SLO where
  "zero_slo = \<lparr>slo_percentile = f_zero, slo_targetMS = f_zero\<rparr>"

definition zero_context :: RequestContext where
  "zero_context = \<lparr>rc_requestID = [], rc_workloadUID = [], rc_definition = [], rc_receivedAt = 0,
     rc_senderElapsedMS = f_zero, rc_completionMarginMS = f_zero, rc_slo = zero_slo,
     rc_lifetimeMS = f_zero\<rparr>"

definition zero_state :: RequestState where
  "zero_state = \<lparr>rs_context = zero_context, rs_queueMS = f_zero, rs_elapsedMS = f_zero,
     rs_arrivalRate = f_zero, rs_phase = [], rs_batchID = 0, rs_batchSize = 0,
     rs_serviceElapsedMS = f_zero, rs_profileID = [], rs_decisionID = [],
     rs_remainingLifetimeMS = None, rs_precedingIdleNanos = None, rs_exchangeElapsedNanos = None\<rparr>"

definition zero_profile :: BatchProfile where
  "zero_profile = \<lparr>bp_size = 0, bp_serviceSamples = [], bp_distribution = None,
     bp_energyPerItemJ = f_zero\<rparr>"

text \<open>\<open>milliseconds\<close> (scheduler.go): \<open>float64(d) / float64(time.Millisecond)\<close>.\<close>

definition milliseconds :: "duration \<Rightarrow> f64" where
  "milliseconds d = f_div (f_of_int d) (f_of_int 1000000)"

end
