(* ===== verification/FFWire.thy ===== *)
theory FFWire
  imports FFTypes
begin

text \<open>
  \<open>internal/firstfloor/ipc.go\<close> and the framing of \<open>server.go\<close>: elements framed as a
  32-bit little-endian length plus bytes, frames with a 32-bit big-endian header length,
  the exchange with the runner process and the runner's clock. What the process and the
  pipes return are arguments; JSON encoding and decoding of a frame header are the
  parameters \<open>encode\<close> and \<open>decode\<close>.
\<close>

section \<open>Durations\<close>

definition finite64 :: "f64 \<Rightarrow> bool" where
  "finite64 x = is_fin x"

definition durationOK :: "f64 \<Rightarrow> bool" where
  "durationOK ms \<longleftrightarrow> finite64 ms \<and> f_leq f_zero ms
     \<and> f_less ms (f_div (f_of_int max_int64) (f_of_int 1000000))"

section \<open>Elements\<close>

definition le32 :: "nat \<Rightarrow> bytes" where
  "le32 n = [of_nat n, of_nat (n div 256), of_nat (n div 65536), of_nat (n div 16777216)]"

definition rd32 :: "bytes \<Rightarrow> nat" where
  "rd32 b = unat (b ! 0) + 256 * unat (b ! 1) + 65536 * unat (b ! 2) + 16777216 * unat (b ! 3)"

definition frame_element :: "bytes \<Rightarrow> bytes" where
  "frame_element e = le32 (length e) @ e"

text \<open>\<open>k\<close> is \<open>n - len(out)\<close>, the elements still expected.\<close>

primrec unframe_loop :: "nat \<Rightarrow> bytes \<Rightarrow> bytes list \<Rightarrow> string + bytes list" where
  "unframe_loop 0 b out =
     (if b \<noteq> [] then Inl ''BYTES element count differs from shape'' else Inr out)"
| "unframe_loop (Suc k) b out =
     (if b = [] then Inl ''BYTES element count differs from shape''
      else if length b < 4 then Inl ''truncated BYTES element length''
      else
        (let n = rd32 b; rest = drop 4 b in
         if length rest < n then Inl ''truncated BYTES element''
         else unframe_loop k (drop n rest) (out @ [take n rest])))"

definition unframe :: "bytes \<Rightarrow> nat \<Rightarrow> string + bytes list" where
  "unframe b n = unframe_loop n b []"

section \<open>Request payloads\<close>

text \<open>The byte count of one field, or the overflow of the frame cap.\<close>

primrec field_bytes :: "int \<Rightarrow> int \<Rightarrow> bytes list \<Rightarrow> string + int" where
  "field_bytes total_bytes n [] = Inr n"
| "field_bytes total_bytes n (e # es) =
     (if MaxFrameBytes - 4 - total_bytes - n < int (length e)
      then Inl ''combined inputs exceed IPC frame cap''
      else field_bytes total_bytes (n + 4 + int (length e)) es)"

primrec prepare_fields ::
  "Field list \<Rightarrow> nat \<Rightarrow> string list \<Rightarrow> bytes list \<Rightarrow> int \<Rightarrow> string + bytes list \<times> int" where
  "prepare_fields inputs n [] data total_bytes = Inr (data, total_bytes)"
| "prepare_fields inputs n (name # names) data total_bytes =
     (case filter (\<lambda>f. f_Name f = name) inputs of
        [] \<Rightarrow> Inl ''input field name or element count differs from configuration''
      | [f] \<Rightarrow>
          (if length (f_Data f) \<noteq> n
           then Inl ''input field name or element count differs from configuration''
           else
             (case field_bytes total_bytes 0 (f_Data f) of
                Inl e \<Rightarrow> Inl e
              | Inr k \<Rightarrow>
                  prepare_fields inputs n names
                    (data @ [concat (map frame_element (f_Data f))]) (total_bytes + k)))
      | _ \<Rightarrow> Inl ''duplicate input field name'')"

definition prepareInputs :: "string list \<Rightarrow> Field list \<Rightarrow> nat \<Rightarrow> string + bytes list \<times> int" where
  "prepareInputs names inputs n =
     (if length names \<noteq> length inputs
      then Inl ''every configured raw input field required exactly once''
      else prepare_fields inputs n names [] 0)"

section \<open>Frames\<close>

record wireTensor =
  wt_Name :: string
  wt_Datatype :: string
  wt_Shape :: "int list"
  wt_Bytes :: int

record itemResult =
  ir_Units :: int
  ir_Error :: string

text \<open>\<open>rm_RKNN\<close> is the raw JSON of the field, if present.\<close>

record RuntimeMetadata =
  rm_Runtime :: string
  rm_RuntimeVersion :: string
  rm_NumpyVersion :: string
  rm_ModelFiles :: "string list"
  rm_Inputs :: "string list"
  rm_Outputs :: "string list"
  rm_Providers :: "string list"
  rm_Device :: string
  rm_GPUUUID :: string
  rm_CPUAffinity :: "int list"
  rm_IntraOpThreads :: int
  rm_InterOpThreads :: int
  rm_InitializedBatches :: "int list"
  rm_WarmupIterations :: int
  rm_Synthetic :: bool
  rm_AvailableProviders :: "string list"
  rm_CgroupCPUMax :: string
  rm_CPUSet :: string
  rm_RKNN :: "bytes option"

record ipc_frame =
  fr_Type :: string
  fr_BatchID :: nat
  fr_BatchSizes :: "int list"
  fr_Inputs :: "string list"
  fr_Outputs :: "string list"
  fr_MaxNewTokens :: int
  fr_Tensors :: "wireTensor list"
  fr_Items :: "itemResult list"
  fr_DataBytes :: int
  fr_Error :: string
  fr_FailureReason :: string
  fr_Metadata :: "RuntimeMetadata option"
  fr_ServiceMS :: f64
  fr_PreprocessMS :: f64
  fr_BackendMS :: f64
  fr_PostprocessMS :: f64
  fr_FirstTokenMS :: f64

definition zero_frame :: ipc_frame where
  "zero_frame = \<lparr>fr_Type = [], fr_BatchID = 0, fr_BatchSizes = [], fr_Inputs = [], fr_Outputs = [],
     fr_MaxNewTokens = 0, fr_Tensors = [], fr_Items = [], fr_DataBytes = 0, fr_Error = [],
     fr_FailureReason = [], fr_Metadata = None, fr_ServiceMS = f_zero, fr_PreprocessMS = f_zero,
     fr_BackendMS = f_zero, fr_PostprocessMS = f_zero, fr_FirstTokenMS = f_zero\<rparr>"

text \<open>The frames the executor sends: at startup and for each batch.\<close>

definition init_frame :: "Config \<Rightarrow> ipc_frame" where
  "init_frame cfg = zero_frame\<lparr>fr_Type := ''init'', fr_Inputs := c_inputs cfg, fr_Outputs := c_outputs cfg,
     fr_BatchSizes := c_batchSizes cfg, fr_MaxNewTokens := c_maxNewTokens cfg\<rparr>"

definition infer_frame :: "nat \<Rightarrow> wireTensor list \<Rightarrow> ipc_frame" where
  "infer_frame bid tensors = zero_frame\<lparr>fr_Type := ''infer'', fr_BatchID := bid, fr_Tensors := tensors\<rparr>"

primrec frame_total :: "int \<Rightarrow> bytes list \<Rightarrow> string + int" where
  "frame_total n [] = Inr n"
| "frame_total n (chunk # chunks) =
     (if MaxFrameBytes - n < int (length chunk) then Inl ''IPC frame exceeds size limit''
      else frame_total (n + int (length chunk)) chunks)"

definition be32 :: "nat \<Rightarrow> bytes" where
  "be32 n = rev (le32 n)"

text \<open>The bytes \<open>writeFrame\<close> puts on the pipe, or its error before anything is written.\<close>

definition writeFrame ::
  "(ipc_frame \<Rightarrow> string + bytes) \<Rightarrow> ipc_frame \<Rightarrow> bytes list \<Rightarrow> string + bytes" where
  "writeFrame encode header data =
     (case frame_total 0 data of
        Inl e \<Rightarrow> Inl e
      | Inr n \<Rightarrow>
          (case encode (header\<lparr>fr_DataBytes := n\<rparr>) of
             Inl e \<Rightarrow> Inl e
           | Inr encoded \<Rightarrow>
               if MaxHeaderBytes < int (length encoded) then Inl ''IPC header exceeds size limit''
               else Inr (be32 (length encoded) @ encoded @ concat data)))"

text \<open>Reads one frame from the bytes on the pipe; the rest stays there.\<close>

definition readFrame ::
  "(bytes \<Rightarrow> string + ipc_frame) \<Rightarrow> bytes \<Rightarrow> string + ipc_frame \<times> bytes \<times> bytes" where
  "readFrame decode pipe =
     (if length pipe < 4 then Inl ''unexpected EOF''
      else
        (let n = rd32 (rev (take 4 pipe)); rest = drop 4 pipe in
         if n = 0 \<or> MaxHeaderBytes < int n then Inl ''invalid IPC header length''
         else if length rest < n then Inl ''unexpected EOF''
         else
           (case decode (take n rest) of
              Inl e \<Rightarrow> Inl e
            | Inr h \<Rightarrow>
                (if fr_DataBytes h < 0 \<or> MaxFrameBytes < fr_DataBytes h
                 then Inl ''invalid IPC payload length''
                 else
                   (let k = nat (fr_DataBytes h); payload = drop n rest in
                    if length payload < k then Inl ''unexpected EOF''
                    else Inr (h, take k payload, drop k payload))))))"

section \<open>The exchange with the runner\<close>

text \<open>The errors of the executor, as far as the code tells them apart.\<close>

datatype ff_error =
    QueueFull
  | Unavailable
  | DeadlineDropped
  | DeadlineExceeded
  | Canceled
  | BatchFailed string string
  | PreprocessFailed string
  | OtherError string

record runnerOutput =
  ro_items :: "itemResult list"
  ro_outputs :: "Field list"
  ro_serviceMS :: f64
  ro_backendMS :: f64
  ro_preprocessMS :: f64
  ro_postprocessMS :: f64
  ro_firstMS :: f64
  ro_sample :: ServiceSample

definition empty_output :: runnerOutput where
  "empty_output = \<lparr>ro_items = [], ro_outputs = [], ro_serviceMS = f_zero, ro_backendMS = f_zero,
     ro_preprocessMS = f_zero, ro_postprocessMS = f_zero, ro_firstMS = f_zero,
     ro_sample = zero_sample\<rparr>"

definition item_ok :: "itemResult \<Rightarrow> bool" where
  "item_ok item \<longleftrightarrow> \<not> ((1 \<le> ir_Units item) = (ir_Error item \<noteq> [])
     \<or> ir_Units item < 0 \<or> MaxErrorBytes < int (length (ir_Error item)))"

text \<open>The success count of an output header; \<open>outputs\<close> and \<open>generative\<close> are the runner's.\<close>

definition validateOutput ::
  "string list \<Rightarrow> bool \<Rightarrow> ipc_frame \<Rightarrow> nat \<Rightarrow> int \<Rightarrow> ff_error + nat" where
  "validateOutput outputs generative h bid items =
     (let stages = f_add (f_add (fr_PreprocessMS h) (fr_BackendMS h)) (fr_PostprocessMS h);
          successes = length (filter (\<lambda>i. 0 < ir_Units i) (fr_Items h))
      in if fr_BatchID h \<noteq> bid \<or> int (length (fr_Items h)) \<noteq> items
            \<or> length (fr_Tensors h) \<noteq> length outputs
            \<or> \<not> durationOK (fr_ServiceMS h) \<or> f_leq (fr_ServiceMS h) f_zero
            \<or> \<not> durationOK (fr_PreprocessMS h) \<or> \<not> durationOK (fr_BackendMS h)
            \<or> \<not> durationOK (fr_PostprocessMS h) \<or> \<not> durationOK (fr_FirstTokenMS h)
            \<or> f_less (fr_ServiceMS h) stages \<or> f_less (fr_BackendMS h) (fr_FirstTokenMS h)
         then Inl (OtherError ''invalid runner completion'')
         else if \<not> list_all item_ok (fr_Items h)
         then Inl (OtherError ''runner item must carry a unit count or a failure reason'')
         else if \<not> f_eq (fr_FirstTokenMS h) f_zero \<and> \<not> (generative \<and> 0 < successes)
         then Inl (OtherError ''first-token span belongs only to generative batches with successes'')
         else Inr successes)"

text \<open>One element per success for every named output, cut from the payload in order.\<close>

primrec cut_outputs ::
  "wireTensor list \<Rightarrow> string list \<Rightarrow> nat \<Rightarrow> bytes \<Rightarrow> Field list \<Rightarrow> ff_error + Field list" where
  "cut_outputs [] names successes b out =
     (if b \<noteq> [] then Inl (OtherError ''output payload contains unbound bytes'') else Inr out)"
| "cut_outputs (t # ts) names successes b out =
     (case names of
        [] \<Rightarrow> Inl (OtherError ''invalid named output contract'')
      | name # rest \<Rightarrow>
          if wt_Name t \<noteq> name \<or> wt_Datatype t \<noteq> ''BYTES'' \<or> wt_Shape t \<noteq> [int successes]
             \<or> wt_Bytes t < 0 \<or> int (length b) < wt_Bytes t
          then Inl (OtherError ''invalid named output contract'')
          else
            (case unframe (take (nat (wt_Bytes t)) b) successes of
               Inl e \<Rightarrow> Inl (OtherError e)
             | Inr es \<Rightarrow>
                 cut_outputs ts rest successes (drop (nat (wt_Bytes t)) b)
                   (out @ [\<lparr>f_Name = wt_Name t, f_Data = es\<rparr>])))"

text \<open>
  \<open>sent\<close> is the error of \<open>writeFrame\<close>, if any; \<open>reply\<close> is what \<open>readFrame\<close> returned;
  \<open>items\<close> is \<open>tensors[0].Shape[0]\<close>.
\<close>

definition exchange ::
  "string list \<Rightarrow> bool \<Rightarrow> nat \<Rightarrow> int \<Rightarrow> string option \<Rightarrow> (string + ipc_frame \<times> bytes)
    \<Rightarrow> ff_error + runnerOutput" where
  "exchange outputs generative bid items sent reply =
     (case sent of
        Some e \<Rightarrow> Inl (OtherError e)
      | None \<Rightarrow>
      (case reply of
        Inl e \<Rightarrow> Inl (OtherError e)
      | Inr (h, b) \<Rightarrow>
          if fr_Type h = ''error'' then Inl (OtherError (''runner: '' @ fr_Error h))
          else if fr_Type h = ''batch_error''
          then
            (if fr_BatchID h \<noteq> bid \<or> b \<noteq> [] \<or> fr_Error h = []
                \<or> MaxErrorBytes < int (length (fr_Error h))
                \<or> (fr_FailureReason h \<noteq> [] \<and> fr_FailureReason h \<noteq> FailureMemoryAllocation)
             then Inl (OtherError ''invalid runner batch error'')
             else Inl (BatchFailed (fr_Error h) (fr_FailureReason h)))
          else if fr_Type h \<noteq> ''output'' then Inl (OtherError ''invalid runner completion'')
          else
            (case validateOutput outputs generative h bid items of
               Inl e \<Rightarrow> Inl e
             | Inr successes \<Rightarrow>
                 (case cut_outputs (fr_Tensors h) outputs successes b [] of
                    Inl e \<Rightarrow> Inl e
                  | Inr outs \<Rightarrow>
                      Inr \<lparr>ro_items = fr_Items h, ro_outputs = outs,
                        ro_serviceMS = fr_ServiceMS h, ro_backendMS = fr_BackendMS h,
                        ro_preprocessMS = fr_PreprocessMS h, ro_postprocessMS = fr_PostprocessMS h,
                        ro_firstMS = fr_FirstTokenMS h, ro_sample = zero_sample\<rparr>))))"

section \<open>The runner's clock\<close>

record runner_clock =
  rk_lastEnd :: instant
  rk_exchangeAt :: instant
  rk_exchangeGap :: "int option"

definition exchange_begin :: "instant \<Rightarrow> runner_clock \<Rightarrow> runner_clock" where
  "exchange_begin started k =
     (let gap = (if is_zero_time (rk_lastEnd k) then None else Some (time_sub started (rk_lastEnd k)))
      in k\<lparr>rk_exchangeAt := started, rk_exchangeGap := gap\<rparr>)"

definition exchange_end :: "instant \<Rightarrow> runner_clock \<Rightarrow> runner_clock" where
  "exchange_end ended k = k\<lparr>rk_lastEnd := ended, rk_exchangeAt := 0, rk_exchangeGap := None\<rparr>"

text \<open>The goroutine of \<open>infer\<close>: the exchange between its two clock readings.\<close>

definition infer_exchange ::
  "instant \<Rightarrow> instant \<Rightarrow> string \<Rightarrow> string \<Rightarrow> (ff_error + runnerOutput) \<Rightarrow> runner_clock
    \<Rightarrow> runner_clock \<times> runnerOutput \<times> ff_error option" where
  "infer_exchange started ended runnerTrial trialID reply k =
     (let k1 = exchange_begin started k;
          (out, e) = (case reply of Inl err \<Rightarrow> (empty_output, Some err) | Inr r \<Rightarrow> (r, None));
          sample = \<lparr>ss_serviceDurationNanos = time_sub ended started,
            ss_precedingIdleNanos = rk_exchangeGap k1,
            ss_trialID = (if trialID = [] then runnerTrial else trialID)\<rparr>
      in (exchange_end ended k1,
          out\<lparr>ro_serviceMS := milliseconds (time_sub ended started), ro_sample := sample\<rparr>, e))"

text \<open>Which of its three events \<open>infer\<close> sees first; true says that it closes the runner.\<close>

datatype infer_event = ExchangeDone runnerOutput "ff_error option" | ExecutionTimeout | ContextDone ff_error

definition infer :: "infer_event \<Rightarrow> runnerOutput \<times> ff_error option \<times> bool" where
  "infer ev =
     (case ev of
        ExchangeDone out e \<Rightarrow>
          (out, e, (case e of None \<Rightarrow> False | Some (BatchFailed _ _) \<Rightarrow> False | Some _ \<Rightarrow> True))
      | ExecutionTimeout \<Rightarrow>
          (empty_output, Some (OtherError ''runner execution timed out and process terminated''), True)
      | ContextDone e \<Rightarrow> (empty_output, Some e, True))"

definition decisionIdleNanos :: "instant \<Rightarrow> runner_clock \<Rightarrow> int option" where
  "decisionIdleNanos now k =
     (if is_zero_time (rk_lastEnd k) then None else Some (time_sub now (rk_lastEnd k)))"

definition exchangeState ::
  "instant \<Rightarrow> runner_clock \<Rightarrow> int option \<times> int option \<times> int option" where
  "exchangeState now k =
     (decisionIdleNanos now k,
      if is_zero_time (rk_exchangeAt k) then None else rk_exchangeGap k,
      if is_zero_time (rk_exchangeAt k) then None else Some (time_sub now (rk_exchangeAt k)))"

text \<open>\<open>StartRunner\<close>: what the startup accepts as the runner's first reply.\<close>

definition startup_reply :: "Config \<Rightarrow> (string + ipc_frame \<times> bytes) \<Rightarrow> string + RuntimeMetadata" where
  "startup_reply cfg reply =
     (case reply of
        Inl e \<Rightarrow> Inl e
      | Inr (h, b) \<Rightarrow>
          if fr_Type h = ''error'' then Inl (''runner startup: '' @ fr_Error h)
          else if fr_Type h \<noteq> ''ready'' \<or> b \<noteq> [] then Inl ''runner did not send ready metadata''
          else
            (case fr_Metadata h of
               None \<Rightarrow> Inl ''runner did not send ready metadata''
             | Some m \<Rightarrow>
                 if rm_Inputs m \<noteq> c_inputs cfg \<or> rm_Outputs m \<noteq> c_outputs cfg
                    \<or> rm_InitializedBatches m \<noteq> c_batchSizes cfg \<or> rm_Runtime m = []
                    \<or> rm_WarmupIterations m < 0
                 then Inl ''initialized runner metadata differs from execution contract''
                 else Inr m))"

section \<open>Lengths on the wire\<close>

lemma unat_byte: "unat (of_nat n :: 8 word) = n mod 256"
  by (simp add: unat_of_nat)

lemma le32_length [simp]: "length (le32 n) = 4"
  by (simp add: le32_def)

lemma rd32_le32 [simp]:
  assumes "n < 4294967296"
  shows "rd32 (le32 n @ rest) = n"
proof -
  define m1 m2 m3 where "m1 = n div 256" and "m2 = m1 div 256" and "m3 = m2 div 256"
  have d: "n div 65536 = m2" "n div 16777216 = m3"
    by (simp_all add: m1_def m2_def m3_def div_mult2_eq [symmetric])
  then have "m3 < 256" using less_mult_imp_div_less [of n 256 16777216] assms by simp
  moreover have "n = n mod 256 + 256 * m1" "m1 = m1 mod 256 + 256 * m2" "m2 = m2 mod 256 + 256 * m3"
    by (simp_all add: m1_def m2_def m3_def)
  ultimately have "n mod 256 + 256 * (m1 mod 256) + 65536 * (m2 mod 256) + 16777216 * (m3 mod 256) = n"
    by simp
  then show ?thesis by (simp add: rd32_def le32_def unat_byte d m1_def [symmetric])
qed

lemma rd32_bound: "rd32 b < 4294967296"
proof -
  have "unat (x :: 8 word) < 256" for x using unsigned_less [of x] by simp
  then have "unat (b ! 0) < 256" "unat (b ! 1) < 256" "unat (b ! 2) < 256" "unat (b ! 3) < 256" by blast+
  then show ?thesis by (simp add: rd32_def)
qed

lemma le32_rd32:
  assumes "4 \<le> length b"
  shows "le32 (rd32 b) = take 4 b"
proof -
  obtain x0 x1 x2 x3 r where b: "b = x0 # x1 # x2 # x3 # r"
    using assms by (cases b; cases "tl b"; cases "tl (tl b)"; cases "tl (tl (tl b))") auto
  have lt: "unat (x :: 8 word) < 256" for x using unsigned_less [of x] by simp
  have byte: "of_nat n = x" if "n mod 256 = unat x" for n and x :: "8 word"
    using that by (metis unat_byte word_unat_eq_iff)
  have step: "(unat x + 256 * m) mod 256 = unat x" "(unat x + 256 * m) div 256 = m" for x :: "8 word" and m
    using lt [of x] by simp_all
  define n2 where "n2 = unat x2 + 256 * unat x3"
  define n1 where "n1 = unat x1 + 256 * n2"
  define n where "n = unat x0 + 256 * n1"
  have rd: "rd32 b = n" by (simp add: b rd32_def n_def n1_def n2_def)
  have d: "n div 256 = n1" "n1 div 256 = n2" "n2 div 256 = unat x3"
    unfolding n_def n1_def n2_def by (rule step)+
  then have d2: "n div 65536 = n2" using div_mult2_eq [of n 256 256] by simp
  then have d3: "n div 16777216 = unat x3" using d div_mult2_eq [of n 65536 256] by simp
  have "of_nat n = x0" "of_nat n1 = x1" "of_nat n2 = x2" "of_nat (unat x3) = x3"
    by (rule byte, simp only: n_def n1_def n2_def step)+ simp
  then show ?thesis unfolding le32_def rd d d2 d3 by (simp add: b)
qed

lemma frame_element_length [simp]: "length (frame_element e) = 4 + length e"
  by (simp add: frame_element_def)

lemma frame_element_drop:
  "length e < 4294967296 \<Longrightarrow> rd32 (frame_element e @ rest) = length e"
  "drop 4 (frame_element e @ rest) = e @ rest"
  by (simp_all add: frame_element_def)

lemma unframe_loop_frames:
  assumes "\<forall>e \<in> set es. length e < 4294967296"
  shows "unframe_loop (length es) (concat (map frame_element es)) out = Inr (out @ es)"
  using assms
proof (induction es arbitrary: out)
  case (Cons e es)
  have "frame_element e @ concat (map frame_element es) \<noteq> []" by (simp add: frame_element_def le32_def)
  with Cons frame_element_drop [of e] show ?case
    by (simp add: Let_def del: append_is_Nil_conv)
qed simp

lemma unframe_loop_inverse:
  "unframe_loop k b out = Inr es \<Longrightarrow>
     \<exists>fs. es = out @ fs \<and> length fs = k \<and> b = concat (map frame_element fs)
       \<and> (\<forall>f \<in> set fs. length f < 4294967296)"
proof (induction k arbitrary: b out)
  case 0
  then show ?case by (simp split: if_splits)
next
  case (Suc k)
  let ?n = "rd32 b" and ?rest = "drop 4 b"
  from Suc.prems have len: "4 \<le> length b" "?n \<le> length ?rest"
    and run: "unframe_loop k (drop ?n ?rest) (out @ [take ?n ?rest]) = Inr es"
    by (auto simp: Let_def split: if_splits)
  from Suc.IH [OF run] obtain fs where fs: "es = (out @ [take ?n ?rest]) @ fs" "length fs = k"
    "drop ?n ?rest = concat (map frame_element fs)" "\<forall>f \<in> set fs. length f < 4294967296" by blast
  have tl: "length (take ?n ?rest) = ?n" using len by simp
  have "frame_element (take ?n ?rest) @ drop ?n ?rest = b"
    unfolding frame_element_def tl le32_rd32 [OF len(1)] by (simp only: append_assoc append_take_drop_id)
  then have "b = concat (map frame_element (take ?n ?rest # fs))" using fs(3) by simp
  moreover have "length (take ?n ?rest) < 4294967296" using tl rd32_bound by simp
  ultimately show ?case using fs by (intro exI [of _ "take ?n ?rest # fs"]) auto
qed

lemma unframe_iff:
  "unframe b n = Inr es \<longleftrightarrow>
     n = length es \<and> b = concat (map frame_element es) \<and> (\<forall>e \<in> set es. length e < 4294967296)"
  using unframe_loop_inverse [of n b "[]" es] unframe_loop_frames [of es "[]"]
  by (auto simp: unframe_def)

section \<open>Payloads\<close>

lemma field_bytes_sum:
  "field_bytes t n es = Inr k \<Longrightarrow>
     k = n + (\<Sum>e \<leftarrow> es. 4 + int (length e)) \<and> (t + n \<le> MaxFrameBytes \<longrightarrow> t + k \<le> MaxFrameBytes)
     \<and> (0 \<le> t \<and> 0 \<le> n \<longrightarrow> (\<forall>e \<in> set es. length e < 4294967296))"
proof (induction es arbitrary: n)
  case (Cons e es)
  then have fit: "int (length e) \<le> MaxFrameBytes - 4 - t - n"
    and run: "field_bytes t (n + 4 + int (length e)) es = Inr k" by (auto split: if_splits)
  from Cons.IH [OF run] fit show ?case by auto
qed simp

lemma framed_length:
  "int (length (concat (map frame_element es))) = (\<Sum>e \<leftarrow> es. 4 + int (length e))"
  by (induction es) auto

definition field_named :: "Field list \<Rightarrow> string \<Rightarrow> Field \<Rightarrow> bool" where
  "field_named inputs name f \<longleftrightarrow> filter (\<lambda>g. f_Name g = name) inputs = [f]"

lemma prepare_fields_sound:
  assumes "prepare_fields inputs n names data t = Inr (out, total_bytes)" "0 \<le> t" "t \<le> MaxFrameBytes"
  shows "\<exists>new. out = data @ new \<and> length new = length names
    \<and> total_bytes = t + (\<Sum>b \<leftarrow> new. int (length b)) \<and> total_bytes \<le> MaxFrameBytes
    \<and> (\<forall>i < length names. \<exists>f. field_named inputs (names ! i) f \<and> length (f_Data f) = n
         \<and> unframe (new ! i) n = Inr (f_Data f))"
  using assms
proof (induction names arbitrary: data t)
  case Nil
  then show ?case by simp
next
  case (Cons name names)
  obtain f where f: "filter (\<lambda>g. f_Name g = name) inputs = [f]"
    using Cons.prems(1) by (auto split: list.splits)
  with Cons.prems(1) obtain k where len: "length (f_Data f) = n"
    and k: "field_bytes t 0 (f_Data f) = Inr k"
    and run: "prepare_fields inputs n names (data @ [concat (map frame_element (f_Data f))]) (t + k)
      = Inr (out, total_bytes)"
    by (auto split: if_splits sum.splits)
  note bytes = field_bytes_sum [OF k]
  have k': "k = int (length (concat (map frame_element (f_Data f))))" "0 \<le> k"
    using bytes framed_length [of "f_Data f"] by auto
  have un: "unframe (concat (map frame_element (f_Data f))) n = Inr (f_Data f)"
    using bytes len Cons.prems(2) by (simp add: unframe_iff)
  have "0 \<le> t + k" "t + k \<le> MaxFrameBytes" using bytes k'(2) Cons.prems(2,3) by auto
  from Cons.IH [OF run this] obtain new where new: "out = (data @ [concat (map frame_element (f_Data f))]) @ new"
    "length new = length names" "total_bytes = t + k + (\<Sum>b \<leftarrow> new. int (length b))" "total_bytes \<le> MaxFrameBytes"
    "\<forall>i < length names. \<exists>f. field_named inputs (names ! i) f \<and> length (f_Data f) = n
         \<and> unframe (new ! i) n = Inr (f_Data f)" by blast
  let ?new = "concat (map frame_element (f_Data f)) # new"
  have "\<exists>f. field_named inputs ((name # names) ! i) f \<and> length (f_Data f) = n \<and> unframe (?new ! i) n = Inr (f_Data f)"
    if "i < length (name # names)" for i
    using that new(5) f un len by (cases i) (auto simp: field_named_def)
  with new k'(1) show ?case by (intro exI [of _ ?new]) auto
qed

section \<open>Whole frames\<close>

lemma frame_total_sum:
  "frame_total n chunks = Inr t \<Longrightarrow> t = n + int (length (concat chunks)) \<and> (n \<le> MaxFrameBytes \<longrightarrow> t \<le> MaxFrameBytes)"
proof (induction chunks arbitrary: n)
  case (Cons c cs)
  then have "int (length c) \<le> MaxFrameBytes - n" "frame_total (n + int (length c)) cs = Inr t"
    by (auto split: if_splits)
  with Cons.IH [of "n + int (length c)"] show ?case by auto
qed simp

lemma rd32_be32 [simp]: "n < 4294967296 \<Longrightarrow> rd32 (rev (be32 n)) = n"
  using rd32_le32 [of n "[]"] by (simp add: be32_def)

lemma be32_length [simp]: "length (be32 n) = 4"
  by (simp add: be32_def)

lemma write_read:
  assumes w: "writeFrame encode header data = Inr pipe"
    and e: "encode (header\<lparr>fr_DataBytes := int (length (concat data))\<rparr>) = Inr e" "e \<noteq> []"
    and d: "decode e = Inr h" "fr_DataBytes h = int (length (concat data))"
  shows "readFrame decode (pipe @ rest) = Inr (h, concat data, rest)"
proof -
  obtain n where n: "frame_total 0 data = Inr n" using w by (auto simp: writeFrame_def split: sum.splits)
  from frame_total_sum [OF n] have nv: "n = int (length (concat data))" "n \<le> MaxFrameBytes" by simp_all
  have p: "int (length e) \<le> MaxHeaderBytes" "pipe = be32 (length e) @ e @ concat data"
    using w n e(1) unfolding nv(1) by (auto simp: writeFrame_def split: if_splits)
  have small: "length e < 4294967296" using p(1) by simp
  show ?thesis
    using e(2) d p nv small by (simp add: readFrame_def Let_def)
qed

section \<open>Outputs\<close>

lemma cut_outputs_sound:
  "cut_outputs ts names k b out = Inr fs \<Longrightarrow>
     \<exists>new. fs = out @ new \<and> length new = length ts \<and> (\<forall>f \<in> set new. length (f_Data f) = k)
       \<and> length ts \<le> length names \<and> map f_Name new = take (length ts) names
       \<and> b = concat (map (\<lambda>f. concat (map frame_element (f_Data f))) new)"
proof (induction ts arbitrary: names b out)
  case Nil
  then show ?case by (simp split: if_splits)
next
  case (Cons t ts)
  obtain name rest where names: "names = name # rest" using Cons.prems by (cases names) auto
  let ?n = "nat (wt_Bytes t)"
  obtain es where es: "unframe (take ?n b) k = Inr es" and nm: "wt_Name t = name"
    and run: "cut_outputs ts rest k (drop ?n b) (out @ [\<lparr>f_Name = wt_Name t, f_Data = es\<rparr>]) = Inr fs"
    using Cons.prems names by (auto split: if_splits sum.splits)
  from es have "length es = k" "take ?n b = concat (map frame_element es)" by (auto simp: unframe_iff)
  moreover from Cons.IH [OF run] obtain new where "fs = (out @ [\<lparr>f_Name = wt_Name t, f_Data = es\<rparr>]) @ new"
    "length new = length ts" "\<forall>f \<in> set new. length (f_Data f) = k" "length ts \<le> length rest"
    "map f_Name new = take (length ts) rest"
    "drop ?n b = concat (map (\<lambda>f. concat (map frame_element (f_Data f))) new)" by blast
  moreover have "b = take ?n b @ drop ?n b" by simp
  ultimately show ?case using names nm
    by (intro exI [of _ "\<lparr>f_Name = wt_Name t, f_Data = es\<rparr> # new"]) (simp del: append_take_drop_id)
qed

definition successes_of :: "itemResult list \<Rightarrow> nat" where
  "successes_of items = length (filter (\<lambda>i. 0 < ir_Units i) items)"

lemma exchange_shape:
  assumes "exchange outputs generative bid items sent reply = Inr out"
  shows "int (length (ro_items out)) = items \<and> list_all item_ok (ro_items out)
    \<and> map f_Name (ro_outputs out) = outputs
    \<and> (\<forall>f \<in> set (ro_outputs out). length (f_Data f) = successes_of (ro_items out))"
proof -
  obtain h b where rp: "reply = Inr (h, b)" and snt: "sent = None"
    using assms by (auto simp: exchange_def split: option.splits sum.splits)
  obtain k fs where k: "validateOutput outputs generative h bid items = Inr k"
    and fs: "cut_outputs (fr_Tensors h) outputs k b [] = Inr fs"
    and out: "ro_items out = fr_Items h" "ro_outputs out = fs"
    using assms by (auto simp: exchange_def rp snt split: if_splits sum.splits)
  from k have "int (length (fr_Items h)) = items" "list_all item_ok (fr_Items h)"
    "length (fr_Tensors h) = length outputs" "k = successes_of (fr_Items h)"
    by (auto simp: validateOutput_def successes_of_def Let_def split: if_splits)
  with cut_outputs_sound [OF fs] out show ?thesis by auto
qed

section \<open>Properties\<close>

text \<open>
  C14: element framing is exact. \<open>unframe\<close> accepts a payload with the expected count
  precisely when it is the concatenation of that many framed elements, and then returns them.
\<close>

theorem unframe_roundtrip:
  "unframe b n = Inr es \<longleftrightarrow>
     n = length es \<and> b = concat (map frame_element es) \<and> (\<forall>e \<in> set es. length e < 4294967296)"
  by (rule unframe_iff)

text \<open>
  Prepared inputs. When \<open>prepareInputs\<close> accepts a request it returns one payload per
  configured field name; the payload is the framing of the only input field of that name,
  with the expected element count, and the reported byte total is exact and within the cap.
\<close>

lemma prepared_inputs_framed:
  assumes "prepareInputs names inputs n = Inr (data, total_bytes)"
  shows "length data = length names \<and> total_bytes = (\<Sum>b \<leftarrow> data. int (length b)) \<and> total_bytes \<le> MaxFrameBytes
    \<and> (\<forall>i < length names. \<exists>f. field_named inputs (names ! i) f \<and> unframe (data ! i) n = Inr (f_Data f))"
  using assms prepare_fields_sound [of inputs n names "[]" 0 data total_bytes]
  by (auto simp: prepareInputs_def split: if_splits)

text \<open>
  The pipe is transparent: the reader decodes exactly the bytes the encoder made of the header with the payload
  length filled in, and if that decoding keeps the length (the other fields may change, as they do
  when JSON replaces invalid UTF-8), it returns the decoded header and the concatenated payload and leaves
  what follows.
\<close>

lemma frame_write_read:
  assumes "writeFrame encode header data = Inr pipe"
    and "encode (header\<lparr>fr_DataBytes := int (length (concat data))\<rparr>) = Inr e" "e \<noteq> []"
    and "decode e = Inr h" "fr_DataBytes h = int (length (concat data))"
  shows "readFrame decode (pipe @ rest) = Inr (h, concat data, rest)"
  using assms by (rule write_read)

text \<open>
  C33: a completed exchange answers every request. It reports one item per request, each a
  unit count or a failure reason, and for every configured output exactly one element per
  successful item.
\<close>

theorem exchange_answers_all:
  assumes "exchange outputs generative bid items sent reply = Inr out"
  shows "int (length (ro_items out)) = items \<and> list_all item_ok (ro_items out)
    \<and> map f_Name (ro_outputs out) = outputs
    \<and> (\<forall>f \<in> set (ro_outputs out). length (f_Data f) = successes_of (ro_items out))"
  using assms by (rule exchange_shape)

section \<open>Witnesses\<close>

theorem unframe_roundtrip_witness:
  "unframe (frame_element [7, 8] @ frame_element []) 2 = Inr [[7, 8], []]"
  unfolding unframe_roundtrip by simp

lemma demo_prepare:
  "prepareInputs [''x'', ''y''] [\<lparr>f_Name = ''y'', f_Data = [[1]]\<rparr>, \<lparr>f_Name = ''x'', f_Data = [[2, 3]]\<rparr>] 1
     = Inr ([frame_element [2, 3], frame_element [1]], 11)"
  by (simp add: prepareInputs_def)

lemma prepared_inputs_framed_witness:
  "\<exists>f. field_named [\<lparr>f_Name = ''y'', f_Data = [[1]]\<rparr>, \<lparr>f_Name = ''x'', f_Data = [[2, 3]]\<rparr>] ''x'' f
     \<and> unframe (frame_element [2, 3]) 1 = Inr (f_Data f)"
  using prepared_inputs_framed [OF demo_prepare, THEN conjunct2, THEN conjunct2, THEN conjunct2, rule_format, of 0]
  by simp

definition demo_header :: ipc_frame where
  "demo_header = zero_frame\<lparr>fr_Type := ''output'', fr_BatchID := 1,
     fr_Tensors := [\<lparr>wt_Name = ''y'', wt_Datatype = ''BYTES'', wt_Shape = [1], wt_Bytes = 5\<rparr>],
     fr_Items := [\<lparr>ir_Units = 1, ir_Error = []\<rparr>, \<lparr>ir_Units = 0, ir_Error = ''bad''\<rparr>],
     fr_DataBytes := 5, fr_ServiceMS := Fin False 3, fr_BackendMS := Fin False 2\<rparr>"

text \<open>A codec that keeps nothing but the payload length.\<close>

definition demo_encode :: "ipc_frame \<Rightarrow> string + bytes" where
  "demo_encode h = Inr (le32 (nat (fr_DataBytes h)))"

definition demo_decode :: "bytes \<Rightarrow> string + ipc_frame" where
  "demo_decode b = Inr (zero_frame\<lparr>fr_DataBytes := int (rd32 b)\<rparr>)"

lemma demo_written:
  "writeFrame demo_encode demo_header [[9, 9], [9, 9, 9]] = Inr ([0, 0, 0, 4] @ [5, 0, 0, 0] @ [9, 9, 9, 9, 9])"
  by (simp add: writeFrame_def demo_encode_def be32_def le32_def)

lemma frame_write_read_witness:
  "readFrame demo_decode (([0, 0, 0, 4] @ [5, 0, 0, 0] @ [9, 9, 9, 9, 9]) @ [4]) =
     Inr (zero_frame\<lparr>fr_DataBytes := 5\<rparr>, [9, 9, 9, 9, 9], [4])"
  by (rule frame_write_read [OF demo_written, of "[5, 0, 0, 0]", THEN trans])
    (simp_all add: demo_encode_def demo_decode_def le32_def rd32_def)

lemma demo_duration: "durationOK f_zero" "durationOK (Fin False 2)" "durationOK (Fin False 3)"
  by code_simp+

lemma demo_exchanged:
  "exchange [''y''] False 1 2 None (Inr (demo_header, [1, 0, 0, 0, 42])) =
     Inr (empty_output\<lparr>ro_items := fr_Items demo_header, ro_outputs := [\<lparr>f_Name = ''y'', f_Data = [[42]]\<rparr>],
       ro_serviceMS := Fin False 3, ro_backendMS := Fin False 2\<rparr>)"
proof -
  have add: "f_add (f_add f_zero (Fin False 2)) f_zero = Fin False 2" by code_simp
  have un: "unframe [1, 0, 0, 0, 42] (Suc 0) = Inr [[42]]"
    by (simp add: unframe_def rd32_def)
  show ?thesis
    by (simp add: exchange_def demo_header_def zero_frame_def validateOutput_def demo_duration add un item_ok_def
        list_all_iff empty_output_def f_order_defs del: f_add.simps)
qed

theorem exchange_answers_all_witness:
  "length (ro_items (empty_output\<lparr>ro_items := fr_Items demo_header, ro_outputs := [\<lparr>f_Name = ''y'', f_Data = [[42]]\<rparr>],
       ro_serviceMS := Fin False 3, ro_backendMS := Fin False 2\<rparr>)) = 2"
  using exchange_answers_all [OF demo_exchanged] by simp

end
