(* ===== verification/FFSampling.thy ===== *)
theory FFSampling
  imports FFDistribution
begin

text \<open>
  What the measured service distribution (\<open>internal/firstfloor/service_distribution.go\<close>)
  guarantees: hydration partitions the measured rows into well-formed trials, the nearest
  groups of a query are exactly those at minimal distance, the quantile is the inverse of
  the empirical distribution function, and samples are measured rows. The last property is
  about the panic of \<open>SampleResidual\<close>.
\<close>

section \<open>Hydration\<close>

interpretation row_order: selection "\<lambda>_. True" row_less
  by unfold_locales (auto simp: row_less_def split: option.splits if_splits)

interpretation service_order: selection "\<lambda>_. True" service_less
  by unfold_locales (auto simp: service_less_def)

definition trial_rows :: "serviceTrial \<Rightarrow> ServiceSample list" where
  "trial_rows t = st_startup t @ concat (map sg_samples (st_groups t))"

text \<open>Rows in nondecreasing service time: what \<open>serviceUpperBound\<close> searches.\<close>

definition by_service :: "ServiceSample list \<Rightarrow> bool" where
  "by_service ss \<longleftrightarrow> sorted_wrt (\<lambda>a b. ss_serviceDurationNanos a \<le> ss_serviceDurationNanos b) ss"

definition group_ok :: "serviceGroup \<Rightarrow> bool" where
  "group_ok g \<longleftrightarrow> sg_samples g \<noteq> [] \<and> by_service (sg_samples g)
     \<and> (\<forall>s \<in> set (sg_samples g). ss_precedingIdleNanos s = Some (sg_gap g))"

definition trial_ok :: "serviceTrial \<Rightarrow> bool" where
  "trial_ok t \<longleftrightarrow> by_service (st_startup t)
     \<and> (\<forall>s \<in> set (st_startup t). ss_precedingIdleNanos s = None)
     \<and> (\<forall>g \<in> set (st_groups t). group_ok g)
     \<and> sorted_wrt (\<lambda>g h. sg_gap g < sg_gap h) (st_groups t)"

definition rows_after :: "serviceTrial \<Rightarrow> ServiceSample list \<Rightarrow> bool" where
  "rows_after t rows \<longleftrightarrow>
     (st_startup t \<noteq> [] \<longrightarrow> (\<forall>x \<in> set rows. ss_precedingIdleNanos x \<noteq> None))
     \<and> (\<forall>g \<in> set (st_groups t). \<forall>x \<in> set rows.
          \<exists>i. ss_precedingIdleNanos x = Some i \<and> sg_gap g < i)"

lemma sort_service: "by_service (sort_by service_less ss)"
  using service_order.sorted_sort_by [of ss]
  by (simp add: by_service_def service_less_def not_less)

lemma takeWhile_same:
  "x \<in> set (takeWhile (\<lambda>s. f s = f r) rows) \<Longrightarrow> f x = f r"
  by (induction rows) (auto split: if_splits)

text \<open>The rows after a run have a larger gap, and none of them is a startup row.\<close>

lemma rest_after_run:
  assumes "sorted_wrt (\<lambda>a b. \<not> row_less b a) (r # rows)"
    and "x \<in> set (dropWhile (\<lambda>s. ss_precedingIdleNanos s = ss_precedingIdleNanos r) rows)"
  shows "\<exists>i. ss_precedingIdleNanos x = Some i \<and>
    (case ss_precedingIdleNanos r of None \<Rightarrow> True | Some g \<Rightarrow> g < i)"
proof -
  let ?same = "\<lambda>s. ss_precedingIdleNanos s = ss_precedingIdleNanos r"
  from assms(2) obtain y ys where drop: "dropWhile ?same rows = y # ys" by (cases "dropWhile ?same rows") auto
  then have y: "\<not> ?same y" using hd_dropWhile [of ?same rows] by simp
  from drop obtain zs where "rows = zs @ y # ys" by (metis takeWhile_dropWhile_id)
  then have srt: "sorted_wrt (\<lambda>a b. \<not> row_less b a) (y # ys)" and ry: "\<not> row_less y r"
    using assms(1) by (auto simp: sorted_wrt_append)
  from ry y obtain j where j: "ss_precedingIdleNanos y = Some j"
    "case ss_precedingIdleNanos r of None \<Rightarrow> True | Some g \<Rightarrow> g < j"
    by (auto simp: row_less_def split: option.splits if_splits)
  have "x = y \<or> \<not> row_less x y" using assms(2) srt drop by auto
  with j show ?thesis by (auto simp: row_less_def split: option.splits if_splits)
qed

lemma sorted_run_by_service:
  assumes "sorted_wrt (\<lambda>a b. \<not> row_less b a) run" "\<forall>s \<in> set run. ss_precedingIdleNanos s = Some g"
  shows "by_service run"
  unfolding by_service_def
  by (rule sorted_wrt_mono_rel [OF _ assms(1)]) (use assms(2) in \<open>auto simp: row_less_def\<close>)

lemma group_rows_ok:
  assumes "sorted_wrt (\<lambda>a b. \<not> row_less b a) rows" "trial_ok t" "rows_after t rows"
  shows "trial_ok (group_rows rows t)
    \<and> mset (trial_rows (group_rows rows t)) = mset (trial_rows t) + mset rows"
  using assms
proof (induction rows t rule: group_rows.induct)
  case (1 t)
  then show ?case by (simp add: group_rows.simps)
next
  case (2 r rows t)
  let ?same = "\<lambda>s. ss_precedingIdleNanos s = ss_precedingIdleNanos r"
  define run where "run = r # takeWhile ?same rows"
  define rest where "rest = dropWhile ?same rows"
  define t' where "t' = (case ss_precedingIdleNanos r of
      None \<Rightarrow> t\<lparr>st_startup := sort_by service_less run\<rparr>
    | Some gap \<Rightarrow> t\<lparr>st_groups := st_groups t @ [\<lparr>sg_gap = gap, sg_samples = run\<rparr>]\<rparr>)"
  have eq: "group_rows (r # rows) t = group_rows rest t'"
    by (simp only: group_rows.simps Let_def run_def rest_def t'_def)
  have split: "r # rows = run @ rest" by (simp add: run_def rest_def)
  have same: "\<forall>s \<in> set run. ?same s" by (auto simp: run_def dest: takeWhile_same)
  have srt: "sorted_wrt (\<lambda>a b. \<not> row_less b a) run" "sorted_wrt (\<lambda>a b. \<not> row_less b a) rest"
    using "2.prems"(1) unfolding split by (auto simp: sorted_wrt_append)
  have above: "\<exists>i. ss_precedingIdleNanos x = Some i \<and>
      (case ss_precedingIdleNanos r of None \<Rightarrow> True | Some g \<Rightarrow> g < i)" if "x \<in> set rest" for x
    using rest_after_run [OF "2.prems"(1)] that by (simp add: rest_def)
  have sub: "set rest \<subseteq> set (r # rows)" "r \<in> set (r # rows)" unfolding split by (auto simp: run_def)
  have after: "rows_after t (r # rows)" by (rule "2.prems"(3))
  have ok: "trial_ok t' \<and> rows_after t' rest \<and> mset (trial_rows t') + mset rest = mset (trial_rows t) + mset (r # rows)"
  proof (cases "ss_precedingIdleNanos r")
    case None
    then have empty: "st_startup t = []" "st_groups t = []"
      using after by (force simp: rows_after_def)+
    with None show ?thesis
      using same above "2.prems"(2) split
      by (auto simp: t'_def trial_ok_def trial_rows_def rows_after_def sort_service)
  next
    case (Some gap)
    have "by_service run" using srt(1) same Some by (intro sorted_run_by_service [of run gap]) auto
    then have g: "group_ok \<lparr>sg_gap = gap, sg_samples = run\<rparr>"
      using same Some by (simp add: group_ok_def run_def)
    have "\<forall>h \<in> set (st_groups t). sg_gap h < gap"
      using after Some by (force simp: rows_after_def)
    with g have "trial_ok t'" using "2.prems"(2) Some by (auto simp: t'_def trial_ok_def sorted_wrt_append)
    moreover have "rows_after t' rest"
      using after above sub Some by (force simp: rows_after_def t'_def)
    moreover have "mset (trial_rows t') + mset rest = mset (trial_rows t) + mset (r # rows)"
      unfolding split using Some by (simp add: t'_def trial_rows_def)
    ultimately show ?thesis by simp
  qed
  note IH = "2.IH" [OF refl refl refl, folded run_def rest_def, folded t'_def]
  from IH [OF srt(2)] ok eq split show ?case by (simp add: ac_simps)
qed

lemma hydrate_trial_ok:
  "trial_ok (hydrate_trial ss tid)"
  "mset (trial_rows (hydrate_trial ss tid)) = filter_mset (\<lambda>s. ss_trialID s = tid) (mset ss)"
  using group_rows_ok [OF row_order.sorted_sort_by, of "filter (\<lambda>s. ss_trialID s = tid) ss"
      "\<lparr>st_startup = [], st_groups = []\<rparr>"]
  by (auto simp: hydrate_trial_def trial_ok_def trial_rows_def rows_after_def by_service_def)


section \<open>The nearest groups\<close>

definition nearest_groups :: "serviceGroup list \<Rightarrow> int \<Rightarrow> serviceGroup set" where
  "nearest_groups gs g = {h \<in> set gs. \<forall>h' \<in> set gs. \<bar>sg_gap h - g\<bar> \<le> \<bar>sg_gap h' - g\<bar>}"

definition gap_range :: "int \<Rightarrow> bool" where
  "gap_range g \<longleftrightarrow> 0 \<le> g \<and> g \<le> max_int64"

lemma gap_diff [simp]: "gap_range a \<Longrightarrow> gap_range b \<Longrightarrow> wrap64 (a - b) = a - b"
  by (rule wrap64_id) (simp add: gap_range_def int64_range_def max_int64_def min_int64_def)

text \<open>The position found by the binary search separates smaller gaps from larger ones.\<close>

lemma search_position:
  assumes "sorted_wrt (\<lambda>g h. sg_gap g < sg_gap h) gs" "k < length gs"
    and "i = go_search (length gs) (\<lambda>i. g \<le> sg_gap (gs ! i))"
  shows "k < i \<Longrightarrow> sg_gap (gs ! k) < g \<and> (k = i - 1 \<or> sg_gap (gs ! k) < sg_gap (gs ! (i - 1)))"
    and "i \<le> k \<Longrightarrow> g \<le> sg_gap (gs ! k) \<and> (k = i \<or> sg_gap (gs ! i) < sg_gap (gs ! k))"
proof -
  have mono: "sg_gap (gs ! a) < sg_gap (gs ! b)" if "a < b" "b < length gs" for a b
    using assms(1) that by (simp add: sorted_wrt_iff_nth_less)
  have least: "g \<le> sg_gap (gs ! j) \<longleftrightarrow> i \<le> j" if "j < length gs" for j
    unfolding assms(3)
    by (rule go_search_least [OF _ that]) (metis mono le_neq_implies_less less_le_not_le order_trans)
  have "i \<le> length gs" unfolding assms(3) by (rule go_search_boundary(1))
  then show "k < i \<Longrightarrow> sg_gap (gs ! k) < g \<and> (k = i - 1 \<or> sg_gap (gs ! k) < sg_gap (gs ! (i - 1)))"
    using least [OF assms(2)] mono [of k "i - 1"] by (cases "k = i - 1") auto
  show "i \<le> k \<Longrightarrow> g \<le> sg_gap (gs ! k) \<and> (k = i \<or> sg_gap (gs ! i) < sg_gap (gs ! k))"
    using least [OF assms(2)] mono [of i k] assms(2) by (cases "k = i") auto
qed

text \<open>If \<open>x\<close> beats every other group strictly, it is the only nearest one.\<close>

lemma nearest_single:
  assumes "x \<in> set gs" "\<And>h. h \<in> set gs \<Longrightarrow> h = x \<or> \<bar>sg_gap x - g\<bar> < \<bar>sg_gap h - g\<bar>"
  shows "nearest_groups gs g = {x}"
proof (intro equalityI subsetI)
  fix h assume "h \<in> nearest_groups gs g"
  then show "h \<in> {x}" using assms(1) assms(2) [of h] by (fastforce simp: nearest_groups_def)
next
  fix h assume "h \<in> {x}"
  then show "h \<in> nearest_groups gs g" using assms by (fastforce simp: nearest_groups_def)
qed

lemma nearest_pair:
  assumes "x \<in> set gs" "y \<in> set gs" "\<bar>sg_gap x - g\<bar> = \<bar>sg_gap y - g\<bar>"
    and "\<And>h. h \<in> set gs \<Longrightarrow> h = x \<or> h = y \<or> \<bar>sg_gap x - g\<bar> < \<bar>sg_gap h - g\<bar>"
  shows "nearest_groups gs g = {x, y}"
proof (intro equalityI subsetI)
  fix h assume "h \<in> nearest_groups gs g"
  then show "h \<in> {x, y}" using assms(1) assms(4) [of h] by (fastforce simp: nearest_groups_def)
next
  fix h assume "h \<in> {x, y}"
  then show "h \<in> nearest_groups gs g" using assms by (fastforce simp: nearest_groups_def)
qed

lemma nearest_spec:
  assumes "trial_ok t" "st_groups t \<noteq> []" "gap_range g" "\<forall>h \<in> set (st_groups t). gap_range (sg_gap h)"
    and near: "nearest t (Some g) = (a, b, distance, outside)"
  shows "set (a @ b) = (\<Union>h \<in> nearest_groups (st_groups t) g. set (sg_samples h))"
    and "\<forall>h \<in> nearest_groups (st_groups t) g. distance = \<bar>sg_gap h - g\<bar>"
    and "outside \<longleftrightarrow> (\<forall>h \<in> set (st_groups t). g < sg_gap h) \<or> (\<forall>h \<in> set (st_groups t). sg_gap h < g)"
    and "a @ b \<noteq> []"
proof -
  let ?gs = "st_groups t"
  define n where "n = length ?gs"
  define i where "i = go_search n (\<lambda>i. g \<le> sg_gap (?gs ! i))"
  have srt: "sorted_wrt (\<lambda>g h. sg_gap g < sg_gap h) ?gs" using assms(1) by (simp add: trial_ok_def)
  have n: "0 < n" using assms(2) by (simp add: n_def)
  note pos = search_position [OF srt, unfolded n_def [symmetric], OF _ i_def]
  have le: "i \<le> n" unfolding i_def by (rule go_search_boundary(1))
  have nth: "h \<in> set ?gs \<longleftrightarrow> (\<exists>k < n. h = ?gs ! k)" for h by (auto simp: in_set_conv_nth n_def)
  have range: "gap_range (sg_gap (?gs ! k))" if "k < n" for k using assms(4) nth that by blast
  have ne: "sg_samples (?gs ! k) \<noteq> []" if "k < n" for k
    using assms(1) nth that by (auto simp: trial_ok_def group_ok_def)
  have out: "outside = (g < sg_gap (?gs ! 0) \<or> sg_gap (?gs ! (n - 1)) < g)"
    using near n assms(2) by (auto simp: nearest_def Let_def n_def [symmetric] split: if_splits)
  have mono: "k < m \<Longrightarrow> m < n \<Longrightarrow> sg_gap (?gs ! k) < sg_gap (?gs ! m)" for k m
    using srt by (simp add: sorted_wrt_iff_nth_less n_def)
  have first: "sg_gap (?gs ! 0) \<le> sg_gap (?gs ! k)" "sg_gap (?gs ! k) \<le> sg_gap (?gs ! (n - 1))"
    if "k < n" for k
    using mono [of 0 k] mono [of k "n - 1"] that by (cases "k = 0"; cases "k = n - 1"; force)+
  show "outside \<longleftrightarrow> (\<forall>h \<in> set ?gs. g < sg_gap h) \<or> (\<forall>h \<in> set ?gs. sg_gap h < g)"
  proof -
    have all: "(\<forall>h \<in> set ?gs. P h) \<longleftrightarrow> (\<forall>k < n. P (?gs ! k))" for P
      by (simp add: all_set_conv_all_nth n_def)
    have "(\<forall>h \<in> set ?gs. g < sg_gap h) \<longleftrightarrow> g < sg_gap (?gs ! 0)"
      unfolding all using n by (auto intro: less_le_trans [OF _ first(1)])
    moreover have "(\<forall>h \<in> set ?gs. sg_gap h < g) \<longleftrightarrow> sg_gap (?gs ! (n - 1)) < g"
      unfolding all using n by (auto intro: le_less_trans [OF first(2)])
    ultimately show ?thesis unfolding out by simp
  qed
  have core: "set (a @ b) = (\<Union>h \<in> nearest_groups ?gs g. set (sg_samples h))
      \<and> (\<forall>h \<in> nearest_groups ?gs g. distance = \<bar>sg_gap h - g\<bar>) \<and> a @ b \<noteq> []"
  proof (cases "i = n")
    case True
    have "nearest_groups ?gs g = {?gs ! (n - 1)}"
    proof (rule nearest_single)
      show "?gs ! (n - 1) \<in> set ?gs" using n by (simp add: n_def)
      fix h assume "h \<in> set ?gs"
      then obtain k where k: "k < n" "h = ?gs ! k" using nth by blast
      then show "h = ?gs ! (n - 1) \<or> \<bar>sg_gap (?gs ! (n - 1)) - g\<bar> < \<bar>sg_gap h - g\<bar>"
        using pos(1) [OF k(1)] pos(1) [of "n - 1"] True by auto
    qed
    moreover have "(a, b, distance) = (sg_samples (?gs ! (n - 1)), [], g - sg_gap (?gs ! (n - 1)))"
      using near n True range [of "n - 1"] assms(2,3) by (simp add: nearest_def Let_def n_def [symmetric] i_def [symmetric])
    ultimately show ?thesis using pos(1) [of "n - 1"] n True ne [of "n - 1"] by auto
  next
    case False
    with le have i: "i < n" by simp
    show ?thesis
    proof (cases "i = 0 \<or> sg_gap (?gs ! i) = g")
      case True
      have "nearest_groups ?gs g = {?gs ! i}"
      proof (rule nearest_single)
        show "?gs ! i \<in> set ?gs" using i nth by blast
        fix h assume "h \<in> set ?gs"
        then obtain k where k: "k < n" "h = ?gs ! k" using nth by blast
        show "h = ?gs ! i \<or> \<bar>sg_gap (?gs ! i) - g\<bar> < \<bar>sg_gap h - g\<bar>"
          using pos [OF k(1)] pos(2) [OF i] True k by (cases "k < i") auto
      qed
      moreover have "(a, b, distance) = (sg_samples (?gs ! i), [], sg_gap (?gs ! i) - g)"
        using near n i True range [of i] assms(2,3)
        by (auto simp: nearest_def Let_def n_def [symmetric] i_def [symmetric])
      ultimately show ?thesis using pos(2) [of i] i ne [of i] by auto
    next
      case inner: False
      let ?x = "?gs ! i" and ?y = "?gs ! (i - 1)"
      have mem: "?x \<in> set ?gs" "?y \<in> set ?gs" and i1: "i - 1 < n" "0 < i" using i inner by (auto simp: n_def)
      have xy: "g < sg_gap ?x" "sg_gap ?y < g" using pos(2) [OF i] pos(1) [OF i1(1)] i1 inner by auto
      have other: "h = ?x \<or> h = ?y \<or> sg_gap ?x < sg_gap h \<or> sg_gap h < sg_gap ?y" if "h \<in> set ?gs" for h
        using that pos by (metis nth linorder_not_le)
      have eq: "(a, b, distance) =
          (if g - sg_gap ?y < sg_gap ?x - g then (sg_samples ?y, [], g - sg_gap ?y)
           else if sg_gap ?x - g < g - sg_gap ?y then (sg_samples ?x, [], sg_gap ?x - g)
           else (sg_samples ?y, sg_samples ?x, g - sg_gap ?y))"
        using near n i inner range [OF i] range [OF i1(1)] assms(2,3)
        by (auto simp: nearest_def Let_def n_def [symmetric] i_def [symmetric] split: if_splits)
      consider "g - sg_gap ?y < sg_gap ?x - g" | "sg_gap ?x - g < g - sg_gap ?y"
        | "sg_gap ?x - g = g - sg_gap ?y" by linarith
      then show ?thesis
      proof cases
        case 1
        then have "nearest_groups ?gs g = {?y}" using mem xy other by (intro nearest_single) fastforce+
        with 1 eq xy ne [OF i1(1)] show ?thesis by auto
      next
        case 2
        then have "nearest_groups ?gs g = {?x}" using mem xy other by (intro nearest_single) fastforce+
        with 2 eq xy ne [OF i] show ?thesis by auto
      next
        case 3
        then have "nearest_groups ?gs g = {?x, ?y}" using mem xy other by (intro nearest_pair) fastforce+
        with 3 eq xy ne [OF i] show ?thesis by auto
      qed
    qed
  qed
  then show "set (a @ b) = (\<Union>h \<in> nearest_groups ?gs g. set (sg_samples h))"
    "\<forall>h \<in> nearest_groups ?gs g. distance = \<bar>sg_gap h - g\<bar>" "a @ b \<noteq> []" by auto
qed

section \<open>Counting services\<close>

lemma filter_sorted_take:
  assumes "i \<le> length xs" "\<And>k. k < i \<Longrightarrow> P (xs ! k)" "\<And>k. i \<le> k \<Longrightarrow> k < length xs \<Longrightarrow> \<not> P (xs ! k)"
  shows "length (filter P xs) = i"
proof -
  have "filter P xs = filter P (take i xs) @ filter P (drop i xs)"
    by (metis append_take_drop_id filter_append)
  moreover have "filter P (take i xs) = take i xs"
    using assms(1,2) by (intro filter_True) (auto simp: in_set_conv_nth)
  moreover have "filter P (drop i xs) = []"
    using assms(1,3) by (auto simp: filter_empty_conv in_set_conv_nth)
  ultimately show ?thesis using assms(1) by simp
qed

text \<open>On sorted rows the binary search counts the services up to a value.\<close>

lemma upper_bound_position:
  assumes "by_service ss" "k < length ss"
  shows "value < ss_serviceDurationNanos (ss ! k) \<longleftrightarrow> serviceUpperBound ss value \<le> k"
proof -
  have mono: "ss_serviceDurationNanos (ss ! i) \<le> ss_serviceDurationNanos (ss ! j)"
    if "i \<le> j" "j < length ss" for i j
    using assms(1) that by (cases "i = j") (auto simp: by_service_def sorted_wrt_iff_nth_less)
  show ?thesis
    unfolding serviceUpperBound_def by (rule go_search_least [OF _ assms(2)]) (use mono in fastforce)
qed

lemma upper_bound_count:
  assumes "by_service ss"
  shows "serviceUpperBound ss value = length (filter (\<lambda>s. ss_serviceDurationNanos s \<le> value) ss)"
proof -
  have "serviceUpperBound ss value \<le> length ss"
    unfolding serviceUpperBound_def by (rule go_search_boundary(1))
  then show ?thesis
    using upper_bound_position [OF assms]
    by (intro filter_sorted_take [symmetric]) (auto simp: not_less [symmetric])
qed

lemma upper_bound_le: "serviceUpperBound ss value \<le> length ss"
  unfolding serviceUpperBound_def by (rule go_search_boundary(1))

lemma upper_bound_mono:
  assumes "by_service ss" "v \<le> w"
  shows "serviceUpperBound ss v \<le> serviceUpperBound ss w"
proof -
  have "set (filter (\<lambda>s. ss_serviceDurationNanos s \<le> v) ss) \<subseteq> set (filter (\<lambda>s. ss_serviceDurationNanos s \<le> w) ss)"
    using assms(2) by auto
  have "length (filter (\<lambda>s. ss_serviceDurationNanos s \<le> v) ss) \<le> length (filter (\<lambda>s. ss_serviceDurationNanos s \<le> w) ss)"
    using assms(2) by (induction ss) auto
  then show ?thesis by (simp add: upper_bound_count [OF assms(1)])
qed

text \<open>The rows a query can return come from the trial, each part sorted.\<close>

lemma nearest_parts:
  assumes "nearest t gap = (a, b, distance, outside)"
  shows "a \<in> {[], st_startup t} \<union> sg_samples ` set (st_groups t)"
    "b \<in> {[], st_startup t} \<union> sg_samples ` set (st_groups t)"
proof -
  let ?parts = "{[], st_startup t} \<union> sg_samples ` set (st_groups t)"
  have "a \<in> ?parts \<and> b \<in> ?parts"
  proof (cases "gap = None \<or> st_groups t = []")
    case True
    with assms show ?thesis by (cases gap) (auto simp: nearest_def Let_def)
  next
    case False
    then obtain g where g: "gap = Some g" "st_groups t \<noteq> []" by auto
    let ?gs = "st_groups t"
    define i where "i = go_search (length ?gs) (\<lambda>i. g \<le> sg_gap (?gs ! i))"
    have "i \<le> length ?gs" unfolding i_def by (rule go_search_boundary(1))
    moreover have "0 < length ?gs" using g(2) by simp
    ultimately have "i - 1 < length ?gs" "i \<noteq> length ?gs \<Longrightarrow> i < length ?gs" by linarith+
    then have "?gs ! (i - 1) \<in> set ?gs" "i \<noteq> length ?gs \<Longrightarrow> ?gs ! i \<in> set ?gs" by simp_all
    then have "sg_samples (?gs ! (i - 1)) \<in> ?parts" "i \<noteq> length ?gs \<Longrightarrow> sg_samples (?gs ! i) \<in> ?parts" by auto
    moreover have "[] \<in> ?parts" by simp
    ultimately show ?thesis
      using assms g(2) unfolding g(1) nearest_def option.case Let_def i_def [symmetric]
      by (simp only: length_0_conv if_False split: if_splits) (simp only: prod.inject; blast)+
  qed
  then show "a \<in> ?parts" "b \<in> ?parts" by simp_all
qed

lemma nearest_rows:
  assumes "trial_ok t" "nearest t gap = (a, b, distance, outside)"
  shows "by_service a" "by_service b" "set a \<subseteq> set (trial_rows t)" "set b \<subseteq> set (trial_rows t)"
proof -
  have "by_service x \<and> set x \<subseteq> set (trial_rows t)" if "x \<in> {[], st_startup t} \<union> sg_samples ` set (st_groups t)" for x
    using assms(1) that by (auto simp: trial_ok_def group_ok_def trial_rows_def by_service_def)
  with nearest_parts [OF assms(2)] show "by_service a" "by_service b" "set a \<subseteq> set (trial_rows t)"
    "set b \<subseteq> set (trial_rows t)" by blast+
qed


section \<open>A hydrated distribution\<close>

definition dist_rows :: "ServiceDistribution \<Rightarrow> ServiceSample list" where
  "dist_rows d = concat (map trial_rows (sd_trials d))"

definition dist_ok :: "ServiceDistribution \<Rightarrow> bool" where
  "dist_ok d \<longleftrightarrow> (\<forall>t \<in> set (sd_trials d). trial_ok t) \<and> sorted (sd_services d)
     \<and> mset (sd_services d) = mset (map ss_serviceDurationNanos (dist_rows d))"

lemma mset_partition:
  assumes "distinct ids" "\<And>i. i \<in> set ids \<Longrightarrow> mset (g i) = filter_mset (\<lambda>x. f x = i) M"
  shows "mset (concat (map g ids)) = filter_mset (\<lambda>x. f x \<in> set ids) M"
  using assms
proof (induction ids)
  case (Cons i ids)
  then have "filter_mset (\<lambda>x. f x = i \<or> f x \<in> set ids) M
      = filter_mset (\<lambda>x. f x = i) M + filter_mset (\<lambda>x. f x \<in> set ids) M"
    by (intro multiset_eqI) auto
  with Cons show ?case by simp
qed simp

lemma sorted_sort_by_int: "sorted (sort_by (<) (xs :: int list))"
  using int_order.sorted_sort_by [of xs] by (simp add: not_less)

lemma hydrated:
  assumes "NewServiceDistribution identity samples = Inr d"
  shows "dist_ok d" "mset (dist_rows d) = mset samples" "list_all (sample_ok identity) samples"
proof -
  let ?ids = "sort_by string_lt (remdups (map ss_trialID samples))"
  have d: "d = \<lparr>sd_trials = map (hydrate_trial samples) ?ids,
      sd_services = sort_by (<) (map ss_serviceDurationNanos samples)\<rparr>"
    using assms by (auto simp: NewServiceDistribution_def map_idI split: if_splits)
  have "mset (dist_rows d) = mset (concat (map (\<lambda>i. trial_rows (hydrate_trial samples i)) ?ids))"
    by (simp add: d dist_rows_def o_def)
  also have "\<dots> = filter_mset (\<lambda>x. ss_trialID x \<in> set ?ids) (mset samples)"
    by (rule mset_partition) (simp_all add: hydrate_trial_ok(2))
  also have "\<dots> = mset samples"
    by (auto simp: filter_mset_eq_conv intro!: filter_mset_eq_conv [THEN iffD2])
  finally show rows: "mset (dist_rows d) = mset samples" .
  show "dist_ok d"
    using rows by (auto simp: dist_ok_def d hydrate_trial_ok(1) sorted_sort_by_int)
  show "list_all (sample_ok identity) samples"
    using assms by (auto simp: NewServiceDistribution_def split: if_splits)
qed

section \<open>The empirical distribution function\<close>

definition eligible_trial :: "int option \<Rightarrow> serviceTrial \<Rightarrow> bool" where
  "eligible_trial gap t \<longleftrightarrow> (case nearest t gap of (a, b, _, _) \<Rightarrow> a @ b \<noteq> [])"

definition trial_share :: "int option \<Rightarrow> int \<Rightarrow> serviceTrial \<Rightarrow> f64" where
  "trial_share gap value t = (case nearest t gap of (a, b, _, _) \<Rightarrow>
     f_div (f_of_int (int (serviceUpperBound a value + serviceUpperBound b value)))
       (f_of_int (int (length a + length b))))"

lemma mass_step_eq:
  "mass_step gap value m t = (if eligible_trial gap t then f_add m (trial_share gap value t) else m)"
  by (auto simp: mass_step_def eligible_trial_def trial_share_def split: prod.splits)

lemma support_count:
  "cs_trialCount (foldl (support_step gap) s ts) = cs_trialCount s + length (filter (eligible_trial gap) ts)"
  by (induction ts arbitrary: s) (auto simp: support_step_def eligible_trial_def split: prod.splits)

definition small_trial :: "serviceTrial \<Rightarrow> bool" where
  "small_trial t \<longleftrightarrow> trial_ok t \<and> length (trial_rows t) \<le> 4503599627370496"

lemma part_length:
  assumes "x \<in> {[], st_startup t} \<union> sg_samples ` set (st_groups t)"
  shows "length x \<le> length (trial_rows t)"
proof -
  have "length (sg_samples g) \<le> length (concat (map sg_samples gs))" if "g \<in> set gs" for g gs
    using that by (induction gs) auto
  then show ?thesis using assms by (auto simp: trial_rows_def intro: le_trans trans_le_add2)
qed

lemma share_counts:
  assumes "small_trial t" "nearest t gap = (a, b, distance, outside)"
  shows "int (serviceUpperBound a v + serviceUpperBound b v) \<le> int (length a + length b)"
    and "int (length a + length b) \<le> 9007199254740992"
  using part_length [OF nearest_parts(1) [OF assms(2)]] part_length [OF nearest_parts(2) [OF assms(2)]]
    upper_bound_le [of a v] upper_bound_le [of b v] assms(1) by (auto simp: small_trial_def)

lemma share_mono:
  assumes "small_trial t" "eligible_trial gap t" "v \<le> w"
  shows "f_leq (trial_share gap v t) (trial_share gap w t)" "f_leq f_zero (trial_share gap v t)"
    "wf_f64 (trial_share gap v t)"
proof -
  obtain a b x y where nr: "nearest t gap = (a, b, x, y)" by (cases "nearest t gap") auto
  have t: "trial_ok t" using assms(1) by (simp add: small_trial_def)
  let ?c = "\<lambda>v. int (serviceUpperBound a v + serviceUpperBound b v)"
  let ?n = "int (length a + length b)"
  have n: "0 < ?n" "?n \<le> 9007199254740992"
    using assms(2) nr share_counts(2) [OF assms(1) nr] by (cases a; cases b; simp add: eligible_trial_def)+
  have c: "0 \<le> ?c v" "?c v \<le> ?c w" "?c w \<le> ?n"
    using share_counts(1) [OF assms(1) nr] upper_bound_mono [OF _ assms(3)] nearest_rows [OF t nr]
    by (simp_all add: add_mono)
  have share: "trial_share gap u t = f_div (f_of_int (?c u)) (Fin False (of_int ?n))" for u
    using n nr by (simp add: trial_share_def f_of_int_small)
  show "f_leq (trial_share gap v t) (trial_share gap w t)"
    unfolding share using c n by (intro f_div_mono_wf) (simp_all add: f_leq_of_int)
  have "f_leq (f_div (f_of_int 0) (Fin False (of_int ?n))) (trial_share gap v t)"
    unfolding share using c n by (intro f_div_mono_wf) (simp_all add: f_leq_of_int del: f_of_int_0)
  then show "f_leq f_zero (trial_share gap v t)"
    using n by (simp add: round_f64_def round_mag_def)
  show "wf_f64 (trial_share gap v t)"
    unfolding share using n c by (simp add: f_of_int_small)
qed

lemma f_add_wf: "wf_f64 a \<Longrightarrow> wf_f64 b \<Longrightarrow> wf_f64 (f_add a b)"
  by (cases a; cases b) (auto simp: Let_def)

lemma mass_mono:
  assumes "\<forall>t \<in> set ts. small_trial t" "v \<le> w" "f_leq f_zero m" "f_leq m m'" "wf_f64 m" "wf_f64 m'"
  shows "f_leq f_zero (foldl (mass_step gap v) m ts)
    \<and> f_leq (foldl (mass_step gap v) m ts) (foldl (mass_step gap w) m' ts)
    \<and> wf_f64 (foldl (mass_step gap v) m ts) \<and> wf_f64 (foldl (mass_step gap w) m' ts)"
  using assms
proof (induction ts arbitrary: m m')
  case (Cons t ts)
  show ?case
  proof (cases "eligible_trial gap t")
    case False
    with Cons show ?thesis by (simp add: mass_step_eq)
  next
    case True
    from Cons.prems have t: "small_trial t" by simp
    note sv = share_mono [OF t True Cons.prems(2)]
    note sw = share_mono [OF t True order_refl [of w]]
    have m': "f_leq f_zero m'" using Cons.prems by (blast intro: f_leq_trans)
    have nn: "f_leq f_zero (f_add m (trial_share gap v t))" "f_leq f_zero (f_add m' (trial_share gap v t))"
      "f_leq f_zero (f_add m' (trial_share gap w t))"
      using f_add_nonneg Cons.prems(3) m' sv(2) sw(2) by blast+
    have "f_leq (f_add m (trial_share gap v t)) (f_add m' (trial_share gap w t))"
      using nn by (intro f_add_mono Cons.prems(4) sv(1)) (auto dest: f_leq_not_nan)
    moreover have "wf_f64 (f_add m (trial_share gap v t))" "wf_f64 (f_add m' (trial_share gap w t))"
      using f_add_wf Cons.prems sv(3) sw(3) by blast+
    ultimately show ?thesis using Cons.IH Cons.prems(1,2) nn(1) True by (simp add: mass_step_eq)
  qed
qed simp

section \<open>Quantiles\<close>

definition small_dist :: "ServiceDistribution \<Rightarrow> bool" where
  "small_dist d \<longleftrightarrow> dist_ok d \<and> length (sd_services d) \<le> 4503599627370496"

definition query_ok :: "int option \<Rightarrow> bool" where
  "query_ok gap \<longleftrightarrow> (case gap of None \<Rightarrow> True | Some g \<Rightarrow> 0 \<le> g)"

definition percentile_ok :: "f64 \<Rightarrow> bool" where
  "percentile_ok p \<longleftrightarrow> wf_f64 p \<and> f_leq f_zero p \<and> f_leq p (f_of_int 100)"

definition eligible_count :: "ServiceDistribution \<Rightarrow> int option \<Rightarrow> nat" where
  "eligible_count d gap = (if query_ok gap then length (filter (eligible_trial gap) (sd_trials d)) else 0)"

lemma support_trials: "cs_trialCount (support (Some d) gap) = eligible_count d gap"
  by (auto simp: support_def eligible_count_def query_ok_def empty_support_def support_count split: option.splits)

lemma services_length: "dist_ok d \<Longrightarrow> length (sd_services d) = length (dist_rows d)"
  unfolding dist_ok_def by (metis length_map size_mset)

lemma length_part: "t \<in> set ts \<Longrightarrow> length (f t) \<le> length (concat (map f ts))"
  by (induction ts) auto

lemma small_dist_trials:
  assumes "small_dist d" "t \<in> set (sd_trials d)"
  shows "small_trial t"
proof -
  have "length (trial_rows t) \<le> length (dist_rows d)"
    unfolding dist_rows_def using assms(2) by (rule length_part)
  then show ?thesis
    using assms services_length [of d] by (auto simp: small_trial_def small_dist_def dist_ok_def)
qed

lemma eligible_rows: "trial_ok t \<Longrightarrow> eligible_trial gap t \<Longrightarrow> trial_rows t \<noteq> []"
  using nearest_rows(3,4) by (fastforce simp: eligible_trial_def split: prod.splits)

lemma eligible_count_le:
  assumes "dist_ok d"
  shows "eligible_count d gap \<le> length (sd_services d)"
proof -
  have "length (filter (eligible_trial gap) ts) \<le> length (concat (map trial_rows ts))"
    if "\<forall>t \<in> set ts. trial_ok t" for ts
    using that
  proof (induction ts)
    case (Cons t ts)
    have "eligible_trial gap t \<Longrightarrow> 0 < length (trial_rows t)"
      using eligible_rows [of t gap] Cons.prems by simp
    moreover have "length (filter (eligible_trial gap) ts) \<le> length (concat (map trial_rows ts))"
      using Cons by simp
    ultimately have "eligible_trial gap t \<Longrightarrow>
        1 + length (filter (eligible_trial gap) ts) \<le> length (trial_rows t) + length (concat (map trial_rows ts))"
      and "length (filter (eligible_trial gap) ts) \<le> length (trial_rows t) + length (concat (map trial_rows ts))"
      by linarith+
    then show ?case by simp
  qed simp
  then show ?thesis
    using assms services_length [OF assms] by (auto simp: eligible_count_def dist_rows_def dist_ok_def)
qed

lemma mass_upto_mono:
  assumes "small_dist d" "v \<le> w"
  shows "f_leq f_zero (mass_upto d gap v)" "f_leq (mass_upto d gap v) (mass_upto d gap w)"
    "wf_f64 (mass_upto d gap v)"
  using mass_mono [of "sd_trials d" v w f_zero f_zero gap] small_dist_trials [OF assms(1)] assms(2)
  by (auto simp: mass_upto_def f_leq_refl)

lemma f_less_leq_trans: "f_less a b \<Longrightarrow> f_leq b c \<Longrightarrow> f_less a c"
  unfolding f_leq_def using f_less_trans f_less_eq_trans by blast

lemma reached_mono:
  assumes "small_dist d" "v \<le> w" "0 < k" "k \<le> 9007199254740992" "quantile_reached d gap k p v"
  shows "quantile_reached d gap k p w"
proof -
  note m = mass_upto_mono [OF assms(1,2), of gap]
  have "f_leq (f_div (mass_upto d gap v) (Fin False (of_int (int k))))
      (f_div (mass_upto d gap w) (Fin False (of_int (int k))))"
    using m mass_upto_mono(3) [OF assms(1) order_refl] assms(3) by (intro f_div_mono_wf) simp_all
  moreover have "f_of_int (int k) = Fin False (of_int (int k))" using assms(4) by (simp add: f_of_int_small)
  ultimately show ?thesis
    using assms(5) m(2) f_less_leq_trans f_leq_trans by (auto simp: quantile_reached_def Let_def)
qed

text \<open>Every trial contributes exactly one once all its rows are counted.\<close>

lemma full_share:
  assumes "small_trial t" "eligible_trial gap t" "\<forall>s \<in> set (trial_rows t). ss_serviceDurationNanos s \<le> v"
  shows "trial_share gap v t = f_of_int 1"
proof -
  obtain a b x y where nr: "nearest t gap = (a, b, x, y)" by (cases "nearest t gap") auto
  have t: "trial_ok t" using assms(1) by (simp add: small_trial_def)
  note rows = nearest_rows [OF t nr]
  have "serviceUpperBound a v = length a" "serviceUpperBound b v = length b"
    using rows assms(3) by (auto simp: upper_bound_count subset_iff intro!: arg_cong [where f = length] filter_True)
  moreover have "0 < int (length a) + int (length b)"
    using assms(2) nr by (cases a; cases b; simp add: eligible_trial_def)
  ultimately show ?thesis
    using nr f_div_of_int [of 1 "int (length a + length b)"] share_counts(2) [OF assms(1) nr]
    by (simp add: trial_share_def)
qed

lemma full_mass:
  assumes "\<forall>t \<in> set ts. small_trial t \<and> (\<forall>s \<in> set (trial_rows t). ss_serviceDurationNanos s \<le> v)"
    and "0 \<le> j" "j + int (length (filter (eligible_trial gap) ts)) \<le> 9007199254740992"
  shows "foldl (mass_step gap v) (f_of_int j) ts = f_of_int (j + int (length (filter (eligible_trial gap) ts)))"
  using assms
proof (induction ts arbitrary: j)
  case (Cons t ts)
  show ?case
  proof (cases "eligible_trial gap t")
    case True
    with Cons.prems have "mass_step gap v (f_of_int j) t = f_of_int (j + 1)"
      using full_share [of t gap v] f_add_of_int [of j 1] by (simp add: mass_step_eq)
    with True Cons.IH [of "j + 1"] Cons.prems show ?thesis by (simp add: ac_simps)
  next
    case False
    with Cons show ?thesis by (simp add: mass_step_eq)
  qed
qed simp

lemma last_reached:
  assumes "small_dist d" "0 < eligible_count d gap" "percentile_ok p"
    and "\<forall>s \<in> set (dist_rows d). ss_serviceDurationNanos s \<le> v"
  shows "quantile_reached d gap (eligible_count d gap) p v"
proof -
  let ?k = "eligible_count d gap"
  have le: "?k \<le> 9007199254740992"
    using eligible_count_le [of d gap] assms(1) by (auto simp: small_dist_def)
  have k: "?k = length (filter (eligible_trial gap) (sd_trials d))"
    using assms(2) by (simp add: eligible_count_def split: if_splits)
  have "mass_upto d gap v = f_of_int (int ?k)"
    using full_mass [of "sd_trials d" v 0 gap] small_dist_trials [OF assms(1)] assms(4) le
    by (auto simp: mass_upto_def k dist_rows_def)
  moreover have "f_div (f_of_int (int ?k)) (f_of_int (int ?k)) = f_of_int 1"
    using f_div_of_int [of 1 "int ?k"] le assms(2) by simp
  moreover have "f_leq (f_div p (Fin False 100)) (f_div (Fin False 100) (Fin False 100))"
    using assms(3) by (intro f_div_mono_wf) (simp_all add: percentile_ok_def f_of_int_small)
  moreover have "f_div (Fin False 100) (Fin False 100) = f_of_int 1"
    using f_div_of_int [of 1 100] by (simp add: f_of_int_small)
  moreover have "f_less f_zero (f_of_int (int ?k))"
    using f_less_of_int [of 0 "int ?k"] le assms(2) by simp
  ultimately show ?thesis by (simp add: quantile_reached_def f_of_int_small [of 100])
qed

lemma percentile_cases:
  "percentile_ok p \<Longrightarrow> \<not> (is_nan p \<or> f_less p f_zero \<or> f_less (f_of_int 100) p)"
  using f_leq_not_nan f_not_less by (fastforce simp: percentile_ok_def)

lemma quantile_eq:
  assumes "0 < eligible_count d gap" "percentile_ok p"
  shows "QuantileNanos (Some d) gap p =
    (let index = go_search (length (sd_services d))
        (\<lambda>i. quantile_reached d gap (eligible_count d gap) p (sd_services d ! i))
     in if index = length (sd_services d) then (0, support (Some d) gap, False)
        else (sd_services d ! index, support (Some d) gap, True))"
  using assms percentile_cases [OF assms(2)] by (simp add: QuantileNanos_def Let_def support_trials)

lemma quantile_search:
  assumes "small_dist d" "0 < eligible_count d gap" "i < length (sd_services d)"
  shows "quantile_reached d gap (eligible_count d gap) p (sd_services d ! i) \<longleftrightarrow>
    go_search (length (sd_services d))
      (\<lambda>i. quantile_reached d gap (eligible_count d gap) p (sd_services d ! i)) \<le> i"
proof (rule go_search_least [OF _ assms(3)])
  fix i j assume "i \<le> j" "j < length (sd_services d)"
    and r: "quantile_reached d gap (eligible_count d gap) p (sd_services d ! i)"
  then have "sd_services d ! i \<le> sd_services d ! j"
    using assms(1) by (simp add: small_dist_def dist_ok_def sorted_nth_mono)
  moreover have "eligible_count d gap \<le> 9007199254740992"
    using eligible_count_le [of d gap] assms(1) by (auto simp: small_dist_def)
  ultimately show "quantile_reached d gap (eligible_count d gap) p (sd_services d ! j)"
    using reached_mono [OF assms(1) _ assms(2) _ r] by simp
qed

text \<open>The least measured service time whose mass reaches the percentile.\<close>

lemma quantile_inverse:
  assumes "small_dist d" "0 < eligible_count d gap" "percentile_ok p"
  shows "\<exists>v. QuantileNanos (Some d) gap p = (v, support (Some d) gap, True) \<and> v \<in> set (sd_services d) \<and>
    (\<forall>u \<in> set (sd_services d). quantile_reached d gap (eligible_count d gap) p u \<longleftrightarrow> v \<le> u)"
proof -
  let ?S = "sd_services d" and ?n = "length (sd_services d)"
  let ?R = "\<lambda>u. quantile_reached d gap (eligible_count d gap) p u"
  define k where "k = go_search ?n (\<lambda>i. ?R (?S ! i))"
  have ok: "dist_ok d" using assms(1) by (simp add: small_dist_def)
  then have srt: "sorted ?S" by (simp add: dist_ok_def)
  have n: "0 < ?n" using eligible_count_le [OF ok, of gap] assms(2) by linarith
  have top: "\<forall>x \<in> set ?S. x \<le> ?S ! (?n - 1)"
    using srt n by (auto simp: in_set_conv_nth intro!: sorted_nth_mono)
  have "set ?S = ss_serviceDurationNanos ` set (dist_rows d)"
    using ok unfolding dist_ok_def by (metis list.set_map set_mset_mset)
  then have "\<forall>s \<in> set (dist_rows d). ss_serviceDurationNanos s \<le> ?S ! (?n - 1)"
    using top by auto
  then have "?R (?S ! (?n - 1))" by (rule last_reached [OF assms])
  then have "k \<le> ?n - 1" using quantile_search [OF assms(1,2), of "?n - 1" p] n by (simp add: k_def)
  with n have kn: "k < ?n" by linarith
  have Rk: "?R (?S ! k)" using quantile_search [OF assms(1,2) kn] by (simp add: k_def)
  have le: "eligible_count d gap \<le> 9007199254740992"
    using eligible_count_le [OF ok, of gap] assms(1) by (auto simp: small_dist_def)
  have "?R u \<longleftrightarrow> ?S ! k \<le> u" if mem: "u \<in> set ?S" for u
  proof
    assume "?R u"
    obtain i where i: "i < ?n" "u = ?S ! i" using mem by (auto simp: in_set_conv_nth)
    then have "k \<le> i" using \<open>?R u\<close> quantile_search [OF assms(1,2) i(1)] by (simp add: k_def)
    with i srt show "?S ! k \<le> u" by (simp add: sorted_nth_mono)
  next
    assume "?S ! k \<le> u"
    with Rk show "?R u" using reached_mono [OF assms(1) _ assms(2) le] by blast
  qed
  moreover have "QuantileNanos (Some d) gap p = (?S ! k, support (Some d) gap, True)"
    using kn by (simp add: quantile_eq [OF assms(2,3)] Let_def k_def [symmetric])
  ultimately show ?thesis using kn by (auto intro!: exI [of _ "?S ! k"])
qed

text \<open>
  C29: the quantile query is the inverse of the empirical distribution function.
\<close>

theorem quantile_is_inverse_cdf:
  assumes "small_dist d" "0 < eligible_count d gap" "percentile_ok p"
  shows "\<exists>v. QuantileNanos (Some d) gap p = (v, support (Some d) gap, True) \<and> v \<in> set (sd_services d) \<and>
    (\<forall>u \<in> set (sd_services d). quantile_reached d gap (eligible_count d gap) p u \<longleftrightarrow> v \<le> u)"
  by (rule quantile_inverse [OF assms])

text \<open>
  A larger percentile never gives a smaller service time.
\<close>

lemma quantile_monotone:
  assumes "small_dist d" "0 < eligible_count d gap" "percentile_ok p" "percentile_ok q" "f_leq p q"
  shows "fst (QuantileNanos (Some d) gap p) \<le> fst (QuantileNanos (Some d) gap q)"
proof -
  obtain v where v: "QuantileNanos (Some d) gap p = (v, support (Some d) gap, True)"
    "\<forall>u \<in> set (sd_services d). quantile_reached d gap (eligible_count d gap) p u \<longleftrightarrow> v \<le> u"
    using quantile_inverse [OF assms(1-3)] by blast
  obtain w where w: "QuantileNanos (Some d) gap q = (w, support (Some d) gap, True)" "w \<in> set (sd_services d)"
    "quantile_reached d gap (eligible_count d gap) q w"
    using quantile_inverse [OF assms(1,2,4)] by blast
  have "f_leq (f_div p (Fin False 100)) (f_div q (Fin False 100))"
    using assms by (intro f_div_mono_wf) (simp_all add: percentile_ok_def)
  then have "quantile_reached d gap (eligible_count d gap) p w"
    using w(3) f_leq_trans by (auto simp: quantile_reached_def Let_def f_of_int_small [of 100])
  with v w show ?thesis by simp
qed


definition nearest_has :: "serviceTrial \<Rightarrow> int option \<Rightarrow> ServiceSample \<Rightarrow> bool" where
  "nearest_has t gap s \<longleftrightarrow> (case nearest t gap of (a, b, _, _) \<Rightarrow> s \<in> set (a @ b))"

text \<open>
  C37: a query the distribution supports always samples a row. With draws in range
  (\<open>IntN(n) < n\<close>), \<open>Sample\<close> does not panic; the row is one of the measured rows and belongs
  to the nearest rows of an eligible trial.
\<close>

theorem sample_is_measured:
  assumes "dist_ok d" "0 < eligible_count d gap" "\<forall>n. 0 < n \<longrightarrow> draw1 n < n" "\<forall>n. 0 < n \<longrightarrow> draw2 n < n"
  shows "\<exists>s. Sample (Some d) gap draw1 draw2 = Some (s, support (Some d) gap, True) \<and> s \<in> set (dist_rows d)
    \<and> (\<exists>t \<in> set (sd_trials d). nearest_has t gap s)"
proof -
  have loop: "\<exists>s t. sample_loop ts gap k draw2 = Some s \<and> t \<in> set ts \<and>
      nearest_has t gap s"
    if "k < length (filter (eligible_trial gap) ts)" for ts k
    using that
  proof (induction ts arbitrary: k)
    case (Cons t ts)
    obtain a b x y where nr: "nearest t gap = (a, b, x, y)" by (cases "nearest t gap") auto
    show ?case
    proof (cases "a @ b = []")
      case True
      then have "\<not> eligible_trial gap t" using nr by (simp add: eligible_trial_def)
      with Cons.IH [of k] Cons.prems True nr show ?thesis by auto
    next
      case nonempty: False
      then have el: "eligible_trial gap t" and pos: "0 < length a + length b"
        using nr by (auto simp: eligible_trial_def)
      show ?thesis
      proof (cases k)
        case 0
        let ?n = "draw2 (length a + length b)"
        let ?s = "if ?n < length a then a ! ?n else b ! (?n - length a)"
        have "?n < length a + length b" using assms(4) pos by blast
        then have "(a @ b) ! ?n \<in> set (a @ b)" by (intro nth_mem) simp
        then have "?s \<in> set (a @ b)" by (simp add: nth_append)
        moreover have "sample_loop (t # ts) gap k draw2 = Some ?s" using 0 nr pos by (auto simp: Let_def)
        ultimately show ?thesis using nr by (intro exI [of _ ?s] exI [of _ t]) (auto simp: nearest_has_def)
      next
        case (Suc j)
        with Cons.IH [of j] Cons.prems el nr pos show ?thesis by (auto simp: Let_def)
      qed
    qed
  qed simp
  let ?k = "eligible_count d gap"
  have k: "?k = length (filter (eligible_trial gap) (sd_trials d))"
    using assms(2) by (simp add: eligible_count_def split: if_splits)
  have "draw1 ?k < length (filter (eligible_trial gap) (sd_trials d))" using assms(2,3) k by metis
  from loop [OF this] obtain s t where st: "sample_loop (sd_trials d) gap (draw1 ?k) draw2 = Some s"
    "t \<in> set (sd_trials d)" "nearest_has t gap s" by blast
  obtain a b x y where nr: "nearest t gap = (a, b, x, y)" by (cases "nearest t gap") auto
  have "trial_ok t" using assms(1) st(2) by (simp add: dist_ok_def)
  from nearest_rows(3,4) [OF this nr] st(2,3) nr have "s \<in> set (dist_rows d)"
    by (auto simp: dist_rows_def nearest_has_def)
  moreover have "Sample (Some d) gap draw1 draw2 = Some (s, support (Some d) gap, True)"
    using assms(2) st(1) by (simp add: Sample_def support_trials)
  ultimately show ?thesis using st by blast
qed

text \<open>A residual sample has survived the elapsed time.\<close>

lemma residual_survives:
  assumes "\<forall>t \<in> set ts. trial_ok t" "\<forall>n. 0 < n \<longrightarrow> intN n < n"
    and "residual_loop ts gap elapsed pick intN = Some s"
  shows "elapsed < ss_serviceDurationNanos s \<and> s \<in> set (concat (map trial_rows ts))"
  using assms
proof (induction ts arbitrary: pick)
  case (Cons t ts)
  obtain a b x y where nr: "nearest t gap = (a, b, x, y)" by (cases "nearest t gap") auto
  have t: "trial_ok t" using Cons.prems by simp
  note rows = nearest_rows [OF t nr]
  let ?ai = "serviceUpperBound a elapsed" and ?bi = "serviceUpperBound b elapsed"
  let ?n = "length a + length b"
  let ?sv = "?n - ?ai - ?bi"
  let ?pick = "f_sub pick (f_div (f_of_int (int ?sv)) (f_of_int (int ?n)))"
  note le = upper_bound_le [of a elapsed] upper_bound_le [of b elapsed]
  show ?case
  proof (cases "?n = 0 \<or> ?sv = 0 \<or> \<not> f_less ?pick f_zero")
    case True
    then have "\<exists>pick'. residual_loop ts gap elapsed pick' intN = Some s"
      using Cons.prems(3) nr by (auto simp: Let_def split: if_splits)
    then show ?thesis using Cons.IH Cons.prems(1,2) by fastforce
  next
    case False
    let ?j = "intN ?sv"
    have j: "?j < ?sv" using False Cons.prems(2) by auto
    have s: "s = (if ?j < length a - ?ai then a ! (?ai + ?j) else b ! (?bi + ?j - (length a - ?ai)))"
      using False Cons.prems(3) nr by (auto simp: Let_def split: if_splits)
    show ?thesis
    proof (cases "?j < length a - ?ai")
      case True
      then have "?ai + ?j < length a" by linarith
      with upper_bound_position [OF rows(1) this, of elapsed] rows(3) s True nth_mem [OF this]
      show ?thesis by auto
    next
      case right: False
      define k where "k = ?bi + ?j - (length a - ?ai)"
      have k: "k < length b" "?bi \<le> k" using j right le by (simp_all add: k_def)
      have "s = b ! k" using right s by (simp add: k_def)
      with upper_bound_position [OF rows(2) k(1), of elapsed] rows(4) k(2) nth_mem [OF k(1)]
      show ?thesis by auto
    qed
  qed
qed simp

text \<open>
  A residual sample has survived. Whatever the uniform draw, a row returned by
  \<open>SampleResidual\<close> is a measured row whose service time exceeds the elapsed time.
\<close>

lemma residual_sample_survives:
  assumes "dist_ok d" "\<forall>n. 0 < n \<longrightarrow> intN n < n"
    and "SampleResidual (Some d) gap elapsed u intN = Some (s, out, True)"
  shows "elapsed < ss_serviceDurationNanos s \<and> s \<in> set (dist_rows d)"
  using assms residual_survives [of "sd_trials d" intN gap elapsed _ s]
  by (auto simp: SampleResidual_def Let_def dist_ok_def dist_rows_def split: if_splits option.splits)

text \<open>
  Hydration keeps every measured row. The trials partition the rows, each trial keeps
  its startup rows and its groups in strictly increasing gap, every part sorted by service
  time, and the table of service times is the sorted list of the rows' service times.
\<close>

lemma hydration_partitions:
  assumes "NewServiceDistribution identity samples = Inr d"
  shows "(\<forall>t \<in> set (sd_trials d). trial_ok t) \<and> mset (dist_rows d) = mset samples
    \<and> sorted (sd_services d) \<and> mset (sd_services d) = mset (map ss_serviceDurationNanos samples)"
proof -
  note h = hydrated [OF assms]
  have "mset (map ss_serviceDurationNanos (dist_rows d)) = mset (map ss_serviceDurationNanos samples)"
    using h(2) by simp
  with h show ?thesis by (simp add: dist_ok_def)
qed

text \<open>
  The nearest rows. For a trial with measured gaps, a query gap selects exactly the rows
  of the groups at minimal distance, both neighbours on a tie; it reports that distance, and
  whether the gap lies outside the measured range.
\<close>

lemma nearest_is_minimal:
  assumes "trial_ok t" "st_groups t \<noteq> []" "gap_range g" "\<forall>h \<in> set (st_groups t). gap_range (sg_gap h)"
  shows "case nearest t (Some g) of (a, b, distance, outside) \<Rightarrow>
    set (a @ b) = (\<Union>h \<in> nearest_groups (st_groups t) g. set (sg_samples h))
    \<and> (\<forall>h \<in> nearest_groups (st_groups t) g. distance = \<bar>sg_gap h - g\<bar>)
    \<and> (outside \<longleftrightarrow> (\<forall>h \<in> set (st_groups t). g < sg_gap h) \<or> (\<forall>h \<in> set (st_groups t). sg_gap h < g))"
  using nearest_spec [OF assms] by (auto split: prod.splits)

section \<open>The panic of SampleResidual\<close>

definition demo_trial :: "string \<Rightarrow> nat \<Rightarrow> nat \<Rightarrow> ServiceSample list" where
  "demo_trial tid slow fast =
     replicate slow \<lparr>ss_serviceDurationNanos = 20, ss_precedingIdleNanos = Some 0, ss_trialID = tid\<rparr>
     @ replicate fast \<lparr>ss_serviceDurationNanos = 5, ss_precedingIdleNanos = Some 0, ss_trialID = tid\<rparr>"

definition demo_dist :: ServiceDistribution where
  "demo_dist = (case NewServiceDistribution (\<lambda>_. True) (demo_trial ''a'' 3 4 @ demo_trial ''b'' 4 3) of
     Inl _ \<Rightarrow> \<lparr>sd_trials = [], sd_services = []\<rparr> | Inr d \<Rightarrow> d)"


definition demo_row :: "string \<Rightarrow> int \<Rightarrow> ServiceSample" where
  "demo_row tid d = \<lparr>ss_serviceDurationNanos = d, ss_precedingIdleNanos = Some 0, ss_trialID = tid\<rparr>"

definition demo_hydrated :: "string \<Rightarrow> nat \<Rightarrow> nat \<Rightarrow> serviceTrial" where
  "demo_hydrated tid slow fast = \<lparr>st_startup = [], st_groups = [\<lparr>sg_gap = 0,
     sg_samples = replicate fast (demo_row tid 5) @ replicate slow (demo_row tid 20)\<rparr>]\<rparr>"

lemma demo_dist_eq:
  "sd_trials demo_dist = [demo_hydrated ''a'' 3 4, demo_hydrated ''b'' 4 3]"
  by code_simp

lemma demo_nearest:
  "nearest (demo_hydrated tid slow fast) (Some 0) =
     (replicate fast (demo_row tid 5) @ replicate slow (demo_row tid 20), [], 0, False)"
  by (simp add: nearest_def demo_hydrated_def go_search_def go_search_loop.simps Let_def wrap64_def)

lemma demo_upper:
  "serviceUpperBound (replicate fast (demo_row tid 5) @ replicate slow (demo_row tid 20)) 10 = fast"
  by (subst upper_bound_count) (auto simp: by_service_def sorted_wrt_iff_nth_less nth_append demo_row_def)

lemma demo_upper_empty: "serviceUpperBound [] 10 = 0"
  using upper_bound_le [of "[]" 10] by simp

lemma demo_fractions:
  "f_div (f_of_int 3) (f_of_int 7) = Fin False (7720456504063707 / 18014398509481984)"
  "f_div (f_of_int 4) (f_of_int 7) = Fin False (2573485501354569 / 4503599627370496)"
  "f_add f_zero (Fin False (7720456504063707 / 18014398509481984))
     = Fin False (7720456504063707 / 18014398509481984)"
  "f_add (Fin False (7720456504063707 / 18014398509481984)) (Fin False (2573485501354569 / 4503599627370496))
     = Fin False 1"
  "f_mul (Fin False (9007199254740991 / 9007199254740992)) (Fin False 1)
     = Fin False (9007199254740991 / 9007199254740992)"
  "f_sub (Fin False (9007199254740991 / 9007199254740992)) (Fin False (7720456504063707 / 18014398509481984))
     = Fin False (2573485501354569 / 4503599627370496)"
  "f_sub (Fin False (2573485501354569 / 4503599627370496)) (Fin False (2573485501354569 / 4503599627370496))
     = f_zero"
  by code_simp+

lemma demo_less:
  "f_mul f_zero (Fin False 1) = f_zero"
  "f_less (f_sub f_zero (Fin False (7720456504063707 / 18014398509481984))) f_zero"
  by code_simp+

lemma demo_support: "support (Some demo_dist) (Some 0) =
    \<lparr>cs_distanceNanos = 0, cs_trialCount = 2, cs_outsideSupport = False\<rparr>"
  by (simp add: support_def demo_dist_eq support_step_def empty_support_def demo_nearest)

text \<open>
  An example: \<open>SampleResidual\<close> can panic. Of seven services of a first trial three survive 10 ns, of
  a second four; the shares 3/7 and 4/7 round so that, with the largest value of
  \<open>Float64()\<close>, the running difference never becomes negative: the loop ends at
  \<open>panic("surviving trial missing")\<close> although both trials have survivors.
\<close>

lemma residual_panic:
  "SampleResidual (Some demo_dist) (Some 0) 10
     (Fin False (9007199254740991 / 9007199254740992)) (\<lambda>_. 0) = None
   \<and> cs_trialCount (support (Some demo_dist) (Some 0)) = 2"
  by (simp add: SampleResidual_def demo_support demo_dist_eq residual_step_def demo_nearest demo_upper demo_upper_empty
      demo_fractions Let_def f_eq_def f_less_def
      del: f_add.simps f_mul.simps f_div.simps)

section \<open>Witnesses\<close>

lemma demo_hydrates:
  "NewServiceDistribution (\<lambda>_. True) (demo_trial ''a'' 3 4 @ demo_trial ''b'' 4 3) = Inr demo_dist"
  by (simp add: demo_dist_def NewServiceDistribution_def demo_trial_def sample_ok_def list_all_iff)

lemma demo_small: "small_dist demo_dist"
proof -
  have "mset (sd_services demo_dist) = mset (map ss_serviceDurationNanos (demo_trial ''a'' 3 4 @ demo_trial ''b'' 4 3))"
    using hydrated [OF demo_hydrates] by (simp add: dist_ok_def)
  from mset_eq_length [OF this] have "length (sd_services demo_dist) = 14" by (simp add: demo_trial_def)
  then show ?thesis using hydrated(1) [OF demo_hydrates] by (simp add: small_dist_def)
qed

lemma demo_eligible: "eligible_count demo_dist (Some 0) = 2"
  using support_trials [of demo_dist "Some 0"] by (simp add: demo_support)

lemma demo_percentiles: "percentile_ok (f_of_int 50)" "percentile_ok (f_of_int 95)" "f_leq (f_of_int 50) (f_of_int 95)"
  using f_leq_of_int [of 0] f_leq_of_int [of _ 100] by (simp_all add: percentile_ok_def f_leq_of_int)

lemma hydration_partitions_witness:
  "mset (dist_rows demo_dist) = mset (demo_trial ''a'' 3 4 @ demo_trial ''b'' 4 3)"
  using hydration_partitions [OF demo_hydrates] by simp

lemma nearest_is_minimal_witness:
  "case nearest (demo_hydrated ''a'' 1 1) (Some 7) of (a, b, distance, outside) \<Rightarrow>
     set (a @ b) = {demo_row ''a'' 5, demo_row ''a'' 20} \<and> distance = 7 \<and> outside"
  using nearest_is_minimal [of "demo_hydrated ''a'' 1 1" 7]
  by (simp add: demo_hydrated_def demo_row_def trial_ok_def group_ok_def by_service_def gap_range_def
      max_int64_def nearest_groups_def insert_commute split: prod.splits)

theorem quantile_is_inverse_cdf_witness:
  "\<exists>v \<in> set (sd_services demo_dist).
     QuantileNanos (Some demo_dist) (Some 0) (f_of_int 50) = (v, support (Some demo_dist) (Some 0), True)"
  using quantile_is_inverse_cdf [OF demo_small _ demo_percentiles(1), of "Some 0"] demo_eligible by auto

lemma quantile_monotone_witness:
  "fst (QuantileNanos (Some demo_dist) (Some 0) (f_of_int 50))
     \<le> fst (QuantileNanos (Some demo_dist) (Some 0) (f_of_int 95))"
  by (rule quantile_monotone [OF demo_small _ demo_percentiles]) (simp add: demo_eligible)

theorem sample_is_measured_witness:
  "\<exists>s \<in> set (dist_rows demo_dist). Sample (Some demo_dist) (Some 0) (\<lambda>_. 0) (\<lambda>_. 0)
     = Some (s, support (Some demo_dist) (Some 0), True)"
  using sample_is_measured [of demo_dist "Some 0" "\<lambda>_. 0" "\<lambda>_. 0"] demo_small demo_eligible
  by (auto simp: small_dist_def)

lemma residual_sample_survives_witness:
  "10 < ss_serviceDurationNanos (demo_row ''a'' 20) \<and> demo_row ''a'' 20 \<in> set (dist_rows demo_dist)"
proof (rule residual_sample_survives)
  show "dist_ok demo_dist" using demo_small by (simp add: small_dist_def)
  show "\<forall>n. 0 < n \<longrightarrow> (\<lambda>_. 0) n < (n :: nat)" by simp
  show "SampleResidual (Some demo_dist) (Some 0) 10 f_zero (\<lambda>_. 0)
      = Some (demo_row ''a'' 20, support (Some demo_dist) (Some 0), True)"
    by (simp add: SampleResidual_def demo_support demo_dist_eq residual_step_def demo_nearest demo_upper
      demo_upper_empty demo_fractions demo_less Let_def f_eq_def nth_append
      del: f_add.simps f_mul.simps f_div.simps)
qed

end
