(* ===== verification/FFPolicy.thy ===== *)
theory FFPolicy
  imports FFTypes
begin

text \<open>
  \<open>internal/firstfloor/policy.go\<close>: which requests the native executor batches next,
  from a snapshot of its queue. An index is a natural number and Go's sentinel -1 is None.
  \<open>oor\<close> is the platform's conversion of out-of-range floats to int64.
\<close>

section \<open>Slack and eligibility\<close>

definition serviceCost :: "BatchProfile \<Rightarrow> f64 \<Rightarrow> int option \<Rightarrow> f64" where
  "serviceCost b percentile gap =
     (let (value, _, ok) = QuantileNanos (bp_distribution b) gap percentile in
      if \<not> ok then f_inf else f_div (f_of_int value) (f_of_int 1000000))"

definition RemainingSLOMS :: "RequestState \<Rightarrow> f64" where
  "RemainingSLOMS r =
     f_sub (f_sub (slo_targetMS (rc_slo (rs_context r))) (rc_senderElapsedMS (rs_context r)))
       (rs_elapsedMS r)"

definition SLOExpired :: "RequestState \<Rightarrow> bool" where
  "SLOExpired r = f_leq (RemainingSLOMS r) f_zero"

definition requestSlack :: "RequestState \<Rightarrow> BatchProfile \<Rightarrow> int option \<Rightarrow> f64" where
  "requestSlack r b gap =
     f_sub (f_sub (RemainingSLOMS r) (rc_completionMarginMS (rs_context r)))
       (serviceCost b (slo_percentile (rc_slo (rs_context r))) gap)"

definition allowedBatch :: "Policy \<Rightarrow> int \<Rightarrow> bool" where
  "allowedBatch p k \<longleftrightarrow>
     0 \<le> p_maxBatchSize p \<and> (p_maxBatchSize p = 0 \<or> k \<le> p_maxBatchSize p)"

definition sameQueue :: "RequestState \<Rightarrow> RequestState \<Rightarrow> bool" where
  "sameQueue a b \<longleftrightarrow>
     rc_workloadUID (rs_context a) = rc_workloadUID (rs_context b) \<and>
     rc_definition (rs_context a) = rc_definition (rs_context b)"

definition minimumService :: "Policy \<Rightarrow> RequestState \<Rightarrow> int option \<Rightarrow> f64" where
  "minimumService p q gap =
     foldl (\<lambda>cost b. if allowedBatch p (bp_size b)
         then f_min cost (serviceCost b (slo_percentile (rc_slo (rs_context q))) gap) else cost)
       f_inf (p_batches p)"

definition normalRequest :: "RequestState \<Rightarrow> bool" where
  "normalRequest q \<longleftrightarrow> rs_phase q \<noteq> phaseRunning \<and> rs_phase q \<noteq> phaseDeferred
     \<and> rs_phase q \<noteq> phaseFinished"

section \<open>Earliest deadline first, stable\<close>

definition earlierEDF :: "RequestState list \<Rightarrow> nat \<Rightarrow> nat \<Rightarrow> bool" where
  "earlierEDF requests i j =
     (let a = RemainingSLOMS (requests ! i); b = RemainingSLOMS (requests ! j)
      in f_less a b \<or> f_eq a b \<and> i < j)"

definition next_deferred :: "RequestState list \<Rightarrow> nat \<Rightarrow> nat option \<Rightarrow> nat option" where
  "next_deferred requests head previous =
     (case find (\<lambda>i. \<not> (i < head \<or> (case previous of None \<Rightarrow> False | Some p \<Rightarrow> i \<le> p)
                        \<or> rs_phase (requests ! i) \<noteq> phaseDeferred)) [0..<length requests] of
        None \<Rightarrow> None
      | Some i \<Rightarrow> if sameQueue (requests ! i) (requests ! head) then Some i else None)"

definition after_previous :: "RequestState list \<Rightarrow> nat option \<Rightarrow> nat \<Rightarrow> bool" where
  "after_previous requests previous i =
     (case previous of None \<Rightarrow> True | Some p \<Rightarrow> earlierEDF requests p i)"

definition candidates :: "RequestState list \<Rightarrow> nat \<Rightarrow> nat list" where
  "candidates requests head =
     filter (\<lambda>i. normalRequest (requests ! i) \<and> sameQueue (requests ! i) (requests ! head))
       [0..<length requests]"

definition nextCompatible :: "RequestState list \<Rightarrow> nat \<Rightarrow> nat option \<Rightarrow> nat option" where
  "nextCompatible requests head previous =
     (if rs_phase (requests ! head) = phaseDeferred
      then next_deferred requests head previous
      else scan_best (earlierEDF requests) None
             (filter (after_previous requests previous) (candidates requests head)))"

definition compatibleCount :: "RequestState list \<Rightarrow> nat \<Rightarrow> nat" where
  "compatibleCount requests head =
     (if rs_phase (requests ! head) = phaseDeferred
      then length (takeWhile (\<lambda>i. sameQueue (requests ! i) (requests ! head))
             (filter (\<lambda>i. \<not> (i < head \<or> rs_phase (requests ! i) \<noteq> phaseDeferred))
                [0..<length requests]))
      else length (candidates requests head))"

fun feasible_loop ::
  "nat \<Rightarrow> RequestState list \<Rightarrow> nat \<Rightarrow> BatchProfile \<Rightarrow> int option \<Rightarrow> nat option \<Rightarrow> bool" where
  "feasible_loop 0 requests head b gap previous = True"
| "feasible_loop (Suc k) requests head b gap previous =
     (case nextCompatible requests head previous of
        None \<Rightarrow> False
      | Some i \<Rightarrow> if f_less (requestSlack (requests ! i) b gap) f_zero then False
                 else feasible_loop k requests head b gap (Some i))"

definition batchFeasible :: "RequestState list \<Rightarrow> nat \<Rightarrow> BatchProfile \<Rightarrow> int option \<Rightarrow> bool" where
  "batchFeasible requests head b gap = feasible_loop (nat (bp_size b)) requests head b gap None"

section \<open>The choice\<close>

definition queueHeads :: "RequestState list \<Rightarrow> nat option \<times> nat option \<times> bool" where
  "queueHeads requests =
     foldl (\<lambda>(head, deferred, active) i.
         let r = requests ! i in
         if rs_phase r = phaseRunning then (head, deferred, True)
         else if normalRequest r
         then (keep_best (earlierEDF requests) head i, deferred, active)
         else if rs_phase r = phaseDeferred \<and> deferred = None then (head, Some i, active)
         else (head, deferred, active))
       (None, None, False) [0..<length requests]"

definition chooseFixedBatch :: "int \<Rightarrow> RequestState list \<Rightarrow> BatchChoice" where
  "chooseFixedBatch k requests =
     (if \<exists>r \<in> set requests. rs_phase r = phaseRunning
      then zero_choice\<lparr>bc_reason := ''active''\<rparr>
      else case scan_best (earlierEDF requests) None
             (filter (\<lambda>i. normalRequest (requests ! i) \<and> k \<le> int (compatibleCount requests i))
                [0..<length requests]) of
        None \<Rightarrow> zero_choice\<lparr>bc_reason := ''fixed_batch_filling''\<rparr>
      | Some best \<Rightarrow>
          (let c = rs_context (requests ! best) in
           zero_choice\<lparr>bc_requestID := rc_requestID c, bc_workloadUID := rc_workloadUID c,
             bc_definition := rc_definition c, bc_size := k, bc_reason := ''fixed_batch''\<rparr>))"

text \<open>One queued request's bound on the additional wait (the inner loop of \<open>energyGainWait\<close>).\<close>

definition allowed_step ::
  "Policy \<Rightarrow> RequestState \<Rightarrow> BatchProfile \<Rightarrow> int option \<Rightarrow> f64 \<Rightarrow> RequestState \<Rightarrow> f64" where
  "allowed_step p r b futureGap allowed q =
     (if \<not> normalRequest q then allowed
      else
        (let slack = requestSlack q b futureGap in
         if sameQueue q r
         then f_min (f_min allowed (f_sub (p_maxBatchWaitMS p) (rs_queueMS q))) slack
         else f_min allowed (f_sub slack (minimumService p q (Some 0)))))"

definition fill_time :: "int \<Rightarrow> nat \<Rightarrow> f64 \<Rightarrow> f64" where
  "fill_time k n rate =
     f_mul (f_div (f_of_int (k - int n)) rate) (f_of_int 1000)"

fun gain_loop ::
  "(f64 \<Rightarrow> int) \<Rightarrow> Policy \<Rightarrow> RequestState list \<Rightarrow> RequestState \<Rightarrow> nat \<Rightarrow> BatchProfile
    \<Rightarrow> BatchChoice \<Rightarrow> int option \<Rightarrow> BatchProfile list \<Rightarrow> BatchChoice" where
  "gain_loop oor p requests r n available choice gapDecision [] = choice"
| "gain_loop oor p requests r n available choice gapDecision (b # bs) =
     (if bp_size b \<le> int n
         \<or> f_leq (bp_energyPerItemJ available) (bp_energyPerItemJ b)
         \<or> \<not> allowedBatch p (bp_size b)
      then gain_loop oor p requests r n available choice gapDecision bs
      else
        (let fill = fill_time (bp_size b) n (rs_arrivalRate r);
             futureGap = map_option
               (\<lambda>g. wrap64 (g + f_to_int64 oor (f_mul fill (f_of_int 1000000)))) gapDecision;
             allowed = foldl (allowed_step p r b futureGap) (p_maxBatchWaitMS p) requests
         in if f_less f_zero fill \<and> f_leq fill allowed
            then choice\<lparr>bc_size := 0, bc_waitMS := fill,
                   bc_reason := ''measured_energy_gain_fill''\<rparr>
            else gain_loop oor p requests r n available choice gapDecision bs))"

definition energyGainWait ::
  "(f64 \<Rightarrow> int) \<Rightarrow> Policy \<Rightarrow> RequestState list \<Rightarrow> nat \<Rightarrow> nat \<Rightarrow> BatchProfile
    \<Rightarrow> BatchChoice \<Rightarrow> int option \<Rightarrow> BatchChoice" where
  "energyGainWait oor p requests head n available choice gapDecision =
     (let r = requests ! head in
      if f_leq (rs_arrivalRate r) f_zero then choice
      else gain_loop oor p requests r n available choice gapDecision (p_batches p))"

text \<open>
  One profile of the selection loop: the best per-item cost (\<open>throughput\<close>) and the
  feasible profile of least energy per item (\<open>available\<close>), larger sizes on ties.
\<close>

definition select_step ::
  "Policy \<Rightarrow> RequestState list \<Rightarrow> nat \<Rightarrow> nat \<Rightarrow> int option
    \<Rightarrow> BatchProfile \<times> BatchProfile \<times> f64 \<Rightarrow> BatchProfile \<Rightarrow> BatchProfile \<times> BatchProfile \<times> f64" where
  "select_step p requests head n gap = (\<lambda>(available, throughput, perItemCost) b.
     if bp_size b < 1 \<or> int n < bp_size b \<or> \<not> allowedBatch p (bp_size b)
     then (available, throughput, perItemCost)
     else
       (let r = requests ! head;
            cost = f_div (serviceCost b (slo_percentile (rc_slo (rs_context r))) gap)
                     (f_of_int (bp_size b));
            better = (bp_size throughput = 0 \<or> f_less cost perItemCost
                      \<or> f_eq cost perItemCost \<and> bp_size throughput < bp_size b);
            take = (rs_phase r \<noteq> phaseDeferred \<and> batchFeasible requests head b gap
                    \<and> (bp_size available = 0
                       \<or> f_less (bp_energyPerItemJ b) (bp_energyPerItemJ available)
                       \<or> f_eq (bp_energyPerItemJ b) (bp_energyPerItemJ available)
                          \<and> bp_size available < bp_size b))
        in (if take then b else available,
            if better then b else throughput,
            if better then cost else perItemCost)))"

definition serve_head ::
  "(f64 \<Rightarrow> int) \<Rightarrow> Policy \<Rightarrow> RequestState list \<Rightarrow> nat \<Rightarrow> int option \<Rightarrow> BatchChoice" where
  "serve_head oor p requests head gapDecision =
     (let r = requests ! head; c = rs_context r;
          mode = EffectiveDeadlinePolicy (p_deadlinePolicy p);
          choice = zero_choice\<lparr>bc_requestID := rc_requestID c,
            bc_workloadUID := rc_workloadUID c, bc_definition := rc_definition c\<rparr>;
          n = compatibleCount requests head;
          (available, throughput, _) =
            foldl (select_step p requests head n gapDecision)
              (zero_profile, zero_profile, f_inf) (p_batches p)
      in if bp_size available = 0
         then
           if rs_phase r \<noteq> phaseDeferred \<and> mode \<noteq> DeadlineKeep
           then choice\<lparr>bc_reason :=
                  if mode = DeadlineDefer then ReasonDeadlineDefer else OutcomeDeadlineDrop\<rparr>
           else choice\<lparr>bc_size := bp_size throughput, bc_reason := ''maximum_throughput''\<rparr>
         else energyGainWait oor p requests head n available
                (choice\<lparr>bc_size := bp_size available, bc_reason := ''available_energy''\<rparr>)
                gapDecision)"

definition chooseBatch ::
  "(f64 \<Rightarrow> int) \<Rightarrow> Policy \<Rightarrow> RequestState list \<Rightarrow> int option \<Rightarrow> BatchChoice" where
  "chooseBatch oor p requests gapDecision =
     (if 0 < p_fixedBatchSize p then chooseFixedBatch (p_fixedBatchSize p) requests
      else
        (let (head, deferred, active) = queueHeads requests;
             mode = EffectiveDeadlinePolicy (p_deadlinePolicy p)
         in case head of
              Some h \<Rightarrow>
                if mode = DeadlineDrop \<and> SLOExpired (requests ! h)
                then (let c = rs_context (requests ! h) in
                      zero_choice\<lparr>bc_requestID := rc_requestID c,
                        bc_workloadUID := rc_workloadUID c, bc_definition := rc_definition c,
                        bc_reason := OutcomeDeadlineDrop\<rparr>)
                else if active then zero_choice\<lparr>bc_reason := ''active''\<rparr>
                else serve_head oor p requests h gapDecision
            | None \<Rightarrow>
                if active then zero_choice\<lparr>bc_reason := ''active''\<rparr>
                else (case deferred of
                        None \<Rightarrow> zero_choice\<lparr>bc_reason := ''empty''\<rparr>
                      | Some d \<Rightarrow> serve_head oor p requests d gapDecision)))"

definition ChooseBatch ::
  "(f64 \<Rightarrow> int) \<Rightarrow> Policy \<Rightarrow> RequestState list \<Rightarrow> int option \<Rightarrow> BatchChoice" where
  "ChooseBatch oor p requests gapDecision =
     (chooseBatch oor p requests gapDecision)
       \<lparr>bc_decisionIdleNanos := gapDecision, bc_decisionIdleApproximate := True\<rparr>"

section \<open>The order of service\<close>

text \<open>Every request's remaining time is a number: the inputs are finite.\<close>

definition slo_numbers :: "RequestState list \<Rightarrow> bool" where
  "slo_numbers requests \<longleftrightarrow> (\<forall>r \<in> set requests. \<not> is_nan (RemainingSLOMS r))"

lemma earlierEDF_irrefl [simp]: "\<not> earlierEDF rs i i"
  by (simp add: earlierEDF_def Let_def)

lemma earlierEDF_asym: "earlierEDF rs i j \<Longrightarrow> \<not> earlierEDF rs j i"
  by (auto simp: earlierEDF_def Let_def f_order_defs)

lemma earlierEDF_trans: "earlierEDF rs i j \<Longrightarrow> earlierEDF rs j k \<Longrightarrow> earlierEDF rs i k"
  by (auto simp: earlierEDF_def Let_def f_order_defs)

lemma earlierEDF_linear:
  "slo_numbers rs \<Longrightarrow> i < length rs \<Longrightarrow> j < length rs \<Longrightarrow> i \<noteq> j \<Longrightarrow>
    earlierEDF rs i j \<or> earlierEDF rs j i"
  by (auto simp: slo_numbers_def earlierEDF_def Let_def f_order_defs)

interpretation edf: selection
  "\<lambda>i. i < length rs \<and> \<not> is_nan (RemainingSLOMS (rs ! i))" "earlierEDF rs"
  for rs :: "RequestState list"
proof unfold_locales
  fix i j k
  show "earlierEDF rs i j \<Longrightarrow> \<not> earlierEDF rs j i" by (rule earlierEDF_asym)
  assume "i < length rs \<and> \<not> is_nan (RemainingSLOMS (rs ! i))"
    "j < length rs \<and> \<not> is_nan (RemainingSLOMS (rs ! j))"
    "k < length rs \<and> \<not> is_nan (RemainingSLOMS (rs ! k))"
    "\<not> earlierEDF rs i j" "\<not> earlierEDF rs j k"
  then show "\<not> earlierEDF rs i k"
    by (auto simp: earlierEDF_def Let_def f_order_defs)
qed

lemma candidates_distinct [simp]: "distinct (candidates rs h)"
  by (simp add: candidates_def)

lemma in_candidates:
  "i \<in> set (candidates rs h) \<longleftrightarrow>
     i < length rs \<and> normalRequest (rs ! i) \<and> sameQueue (rs ! i) (rs ! h)"
  by (auto simp: candidates_def)

lemma scan_edf:
  assumes "slo_numbers rs" "\<forall>j \<in> set js. j < length rs" "scan_best (earlierEDF rs) None js = Some i"
  shows "i \<in> set js" and "\<And>j. j \<in> set js \<Longrightarrow> j \<noteq> i \<Longrightarrow> earlierEDF rs i j"
proof -
  have D: "\<forall>j \<in> set js. j < length rs \<and> \<not> is_nan (RemainingSLOMS (rs ! j))"
    using assms(1,2) by (auto simp: slo_numbers_def)
  show "i \<in> set js" by (rule edf.scan_optimal(1) [OF D assms(3)])
  then show "earlierEDF rs i j" if "j \<in> set js" "j \<noteq> i" for j
    using edf.scan_optimal(2) [OF D assms(3) that(1)] earlierEDF_linear [OF assms(1), of i j]
      assms(2) that by auto
qed

text \<open>The indices \<open>nextCompatible\<close> yields when it is iterated from \<open>previous\<close>.\<close>

fun compatible_chain :: "nat \<Rightarrow> RequestState list \<Rightarrow> nat \<Rightarrow> nat option \<Rightarrow> nat list" where
  "compatible_chain 0 rs h previous = []"
| "compatible_chain (Suc k) rs h previous =
     (case nextCompatible rs h previous of
        None \<Rightarrow> []
      | Some i \<Rightarrow> i # compatible_chain k rs h (Some i))"

lemma nextCompatible_normal:
  "rs_phase (rs ! h) \<noteq> phaseDeferred \<Longrightarrow> nextCompatible rs h previous =
     scan_best (earlierEDF rs) None (filter (after_previous rs previous) (candidates rs h))"
  by (simp add: nextCompatible_def)

lemma after_step:
  assumes "slo_numbers rs" "rs_phase (rs ! h) \<noteq> phaseDeferred"
    and nx: "nextCompatible rs h previous = Some i"
  shows "i \<in> set (candidates rs h)" "after_previous rs previous i"
    and "filter (after_previous rs (Some i)) (candidates rs h)
       = remove1 i (filter (after_previous rs previous) (candidates rs h))"
    and "\<And>j. j \<in> set (candidates rs h) \<Longrightarrow> after_previous rs previous j \<Longrightarrow> j \<noteq> i
       \<Longrightarrow> earlierEDF rs i j"
proof -
  let ?js = "filter (after_previous rs previous) (candidates rs h)"
  have idx: "\<forall>j \<in> set ?js. j < length rs" by (auto simp: in_candidates)
  have scan: "scan_best (earlierEDF rs) None ?js = Some i"
    using assms(2) nx by (simp add: nextCompatible_normal)
  have i: "i \<in> set ?js" by (rule scan_edf(1) [OF assms(1) idx scan])
  then show "i \<in> set (candidates rs h)" "after_previous rs previous i" by auto
  show least: "earlierEDF rs i j"
    if "j \<in> set (candidates rs h)" "after_previous rs previous j" "j \<noteq> i" for j
    by (rule scan_edf(2) [OF assms(1) idx scan]) (use that in auto)
  have "filter (after_previous rs (Some i)) (candidates rs h) = filter (\<lambda>j. j \<noteq> i) ?js"
    unfolding filter_filter
  proof (rule filter_cong [OF refl])
    fix j assume j: "j \<in> set (candidates rs h)"
    show "after_previous rs (Some i) j = (after_previous rs previous j \<and> j \<noteq> i)"
    proof
      assume "after_previous rs (Some i) j"
      then have "earlierEDF rs i j" by (simp add: after_previous_def)
      moreover have "after_previous rs previous i" using i by simp
      ultimately show "after_previous rs previous j \<and> j \<noteq> i"
        using earlierEDF_trans by (auto simp: after_previous_def split: option.splits)
    next
      assume "after_previous rs previous j \<and> j \<noteq> i"
      with least j show "after_previous rs (Some i) j" by (simp add: after_previous_def)
    qed
  qed
  also have "\<dots> = remove1 i ?js"
    by (subst distinct_remove1_removeAll) (simp_all add: removeAll_filter_not_eq eq_commute)
  finally show "filter (after_previous rs (Some i)) (candidates rs h) = remove1 i ?js" .
qed

lemma normal_chain:
  assumes nn: "slo_numbers rs" and ph: "rs_phase (rs ! h) \<noteq> phaseDeferred"
    and "length (filter (after_previous rs previous) (candidates rs h)) \<le> k"
  shows "mset (compatible_chain k rs h previous)
       = mset (filter (after_previous rs previous) (candidates rs h))
    \<and> sorted_wrt (earlierEDF rs) (compatible_chain k rs h previous)
    \<and> (\<forall>j \<in> set (compatible_chain k rs h previous). after_previous rs previous j)"
  using assms(3)
proof (induction k arbitrary: previous)
  case 0
  then show ?case by simp
next
  case (Suc k)
  show ?case
  proof (cases "nextCompatible rs h previous")
    case None
    then have "filter (after_previous rs previous) (candidates rs h) = []"
      using ph by (simp add: nextCompatible_normal)
    with None show ?thesis by simp
  next
    case (Some i)
    note step = after_step [OF nn ph Some]
    let ?js = "filter (after_previous rs previous) (candidates rs h)"
    have i: "i \<in> set ?js" using step(1,2) by simp
    then have "length (filter (after_previous rs (Some i)) (candidates rs h)) \<le> k"
      using Suc.prems unfolding step(3) by (simp add: length_remove1)
    note IH = Suc.IH [OF this]
    have "mset (i # compatible_chain k rs h (Some i)) = mset ?js"
      using IH i unfolding step(3) by simp
    moreover have "\<forall>j \<in> set (compatible_chain k rs h (Some i)). earlierEDF rs i j"
      using IH by (auto simp: after_previous_def)
    moreover have "\<forall>j \<in> set (compatible_chain k rs h (Some i)). after_previous rs previous j"
      using calculation(2) step(2) earlierEDF_trans
      by (auto simp: after_previous_def split: option.splits)
    ultimately show ?thesis using IH Some step(2) by simp
  qed
qed

text \<open>The deferred requests from \<open>head\<close> on, in queue order.\<close>

definition deferred_from :: "RequestState list \<Rightarrow> nat \<Rightarrow> nat list" where
  "deferred_from rs h =
     filter (\<lambda>i. \<not> (i < h \<or> rs_phase (rs ! i) \<noteq> phaseDeferred)) [0..<length rs]"

lemma find_filter: "find P xs = (case filter P xs of [] \<Rightarrow> None | y # _ \<Rightarrow> Some y)"
  by (induction xs) auto

lemma next_deferred_eq:
  "next_deferred rs h previous =
     (case filter (\<lambda>i. case previous of None \<Rightarrow> True | Some p \<Rightarrow> p < i) (deferred_from rs h) of
        [] \<Rightarrow> None
      | i # _ \<Rightarrow> if sameQueue (rs ! i) (rs ! h) then Some i else None)"
proof -
  have "filter (\<lambda>i. \<not> (i < h \<or> (case previous of None \<Rightarrow> False | Some p \<Rightarrow> i \<le> p) \<or> rs_phase (rs ! i) \<noteq> phaseDeferred))
      [0..<length rs]
    = filter (\<lambda>i. case previous of None \<Rightarrow> True | Some p \<Rightarrow> p < i) (deferred_from rs h)"
    unfolding deferred_from_def filter_filter
    by (rule filter_cong) (auto split: option.splits simp: not_le)
  then show ?thesis
    unfolding next_deferred_def find_filter by (simp split: list.splits)
qed

lemma sorted_filter_tail:
  "sorted_wrt (<) (xs @ i # ys) \<Longrightarrow> filter (\<lambda>j. (i::nat) < j) (xs @ i # ys) = ys"
proof -
  assume s: "sorted_wrt (<) (xs @ i # ys)"
  then have "filter (\<lambda>j. i < j) xs = []" and "filter (\<lambda>j. i < j) ys = ys"
    by (auto simp: sorted_wrt_append filter_empty_conv intro: filter_True)
  then show ?thesis by simp
qed

lemma deferred_chain:
  assumes ph: "rs_phase (rs ! h) = phaseDeferred"
    and split: "deferred_from rs h = ys @ zs"
    and rest: "filter (\<lambda>i. case previous of None \<Rightarrow> True | Some p \<Rightarrow> p < i) (deferred_from rs h) = zs"
    and "length zs \<le> k"
  shows "compatible_chain k rs h previous = takeWhile (\<lambda>i. sameQueue (rs ! i) (rs ! h)) zs"
  using assms
proof (induction k arbitrary: previous ys zs)
  case 0
  then show ?case by simp
next
  case (Suc k)
  have next_eq: "nextCompatible rs h previous =
      (case zs of [] \<Rightarrow> None | i # _ \<Rightarrow> if sameQueue (rs ! i) (rs ! h) then Some i else None)"
    using Suc.prems(1,3) by (simp add: nextCompatible_def next_deferred_eq)
  show ?case
  proof (cases zs)
    case Nil
    then show ?thesis by (simp add: next_eq)
  next
    case (Cons i zs')
    have "sorted_wrt (<) (deferred_from rs h)"
      unfolding deferred_from_def by (intro sorted_wrt_filter) (rule sorted_wrt_upt)
    then have srt: "sorted_wrt (<) (ys @ i # zs')" using Suc.prems(2) Cons by simp
    have "deferred_from rs h = ys @ i # zs'" using Suc.prems(2) Cons by simp
    with sorted_filter_tail [OF srt]
    have "filter (\<lambda>j. i < j) (deferred_from rs h) = zs'" by (simp only:)
    then have "compatible_chain k rs h (Some i) = takeWhile (\<lambda>i. sameQueue (rs ! i) (rs ! h)) zs'"
      using Suc.prems Cons by (intro Suc.IH [of "ys @ [i]" zs']) simp_all
    then show ?thesis using Cons by (simp add: next_eq)
  qed
qed

text \<open>
  Iterating \<open>nextCompatible\<close> yields exactly the requests \<open>compatibleCount\<close> counts: for a
  normal head all normal requests of its queue in EDF order, for a deferred head its
  contiguous run.
\<close>

lemma chain_None_normal:
  assumes "slo_numbers rs" "rs_phase (rs ! h) \<noteq> phaseDeferred" "length rs \<le> k"
  shows "mset (compatible_chain k rs h None) = mset (candidates rs h)"
    and "sorted_wrt (earlierEDF rs) (compatible_chain k rs h None)"
proof -
  have "length (candidates rs h) \<le> length rs"
    unfolding candidates_def by (rule order_trans [OF length_filter_le]) simp
  moreover have all: "filter (after_previous rs None) (candidates rs h) = candidates rs h"
    by (simp add: after_previous_def)
  ultimately show "mset (compatible_chain k rs h None) = mset (candidates rs h)"
    "sorted_wrt (earlierEDF rs) (compatible_chain k rs h None)"
    using normal_chain [OF assms(1,2), of None k] assms(3) by auto
qed

lemma chain_None_deferred:
  assumes "rs_phase (rs ! h) = phaseDeferred" "length rs \<le> k"
  shows "compatible_chain k rs h None
       = takeWhile (\<lambda>i. sameQueue (rs ! i) (rs ! h)) (deferred_from rs h)"
proof -
  have "length (deferred_from rs h) \<le> length rs"
    unfolding deferred_from_def by (rule order_trans [OF length_filter_le]) simp
  with assms have le: "length (deferred_from rs h) \<le> k" by simp
  show ?thesis
    by (rule deferred_chain [where ys = "[]", OF assms(1) _ _ le]) simp_all
qed

lemma chain_length:
  assumes "slo_numbers rs" "length rs \<le> k"
  shows "length (compatible_chain k rs h None) = compatibleCount rs h"
proof (cases "rs_phase (rs ! h) = phaseDeferred")
  case True
  then show ?thesis
    using chain_None_deferred [OF True assms(2)]
    by (simp add: compatibleCount_def deferred_from_def)
next
  case False
  then have "length (compatible_chain k rs h None) = length (candidates rs h)"
    using chain_None_normal(1) [OF assms(1) False assms(2)] by (metis size_mset)
  with False show ?thesis by (simp add: compatibleCount_def)
qed

text \<open>A batch is feasible if the first \<open>size\<close> requests of the chain exist and have slack.\<close>

lemma feasible_loop_chain:
  "feasible_loop k rs h b gap previous \<longleftrightarrow>
     length (compatible_chain k rs h previous) = k \<and>
     (\<forall>i \<in> set (compatible_chain k rs h previous). \<not> f_less (requestSlack (rs ! i) b gap) f_zero)"
  by (induction k arbitrary: previous) (auto split: option.splits)

lemma chain_take: "k \<le> m \<Longrightarrow> compatible_chain k rs h previous = take k (compatible_chain m rs h previous)"
proof (induction k arbitrary: m previous)
  case (Suc k)
  then obtain m' where m: "m = Suc m'" "k \<le> m'" by (cases m) auto
  with Suc.IH show ?case by (auto split: option.splits)
qed simp

lemma batchFeasible_iff:
  assumes "slo_numbers rs" "1 \<le> bp_size b" "bp_size b \<le> int (compatibleCount rs h)"
  shows "batchFeasible rs h b gap \<longleftrightarrow>
    (\<forall>i \<in> set (take (nat (bp_size b)) (compatible_chain (length rs) rs h None)).
       \<not> f_less (requestSlack (rs ! i) b gap) f_zero)"
proof -
  have len: "length (compatible_chain (length rs) rs h None) = compatibleCount rs h"
    by (rule chain_length [OF assms(1)]) simp
  have "length (compatible_chain k rs h p) \<le> k" for k p
    by (induction k arbitrary: p) (auto split: option.splits)
  then have le: "nat (bp_size b) \<le> length rs" using len assms(3) by (metis le_trans nat_le_iff)
  then show ?thesis
    using chain_take [OF le, of rs h None] len assms(3)
    by (simp add: batchFeasible_def feasible_loop_chain)
qed

section \<open>The heads of the queue\<close>

definition normal_indices :: "RequestState list \<Rightarrow> nat list" where
  "normal_indices rs = filter (\<lambda>i. normalRequest (rs ! i)) [0..<length rs]"

lemma queueHeads_eq:
  "queueHeads rs =
     (scan_best (earlierEDF rs) None (normal_indices rs),
      find (\<lambda>i. rs_phase (rs ! i) = phaseDeferred) [0..<length rs],
      \<exists>r \<in> set rs. rs_phase r = phaseRunning)"
proof -
  let ?step = "\<lambda>(head, deferred, active) i.
         let r = rs ! i in
         if rs_phase r = phaseRunning then (head, deferred, True)
         else if normalRequest r then (keep_best (earlierEDF rs) head i, deferred, active)
         else if rs_phase r = phaseDeferred \<and> deferred = None then (head, Some i, active)
         else (head, deferred, active)"
  have "foldl ?step (hd, df, ac) is =
     (scan_best (earlierEDF rs) hd (filter (\<lambda>i. normalRequest (rs ! i)) is),
      (case df of Some d \<Rightarrow> Some d | None \<Rightarrow> find (\<lambda>i. rs_phase (rs ! i) = phaseDeferred) is),
      ac \<or> (\<exists>i \<in> set is. rs_phase (rs ! i) = phaseRunning))" for hd df ac "is"
  proof (induction "is" arbitrary: hd df ac)
    case Nil
    then show ?case by (simp split: option.split)
  next
    case (Cons i "is")
    have "\<not> normalRequest (rs ! i)" if "rs_phase (rs ! i) = phaseRunning \<or> rs_phase (rs ! i) = phaseDeferred"
      using that by (auto simp: normalRequest_def)
    with Cons show ?case by (auto simp: Let_def split: option.splits)
  qed
  from this [of None None False "[0..<length rs]"]
  have "queueHeads rs = (scan_best (earlierEDF rs) None (normal_indices rs),
      find (\<lambda>i. rs_phase (rs ! i) = phaseDeferred) [0..<length rs],
      \<exists>i \<in> set [0..<length rs]. rs_phase (rs ! i) = phaseRunning)"
    unfolding queueHeads_def normal_indices_def by simp
  moreover have "(\<exists>i \<in> set [0..<length rs]. rs_phase (rs ! i) = phaseRunning)
      \<longleftrightarrow> (\<exists>r \<in> set rs. rs_phase r = phaseRunning)"
    by (auto simp: set_conv_nth)
  ultimately show ?thesis by simp
qed

lemma in_normal_indices: "i \<in> set (normal_indices rs) \<longleftrightarrow> i < length rs \<and> normalRequest (rs ! i)"
  by (auto simp: normal_indices_def)

text \<open>The head of normal work: the earliest deadline, the first in the snapshot on a tie.\<close>

definition is_edf_head :: "RequestState list \<Rightarrow> nat \<Rightarrow> bool" where
  "is_edf_head rs h \<longleftrightarrow> h < length rs \<and> normalRequest (rs ! h) \<and>
     (\<forall>i < length rs. normalRequest (rs ! i) \<longrightarrow> i \<noteq> h \<longrightarrow> earlierEDF rs h i)"

definition is_deferred_head :: "RequestState list \<Rightarrow> nat \<Rightarrow> bool" where
  "is_deferred_head rs h \<longleftrightarrow> h < length rs \<and> rs_phase (rs ! h) = phaseDeferred \<and>
     (\<forall>i < h. rs_phase (rs ! i) \<noteq> phaseDeferred) \<and> (\<forall>r \<in> set rs. \<not> normalRequest r)"

lemma edf_head:
  assumes "slo_numbers rs" "scan_best (earlierEDF rs) None (normal_indices rs) = Some h"
  shows "is_edf_head rs h"
proof -
  have idx: "\<forall>j \<in> set (normal_indices rs). j < length rs" by (simp add: in_normal_indices)
  from scan_edf [OF assms(1) idx assms(2)] show ?thesis
    by (auto simp: is_edf_head_def in_normal_indices)
qed

lemma deferred_head:
  assumes "scan_best (earlierEDF rs) None (normal_indices rs) = None"
    "find (\<lambda>i. rs_phase (rs ! i) = phaseDeferred) [0..<length rs] = Some d"
  shows "is_deferred_head rs d"
proof -
  from assms(1) have "normal_indices rs = []" by simp
  then have none: "\<forall>i < length rs. \<not> normalRequest (rs ! i)"
    by (simp add: normal_indices_def filter_empty_conv)
  from assms(2) obtain j where "j < length [0..<length rs]" "rs_phase (rs ! ([0..<length rs] ! j)) = phaseDeferred"
    "d = [0..<length rs] ! j" "\<forall>i < j. rs_phase (rs ! ([0..<length rs] ! i)) \<noteq> phaseDeferred"
    by (auto simp: find_Some_iff)
  with none show ?thesis
    by (auto simp: is_deferred_head_def set_conv_nth)
qed

section \<open>The profile the executor picks\<close>

definition eligible :: "Policy \<Rightarrow> nat \<Rightarrow> BatchProfile \<Rightarrow> bool" where
  "eligible p n b \<longleftrightarrow> 1 \<le> bp_size b \<and> bp_size b \<le> int n \<and> allowedBatch p (bp_size b)"

definition usable :: "Policy \<Rightarrow> RequestState list \<Rightarrow> nat \<Rightarrow> nat \<Rightarrow> int option \<Rightarrow> BatchProfile \<Rightarrow> bool" where
  "usable p rs h n gap b \<longleftrightarrow>
     eligible p n b \<and> rs_phase (rs ! h) \<noteq> phaseDeferred \<and> batchFeasible rs h b gap"

definition energy_better :: "BatchProfile \<Rightarrow> BatchProfile \<Rightarrow> bool" where
  "energy_better a b \<longleftrightarrow> f_less (bp_energyPerItemJ a) (bp_energyPerItemJ b)
     \<or> f_eq (bp_energyPerItemJ a) (bp_energyPerItemJ b) \<and> bp_size b < bp_size a"

definition item_cost :: "RequestState \<Rightarrow> int option \<Rightarrow> BatchProfile \<Rightarrow> f64" where
  "item_cost r gap b =
     f_div (serviceCost b (slo_percentile (rc_slo (rs_context r))) gap) (f_of_int (bp_size b))"

definition cost_better :: "RequestState \<Rightarrow> int option \<Rightarrow> BatchProfile \<Rightarrow> BatchProfile \<Rightarrow> bool" where
  "cost_better r gap a b \<longleftrightarrow> f_less (item_cost r gap a) (item_cost r gap b)
     \<or> f_eq (item_cost r gap a) (item_cost r gap b) \<and> bp_size b < bp_size a"

text \<open>A number first, an integer (larger is better) on ties: a strict weak order.\<close>

lemma f_eq_not_less: "f_eq a b \<Longrightarrow> \<not> f_less a b"
  by (simp add: f_order_defs)

lemma f_less_not_eq: "f_less a b \<Longrightarrow> \<not> f_eq b a"
  by (auto simp: f_order_defs)

lemma f_lex_neg_trans:
  fixes i j k :: int
  assumes "\<not> is_nan a" "\<not> is_nan b" "\<not> is_nan c"
    and ab: "\<not> (f_less a b \<or> f_eq a b \<and> j < i)" and bc: "\<not> (f_less b c \<or> f_eq b c \<and> k < j)"
  shows "\<not> (f_less a c \<or> f_eq a c \<and> k < i)"
proof -
  from ab f_less_total [OF assms(1,2)] have 1: "f_eq a b \<and> i \<le> j \<or> f_less b a" by force
  from bc f_less_total [OF assms(2,3)] have 2: "f_eq b c \<and> j \<le> k \<or> f_less c b" by force
  show ?thesis
  proof (cases "f_eq a b \<and> f_eq b c")
    case True
    then have "f_eq a c" using f_eq_trans by blast
    moreover have "i \<le> k" using 1 2 True f_less_not_eq f_eq_sym by (metis order_trans)
    ultimately show ?thesis using f_eq_not_less by auto
  next
    case False
    then have "f_less c a"
      using 1 2 f_less_trans f_eq_less_trans f_less_eq_trans f_eq_sym by blast
    then show ?thesis using f_less_asym f_less_not_eq by blast
  qed
qed

lemma f_lex_asym:
  fixes i j :: int
  shows "f_less a b \<or> f_eq a b \<and> j < i \<Longrightarrow> \<not> (f_less b a \<or> f_eq b a \<and> i < j)"
  using f_less_asym f_less_not_eq f_eq_not_less f_eq_sym by (metis less_asym)

interpretation energy: selection "\<lambda>b. \<not> is_nan (bp_energyPerItemJ b)" energy_better
proof unfold_locales
  fix a b c
  show "energy_better a b \<Longrightarrow> \<not> energy_better b a"
    unfolding energy_better_def by (rule f_lex_asym)
  assume "\<not> is_nan (bp_energyPerItemJ a)" "\<not> is_nan (bp_energyPerItemJ b)"
    "\<not> is_nan (bp_energyPerItemJ c)" "\<not> energy_better a b" "\<not> energy_better b c"
  then show "\<not> energy_better a c"
    unfolding energy_better_def by (rule f_lex_neg_trans)
qed

interpretation cost: selection "\<lambda>b. \<not> is_nan (item_cost r gap b)" "cost_better r gap"
  for r :: RequestState and gap :: "int option"
proof unfold_locales
  fix a b c
  show "cost_better r gap a b \<Longrightarrow> \<not> cost_better r gap b a"
    unfolding cost_better_def by (rule f_lex_asym)
  assume "\<not> is_nan (item_cost r gap a)" "\<not> is_nan (item_cost r gap b)"
    "\<not> is_nan (item_cost r gap c)" "\<not> cost_better r gap a b" "\<not> cost_better r gap b c"
  then show "\<not> cost_better r gap a c"
    unfolding cost_better_def by (rule f_lex_neg_trans)
qed

definition profile_of :: "BatchProfile option \<Rightarrow> BatchProfile" where
  "profile_of b = (case b of None \<Rightarrow> zero_profile | Some x \<Rightarrow> x)"

definition best_energy :: "Policy \<Rightarrow> RequestState list \<Rightarrow> nat \<Rightarrow> nat \<Rightarrow> int option \<Rightarrow> BatchProfile option" where
  "best_energy p rs h n gap =
     scan_best energy_better None (filter (usable p rs h n gap) (p_batches p))"

definition best_cost :: "Policy \<Rightarrow> RequestState list \<Rightarrow> nat \<Rightarrow> nat \<Rightarrow> int option \<Rightarrow> BatchProfile option" where
  "best_cost p rs h n gap =
     scan_best (cost_better (rs ! h) gap) None (filter (eligible p n) (p_batches p))"

lemma profile_of_simps [simp]: "profile_of (Some b) = b" "bp_size (profile_of None) = 0"
  by (simp_all add: profile_of_def zero_profile_def)

lemma select_fold:
  assumes "\<And>x. a = Some x \<Longrightarrow> 1 \<le> bp_size x" "\<And>x. t = Some x \<Longrightarrow> 1 \<le> bp_size x"
  shows "\<exists>c. foldl (select_step p rs h n gap)
       (profile_of a, profile_of t, case t of None \<Rightarrow> f_inf | Some x \<Rightarrow> item_cost (rs ! h) gap x) bs
     = (profile_of (scan_best energy_better a (filter (usable p rs h n gap) bs)),
        profile_of (scan_best (cost_better (rs ! h) gap) t (filter (eligible p n) bs)), c)"
  using assms
proof (induction bs arbitrary: a t)
  case Nil
  then show ?case by simp
next
  case (Cons b bs)
  show ?case
  proof (cases "eligible p n b")
    case False
    then have "bp_size b < 1 \<or> int n < bp_size b \<or> \<not> allowedBatch p (bp_size b)"
      by (auto simp: eligible_def)
    with False show ?thesis using Cons.IH [OF Cons.prems]
      by (simp add: select_step_def usable_def)
  next
    case True
    then have size: "1 \<le> bp_size b" "\<not> (bp_size b < 1 \<or> int n < bp_size b \<or> \<not> allowedBatch p (bp_size b))"
      by (auto simp: eligible_def)
    define a' where "a' = (if usable p rs h n gap b then keep_best energy_better a b else a)"
    define t' where "t' = keep_best (cost_better (rs ! h) gap) t b"
    have "select_step p rs h n gap
       (profile_of a, profile_of t, case t of None \<Rightarrow> f_inf | Some x \<Rightarrow> item_cost (rs ! h) gap x) b
      = (profile_of a', profile_of t', case t' of None \<Rightarrow> f_inf | Some x \<Rightarrow> item_cost (rs ! h) gap x)"
      using size True Cons.prems
      by (cases a; cases t)
        (auto simp: select_step_def Let_def a'_def t'_def usable_def energy_better_def cost_better_def
          item_cost_def profile_of_def zero_profile_def)
    moreover have "\<And>x. a' = Some x \<Longrightarrow> 1 \<le> bp_size x" "\<And>x. t' = Some x \<Longrightarrow> 1 \<le> bp_size x"
      using Cons.prems size(1) by (auto simp: a'_def t'_def keep_best_def split: option.splits if_splits)
    ultimately show ?thesis using Cons.IH [of a' t'] True by (auto simp: a'_def t'_def)
  qed
qed

lemma best_energy_spec:
  assumes "best_energy p rs h n gap = Some b"
  shows "b \<in> set (p_batches p)" "usable p rs h n gap b"
  using scan_best_in [of energy_better None "filter (usable p rs h n gap) (p_batches p)" b] assms
  by (auto simp: best_energy_def)

lemma best_energy_None:
  "best_energy p rs h n gap = None \<longleftrightarrow> (\<forall>b \<in> set (p_batches p). \<not> usable p rs h n gap b)"
  by (simp add: best_energy_def filter_empty_conv)

lemma best_cost_spec:
  assumes "best_cost p rs h n gap = Some b"
  shows "b \<in> set (p_batches p)" "eligible p n b"
  using scan_best_in [of "cost_better (rs ! h) gap" None "filter (eligible p n) (p_batches p)" b] assms
  by (auto simp: best_cost_def)

text \<open>The choice for a head, in terms of the two selections.\<close>

definition head_choice :: "RequestState \<Rightarrow> BatchChoice" where
  "head_choice r = zero_choice\<lparr>bc_requestID := rc_requestID (rs_context r),
     bc_workloadUID := rc_workloadUID (rs_context r), bc_definition := rc_definition (rs_context r)\<rparr>"

lemma serve_head_eq:
  "serve_head oor p rs h gap =
     (case best_energy p rs h (compatibleCount rs h) gap of
        None \<Rightarrow>
          if rs_phase (rs ! h) \<noteq> phaseDeferred \<and> EffectiveDeadlinePolicy (p_deadlinePolicy p) \<noteq> DeadlineKeep
          then (head_choice (rs ! h))\<lparr>bc_reason :=
            if EffectiveDeadlinePolicy (p_deadlinePolicy p) = DeadlineDefer
            then ReasonDeadlineDefer else OutcomeDeadlineDrop\<rparr>
          else (head_choice (rs ! h))\<lparr>
            bc_size := bp_size (profile_of (best_cost p rs h (compatibleCount rs h) gap)),
            bc_reason := ''maximum_throughput''\<rparr>
      | Some a \<Rightarrow>
          energyGainWait oor p rs h (compatibleCount rs h) a
            ((head_choice (rs ! h))\<lparr>bc_size := bp_size a, bc_reason := ''available_energy''\<rparr>) gap)"
proof -
  let ?n = "compatibleCount rs h"
  obtain c where fold: "foldl (select_step p rs h ?n gap) (zero_profile, zero_profile, f_inf) (p_batches p)
     = (profile_of (best_energy p rs h ?n gap), profile_of (best_cost p rs h ?n gap), c)"
    using select_fold [of None None p rs h ?n gap "p_batches p"]
    by (auto simp: best_energy_def best_cost_def profile_of_def)
  show ?thesis
  proof (cases "best_energy p rs h ?n gap")
    case None
    then show ?thesis
      by (simp add: serve_head_def Let_def fold head_choice_def del: foldl_conv_fold)
  next
    case (Some a)
    then have "bp_size a \<noteq> 0" using best_energy_spec(2) [OF Some] by (simp add: usable_def eligible_def)
    with Some show ?thesis by (simp add: serve_head_def Let_def fold head_choice_def)
  qed
qed

section \<open>Waiting for a cheaper batch\<close>

lemma f_min_bound: "f_less f_zero x \<Longrightarrow> f_leq x (f_min a b) \<Longrightarrow> f_leq x a \<and> f_leq x b"
proof -
  assume pos: "f_less f_zero x" and le: "f_leq x (f_min a b)"
  have x: "\<not> f_leq x (Inf True)" using pos by (cases x) (auto simp: f_order_defs)
  have xn: "\<not> f_leq x NaN" by (simp add: f_order_defs)
  with le x have ninf: "a \<noteq> Inf True" "b \<noteq> Inf True" and nn: "\<not> is_nan a" "\<not> is_nan b"
    by (auto simp: f_min_def split: if_splits)
  show ?thesis
  proof (cases "f_eq a f_zero \<and> f_eq a b")
    case True
    then have "f_eq a b" by simp
    have "f_leq x a \<or> f_leq x b" using le x xn by (auto simp: f_min_def split: if_splits)
    with \<open>f_eq a b\<close> show ?thesis
      using f_leq_trans f_leq_def f_eq_sym by blast
  next
    case False
    with le ninf nn have m: "f_leq x (if f_less a b then a else b)" by (simp add: f_min_def)
    have "f_leq (if f_less a b then a else b) a" "f_leq (if f_less a b then a else b) b"
      using nn f_not_less [of a b] by (auto simp: f_leq_refl) (simp add: f_leq_def)
    with m show ?thesis using f_leq_trans by blast
  qed
qed

definition wait_bounded :: "Policy \<Rightarrow> RequestState \<Rightarrow> BatchProfile \<Rightarrow> int option \<Rightarrow> f64 \<Rightarrow> RequestState \<Rightarrow> bool" where
  "wait_bounded p r b futureGap w q \<longleftrightarrow>
     (if sameQueue q r
      then f_leq w (f_sub (p_maxBatchWaitMS p) (rs_queueMS q)) \<and> f_leq w (requestSlack q b futureGap)
      else f_leq w (f_sub (requestSlack q b futureGap) (minimumService p q (Some 0))))"

lemma allowed_fold_bound:
  "f_less f_zero w \<Longrightarrow> f_leq w (foldl (allowed_step p r b fg) a qs) \<Longrightarrow>
     f_leq w a \<and> (\<forall>q \<in> set qs. normalRequest q \<longrightarrow> wait_bounded p r b fg w q)"
proof (induction qs arbitrary: a)
  case (Cons q qs)
  then have IH: "f_leq w (allowed_step p r b fg a q)"
    "\<forall>q \<in> set qs. normalRequest q \<longrightarrow> wait_bounded p r b fg w q" by auto
  have "f_leq w a \<and> (normalRequest q \<longrightarrow> wait_bounded p r b fg w q)"
  proof (cases "normalRequest q")
    case False
    with IH(1) show ?thesis by (simp add: allowed_step_def)
  next
    case True
    show ?thesis
    proof (cases "sameQueue q r")
      case same: True
      with IH(1) True have "f_leq w (f_min (f_min a (f_sub (p_maxBatchWaitMS p) (rs_queueMS q))) (requestSlack q b fg))"
        by (simp add: allowed_step_def)
      from f_min_bound [OF Cons.prems(1) this] show ?thesis
        using same f_min_bound [OF Cons.prems(1), of a "f_sub (p_maxBatchWaitMS p) (rs_queueMS q)"]
        by (simp add: wait_bounded_def)
    next
      case other: False
      with IH(1) True have "f_leq w (f_min a (f_sub (requestSlack q b fg) (minimumService p q (Some 0))))"
        by (simp add: allowed_step_def)
      from f_min_bound [OF Cons.prems(1) this] show ?thesis using other by (simp add: wait_bounded_def)
    qed
  qed
  with IH(2) show ?case by simp
qed simp

definition future_gap :: "(f64 \<Rightarrow> int) \<Rightarrow> int option \<Rightarrow> f64 \<Rightarrow> int option" where
  "future_gap oor gap w = map_option (\<lambda>g. wrap64 (g + f_to_int64 oor (f_mul w (f_of_int 1000000)))) gap"

text \<open>Either the choice stands, or one larger, cheaper batch is worth waiting for.\<close>

definition worth_waiting ::
  "(f64 \<Rightarrow> int) \<Rightarrow> Policy \<Rightarrow> RequestState list \<Rightarrow> RequestState \<Rightarrow> nat \<Rightarrow> BatchProfile
    \<Rightarrow> int option \<Rightarrow> BatchProfile \<Rightarrow> f64 \<Rightarrow> bool" where
  "worth_waiting oor p rs r n available gap b w \<longleftrightarrow>
     b \<in> set (p_batches p) \<and> int n < bp_size b \<and> allowedBatch p (bp_size b)
     \<and> \<not> f_leq (bp_energyPerItemJ available) (bp_energyPerItemJ b)
     \<and> w = fill_time (bp_size b) n (rs_arrivalRate r)
     \<and> f_less f_zero w \<and> f_leq w (p_maxBatchWaitMS p)
     \<and> (\<forall>q \<in> set rs. normalRequest q \<longrightarrow> wait_bounded p r b (future_gap oor gap w) w q)"

lemma gain_loop_cases:
  "set bs \<subseteq> set (p_batches p) \<Longrightarrow>
   gain_loop oor p rs r n available choice gap bs = choice \<or>
   (\<exists>b w. worth_waiting oor p rs r n available gap b w \<and>
      gain_loop oor p rs r n available choice gap bs
        = choice\<lparr>bc_size := 0, bc_waitMS := w, bc_reason := ''measured_energy_gain_fill''\<rparr>)"
proof (induction bs)
  case (Cons b bs)
  show ?case
  proof (cases "bp_size b \<le> int n \<or> f_leq (bp_energyPerItemJ available) (bp_energyPerItemJ b)
         \<or> \<not> allowedBatch p (bp_size b)")
    case True
    then show ?thesis using Cons by auto
  next
    case False
    let ?w = "fill_time (bp_size b) n (rs_arrivalRate r)"
    let ?al = "foldl (allowed_step p r b (future_gap oor gap ?w)) (p_maxBatchWaitMS p) rs"
    show ?thesis
    proof (cases "f_less f_zero ?w \<and> f_leq ?w ?al")
      case yes: True
      then have "worth_waiting oor p rs r n available gap b ?w"
        using False Cons.prems allowed_fold_bound [of ?w p r b "future_gap oor gap ?w" "p_maxBatchWaitMS p" rs]
        by (auto simp: worth_waiting_def)
      moreover have "gain_loop oor p rs r n available choice gap (b # bs)
          = choice\<lparr>bc_size := 0, bc_waitMS := ?w, bc_reason := ''measured_energy_gain_fill''\<rparr>"
        using yes False by (auto simp: Let_def future_gap_def)
      ultimately show ?thesis by blast
    next
      case no: False
      then have "gain_loop oor p rs r n available choice gap (b # bs)
          = gain_loop oor p rs r n available choice gap bs"
        using False by (auto simp: Let_def future_gap_def)
      then show ?thesis using Cons by simp
    qed
  qed
qed simp

lemma energyGainWait_cases:
  "energyGainWait oor p rs h n available choice gap = choice \<or>
   (\<exists>b w. worth_waiting oor p rs (rs ! h) n available gap b w \<and>
      energyGainWait oor p rs h n available choice gap
        = choice\<lparr>bc_size := 0, bc_waitMS := w, bc_reason := ''measured_energy_gain_fill''\<rparr>)"
  unfolding energyGainWait_def Let_def using gain_loop_cases [of "p_batches p" p] by auto

section \<open>The outcomes of a choice\<close>

text \<open>What each kind of answer of \<open>serve_head\<close> promises about the head it serves.\<close>

definition serves :: "RequestState list \<Rightarrow> nat \<Rightarrow> BatchChoice \<Rightarrow> bool" where
  "serves rs h c \<longleftrightarrow> bc_requestID c = rc_requestID (rs_context (rs ! h)) \<and>
     bc_workloadUID c = rc_workloadUID (rs_context (rs ! h)) \<and>
     bc_definition c = rc_definition (rs_context (rs ! h))"

datatype outcome =
    Batch_energy BatchProfile
  | Batch_throughput "BatchProfile option"
  | Wait_fill BatchProfile f64
  | Reject

definition outcome_ok ::
  "(f64 \<Rightarrow> int) \<Rightarrow> Policy \<Rightarrow> RequestState list \<Rightarrow> nat \<Rightarrow> int option \<Rightarrow> BatchChoice \<Rightarrow> outcome \<Rightarrow> bool" where
  "outcome_ok oor p rs h gap c out \<longleftrightarrow>
     (let n = compatibleCount rs h; mode = EffectiveDeadlinePolicy (p_deadlinePolicy p) in
      case out of
        Batch_energy b \<Rightarrow> best_energy p rs h n gap = Some b \<and> bc_size c = bp_size b \<and> bc_waitMS c = f_zero
          \<and> bc_reason c = ''available_energy''
      | Wait_fill b w \<Rightarrow> (\<exists>a. best_energy p rs h n gap = Some a \<and> worth_waiting oor p rs (rs ! h) n a gap b w)
          \<and> bc_size c = 0 \<and> bc_waitMS c = w \<and> bc_reason c = ''measured_energy_gain_fill''
      | Batch_throughput t \<Rightarrow> best_energy p rs h n gap = None \<and> best_cost p rs h n gap = t
          \<and> (rs_phase (rs ! h) = phaseDeferred \<or> mode = DeadlineKeep)
          \<and> bc_size c = bp_size (profile_of t) \<and> bc_waitMS c = f_zero \<and> bc_reason c = ''maximum_throughput''
      | Reject \<Rightarrow> best_energy p rs h n gap = None \<and> rs_phase (rs ! h) \<noteq> phaseDeferred
          \<and> mode \<noteq> DeadlineKeep \<and> bc_size c = 0 \<and> bc_waitMS c = f_zero
          \<and> bc_reason c = (if mode = DeadlineDefer then ReasonDeadlineDefer else OutcomeDeadlineDrop))"

lemma serve_head_outcome:
  "serves rs h (serve_head oor p rs h gap) \<and>
   (\<exists>out. outcome_ok oor p rs h gap (serve_head oor p rs h gap) out)"
proof (cases "best_energy p rs h (compatibleCount rs h) gap")
  case None
  show ?thesis
  proof (cases "rs_phase (rs ! h) \<noteq> phaseDeferred \<and> EffectiveDeadlinePolicy (p_deadlinePolicy p) \<noteq> DeadlineKeep")
    case True
    then have "outcome_ok oor p rs h gap (serve_head oor p rs h gap) Reject"
      "serves rs h (serve_head oor p rs h gap)"
      using None by (auto simp: serve_head_eq outcome_ok_def head_choice_def zero_choice_def serves_def)
    then show ?thesis by blast
  next
    case False
    then have "outcome_ok oor p rs h gap (serve_head oor p rs h gap)
        (Batch_throughput (best_cost p rs h (compatibleCount rs h) gap))"
      "serves rs h (serve_head oor p rs h gap)"
      using None by (auto simp: serve_head_eq outcome_ok_def head_choice_def zero_choice_def serves_def)
    then show ?thesis by blast
  qed
next
  case (Some a)
  let ?c = "(head_choice (rs ! h))\<lparr>bc_size := bp_size a, bc_reason := ''available_energy''\<rparr>"
  have eq: "serve_head oor p rs h gap = energyGainWait oor p rs h (compatibleCount rs h) a ?c gap"
    using Some by (simp add: serve_head_eq)
  from energyGainWait_cases [of oor p rs h "compatibleCount rs h" a ?c gap]
  show ?thesis
  proof (elim disjE exE conjE)
    assume "energyGainWait oor p rs h (compatibleCount rs h) a ?c gap = ?c"
    then have "outcome_ok oor p rs h gap (serve_head oor p rs h gap) (Batch_energy a)"
      "serves rs h (serve_head oor p rs h gap)"
      using Some eq by (auto simp: outcome_ok_def head_choice_def zero_choice_def serves_def)
    then show ?thesis by blast
  next
    fix b w
    assume "worth_waiting oor p rs (rs ! h) (compatibleCount rs h) a gap b w"
      "energyGainWait oor p rs h (compatibleCount rs h) a ?c gap
         = ?c\<lparr>bc_size := 0, bc_waitMS := w, bc_reason := ''measured_energy_gain_fill''\<rparr>"
    then have "outcome_ok oor p rs h gap (serve_head oor p rs h gap) (Wait_fill b w)"
      "serves rs h (serve_head oor p rs h gap)"
      using Some eq by (auto simp: outcome_ok_def head_choice_def zero_choice_def serves_def)
    then show ?thesis by blast
  qed
qed

text \<open>The whole choice under a dynamic policy.\<close>

lemma chooseBatch_cases:
  assumes "p_fixedBatchSize p \<le> 0" "slo_numbers rs"
  obtains
    (expired) h where "is_edf_head rs h" "EffectiveDeadlinePolicy (p_deadlinePolicy p) = DeadlineDrop"
      "SLOExpired (rs ! h)" "chooseBatch oor p rs gap = (head_choice (rs ! h))\<lparr>bc_reason := OutcomeDeadlineDrop\<rparr>"
  | (active) "\<exists>r \<in> set rs. rs_phase r = phaseRunning" "chooseBatch oor p rs gap = zero_choice\<lparr>bc_reason := ''active''\<rparr>"
  | (idle) "chooseBatch oor p rs gap = zero_choice\<lparr>bc_reason := ''empty''\<rparr>"
      "\<forall>r \<in> set rs. rs_phase r = phaseFinished"
  | (serve) h where "is_edf_head rs h \<or> is_deferred_head rs h" "\<forall>r \<in> set rs. rs_phase r \<noteq> phaseRunning"
      "chooseBatch oor p rs gap = serve_head oor p rs h gap"
proof -
  let ?head = "scan_best (earlierEDF rs) None (normal_indices rs)"
  let ?def = "find (\<lambda>i. rs_phase (rs ! i) = phaseDeferred) [0..<length rs]"
  show thesis
  proof (cases ?head)
    case (Some h)
    have edf: "is_edf_head rs h" by (rule edf_head [OF assms(2) Some])
    show thesis
    proof (cases "EffectiveDeadlinePolicy (p_deadlinePolicy p) = DeadlineDrop \<and> SLOExpired (rs ! h)")
      case True
      with edf show thesis using assms(1) Some
        by (intro expired [of h]) (auto simp: chooseBatch_def queueHeads_eq Let_def head_choice_def)
    next
      case False
      then have eq: "chooseBatch oor p rs gap =
          (if \<exists>r \<in> set rs. rs_phase r = phaseRunning then zero_choice\<lparr>bc_reason := ''active''\<rparr>
           else serve_head oor p rs h gap)"
        using assms(1) Some by (auto simp: chooseBatch_def queueHeads_eq Let_def)
      show thesis
      proof (cases "\<exists>r \<in> set rs. rs_phase r = phaseRunning")
        case True
        then show thesis by (intro active) (simp_all add: eq)
      next
        case no: False
        then show thesis using edf by (intro serve [of h]) (simp_all add: eq)
      qed
    qed
  next
    case None
    show thesis
    proof (cases "\<exists>r \<in> set rs. rs_phase r = phaseRunning")
      case True
      with None show thesis using assms(1)
        by (intro active) (auto simp: chooseBatch_def queueHeads_eq Let_def)
    next
      case run: False
      show thesis
      proof (cases ?def)
        case (Some d)
        with None run show thesis using assms(1) deferred_head [OF None Some]
          by (intro serve [of d]) (auto simp: chooseBatch_def queueHeads_eq Let_def)
      next
        case nodef: None
        have "normal_indices rs = []" using None by simp
        then have "\<forall>i < length rs. \<not> normalRequest (rs ! i)"
          by (simp add: normal_indices_def filter_empty_conv)
        moreover have "\<forall>i < length rs. rs_phase (rs ! i) \<noteq> phaseDeferred"
          using nodef by (simp add: find_None_iff)
        moreover have "\<forall>i < length rs. rs_phase (rs ! i) \<noteq> phaseRunning" using run by simp
        ultimately have "\<forall>i < length rs. rs_phase (rs ! i) = phaseFinished"
          by (auto simp: normalRequest_def)
        with None nodef run show thesis using assms(1)
          by (intro idle) (auto simp: chooseBatch_def queueHeads_eq Let_def set_conv_nth)
      qed
    qed
  qed
qed

end
