(* ===== verification/FFConfig.thy ===== *)
theory FFConfig
  imports FFWire FFSampling FFPolicy
begin

text \<open>
  \<open>internal/firstfloor/config.go\<close>, \<open>recipe.go\<close>, \<open>container.go\<close> and the request checks
  of \<open>server.go\<close>: identities, the validation of a configuration and of a request context,
  the HTTP handler's admission and status decisions. A decoded JSON body is an argument.
\<close>

section \<open>Identities\<close>

text \<open>
  \<open>utf8.ValidString\<close> and the runes a range over the string yields: the decoder of RFC 3629,
  no surrogates, no overlong forms. None is invalid UTF-8.
\<close>

definition continuation :: "nat \<Rightarrow> bool" where
  "continuation b \<longleftrightarrow> 128 \<le> b \<and> b < 192"

fun decode_utf8 :: "nat list \<Rightarrow> nat list option" where
  "decode_utf8 [] = Some []"
| "decode_utf8 (b # bs) =
     (if b < 128 then map_option ((#) b) (decode_utf8 bs)
      else if 194 \<le> b \<and> b < 224
      then (case bs of
          c # rest \<Rightarrow> if continuation c
            then map_option ((#) ((b - 192) * 64 + (c - 128))) (decode_utf8 rest) else None
        | _ \<Rightarrow> None)
      else if 224 \<le> b \<and> b < 240
      then (case bs of
          c # d # rest \<Rightarrow>
            if continuation c \<and> continuation d \<and> (b \<noteq> 224 \<or> 160 \<le> c) \<and> (b \<noteq> 237 \<or> c < 160)
            then map_option ((#) ((b - 224) * 4096 + (c - 128) * 64 + (d - 128))) (decode_utf8 rest)
            else None
        | _ \<Rightarrow> None)
      else if 240 \<le> b \<and> b < 245
      then (case bs of
          c # d # e # rest \<Rightarrow>
            if continuation c \<and> continuation d \<and> continuation e
               \<and> (b \<noteq> 240 \<or> 144 \<le> c) \<and> (b \<noteq> 244 \<or> c < 144)
            then map_option ((#) ((b - 240) * 262144 + (c - 128) * 4096 + (d - 128) * 64 + (e - 128)))
                   (decode_utf8 rest)
            else None
        | _ \<Rightarrow> None)
      else None)"

definition IsControl :: "nat \<Rightarrow> bool" where
  "IsControl r \<longleftrightarrow> r < 32 \<or> 127 \<le> r \<and> r < 160"

text \<open>Unicode's White_Space.\<close>

definition IsSpace :: "nat \<Rightarrow> bool" where
  "IsSpace r \<longleftrightarrow> 9 \<le> r \<and> r \<le> 13 \<or> r = 32 \<or> r = 133 \<or> r = 160 \<or> r = 5760
     \<or> 8192 \<le> r \<and> r \<le> 8202 \<or> r = 8232 \<or> r = 8233 \<or> r = 8239 \<or> r = 8287 \<or> r = 12288"

definition identity :: "string \<Rightarrow> bool" where
  "identity s \<longleftrightarrow> s \<noteq> [] \<and> length s \<le> 256
     \<and> (case decode_utf8 (map of_char s) of
          None \<Rightarrow> False
        | Some runes \<Rightarrow> list_all (\<lambda>r. \<not> (IsControl r \<or> IsSpace r)) runes)"

section \<open>Configuration\<close>

fun unique_loop :: "string list \<Rightarrow> string list \<Rightarrow> bool" where
  "unique_loop seen [] = True"
| "unique_loop seen (n # ns) =
     (if n = [] \<or> 256 < length n \<or> n \<in> set seen then False else unique_loop (n # seen) ns)"

definition uniqueNames :: "string list \<Rightarrow> bool" where
  "uniqueNames names \<longleftrightarrow> unique_loop [] names \<and> names \<noteq> []"

text \<open>\<open>sort.SearchInts\<close> and the membership test by it.\<close>

definition SearchInts :: "int list \<Rightarrow> int \<Rightarrow> nat" where
  "SearchInts xs x = go_search (length xs) (\<lambda>i. x \<le> xs ! i)"

definition initialized :: "int list \<Rightarrow> int \<Rightarrow> bool" where
  "initialized sizes k = (let i = SearchInts sizes k in i < length sizes \<and> sizes ! i = k)"

definition measured :: "Policy \<Rightarrow> int \<Rightarrow> bool" where
  "measured p k \<longleftrightarrow> list_ex (\<lambda>b. bp_size b = k) (p_batches p)"

fun ascending :: "int \<Rightarrow> int \<Rightarrow> int list \<Rightarrow> bool" where
  "ascending cap prev [] = True"
| "ascending cap prev (k # ks) = (if k \<le> prev \<or> cap < k then False else ascending cap k ks)"

text \<open>The configuration with its batch sizes sorted, or the error.\<close>

definition validateInitializedBatches :: "Config \<Rightarrow> string + Config" where
  "validateInitializedBatches c0 =
     (let c = c0\<lparr>c_batchSizes := sort_by (<) (c_batchSizes c0)\<rparr> in
      if c_batchSizes c = [] \<or> c_mode c = modeServing \<and> c_batchSizes c ! 0 \<noteq> 1
         \<or> c_maxBatchSize c < 1 \<or> c_maxQueueRequests c < c_maxBatchSize c
      then Inl ''nonempty initialized batches and bounded maxBatchSize required; serving needs batch-1''
      else if \<not> ascending (c_maxBatchSize c) 0 (c_batchSizes c)
      then Inl ''batch exceeds initialized capacity''
      else Inr c)"

definition validateBatchCap :: "Policy \<Rightarrow> int list \<Rightarrow> string option" where
  "validateBatchCap p sizes =
     (if p_maxBatchSize p < 0 \<or> p_fixedBatchSize p < 0
      then Some ''policy maxBatchSize and fixedBatchSize must be nonnegative''
      else if p_maxBatchSize p \<noteq> 0
        \<and> (\<not> initialized sizes (p_maxBatchSize p) \<or> \<not> measured p (p_maxBatchSize p))
      then Some ''policy batch cap was not initialized and measured''
      else if p_fixedBatchSize p \<noteq> 0
        \<and> (\<not> allowedBatch p (p_fixedBatchSize p) \<or> \<not> initialized sizes (p_fixedBatchSize p)
           \<or> \<not> measured p (p_fixedBatchSize p))
      then Some ''fixed batch size must be an allowed, initialized and measured batch''
      else None)"

definition profile_less :: "BatchProfile \<Rightarrow> BatchProfile \<Rightarrow> bool" where
  "profile_less a b \<longleftrightarrow> bp_size a < bp_size b"

text \<open>Hydrates every measured batch; profiles of equal size are rejected, so the sort's order of equals does not matter.\<close>

fun hydrate_batches ::
  "int list \<Rightarrow> int \<Rightarrow> BatchProfile list \<Rightarrow> BatchProfile list \<Rightarrow> string + BatchProfile list" where
  "hydrate_batches sizes prev [] done = Inr done"
| "hydrate_batches sizes prev (b # bs) done =
     (if bp_size b \<le> prev \<or> \<not> initialized sizes (bp_size b) \<or> bp_serviceSamples b = []
         \<or> \<not> finite64 (bp_energyPerItemJ b) \<or> f_less (bp_energyPerItemJ b) f_zero
      then Inl ''invalid measured batch''
      else
        (case NewServiceDistribution identity (bp_serviceSamples b) of
           Inl e \<Rightarrow> Inl e
         | Inr d \<Rightarrow>
             hydrate_batches sizes (bp_size b) bs (done @ [b\<lparr>bp_distribution := Some d\<rparr>])))"

definition validatePolicy :: "Policy \<Rightarrow> int list \<Rightarrow> string + Policy" where
  "validatePolicy p sizes =
     (if \<not> identity (p_decisionID p) \<or> \<not> identity (p_profileID p) \<or> \<not> durationOK (p_maxBatchWaitMS p)
      then Inl ''bounded decision/profile IDs required''
      else
        (let batches = sort_by profile_less (p_batches p) in
         if batches = [] \<or> bp_size (batches ! 0) \<noteq> 1 then Inl ''measured batch-1 required''
         else
           (case hydrate_batches sizes 0 batches [] of
              Inl e \<Rightarrow> Inl e
            | Inr bs \<Rightarrow>
                (case validateBatchCap (p\<lparr>p_batches := bs\<rparr>) sizes of
                   Some e \<Rightarrow> Inl e
                 | None \<Rightarrow> Inr (p\<lparr>p_batches := bs\<rparr>)))))"

definition ValidateConfig :: "Config \<Rightarrow> string + Config" where
  "ValidateConfig c0 =
     (if c_model c0 = [] \<or> 256 < length (c_model c0) \<or> c_runnerCommand c0 = []
         \<or> c_runnerCommand c0 ! 0 = []
      then Inl ''model and runner command required''
      else if \<not> uniqueNames (c_inputs c0) \<or> \<not> uniqueNames (c_outputs c0) \<or> c_maxNewTokens c0 < 0
      then Inl ''nonempty unique bounded input and output field names and nonnegative maxNewTokens required''
      else if c_mode c0 \<noteq> modeServing \<and> c_mode c0 \<noteq> modeProfiling
      then Inl ''mode must be serving or profiling''
      else
        (let mode = EffectiveDeadlinePolicy (p_deadlinePolicy (c_policy c0));
             c = c0\<lparr>c_policy := (c_policy c0)\<lparr>p_deadlinePolicy := mode\<rparr>\<rparr> in
         if mode \<noteq> DeadlineDrop \<and> mode \<noteq> DeadlineKeep \<and> mode \<noteq> DeadlineDefer
         then Inl ''deadlinePolicy must be drop, keep or defer''
         else if c_runnerTimeoutMS c \<le> 0 \<or> \<not> durationOK (f_of_int (c_runnerTimeoutMS c))
           \<or> c_maxQueueRequests c < 1 \<or> 1048576 < c_maxQueueRequests c
           \<or> c_maxQueueBytes c < 1 \<or> MaxFrameBytes < c_maxQueueBytes c
           \<or> c_maxRequestBytes c < 1 \<or> MaxFrameBytes < c_maxRequestBytes c
         then Inl ''invalid time or body/queue capacity''
         else
           (case validateInitializedBatches c of
              Inl e \<Rightarrow> Inl e
            | Inr c1 \<Rightarrow>
                if c_mode c1 = modeServing
                then
                  (case validatePolicy (c_policy c1) (c_batchSizes c1) of
                     Inl e \<Rightarrow> Inl e
                   | Inr p \<Rightarrow> Inr (c1\<lparr>c_policy := p\<rparr>))
                else if p_fixedBatchSize (c_policy c1) \<noteq> 0
                then Inl ''fixedBatchSize applies to serving only''
                else Inr c1)))"

text \<open>\<open>ReadConfig\<close>: the decoded file and, when serving, the decoded profile bundle.\<close>

definition ReadConfig ::
  "(string + Config) \<Rightarrow> (string \<Rightarrow> string + ProfileBundle) \<Rightarrow> string + Config" where
  "ReadConfig file bundle =
     (case file of
        Inl e \<Rightarrow> Inl e
      | Inr cfg \<Rightarrow>
          if c_mode cfg = modeServing
          then
            (case bundle (c_profilePath cfg) of
               Inl e \<Rightarrow> Inl e
             | Inr b \<Rightarrow> ValidateConfig (cfg\<lparr>c_policy := (c_policy cfg)\<lparr>p_batches := pb_batches b\<rparr>\<rparr>))
          else ValidateConfig cfg)"

section \<open>The runner's command and container\<close>

text \<open>\<open>strconv.Itoa\<close>.\<close>

fun digits :: "nat \<Rightarrow> string" where
  "digits n = (if n < 10 then [char_of (48 + n)] else digits (n div 10) @ [char_of (48 + n mod 10)])"

declare digits.simps [simp del]

definition Itoa :: "int \<Rightarrow> string" where
  "Itoa n = (if n < 0 then CHR 0x2D # digits (nat (- n)) else digits (nat n))"

definition BuildRunnerCommand :: "Config \<Rightarrow> Config" where
  "BuildRunnerCommand c =
     (let e = c_execution c in
      c\<lparr>c_runnerCommand :=
        [''python3'', ''/opt/chill/runtime/firstfloor/runner.py'', ''--runtime'', ec_backend e,
         ''--model-dir'', ''/model'', ''--preprocessor'', ''/preprocessor'',
         ''--warmup-iterations'', Itoa (ec_warmupIterations e)]
        @ concat (map (\<lambda>b. [''--warmup-batch'', Itoa b]) (ec_warmupBatchSizes e))
        @ (if ec_gpuUUID e \<noteq> [] then [''--gpu-uuid'', ec_gpuUUID e] else [])
        @ (if ec_backend e = ''rknnlite'' then [''--delivery-json'', ''/config/delivery.json''] else [])\<rparr>)"

text \<open>The fields of the Kubernetes container that the projection sets.\<close>

record Container =
  co_Image :: string
  co_Requests :: "(string \<times> int) list"
  co_Limits :: "(string \<times> int) list"
  co_VolumeMounts :: "(string \<times> string \<times> bool) list"
  co_Env :: "(string \<times> string) list"

definition RuntimeContainer :: "Config \<Rightarrow> string + Container" where
  "RuntimeContainer config =
     (let e = c_execution config;
          accelerator = (if ec_acceleratorResource e \<noteq> [] then [(ec_acceleratorResource e, 1)] else []) in
      if ec_runtimeImage e = [] \<or> ec_memoryRequestBytes e \<le> 0
         \<or> ec_memoryLimitBytes e < ec_memoryRequestBytes e
      then Inl ''runtime image and positive bounded memory envelope are required''
      else Inr \<lparr>co_Image = ec_runtimeImage e,
        co_Requests = (''memory'', ec_memoryRequestBytes e) # accelerator,
        co_Limits = (''memory'', ec_memoryLimitBytes e) # accelerator,
        co_VolumeMounts = [(''artifact'', ''/model'', True), (''preprocessor'', ''/preprocessor'', True)],
        co_Env = (if ec_gpuUUID e \<noteq> [] then [(''CUDA_VISIBLE_DEVICES'', ec_gpuUUID e)] else [])\<rparr>)"

section \<open>Requests at the handler\<close>

text \<open>
  A queued request. \<open>q_ref\<close> stands for the Go pointer, which the scheduler compares; the
  reply channel and the caller's context belong to the environment of the scheduler.
\<close>

record request =
  q_ref :: nat
  q_context :: RequestContext
  q_received :: instant
  q_data :: "bytes list"
  q_bytes :: int
  q_profile :: "ProfileRequest option"
  q_lifetime :: instant

definition validateContext :: "RequestContext \<Rightarrow> string \<Rightarrow> string option" where
  "validateContext r rid =
     (if rid \<noteq> rc_requestID r \<or> \<not> identity rid \<or> \<not> identity (rc_workloadUID r)
         \<or> \<not> identity (rc_definition r) \<or> is_zero_time (rc_receivedAt r)
         \<or> \<not> durationOK (rc_senderElapsedMS r) \<or> \<not> durationOK (rc_completionMarginMS r)
         \<or> \<not> durationOK (rc_lifetimeMS r) \<or> \<not> durationOK (slo_targetMS (rc_slo r))
         \<or> f_leq (slo_targetMS (rc_slo r)) f_zero \<or> \<not> finite64 (slo_percentile (rc_slo r))
         \<or> f_leq (slo_percentile (rc_slo r)) f_zero
         \<or> f_less (f_of_int 100) (slo_percentile (rc_slo r))
      then Some ''complete bounded immutable request identity, receipt, elapsed, SLO and lifetime required''
      else None)"

text \<open>HTTP statuses; \<open>body\<close> is the decoded request or the status and text of \<open>bodyError\<close>.\<close>

type_synonym http_error = "int \<times> string"

definition prepareProfile ::
  "(instant \<Rightarrow> string) \<Rightarrow> Config \<Rightarrow> (http_error + ProfileRequest) \<Rightarrow> request \<Rightarrow> http_error + request" where
  "prepareProfile clock_text cfg body r =
     (if c_mode cfg \<noteq> modeProfiling then Inl (409, ''fixed K endpoint requires profiling mode'')
      else
        (case body of
           Inl e \<Rightarrow> Inl e
         | Inr p \<Rightarrow>
             if \<not> identity (pf_trialID p) then Inl (400, ''physical trial ID required'')
             else if \<not> initialized (c_batchSizes cfg) (int (pf_batchSize p))
             then Inl (400, ''initialized fixed batch required'')
             else
               (case prepareInputs (c_inputs cfg) (pf_inputs p) (pf_batchSize p) of
                  Inl e \<Rightarrow> Inl (400, e)
                | Inr (d, n) \<Rightarrow>
                    Inr (r\<lparr>q_data := d, q_bytes := n, q_profile := Some (p\<lparr>pf_inputs := []\<rparr>),
                      q_context := zero_context\<lparr>
                        rc_requestID := ''profile-'' @ clock_text (q_received r),
                        rc_workloadUID := modeProfiling, rc_definition := ''fixed-k''\<rparr>\<rparr>))))"

definition prepareInference ::
  "(f64 \<Rightarrow> int) \<Rightarrow> Config \<Rightarrow> (http_error + Request) \<Rightarrow> request \<Rightarrow> http_error + request" where
  "prepareInference oor cfg body r =
     (if c_mode cfg \<noteq> modeServing then Inl (409, ''inference endpoint requires serving mode'')
      else
        (case body of
           Inl e \<Rightarrow> Inl e
         | Inr q \<Rightarrow>
             (case validateContext (rq_context q) (rq_id q) of
                Some e \<Rightarrow> Inl (400, e)
              | None \<Rightarrow>
                  (case prepareInputs (c_inputs cfg) (rq_inputs q) 1 of
                     Inl e \<Rightarrow> Inl (400, e)
                   | Inr (d, n) \<Rightarrow>
                       (let c = rq_context q;
                            r1 = r\<lparr>q_data := d, q_bytes := n, q_context := c\<rparr>;
                            remaining = f_sub (f_sub (rc_lifetimeMS c) (rc_senderElapsedMS c))
                              (rc_completionMarginMS c) in
                        if \<not> f_less f_zero (rc_lifetimeMS c) then Inr r1
                        else if f_leq remaining f_zero then Inl (408, ''context deadline exceeded'')
                        else Inr (r1\<lparr>q_lifetime :=
                          q_received r1 + f_to_int64 oor (f_mul remaining (f_of_int 1000000))\<rparr>))))))"

text \<open>
  \<open>decodeRequest\<close>: what the decoder returns for the body and then for what follows it.
\<close>

datatype decoded = EndOfBody | Malformed string | Decoded

definition decodeRequest :: "(string + 'a) \<Rightarrow> decoded \<Rightarrow> string + 'a" where
  "decodeRequest first_value rest =
     (case first_value of
        Inl e \<Rightarrow> Inl e
      | Inr v \<Rightarrow>
          (case rest of
             EndOfBody \<Rightarrow> Inr v
           | Malformed e \<Rightarrow> Inl e
           | Decoded \<Rightarrow> Inl ''exactly one request JSON object required''))"

definition bodyError :: "bool \<Rightarrow> bool \<Rightarrow> string \<Rightarrow> http_error" where
  "bodyError too_big canceled e = (if too_big then 413 else if canceled then 408 else 400, e)"

text \<open>\<open>ServeHTTP\<close> up to the submission; \<open>admitted\<close> counts the requests that hold a slot.\<close>

definition serve_request ::
  "(f64 \<Rightarrow> int) \<Rightarrow> (instant \<Rightarrow> string) \<Rightarrow> Config \<Rightarrow> bool \<Rightarrow> int \<Rightarrow> string \<Rightarrow> string
    \<Rightarrow> (http_error + ProfileRequest) \<Rightarrow> (http_error + Request) \<Rightarrow> request \<Rightarrow> http_error + request" where
  "serve_request oor clock_text cfg ready admitted http_method path profile_body infer_body r =
     (let base = ''/v2/models/'' @ c_model cfg in
      if path \<noteq> base @ ''/infer'' \<and> path \<noteq> base @ ''/profile'' then Inl (404, ''unknown path or model'')
      else if http_method \<noteq> ''POST'' then Inl (405, ''POST required'')
      else if \<not> ready then Inl (503, ''runner is unavailable'')
      else if c_maxQueueRequests cfg \<le> admitted then Inl (429, ''request queue is full'')
      else
        (case (if path = base @ ''/profile'' then prepareProfile clock_text cfg profile_body r
               else prepareInference oor cfg infer_body r) of
           Inl e \<Rightarrow> Inl e
         | Inr r1 \<Rightarrow>
             if c_maxQueueBytes cfg < q_bytes r1 then Inl (413, ''input exceeds queue byte cap'')
             else Inr r1))"

text \<open>
  The status of a failed submission. \<open>ErrDeadlineDrop\<close> wraps \<open>context.DeadlineExceeded\<close>.
\<close>

definition submit_status :: "ff_error \<Rightarrow> int" where
  "submit_status e =
     (case e of
        PreprocessFailed _ \<Rightarrow> 422
      | BatchFailed _ _ \<Rightarrow> 500
      | QueueFull \<Rightarrow> 429
      | DeadlineDropped \<Rightarrow> 408
      | DeadlineExceeded \<Rightarrow> 408
      | Canceled \<Rightarrow> 408
      | _ \<Rightarrow> 503)"

text \<open>Whether the error response carries the request's progress.\<close>

definition reports_progress :: "request \<Rightarrow> ff_error \<Rightarrow> bool" where
  "reports_progress r e \<longleftrightarrow> q_profile r = None \<and>
     (case e of PreprocessFailed _ \<Rightarrow> True | BatchFailed _ _ \<Rightarrow> True | DeadlineDropped \<Rightarrow> True | _ \<Rightarrow> False)"

definition error_text :: "ff_error \<Rightarrow> string" where
  "error_text e =
     (case e of
        QueueFull \<Rightarrow> ''request queue is full''
      | Unavailable \<Rightarrow> ''runner is unavailable''
      | DeadlineDropped \<Rightarrow> ''request cannot complete within its SLO: context deadline exceeded''
      | DeadlineExceeded \<Rightarrow> ''context deadline exceeded''
      | Canceled \<Rightarrow> ''context canceled''
      | BatchFailed reason _ \<Rightarrow> reason
      | PreprocessFailed reason \<Rightarrow> reason
      | OtherError s \<Rightarrow> s)"

record ErrorResponse =
  er_error :: string
  er_failureReason :: string
  er_executionComplete :: bool
  er_progress :: "Progress option"

definition writeFailure :: "ff_error \<Rightarrow> bool \<Rightarrow> Progress option \<Rightarrow> ErrorResponse" where
  "writeFailure e finished p =
     (let s = error_text e in
      \<lparr>er_error = (if MaxErrorBytes < int (length s) then ''error exceeds detail bound'' else s),
       er_failureReason = (case e of BatchFailed _ reason \<Rightarrow> reason | _ \<Rightarrow> []),
       er_executionComplete = finished, er_progress = p\<rparr>)"

section \<open>Membership by binary search\<close>

lemma initialized_iff:
  assumes "sorted_wrt (<) sizes"
  shows "initialized sizes k \<longleftrightarrow> k \<in> set sizes"
proof -
  let ?i = "SearchInts sizes k"
  have mono: "sizes ! i \<le> sizes ! j" if "i \<le> j" "j < length sizes" for i j
    using assms that unfolding sorted_wrt_iff_nth_less by (cases "i = j") (simp_all add: less_imp_le)
  have least: "k \<le> sizes ! j \<longleftrightarrow> ?i \<le> j" if "j < length sizes" for j
    unfolding SearchInts_def by (rule go_search_least [OF _ that]) (use mono order_trans in blast)
  show ?thesis
  proof
    assume "initialized sizes k"
    then show "k \<in> set sizes" by (auto simp: initialized_def Let_def dest: nth_mem)
  next
    assume "k \<in> set sizes"
    then obtain j where j: "j < length sizes" "k = sizes ! j" by (auto simp: in_set_conv_nth)
    then have "?i \<le> j" using least by auto
    with j have lt: "?i < length sizes" by simp
    then have "k \<le> sizes ! ?i" using least by blast
    moreover have "sizes ! ?i \<le> k" using mono [OF \<open>?i \<le> j\<close> j(1)] j(2) by simp
    ultimately show "initialized sizes k" using lt by (simp add: initialized_def Let_def)
  qed
qed

lemma measured_iff: "measured p k \<longleftrightarrow> (\<exists>b \<in> set (p_batches p). bp_size b = k)"
  by (auto simp: measured_def list_ex_iff)

lemma ascending_sorted:
  "ascending cap prev ks \<Longrightarrow> sorted_wrt (<) (prev # ks) \<and> (\<forall>k \<in> set ks. k \<le> cap)"
  by (induction cap prev ks rule: ascending.induct) (fastforce split: if_splits)+

section \<open>A valid configuration\<close>

definition batch_ok :: "int list \<Rightarrow> BatchProfile \<Rightarrow> bool" where
  "batch_ok sizes b \<longleftrightarrow> bp_size b \<in> set sizes \<and> 1 \<le> bp_size b
     \<and> \<not> is_nan (bp_energyPerItemJ b) \<and> \<not> f_less (bp_energyPerItemJ b) f_zero
     \<and> (case bp_distribution b of None \<Rightarrow> False
         | Some d \<Rightarrow> dist_ok d \<and> mset (dist_rows d) = mset (bp_serviceSamples b) \<and> bp_serviceSamples b \<noteq> [])"

definition policy_ok :: "int list \<Rightarrow> Policy \<Rightarrow> bool" where
  "policy_ok sizes p \<longleftrightarrow> sorted_wrt (\<lambda>a b. bp_size a < bp_size b) (p_batches p)
     \<and> (\<forall>b \<in> set (p_batches p). batch_ok sizes b)
     \<and> (\<exists>b \<in> set (p_batches p). bp_size b = 1 \<and> allowedBatch p 1)
     \<and> 0 \<le> p_fixedBatchSize p
     \<and> (0 < p_fixedBatchSize p \<longrightarrow> allowedBatch p (p_fixedBatchSize p) \<and> measured p (p_fixedBatchSize p))"

definition config_ok :: "Config \<Rightarrow> bool" where
  "config_ok c \<longleftrightarrow> sorted_wrt (<) (c_batchSizes c) \<and> c_batchSizes c \<noteq> []
     \<and> (\<forall>k \<in> set (c_batchSizes c). 1 \<le> k \<and> k \<le> c_maxBatchSize c)
     \<and> c_maxBatchSize c \<le> c_maxQueueRequests c \<and> c_maxQueueRequests c \<le> 1048576
     \<and> 1 \<le> c_maxQueueBytes c
     \<and> p_deadlinePolicy (c_policy c) \<in> {DeadlineDrop, DeadlineKeep, DeadlineDefer}
     \<and> (c_mode c = modeProfiling \<and> p_fixedBatchSize (c_policy c) = 0
         \<or> c_mode c = modeServing \<and> policy_ok (c_batchSizes c) (c_policy c))"

lemma hydrate_batches_sound:
  assumes "hydrate_batches sizes prev bs out = Inr res" "sorted_wrt (<) sizes" "0 \<le> prev"
  shows "\<exists>new. res = out @ new \<and> map bp_size new = map bp_size bs
    \<and> sorted_wrt (\<lambda>a b. bp_size a < bp_size b) new
    \<and> (\<forall>b \<in> set new. prev < bp_size b \<and> batch_ok sizes b)"
  using assms
proof (induction sizes prev bs out rule: hydrate_batches.induct)
  case (2 sizes prev b bs out)
  from "2.prems"(1) obtain d where d: "prev < bp_size b" "initialized sizes (bp_size b)"
    "bp_serviceSamples b \<noteq> []" "finite64 (bp_energyPerItemJ b)" "\<not> f_less (bp_energyPerItemJ b) f_zero"
    "NewServiceDistribution identity (bp_serviceSamples b) = Inr d"
    and run: "hydrate_batches sizes (bp_size b) bs (out @ [b\<lparr>bp_distribution := Some d\<rparr>]) = Inr res"
    by (auto split: if_splits sum.splits)
  let ?b = "b\<lparr>bp_distribution := Some d\<rparr>"
  have "batch_ok sizes ?b"
    using d "2.prems"(2,3) hydrated [OF d(6)]
    by (cases "bp_energyPerItemJ b") (auto simp: batch_ok_def initialized_iff finite64_def)
  moreover from "2.IH" [of d] run d "2.prems"(2,3) obtain new where
    "res = (out @ [?b]) @ new" "map bp_size new = map bp_size bs"
    "sorted_wrt (\<lambda>a b. bp_size a < bp_size b) new"
    "\<forall>x \<in> set new. bp_size b < bp_size x \<and> batch_ok sizes x" by auto
  ultimately show ?case using d(1) by (intro exI [of _ "?b # new"]) auto
qed simp

lemma validateBatchCap_sound:
  assumes "validateBatchCap p sizes = None" "sorted_wrt (<) sizes" "\<forall>k \<in> set sizes. 1 \<le> k"
  shows "allowedBatch p 1" "0 \<le> p_fixedBatchSize p"
    "0 < p_fixedBatchSize p \<Longrightarrow> allowedBatch p (p_fixedBatchSize p) \<and> measured p (p_fixedBatchSize p)"
  using assms by (auto simp: validateBatchCap_def allowedBatch_def initialized_iff split: if_splits)

lemma validatePolicy_sound:
  assumes "validatePolicy p sizes = Inr q" "sorted_wrt (<) sizes" "\<forall>k \<in> set sizes. 1 \<le> k"
  shows "policy_ok sizes q" "p_deadlinePolicy q = p_deadlinePolicy p"
proof -
  from assms(1) obtain bs where h: "hydrate_batches sizes 0 (sort_by profile_less (p_batches p)) [] = Inr bs"
    and ne: "sort_by profile_less (p_batches p) \<noteq> []" "bp_size (sort_by profile_less (p_batches p) ! 0) = 1"
    and cap: "validateBatchCap (p\<lparr>p_batches := bs\<rparr>) sizes = None" and q: "q = p\<lparr>p_batches := bs\<rparr>"
    by (auto simp: validatePolicy_def Let_def split: if_splits sum.splits option.splits)
  from hydrate_batches_sound [OF h assms(2)] have
    sz: "map bp_size bs = map bp_size (sort_by profile_less (p_batches p))"
    and "sorted_wrt (\<lambda>a b. bp_size a < bp_size b) bs" "\<forall>b \<in> set bs. batch_ok sizes b" by auto
  moreover have "bs \<noteq> []" "bp_size (bs ! 0) = 1"
    using ne sz by (cases bs; cases "sort_by profile_less (p_batches p)"; simp)+
  then have "\<exists>b \<in> set bs. bp_size b = 1" by (intro bexI [of _ "bs ! 0"]) auto
  ultimately show "policy_ok sizes q"
    using validateBatchCap_sound [OF cap assms(2,3)] by (auto simp: policy_ok_def q allowedBatch_def)
  show "p_deadlinePolicy q = p_deadlinePolicy p" by (simp add: q)
qed

lemma validateInitializedBatches_sound:
  assumes "validateInitializedBatches c = Inr c'"
  shows "c' = c\<lparr>c_batchSizes := sort_by (<) (c_batchSizes c)\<rparr>"
    "sorted_wrt (<) (c_batchSizes c')" "c_batchSizes c' \<noteq> []"
    "\<forall>k \<in> set (c_batchSizes c'). 1 \<le> k \<and> k \<le> c_maxBatchSize c'"
    "c_maxBatchSize c' \<le> c_maxQueueRequests c'"
proof -
  show c': "c' = c\<lparr>c_batchSizes := sort_by (<) (c_batchSizes c)\<rparr>"
    using assms by (auto simp: validateInitializedBatches_def Let_def split: if_splits)
  have "ascending (c_maxBatchSize c) 0 (c_batchSizes c')"
    using assms by (auto simp: validateInitializedBatches_def Let_def split: if_splits)
  from ascending_sorted [OF this] show "sorted_wrt (<) (c_batchSizes c')"
    "\<forall>k \<in> set (c_batchSizes c'). 1 \<le> k \<and> k \<le> c_maxBatchSize c'" by (force simp: c')+
  show "c_batchSizes c' \<noteq> []" "c_maxBatchSize c' \<le> c_maxQueueRequests c'"
    using assms by (auto simp: validateInitializedBatches_def Let_def split: if_splits)
qed

lemma valid_config_sound:
  assumes "ValidateConfig c = Inr c'"
  shows "config_ok c'"
proof -
  let ?p = "(c_policy c)\<lparr>p_deadlinePolicy := EffectiveDeadlinePolicy (p_deadlinePolicy (c_policy c))\<rparr>"
  let ?c = "c\<lparr>c_policy := ?p\<rparr>"
  from assms obtain c1 where c1: "validateInitializedBatches ?c = Inr c1"
    and mode: "c_mode c = modeServing \<or> c_mode c = modeProfiling"
    and dl: "p_deadlinePolicy ?p \<in> {DeadlineDrop, DeadlineKeep, DeadlineDefer}"
    and cap: "c_maxQueueRequests c \<le> 1048576" "1 \<le> c_maxQueueBytes c"
    and rest: "(if c_mode c1 = modeServing
        then (case validatePolicy (c_policy c1) (c_batchSizes c1) of Inl e \<Rightarrow> Inl e | Inr p \<Rightarrow> Inr (c1\<lparr>c_policy := p\<rparr>))
        else if p_fixedBatchSize (c_policy c1) \<noteq> 0 then Inl ''fixedBatchSize applies to serving only''
        else Inr c1) = Inr c'"
    by (auto simp: ValidateConfig_def Let_def split: if_splits sum.splits)
  note v = validateInitializedBatches_sound [OF c1]
  have pos: "\<forall>k \<in> set (c_batchSizes c1). 1 \<le> k" using v(4) by blast
  show ?thesis
  proof (cases "c_mode c = modeServing")
    case True
    with rest v(1) obtain p where p: "validatePolicy (c_policy c1) (c_batchSizes c1) = Inr p"
      and c': "c' = c1\<lparr>c_policy := p\<rparr>" by (auto split: sum.splits)
    from validatePolicy_sound [OF p v(2) pos] show ?thesis
      using v dl cap True c' by (auto simp: config_ok_def)
  next
    case False
    with rest v mode dl cap show ?thesis by (auto simp: config_ok_def split: if_splits)
  qed
qed

section \<open>A valid request\<close>

lemma round_mag_pow2_64: "round_mag (pow2 64) = pow2 64"
proof (rule round_mag_exact)
  have "floor_log2 (pow2 64) = 64" by (rule floor_log2_unique) simp_all
  then show "ulp_exp (pow2 64) \<le> 64" by (simp add: ulp_exp_def)
  show "pow2 64 = of_int 1 * pow2 64" by simp
qed simp

lemma round_f64_fin: "x \<le> 18446744073709551616 \<Longrightarrow> is_fin (round_f64 s x)"
proof -
  assume "x \<le> 18446744073709551616"
  then have "round_mag x \<le> round_mag (pow2 64)" by (intro round_mag_mono) (simp add: pow2_def)
  also have "round_mag (pow2 64) = pow2 64" by (rule round_mag_pow2_64)
  also have "\<dots> < pow2 1024" by simp
  finally show ?thesis by (simp add: round_f64_def)
qed

lemma milliseconds_fin: "int64_range d \<Longrightarrow> is_fin (milliseconds d)"
proof -
  assume "int64_range d"
  then have "\<bar>d\<bar> \<le> 9223372036854775808" by (auto simp: int64_range_def min_int64_def max_int64_def)
  then have "(of_int \<bar>d\<bar> :: rat) \<le> 9223372036854775808" by (metis of_int_le_numeral_iff)
  then have fin: "is_fin (f_of_int d)" unfolding f_of_int_def by (intro round_f64_fin) simp
  have mag: "round_mag (of_int \<bar>d\<bar>) \<le> 18446744073709551616"
  proof -
    have "round_mag (of_int \<bar>d\<bar>) \<le> round_mag (pow2 64)"
      using \<open>(of_int \<bar>d\<bar> :: rat) \<le> 9223372036854775808\<close> by (intro round_mag_mono) (simp add: pow2_def)
    then show ?thesis by (simp add: round_mag_pow2_64) (simp add: pow2_def)
  qed
  have "f_of_int d = Fin (d < 0) (round_mag (of_int \<bar>d\<bar>))"
    using fin by (auto simp: f_of_int_def round_f64_def Let_def split: if_splits)
  then show ?thesis
    using mag by (simp add: milliseconds_def f_of_int_small [of 1000000])
      (intro round_f64_fin, simp)
qed

lemma f_sub_fin_not_nan: "is_fin a \<Longrightarrow> is_fin b \<Longrightarrow> is_fin c \<Longrightarrow> \<not> is_nan (f_sub (f_sub a b) c)"
proof (cases a; cases b; cases c)
  fix s m t n u k assume "a = Fin s m" "b = Fin t n" "c = Fin u k"
  moreover have "\<not> is_nan (f_add x (Fin v l))" if "\<not> is_nan x" for x v l
    using that by (cases x) (simp_all add: Let_def)
  ultimately show ?thesis by (simp add: f_sub_def Let_def del: f_add.simps)
qed simp_all

text \<open>A validated context has a number as its remaining time, whenever it is asked for.\<close>

lemma validated_remaining:
  assumes "validateContext c rid = None" "int64_range d"
    and "rs_context r = c" "rs_elapsedMS r = milliseconds d"
  shows "\<not> is_nan (RemainingSLOMS r)"
  unfolding RemainingSLOMS_def assms(3,4)
  by (rule f_sub_fin_not_nan)
    (use assms(1) milliseconds_fin [OF assms(2)] in
      \<open>auto simp: validateContext_def durationOK_def finite64_def split: if_splits\<close>)

text \<open>What the handler submits in serving mode.\<close>

definition serving_request :: "request \<Rightarrow> bool" where
  "serving_request r \<longleftrightarrow> validateContext (q_context r) (rc_requestID (q_context r)) = None
     \<and> q_bytes r = (\<Sum>b \<leftarrow> q_data r. int (length b))"

lemma validated_id: "validateContext c rid = None \<Longrightarrow> rid = rc_requestID c"
  by (auto simp: validateContext_def split: if_splits)

lemma prepared_inference:
  assumes "prepareInference oor cfg body r = Inr r'"
  shows "serving_request r'" "length (q_data r') = length (c_inputs cfg)" "q_profile r' = q_profile r"
proof -
  from assms obtain q :: Request and d n where q: "validateContext (rq_context q) (rq_id q) = None"
    "prepareInputs (c_inputs cfg) (rq_inputs q) 1 = Inr (d, n)"
    and r': "q_context r' = rq_context q" "q_data r' = d" "q_bytes r' = n" "q_profile r' = q_profile r"
    by (auto simp: prepareInference_def Let_def split: if_splits sum.splits option.splits prod.splits)
  have "length d = length (c_inputs cfg) \<and> n = (\<Sum>b \<leftarrow> d. int (length b))"
    using q(2) prepare_fields_sound [of "rq_inputs q" 1 "c_inputs cfg" "[]" 0 d n]
    by (auto simp: prepareInputs_def split: if_splits)
  with q(1) r' validated_id [OF q(1)] show "serving_request r'"
    "length (q_data r') = length (c_inputs cfg)" "q_profile r' = q_profile r"
    by (auto simp: serving_request_def)
qed

section \<open>Properties\<close>

text \<open>
  C34: a configuration that passes validation is well formed: the initialized batch sizes are
  strictly increasing, positive and within the batch and queue capacity; a serving policy has
  strictly increasing measured batches, each initialized and hydrated from all its samples,
  it can always fall back to an allowed batch of one, and a fixed batch size is allowed and
  measured. These are the facts the batching policy relies on.
\<close>

theorem valid_configuration:
  assumes "ValidateConfig c = Inr c'"
  shows "config_ok c'"
  using assms by (rule valid_config_sound)

text \<open>
  C38: an accepted inference request. Its context is validated, its byte count is that of its
  framed payloads, one per configured input, and its remaining time is a number at every
  later instant, so that the deadline order of the queue is defined.
\<close>

theorem accepted_request:
  assumes "prepareInference oor cfg body r = Inr r'"
  shows "validateContext (q_context r') (rc_requestID (q_context r')) = None
    \<and> q_bytes r' = (\<Sum>b \<leftarrow> q_data r'. int (length b)) \<and> length (q_data r') = length (c_inputs cfg)
    \<and> (\<forall>d state. int64_range d \<and> rs_context state = q_context r' \<and> rs_elapsedMS state = milliseconds d
         \<longrightarrow> \<not> is_nan (RemainingSLOMS state))"
  using prepared_inference [OF assms] validated_remaining by (auto simp: serving_request_def)

section \<open>Witnesses\<close>

definition demo_conditions :: ExecutionConditions where
  "demo_conditions = \<lparr>ec_runtimeImage = ''img'', ec_backend = ''onnx'', ec_artifact = ''a'',
     ec_artifactImage = ''i'', ec_artifactFiles = [], ec_preprocessor = ''p'', ec_preprocessorImage = ''i'',
     ec_preprocessorPath = ''/p'', ec_runtimePackages = [], ec_powerMode = [], ec_memoryRequestBytes = 1,
     ec_memoryLimitBytes = 2, ec_gpuUUID = [], ec_acceleratorResource = [], ec_warmupBatchSizes = [1],
     ec_warmupIterations = 3\<rparr>"

definition demo_batch :: BatchProfile where
  "demo_batch = \<lparr>bp_size = 1, bp_serviceSamples =
       [\<lparr>ss_serviceDurationNanos = 10000000, ss_precedingIdleNanos = Some 0, ss_trialID = ''t''\<rparr>],
     bp_distribution = None, bp_energyPerItemJ = Fin False 4\<rparr>"

definition demo_config :: "string \<Rightarrow> Config" where
  "demo_config mode = \<lparr>c_execution = demo_conditions, c_model = ''m'', c_inputs = [''x''], c_outputs = [''y''],
     c_maxNewTokens = 0, c_runnerCommand = [''python3''], c_runnerTimeoutMS = 1000,
     c_maxQueueRequests = 4, c_maxQueueBytes = 100, c_maxRequestBytes = 100, c_mode = mode,
     c_batchSizes = [1], c_maxBatchSize = 1, c_profilePath = [],
     c_policy = \<lparr>p_decisionID = ''d'', p_profileID = ''p'', p_maxBatchWaitMS = f_zero, p_maxBatchSize = 0,
       p_deadlinePolicy = DeadlineDrop, p_fixedBatchSize = 0, p_batches = [demo_batch]\<rparr>\<rparr>"

lemma demo_valid: "\<exists>c'. ValidateConfig (demo_config modeServing) = Inr c'"
proof -
  have "case ValidateConfig (demo_config modeServing) of Inl _ \<Rightarrow> False | Inr _ \<Rightarrow> True" by code_simp
  then show ?thesis by (simp split: sum.splits)
qed

theorem valid_configuration_witness:
  "\<exists>c'. ValidateConfig (demo_config modeServing) = Inr c' \<and> config_ok c'"
  using demo_valid valid_configuration by blast

definition demo_infer :: Request where
  "demo_infer = \<lparr>rq_id = ''r'', rq_context = \<lparr>rc_requestID = ''r'', rc_workloadUID = ''w'', rc_definition = ''d'',
       rc_receivedAt = 1, rc_senderElapsedMS = f_zero, rc_completionMarginMS = f_zero,
       rc_slo = \<lparr>slo_percentile = Fin False 50, slo_targetMS = Fin False 100\<rparr>, rc_lifetimeMS = f_zero\<rparr>,
     rq_inputs = [\<lparr>f_Name = ''x'', f_Data = [[1, 2]]\<rparr>]\<rparr>"

definition demo_raw :: "nat \<Rightarrow> instant \<Rightarrow> request" where
  "demo_raw ref t = \<lparr>q_ref = ref, q_context = zero_context, q_received = t, q_data = [], q_bytes = 0,
     q_profile = None, q_lifetime = 0\<rparr>"

lemma demo_accept: "\<exists>r'. prepareInference (\<lambda>_. 0) (demo_config modeServing) (Inr demo_infer) (demo_raw 1 5) = Inr r'
    \<and> q_bytes r' = 6"
proof -
  have ctx: "validateContext (rq_context demo_infer) (rq_id demo_infer) = None" by code_simp
  have life: "rc_lifetimeMS (rq_context demo_infer) = f_zero" by (simp add: demo_infer_def)
  have inp: "prepareInputs (c_inputs (demo_config modeServing)) (rq_inputs demo_infer) 1 = Inr ([frame_element [1, 2]], 6)"
    by (simp add: prepareInputs_def demo_config_def demo_infer_def)
  have mode: "c_mode (demo_config modeServing) = modeServing" by (simp add: demo_config_def)
  show ?thesis by (simp add: prepareInference_def mode ctx life inp [simplified])
qed

theorem accepted_request_witness:
  "\<exists>r'. prepareInference (\<lambda>_. 0) (demo_config modeServing) (Inr demo_infer) (demo_raw 1 5) = Inr r'
    \<and> (\<Sum>b \<leftarrow> q_data r'. int (length b)) = 6"
  using demo_accept accepted_request by fastforce

end
