(* ===== verification/FFActor.thy ===== *)
theory FFActor
  imports FFConfig "HOL-Library.AList"
begin

text \<open>
  \<open>internal/firstfloor/scheduler.go\<close>: the actor that owns the request queue of one
  executor. One iteration of its loop expires queued requests, starts a batch if none runs
  and handles one event. What other goroutines and the clock decide is an argument: the
  instant, the callers' cancellations, the idle time of the runner, the completed batch.
  Replies on the request channels and progress lines are appended to logs of the state.
\<close>

section \<open>State\<close>

text \<open>
  \<open>result\<close>: None stands for the zero value of \<open>response\<close> and \<open>profile\<close>.
\<close>

record result =
  rl_response :: "Response option"
  rl_profile :: "ProfileResponse option"
  rl_err :: "ff_error option"
  rl_complete :: bool

record batch_result =
  br_output :: runnerOutput
  br_err :: "ff_error option"
  br_profile :: "ProfileResponse option"

record arrivalRate =
  ar_last :: instant
  ar_previous :: instant
  ar_intervalMS :: f64

text \<open>
  The actor. \<open>a_rates\<close> is the map of arrival rates in an iteration order. The last three
  fields are what leaves the actor: replies by request, progress, and the batches handed to
  \<open>executeBatch\<close> with the configuration they run under.
\<close>

record schedulerActor =
  a_cfg :: Config
  a_queue :: "request list"
  a_deferred :: "request list"
  a_active :: "request list"
  a_queuedBytes :: int
  a_batchID :: nat
  a_started :: instant
  a_activePolicy :: Policy
  a_accepted :: nat
  a_completed :: nat
  a_executions :: nat
  a_rates :: "(string \<times> arrivalRate) list"
  a_replies :: "(nat \<times> result) list"
  a_progress :: "Progress list"
  a_launched :: "(nat \<times> request list \<times> Config) list"

definition zero_policy :: Policy where
  "zero_policy = \<lparr>p_decisionID = [], p_profileID = [], p_maxBatchWaitMS = f_zero, p_maxBatchSize = 0,
     p_deadlinePolicy = [], p_fixedBatchSize = 0, p_batches = []\<rparr>"

definition new_actor :: "Config \<Rightarrow> schedulerActor" where
  "new_actor cfg = \<lparr>a_cfg = cfg, a_queue = [], a_deferred = [], a_active = [], a_queuedBytes = 0,
     a_batchID = 0, a_started = 0, a_activePolicy = zero_policy, a_accepted = 0, a_completed = 0,
     a_executions = 0, a_rates = [], a_replies = [], a_progress = [], a_launched = []\<rparr>"

definition emit :: "Progress \<Rightarrow> schedulerActor \<Rightarrow> schedulerActor" where
  "emit p a = a\<lparr>a_progress := a_progress a @ [p]\<rparr>"

definition answer :: "request \<Rightarrow> result \<Rightarrow> schedulerActor \<Rightarrow> schedulerActor" where
  "answer r v a = a\<lparr>a_replies := a_replies a @ [(q_ref r, v)]\<rparr>"

definition failure :: "ff_error \<Rightarrow> result" where
  "failure e = \<lparr>rl_response = None, rl_profile = None, rl_err = Some e, rl_complete = True\<rparr>"

definition batch_size_of :: "schedulerActor \<Rightarrow> request \<Rightarrow> nat" where
  "batch_size_of a r =
     (case q_profile r of None \<Rightarrow> length (a_active a) | Some p \<Rightarrow> pf_batchSize p)"

section \<open>Progress and request states\<close>

definition progress ::
  "schedulerActor \<Rightarrow> request \<Rightarrow> string \<Rightarrow> instant \<Rightarrow> runnerOutput \<Rightarrow> bool \<Rightarrow> Progress" where
  "progress a r phase now out finished =
     (let elapsed = milliseconds (time_sub now (q_received r));
          inActive = list_ex (\<lambda>x. q_ref x = q_ref r) (a_active a);
          base = \<lparr>pr_requestID = rc_requestID (q_context r),
            pr_workloadUID = rc_workloadUID (q_context r), pr_definition = rc_definition (q_context r),
            pr_phase = phase, pr_at = now, pr_batchID = 0, pr_batchSize = 0, pr_profileID = [],
            pr_decisionID = [], pr_queueMS = f_zero, pr_serviceMS = f_zero, pr_backendMS = f_zero,
            pr_preprocessMS = f_zero, pr_postprocessMS = f_zero, pr_firstTokenMS = f_zero, pr_units = 0,
            pr_nativeElapsedMS = elapsed, pr_executionComplete = finished, pr_outcome = [],
            pr_serviceSample = None\<rparr>
      in if phase = phaseRunning \<or> phase = phaseFinished \<and> inActive
         then base\<lparr>pr_batchID := a_batchID a, pr_batchSize := batch_size_of a r,
           pr_profileID := p_profileID (a_activePolicy a), pr_decisionID := p_decisionID (a_activePolicy a),
           pr_queueMS := milliseconds (time_sub (a_started a) (q_received r)),
           pr_serviceMS := ro_serviceMS out, pr_backendMS := ro_backendMS out,
           pr_preprocessMS := ro_preprocessMS out, pr_postprocessMS := ro_postprocessMS out,
           pr_firstTokenMS := ro_firstMS out,
           pr_serviceSample :=
             (if 0 < ss_serviceDurationNanos (ro_sample out) then Some (ro_sample out) else None)\<rparr>
         else base\<lparr>pr_queueMS := elapsed, pr_profileID := p_profileID (c_policy (a_cfg a)),
           pr_decisionID := p_decisionID (c_policy (a_cfg a))\<rparr>)"

text \<open>\<open>clock\<close> is the gap and elapsed time of the running exchange.\<close>

definition request_state ::
  "schedulerActor \<Rightarrow> instant \<Rightarrow> int option \<times> int option \<Rightarrow> string \<Rightarrow> request \<Rightarrow> RequestState" where
  "request_state a now clock phase r =
     (let elapsed = milliseconds (time_sub now (q_received r)); running = (phase = phaseRunning);
          policy = (if running then a_activePolicy a else c_policy (a_cfg a))
      in \<lparr>rs_context = q_context r,
          rs_queueMS = (if running then milliseconds (time_sub (a_started a) (q_received r)) else elapsed),
          rs_elapsedMS = elapsed,
          rs_arrivalRate =
            (case map_of (a_rates a) (rc_workloadUID (q_context r)) of
               None \<Rightarrow> f_zero
             | Some rr \<Rightarrow> if f_less f_zero (ar_intervalMS rr)
                 then f_div (f_of_int 1000) (ar_intervalMS rr) else f_zero),
          rs_phase = phase,
          rs_batchID = (if running then a_batchID a else 0),
          rs_batchSize = (if running then batch_size_of a r else 0),
          rs_serviceElapsedMS = (if running then milliseconds (time_sub now (a_started a)) else f_zero),
          rs_profileID = p_profileID policy, rs_decisionID = p_decisionID policy,
          rs_remainingLifetimeMS =
            (if is_zero_time (q_lifetime r) then None
             else Some (milliseconds (time_sub (q_lifetime r) now))),
          rs_precedingIdleNanos = (if running then fst clock else None),
          rs_exchangeElapsedNanos = (if running then snd clock else None)\<rparr>)"

definition requestStates ::
  "schedulerActor \<Rightarrow> instant \<Rightarrow> int option \<times> int option \<Rightarrow> RequestState list" where
  "requestStates a now clock =
     map (request_state a now clock phaseQueued) (a_queue a)
     @ map (request_state a now clock phaseDeferred) (a_deferred a)
     @ map (request_state a now clock phaseRunning) (a_active a)"

text \<open>
  \<open>metadata\<close> and \<open>state\<close>, the answer to a state query. \<open>age\<close> is the first result of
  \<open>exchangeState\<close>, \<open>clock\<close> the other two.
\<close>

record Metadata =
  me_Model :: string
  me_Mode :: string
  me_Runtime :: RuntimeMetadata
  me_ProfileID :: string
  me_DecisionID :: string
  me_AppliedAt :: instant
  me_Policy :: Policy
  me_MaxQueueRequests :: int
  me_MaxQueueBytes :: int
  me_MaxRequestBytes :: int
  me_MaxHeaderBytes :: int
  me_MaxFrameBytes :: int
  me_MaxProgressBytes :: int
  me_MaxErrorBytes :: int
  me_MaxBatchSize :: int
  me_ModelInstanceCount :: int

record State =
  sa_At :: instant
  sa_Ready :: bool
  sa_Metadata :: Metadata
  sa_Requests :: "RequestState list"
  sa_AcceptedRequests :: nat
  sa_CompletedRequests :: nat
  sa_Executions :: nat
  sa_ArrivalAgesMS :: "(string \<times> f64 list) list"
  sa_LastServiceEndAgeNanos :: "int option"
  sa_DecisionIdleApproximate :: bool

definition metadata :: "Config \<Rightarrow> RuntimeMetadata \<Rightarrow> instant \<Rightarrow> Metadata" where
  "metadata c runtime applied = \<lparr>me_Model = c_model c, me_Mode = c_mode c, me_Runtime = runtime,
     me_ProfileID = p_profileID (c_policy c), me_DecisionID = p_decisionID (c_policy c),
     me_AppliedAt = applied, me_Policy = c_policy c, me_MaxQueueRequests = c_maxQueueRequests c,
     me_MaxQueueBytes = c_maxQueueBytes c, me_MaxRequestBytes = c_maxRequestBytes c,
     me_MaxHeaderBytes = MaxHeaderBytes, me_MaxFrameBytes = MaxFrameBytes,
     me_MaxProgressBytes = MaxProgressBytes, me_MaxErrorBytes = MaxErrorBytes,
     me_MaxBatchSize = c_maxBatchSize c, me_ModelInstanceCount = 1\<rparr>"

definition arrival_ages :: "instant \<Rightarrow> arrivalRate \<Rightarrow> f64 list" where
  "arrival_ages now rr =
     (let age = milliseconds (time_sub now (ar_last rr)) in
      if f_less f_zero (ar_intervalMS rr) then [age, f_add age (ar_intervalMS rr)] else [age])"

definition actor_state ::
  "schedulerActor \<Rightarrow> instant \<Rightarrow> bool \<Rightarrow> RuntimeMetadata \<Rightarrow> instant \<Rightarrow> int option
    \<Rightarrow> int option \<times> int option \<Rightarrow> State" where
  "actor_state a now ready runtime applied age clock =
     \<lparr>sa_At = now, sa_Ready = ready, sa_Metadata = metadata (a_cfg a) runtime applied,
      sa_Requests = requestStates a now clock, sa_AcceptedRequests = a_accepted a,
      sa_CompletedRequests = a_completed a, sa_Executions = a_executions a,
      sa_ArrivalAgesMS = map (\<lambda>(uid, rr). (uid, arrival_ages now rr)) (a_rates a),
      sa_LastServiceEndAgeNanos = age, sa_DecisionIdleApproximate = True\<rparr>"

text \<open>\<open>emitProgress\<close>: the line on standard output, unless it is too long or not encodable.\<close>

definition emitProgress :: "(Progress \<Rightarrow> string option) \<Rightarrow> Progress \<Rightarrow> string option" where
  "emitProgress marshal p =
     (case marshal p of
        None \<Rightarrow> None
      | Some b \<Rightarrow>
          if MaxProgressBytes < int (length b + length ''CHILL_PROGRESS '') then None
          else Some (''CHILL_PROGRESS '' @ b @ [CHR 0x0A]))"

text \<open>\<open>serveStatus\<close>: the status of a GET request, None for a path it leaves to the caller.\<close>

datatype status_body = NoBody | MetadataBody Metadata | StateBody State | ErrorBody ff_error

definition serveStatus ::
  "string \<Rightarrow> string \<Rightarrow> bool \<Rightarrow> (ff_error + State) \<Rightarrow> (int \<times> status_body) option" where
  "serveStatus path base ready st =
     (if path = ''/v2/health/live'' then Some (200, NoBody)
      else if path = ''/v2/health/ready''
      then Some (if ready then (200, NoBody) else (503, ErrorBody Unavailable))
      else if path = base @ ''/metadata'' \<or> path = base @ ''/state''
      then Some (case st of
             Inl e \<Rightarrow> (503, ErrorBody e)
           | Inr v \<Rightarrow> (200, if path = base @ ''/metadata'' then MetadataBody (sa_Metadata v) else StateBody v))
      else None)"

section \<open>Ending queued requests\<close>

text \<open>\<open>ctx_err\<close> is \<open>r.ctx.Err()\<close> by request.\<close>

definition requestError :: "(nat \<Rightarrow> ff_error option) \<Rightarrow> request \<Rightarrow> instant \<Rightarrow> ff_error option" where
  "requestError ctx_err r now =
     (case ctx_err (q_ref r) of
        Some e \<Rightarrow> Some e
      | None \<Rightarrow> if \<not> is_zero_time (q_lifetime r) \<and> \<not> now < q_lifetime r
                then Some DeadlineExceeded else None)"

definition response_of :: "schedulerActor \<Rightarrow> request \<Rightarrow> Field list \<Rightarrow> Progress \<Rightarrow> Response" where
  "response_of a r outs p = \<lparr>re_modelName = c_model (a_cfg a), re_id = rc_requestID (q_context r),
     re_outputs = outs, re_progress = p, re_executionComplete = True\<rparr>"

definition finishQueued :: "request \<Rightarrow> instant \<Rightarrow> ff_error \<Rightarrow> schedulerActor \<Rightarrow> schedulerActor" where
  "finishQueued r now e a0 =
     (let a = a0\<lparr>a_queuedBytes := a_queuedBytes a0 - q_bytes r\<rparr>;
          p = (progress a r phaseFinished now empty_output True)
            \<lparr>pr_outcome := (if e = DeadlineDropped then OutcomeDeadlineDrop else error_text e)\<rparr>;
          v = \<lparr>rl_response = Some (response_of a r [] p), rl_profile = None, rl_err = Some e, rl_complete = True\<rparr>;
          b = answer r v (emit p a)
      in b\<lparr>a_completed := a_completed b + 1\<rparr>)"

text \<open>The earlier of two wake-up times; zero is none.\<close>

definition earlier_wake :: "instant \<Rightarrow> instant \<Rightarrow> instant" where
  "earlier_wake next_at t = (if is_zero_time next_at \<or> t < next_at then t else next_at)"

definition slo_state :: "request \<Rightarrow> instant \<Rightarrow> RequestState" where
  "slo_state r now = zero_state\<lparr>rs_context := q_context r,
     rs_elapsedMS := milliseconds (time_sub now (q_received r))\<rparr>"

definition expire_step ::
  "(f64 \<Rightarrow> int) \<Rightarrow> (nat \<Rightarrow> ff_error option) \<Rightarrow> instant \<Rightarrow> bool
    \<Rightarrow> schedulerActor \<times> request list \<times> instant \<Rightarrow> request \<Rightarrow> schedulerActor \<times> request list \<times> instant" where
  "expire_step oor ctx_err now drop_policy = (\<lambda>(a, kept, next_at) r.
     (let state = slo_state r now;
          e = (case requestError ctx_err r now of
                 Some x \<Rightarrow> Some x
               | None \<Rightarrow> if drop_policy \<and> SLOExpired state then Some DeadlineDropped else None)
      in case e of
           Some x \<Rightarrow> (finishQueued r now x a, kept, next_at)
         | None \<Rightarrow>
             (let n1 = (if is_zero_time (q_lifetime r) then next_at
                        else earlier_wake next_at (q_lifetime r));
                  n2 = (if drop_policy
                        then earlier_wake n1
                          (now + f_to_int64 oor (f_mul (RemainingSLOMS state) (f_of_int 1000000)))
                        else n1)
              in (a, kept @ [r], n2))))"

definition drops_expired :: "Config \<Rightarrow> bool" where
  "drops_expired cfg \<longleftrightarrow> c_mode cfg = modeServing \<and> p_fixedBatchSize (c_policy cfg) = 0
     \<and> EffectiveDeadlinePolicy (p_deadlinePolicy (c_policy cfg)) = DeadlineDrop"

definition expireQueued ::
  "(f64 \<Rightarrow> int) \<Rightarrow> (nat \<Rightarrow> ff_error option) \<Rightarrow> instant \<Rightarrow> schedulerActor \<Rightarrow> schedulerActor \<times> instant" where
  "expireQueued oor ctx_err now a0 =
     (let (a1, kept1, n1) =
            foldl (expire_step oor ctx_err now (drops_expired (a_cfg a0))) (a0, [], 0) (a_queue a0);
          a2 = a1\<lparr>a_queue := kept1\<rparr>;
          (a3, kept2, n2) =
            foldl (expire_step oor ctx_err now False) (a2, [], n1) (a_deferred a2)
      in (a3\<lparr>a_deferred := kept2\<rparr>, n2))"

section \<open>Starting a batch\<close>

text \<open>
  \<open>Panicked\<close> is Go's index panic on \<open>a.queue[0]\<close>; \<open>OutOfFuel\<close> is a loop that would go on.
\<close>

datatype 'a run = Done 'a | Panicked | OutOfFuel

definition drop_or_defer :: "instant \<Rightarrow> BatchChoice \<Rightarrow> schedulerActor \<Rightarrow> schedulerActor" where
  "drop_or_defer now choice a =
     (case find_index (\<lambda>r. rc_requestID (q_context r) = bc_requestID choice) (a_queue a) of
        None \<Rightarrow> a
      | Some i \<Rightarrow>
          (let r = a_queue a ! i; b = a\<lparr>a_queue := delete_at i (a_queue a)\<rparr> in
           if bc_reason choice = ReasonDeadlineDefer
           then (let d = b\<lparr>a_deferred := a_deferred b @ [r]\<rparr>
                 in emit (progress d r phaseDeferred now empty_output False) d)
           else finishQueued r now DeadlineDropped b))"

text \<open>The requests a batch takes: the first \<open>k\<close> of the chosen workload and definition.\<close>

fun take_batch :: "nat \<Rightarrow> string \<Rightarrow> string \<Rightarrow> request list \<Rightarrow> request list \<times> request list" where
  "take_batch k uid def [] = ([], [])"
| "take_batch k uid def (r # rs) =
     (if 0 < k \<and> rc_workloadUID (q_context r) = uid \<and> rc_definition (q_context r) = def
      then (case take_batch (k - 1) uid def rs of (taken, kept) \<Rightarrow> (r # taken, kept))
      else (case take_batch k uid def rs of (taken, kept) \<Rightarrow> (taken, r # kept)))"

definition launch :: "instant \<Rightarrow> BatchChoice \<Rightarrow> schedulerActor \<Rightarrow> schedulerActor" where
  "launch now choice a =
     (let from_queue = (a_queue a \<noteq> []);
          (taken, kept) = take_batch (nat (bc_size choice)) (bc_workloadUID choice) (bc_definition choice)
            (if from_queue then a_queue a else a_deferred a);
          b = a\<lparr>a_active := taken, a_queuedBytes := a_queuedBytes a - sum_list (map q_bytes taken),
            a_queue := (if from_queue then kept else a_queue a),
            a_deferred := (if from_queue then a_deferred a else kept),
            a_started := now, a_activePolicy := c_policy (a_cfg a), a_batchID := a_batchID a + 1\<rparr>;
          d = foldl (\<lambda>x r. emit (progress x r phaseRunning now empty_output False) x) b taken
      in d\<lparr>a_launched := a_launched d @ [(a_batchID d, taken, a_cfg d)]\<rparr>)"

definition next_choice ::
  "(f64 \<Rightarrow> int) \<Rightarrow> instant \<Rightarrow> int option \<Rightarrow> schedulerActor \<Rightarrow> BatchChoice option" where
  "next_choice oor now idle a =
     (if c_mode (a_cfg a) = modeProfiling
      then (case a_queue a of
              [] \<Rightarrow> None
            | r # _ \<Rightarrow> Some (zero_choice\<lparr>bc_size := 1, bc_workloadUID := rc_workloadUID (q_context r),
                 bc_definition := rc_definition (q_context r)\<rparr>))
      else Some (ChooseBatch oor (c_policy (a_cfg a)) (requestStates a now (None, None)) idle))"

fun start_loop ::
  "nat \<Rightarrow> (f64 \<Rightarrow> int) \<Rightarrow> instant \<Rightarrow> int option \<Rightarrow> instant \<Rightarrow> schedulerActor
    \<Rightarrow> (schedulerActor \<times> instant) run" where
  "start_loop fuel oor now idle next_at a =
     (if a_queue a = [] \<and> a_deferred a = [] then Done (a, next_at)
      else
        (case next_choice oor now idle a of
           None \<Rightarrow> Panicked
         | Some choice \<Rightarrow>
             if bc_reason choice = OutcomeDeadlineDrop \<or> bc_reason choice = ReasonDeadlineDefer
             then (case fuel of
                     0 \<Rightarrow> OutOfFuel
                   | Suc n \<Rightarrow> start_loop n oor now idle next_at (drop_or_defer now choice a))
             else
               (let n1 = (if f_less f_zero (bc_waitMS choice)
                          then earlier_wake next_at
                            (now + f_to_int64 oor (f_mul (bc_waitMS choice) (f_of_int 1000000)))
                          else next_at)
                in if bc_size choice \<le> 0 then Done (a, n1) else Done (launch now choice a, n1))))"

declare start_loop.simps [simp del]

definition startBatch ::
  "nat \<Rightarrow> (f64 \<Rightarrow> int) \<Rightarrow> instant \<Rightarrow> int option \<Rightarrow> instant \<Rightarrow> schedulerActor
    \<Rightarrow> (schedulerActor \<times> instant) run" where
  "startBatch fuel oor now idle next_at a =
     (if a_active a \<noteq> [] then Done (a, next_at)
      else start_loop fuel oor now idle next_at (a\<lparr>a_started := 0\<rparr>))"

section \<open>Admission\<close>

definition oldest_rate :: "(string \<times> arrivalRate) list \<Rightarrow> string" where
  "oldest_rate rates =
     fst (foldl (\<lambda>(uid, at_time) (u, rr). if is_zero_time at_time \<or> ar_last rr < at_time
            then (u, ar_last rr) else (uid, at_time)) ([], 0) rates)"

definition rate_update :: "request \<Rightarrow> arrivalRate \<Rightarrow> arrivalRate" where
  "rate_update r rr =
     (let rr1 =
        (if is_zero_time (ar_last rr) \<or> \<not> q_received r < ar_last rr
         then rr\<lparr>ar_previous := ar_last rr, ar_last := q_received r\<rparr>
         else if is_zero_time (ar_previous rr) \<or> ar_previous rr < q_received r
         then rr\<lparr>ar_previous := q_received r\<rparr> else rr)
      in if is_zero_time (ar_previous rr1) then rr1
         else rr1\<lparr>ar_intervalMS := milliseconds (time_sub (ar_last rr1) (ar_previous rr1))\<rparr>)"

definition zero_rate :: arrivalRate where
  "zero_rate = \<lparr>ar_last = 0, ar_previous = 0, ar_intervalMS = f_zero\<rparr>"

definition observeArrival :: "request \<Rightarrow> schedulerActor \<Rightarrow> schedulerActor" where
  "observeArrival r a =
     (let uid = rc_workloadUID (q_context r);
          rates = (if map_of (a_rates a) uid = None \<and> c_maxQueueRequests (a_cfg a) \<le> int (length (a_rates a))
                   then filter (\<lambda>x. fst x \<noteq> oldest_rate (a_rates a)) (a_rates a) else a_rates a);
          rr = (case map_of rates uid of None \<Rightarrow> zero_rate | Some x \<Rightarrow> x)
      in a\<lparr>a_rates := AList.update uid (rate_update r rr) rates\<rparr>)"

text \<open>Insertion before the first request with more remaining time.\<close>

definition admit_index :: "request \<Rightarrow> instant \<Rightarrow> request list \<Rightarrow> nat" where
  "admit_index r now queue =
     (let slack = RemainingSLOMS (slo_state r now)
      in go_search (length queue) (\<lambda>i. f_less slack (RemainingSLOMS (slo_state (queue ! i) now))))"

definition admit :: "(nat \<Rightarrow> ff_error option) \<Rightarrow> instant \<Rightarrow> request \<Rightarrow> schedulerActor \<Rightarrow> schedulerActor" where
  "admit ctx_err now r a0 =
     (case ctx_err (q_ref r) of
        Some e \<Rightarrow> answer r (failure e) a0
      | None \<Rightarrow>
          if c_maxQueueRequests (a_cfg a0) \<le> int (length (a_queue a0) + length (a_deferred a0))
             \<or> c_maxQueueBytes (a_cfg a0) - a_queuedBytes a0 < q_bytes r
          then answer r (failure QueueFull) a0
          else
            (let a = observeArrival r a0;
                 queue = (if c_mode (a_cfg a) = modeProfiling then a_queue a @ [r]
                          else insert_at (admit_index r now (a_queue a)) r (a_queue a));
                 b = a\<lparr>a_queue := queue, a_queuedBytes := a_queuedBytes a + q_bytes r,
                   a_accepted := a_accepted a + 1\<rparr>
             in emit (progress b r phaseQueued now empty_output False) b))"

section \<open>Executing and finishing a batch\<close>

text \<open>The tensors and chunks of \<open>packBatch\<close>: for each field the elements of every request.\<close>

definition packBatch :: "string list \<Rightarrow> request list \<Rightarrow> nat \<Rightarrow> wireTensor list \<times> bytes list" where
  "packBatch names requests k =
     (map (\<lambda>i. \<lparr>wt_Name = names ! i, wt_Datatype = ''BYTES'', wt_Shape = [int k],
              wt_Bytes = int (sum_list (map (\<lambda>r. length (q_data r ! i)) requests))\<rparr>) [0..<length names],
      case requests of
        [r] \<Rightarrow> q_data r
      | _ \<Rightarrow> concat (map (\<lambda>i. map (\<lambda>r. q_data r ! i) requests) [0..<length names]))"

text \<open>\<open>executeProfile\<close> and \<open>executeBatch\<close>, given what \<open>infer\<close> returned and the time it took.\<close>

definition executeProfile ::
  "ProfileRequest \<Rightarrow> nat \<Rightarrow> Config \<Rightarrow> duration \<Rightarrow> runnerOutput \<Rightarrow> ff_error option \<Rightarrow> batch_result" where
  "executeProfile pr bid snapshot spent out e =
     (case e of
        Some x \<Rightarrow> \<lparr>br_output = out, br_err = Some x, br_profile = None\<rparr>
      | None \<Rightarrow>
          (case find (\<lambda>i. ir_Error i \<noteq> []) (ro_items out) of
             Some i \<Rightarrow> \<lparr>br_output = out, br_err = Some (PreprocessFailed (ir_Error i)), br_profile = None\<rparr>
           | None \<Rightarrow>
               \<lparr>br_output = out, br_err = None,
                br_profile = Some \<lparr>ps_batchSize = pf_batchSize pr, ps_batchIDs = [bid],
                  ps_nativeSamplesMS = [milliseconds spent], ps_serviceSamples = [ro_sample out],
                  ps_backendSamplesMS = [ro_backendMS out], ps_preprocessSamplesMS = [ro_preprocessMS out],
                  ps_postprocessSamplesMS = [ro_postprocessMS out],
                  ps_firstTokenSamplesMS = (if 0 < c_maxNewTokens snapshot then [ro_firstMS out] else []),
                  ps_units = map ir_Units (ro_items out), ps_nativeElapsedMS = f_zero,
                  ps_executionComplete = True\<rparr>\<rparr>))"

definition executeBatch ::
  "request list \<Rightarrow> nat \<Rightarrow> Config \<Rightarrow> duration \<Rightarrow> runnerOutput \<Rightarrow> ff_error option \<Rightarrow> batch_result" where
  "executeBatch batch bid snapshot spent out e =
     (case q_profile (hd batch) of
        Some pr \<Rightarrow> executeProfile pr bid snapshot spent out e
      | None \<Rightarrow> \<lparr>br_output = out, br_err = e, br_profile = None\<rparr>)"

definition finish_profile :: "instant \<Rightarrow> batch_result \<Rightarrow> request \<Rightarrow> schedulerActor \<Rightarrow> schedulerActor" where
  "finish_profile now done r a =
     (let prof = (case br_err done of
            None \<Rightarrow> map_option (\<lambda>p. p\<lparr>ps_nativeElapsedMS := milliseconds (time_sub now (q_received r))\<rparr>) (br_profile done)
          | Some _ \<Rightarrow> br_profile done);
          v = \<lparr>rl_response = None, rl_profile = prof, rl_err = br_err done, rl_complete = True\<rparr>;
          p = (progress a r phaseFinished now (br_output done) True)
            \<lparr>pr_outcome := (case br_err done of
                Some (BatchFailed _ _) \<Rightarrow> OutcomeBatchError
              | Some (PreprocessFailed _) \<Rightarrow> OutcomePreprocessFailed
              | _ \<Rightarrow> [])\<rparr>
      in emit p (answer r v a))"

text \<open>
  One request of a finished batch: None is Go's index panic on the items or the outputs.
  \<open>success\<close> counts the successful requests before it.
\<close>

definition finish_item ::
  "(nat \<Rightarrow> ff_error option) \<Rightarrow> instant \<Rightarrow> batch_result \<Rightarrow> nat \<Rightarrow> nat \<Rightarrow> request \<Rightarrow> schedulerActor
    \<Rightarrow> (schedulerActor \<times> nat) option" where
  "finish_item ctx_err now done i success r a =
     (let p = progress a r phaseFinished now (br_output done) True;
          finish = (\<lambda>p outs e. answer r \<lparr>rl_response = Some (response_of a r outs p), rl_profile = None,
             rl_err = e, rl_complete = True\<rparr> (emit p a))
      in case br_err done of
           Some (BatchFailed reason kind) \<Rightarrow>
             Some (finish (p\<lparr>pr_outcome := OutcomeBatchError\<rparr>) [] (Some (BatchFailed reason kind)), success)
         | _ \<Rightarrow>
             if length (ro_items (br_output done)) \<le> i then None
             else
               (let item = ro_items (br_output done) ! i in
                if ir_Error item \<noteq> []
                then Some (finish (p\<lparr>pr_outcome := OutcomePreprocessFailed\<rparr>) []
                       (Some (PreprocessFailed (ir_Error item))), success)
                else if list_ex (\<lambda>f. length (f_Data f) < success + 1) (ro_outputs (br_output done)) then None
                else
                  (let e = requestError ctx_err r now in
                   Some (finish (p\<lparr>pr_units := ir_Units item,
                       pr_outcome := (case e of None \<Rightarrow> outcomeCompleted | Some x \<Rightarrow> error_text x)\<rparr>)
                     (map (\<lambda>f. \<lparr>f_Name = f_Name f, f_Data = [f_Data f ! success]\<rparr>) (ro_outputs (br_output done)))
                     e, success + 1))))"

fun finish_items ::
  "(nat \<Rightarrow> ff_error option) \<Rightarrow> instant \<Rightarrow> batch_result \<Rightarrow> nat \<Rightarrow> nat \<Rightarrow> request list \<Rightarrow> schedulerActor
    \<Rightarrow> schedulerActor option" where
  "finish_items ctx_err now done i success [] a = Some a"
| "finish_items ctx_err now done i success (r # rs) a =
     (case finish_item ctx_err now done i success r a of
        None \<Rightarrow> None
      | Some (b, k) \<Rightarrow> finish_items ctx_err now done (i + 1) k rs b)"

definition finishBatch ::
  "(nat \<Rightarrow> ff_error option) \<Rightarrow> instant \<Rightarrow> batch_result \<Rightarrow> schedulerActor \<Rightarrow> schedulerActor option" where
  "finishBatch ctx_err now done a0 =
     (case a_active a0 of
        [] \<Rightarrow> None
      | r # _ \<Rightarrow>
          (let a = a0\<lparr>a_completed := a_completed a0 + length (a_active a0), a_executions := a_executions a0 + 1\<rparr>
           in map_option (\<lambda>b. b\<lparr>a_active := [], a_started := 0\<rparr>)
                (if q_profile r \<noteq> None then Some (finish_profile now done r a)
                 else finish_items ctx_err now done 0 0 (a_active a) a)))"

text \<open>\<open>fail\<close>: the runner is gone; every pending request is answered with the error.\<close>

definition fail_step :: "instant \<Rightarrow> ff_error \<Rightarrow> schedulerActor \<Rightarrow> request \<Rightarrow> schedulerActor" where
  "fail_step now e a r =
     (let p = (progress a r phaseFinished now empty_output True)\<lparr>pr_outcome := ''runner_terminated''\<rparr>;
          b = answer r (failure e) (emit p a)
      in b\<lparr>a_completed := a_completed b + 1\<rparr>)"

definition fail :: "instant \<Rightarrow> ff_error \<Rightarrow> schedulerActor \<Rightarrow> schedulerActor" where
  "fail now e a = foldl (fail_step now e) a (a_queue a @ a_deferred a @ a_active a)"

section \<open>Policy updates\<close>

text \<open>
  \<open>Update\<close> up to the hand-over to the actor: the configuration to store, or the error.
\<close>

definition Update :: "Config \<Rightarrow> Config \<Rightarrow> string + Config" where
  "Update current cfg =
     (if EffectiveDeadlinePolicy (p_deadlinePolicy (c_policy cfg))
           \<noteq> EffectiveDeadlinePolicy (p_deadlinePolicy (c_policy current))
         \<or> p_fixedBatchSize (c_policy cfg) \<noteq> p_fixedBatchSize (c_policy current)
      then Inl ''deadline policy and fixed batch size changes require restart''
      else if cfg\<lparr>c_policy := c_policy current\<rparr> \<noteq> current
      then Inl ''execution, mode, capacity and immutable profile changes require restart''
      else
        (let policy = (c_policy cfg)\<lparr>p_deadlinePolicy := EffectiveDeadlinePolicy (p_deadlinePolicy (c_policy cfg)),
               p_batches := p_batches (c_policy current)\<rparr>
         in if \<not> durationOK (p_maxBatchWaitMS policy) \<or> \<not> identity (p_decisionID policy)
            then Inl ''invalid mutable policy''
            else (case validateBatchCap policy (c_batchSizes current) of
                    Some e \<Rightarrow> Inl e
                  | None \<Rightarrow> Inr (current\<lparr>c_policy := policy\<rparr>))))"

text \<open>
  One tick of \<open>WatchConfig\<close>: the file read, the last content seen, the current configuration.
  The result is the content to remember and the configuration to hand over, if any.
\<close>

definition watch_tick ::
  "(bytes \<Rightarrow> string + Config) \<Rightarrow> (string + bytes) \<Rightarrow> bytes \<Rightarrow> Config \<Rightarrow> bytes \<times> Config option" where
  "watch_tick decode file previous current =
     (case file of
        Inl e \<Rightarrow> (previous, None)
      | Inr data \<Rightarrow>
          if data = previous then (previous, None)
          else (data,
            (case decode data of
               Inl e \<Rightarrow> None
             | Inr cfg \<Rightarrow>
                 (case Update current (cfg\<lparr>c_batchSizes := sort_by (<) (c_batchSizes cfg)\<rparr>) of
                    Inl e \<Rightarrow> None
                  | Inr new \<Rightarrow> Some new))))"

section \<open>The loop\<close>

text \<open>What one iteration sees of its environment.\<close>

record environment =
  e_now :: instant
  e_idle :: "int option"
  e_ctx :: "nat \<Rightarrow> ff_error option"

datatype event =
    Admit request
  | Query
  | Change Config
  | Completed batch_result
  | Woken

text \<open>
  One iteration that keeps the loop going. The other outcomes of its \<open>select\<close> end the loop
  with \<open>fail\<close>: a runner error that is no batch or item error, the exit of the runner and
  the cancellation of the actor's context.
\<close>

definition enough_fuel :: "schedulerActor \<Rightarrow> nat" where
  "enough_fuel a = length (a_queue a)"

definition loop_head :: "(f64 \<Rightarrow> int) \<Rightarrow> environment \<Rightarrow> schedulerActor \<Rightarrow> (schedulerActor \<times> instant) run" where
  "loop_head oor env a0 =
     (let (a, next_at) = expireQueued oor (e_ctx env) (e_now env) a0
      in startBatch (enough_fuel a) oor (e_now env) (e_idle env) next_at a)"

definition ends_loop :: "batch_result \<Rightarrow> bool" where
  "ends_loop done \<longleftrightarrow> (case br_err done of
     None \<Rightarrow> False | Some (BatchFailed _ _) \<Rightarrow> False | Some (PreprocessFailed _) \<Rightarrow> False | Some _ \<Rightarrow> True)"

definition handle :: "environment \<Rightarrow> event \<Rightarrow> schedulerActor \<Rightarrow> schedulerActor option" where
  "handle env ev a =
     (case ev of
        Admit r \<Rightarrow> Some (admit (e_ctx env) (e_now env) r a)
      | Query \<Rightarrow> Some a
      | Change cfg \<Rightarrow> Some (a\<lparr>a_cfg := cfg\<rparr>)
      | Completed done \<Rightarrow>
          if ends_loop done then None else finishBatch (e_ctx env) (e_now env) done a
      | Woken \<Rightarrow> Some a)"

end
