(* ===== verification/FFChoice.thy ===== *)
theory FFChoice
  imports FFPolicy
begin

text \<open>
  What a choice of \<open>ChooseBatch\<close> (\<open>internal/firstfloor/policy.go\<close>) promises: it fits the
  queue it serves, it is feasible and of least measured energy, waiting never costs a
  queued request its deadline, running work is left alone, and a request is given up only
  where the policy says so. Each property is followed, at the end of the theory, by an
  instance on a concrete queue.
\<close>

section \<open>Properties of the policy\<close>

text \<open>The head a choice serves; every choice that names work has one.\<close>

definition is_head :: "RequestState list \<Rightarrow> nat \<Rightarrow> bool" where
  "is_head rs h \<longleftrightarrow> is_edf_head rs h \<or> is_deferred_head rs h"

lemma ChooseBatch_fields [simp]:
  "bc_size (ChooseBatch oor p rs gap) = bc_size (chooseBatch oor p rs gap)"
  "bc_waitMS (ChooseBatch oor p rs gap) = bc_waitMS (chooseBatch oor p rs gap)"
  "bc_reason (ChooseBatch oor p rs gap) = bc_reason (chooseBatch oor p rs gap)"
  "bc_requestID (ChooseBatch oor p rs gap) = bc_requestID (chooseBatch oor p rs gap)"
  "bc_workloadUID (ChooseBatch oor p rs gap) = bc_workloadUID (chooseBatch oor p rs gap)"
  "bc_definition (ChooseBatch oor p rs gap) = bc_definition (chooseBatch oor p rs gap)"
  "serves rs h (ChooseBatch oor p rs gap) = serves rs h (chooseBatch oor p rs gap)"
  by (simp_all add: ChooseBatch_def serves_def)

lemma zero_choice_fields [simp]:
  "bc_size zero_choice = 0" "bc_waitMS zero_choice = f_zero" "bc_reason zero_choice = []"
  by (simp_all add: zero_choice_def)

lemma head_choice_fields [simp]:
  "bc_size (head_choice r) = 0" "bc_waitMS (head_choice r) = f_zero"
  "serves rs h (head_choice (rs ! h))"
  by (simp_all add: head_choice_def serves_def)

lemma serves_update [simp]:
  "serves rs h (c\<lparr>bc_reason := x\<rparr>) = serves rs h c"
  by (simp add: serves_def)

text \<open>The four shapes of an answer, unfolded.\<close>

lemma outcome_ok_simps:
  "outcome_ok oor p rs h gap c (Batch_energy b) \<longleftrightarrow>
     best_energy p rs h (compatibleCount rs h) gap = Some b \<and> bc_size c = bp_size b
     \<and> bc_waitMS c = f_zero \<and> bc_reason c = ''available_energy''"
  "outcome_ok oor p rs h gap c (Wait_fill b w) \<longleftrightarrow>
     (\<exists>a. best_energy p rs h (compatibleCount rs h) gap = Some a
        \<and> worth_waiting oor p rs (rs ! h) (compatibleCount rs h) a gap b w)
     \<and> bc_size c = 0 \<and> bc_waitMS c = w \<and> bc_reason c = ''measured_energy_gain_fill''"
  "outcome_ok oor p rs h gap c (Batch_throughput t) \<longleftrightarrow>
     best_energy p rs h (compatibleCount rs h) gap = None \<and> best_cost p rs h (compatibleCount rs h) gap = t
     \<and> (rs_phase (rs ! h) = phaseDeferred \<or> EffectiveDeadlinePolicy (p_deadlinePolicy p) = DeadlineKeep)
     \<and> bc_size c = bp_size (profile_of t) \<and> bc_waitMS c = f_zero \<and> bc_reason c = ''maximum_throughput''"
  "outcome_ok oor p rs h gap c Reject \<longleftrightarrow>
     best_energy p rs h (compatibleCount rs h) gap = None \<and> rs_phase (rs ! h) \<noteq> phaseDeferred
     \<and> EffectiveDeadlinePolicy (p_deadlinePolicy p) \<noteq> DeadlineKeep \<and> bc_size c = 0 \<and> bc_waitMS c = f_zero
     \<and> bc_reason c = (if EffectiveDeadlinePolicy (p_deadlinePolicy p) = DeadlineDefer
          then ReasonDeadlineDefer else OutcomeDeadlineDrop)"
  by (simp_all add: outcome_ok_def Let_def)

text \<open>A choice with a reason of \<open>serve_head\<close> comes from serving a head.\<close>

lemma chooseBatch_serves:
  assumes "p_fixedBatchSize p \<le> 0" "slo_numbers rs"
    "bc_reason (chooseBatch oor p rs gap) \<notin> {''active'', ''empty'', OutcomeDeadlineDrop}"
  obtains h out where "is_head rs h" "\<forall>r \<in> set rs. rs_phase r \<noteq> phaseRunning"
    "serves rs h (chooseBatch oor p rs gap)" "outcome_ok oor p rs h gap (chooseBatch oor p rs gap) out"
proof (cases rule: chooseBatch_cases [OF assms(1,2), of oor gap, case_names expired active idle serve])
  case (serve h)
  with serve_head_outcome [of rs h oor p gap] obtain out where
    "serves rs h (serve_head oor p rs h gap)" "outcome_ok oor p rs h gap (serve_head oor p rs h gap) out" by blast
  with serve show thesis by (intro that [of h out]) (auto simp: is_head_def)
qed (use assms(3) in auto)

lemma positive_size_serves:
  assumes "p_fixedBatchSize p \<le> 0" "slo_numbers rs" "0 < bc_size (chooseBatch oor p rs gap)"
  obtains h out where "is_head rs h" "\<forall>r \<in> set rs. rs_phase r \<noteq> phaseRunning"
    "serves rs h (chooseBatch oor p rs gap)" "outcome_ok oor p rs h gap (chooseBatch oor p rs gap) out"
proof (cases rule: chooseBatch_cases [OF assms(1,2), of oor gap, case_names expired active idle serve])
  case (serve h)
  with serve_head_outcome [of rs h oor p gap] obtain out where
    "serves rs h (serve_head oor p rs h gap)" "outcome_ok oor p rs h gap (serve_head oor p rs h gap) out" by blast
  with serve show thesis by (intro that [of h out]) (auto simp: is_head_def)
qed (use assms(3) in auto)

text \<open>A head is in its own queue.\<close>

lemma head_count:
  assumes "is_edf_head rs h \<or> is_deferred_head rs h"
  shows "1 \<le> compatibleCount rs h"
proof (cases "rs_phase (rs ! h) = phaseDeferred")
  case True
  then have h: "h < length rs" "\<forall>i < h. rs_phase (rs ! i) \<noteq> phaseDeferred"
    using assms by (auto simp: is_edf_head_def is_deferred_head_def normalRequest_def)
  then have "[0..<length rs] = [0..<h] @ h # [Suc h..<length rs]"
    by (metis less_imp_le_nat upt_add_eq_append upt_conv_Cons le_add_diff_inverse zero_le)
  with h True show ?thesis
    by (simp add: compatibleCount_def sameQueue_def filter_empty_conv)
next
  case False
  with assms have "h \<in> set (candidates rs h)"
    by (auto simp: in_candidates is_edf_head_def is_deferred_head_def sameQueue_def)
  then have "candidates rs h \<noteq> []" by auto
  with False show ?thesis by (simp add: compatibleCount_def Suc_le_eq)
qed

text \<open>A rejection names the earliest deadline; a start names a queue that can fill the batch.\<close>

lemma rejecting_choice:
  assumes "slo_numbers rs"
    "bc_reason (ChooseBatch oor p rs gap) = OutcomeDeadlineDrop \<or> bc_reason (ChooseBatch oor p rs gap) = ReasonDeadlineDefer"
  obtains h where "is_edf_head rs h" "serves rs h (ChooseBatch oor p rs gap)"
proof (cases "0 < p_fixedBatchSize p")
  case True
  with assms(2) show thesis
    by (auto simp: chooseBatch_def chooseFixedBatch_def Let_def split: if_splits option.splits)
next
  case False
  then have fixed: "p_fixedBatchSize p \<le> 0" by simp
  show thesis
  proof (cases rule: chooseBatch_cases [OF fixed assms(1), of oor gap, case_names expired active idle serve])
    case (expired h)
    then show thesis by (intro that [of h]) auto
  next
    case (serve h)
    from serve_head_outcome [of rs h oor p gap] obtain out where
      sv: "serves rs h (serve_head oor p rs h gap)" and ok: "outcome_ok oor p rs h gap (serve_head oor p rs h gap) out"
      by blast
    have "out = Reject" using ok assms(2) serve(3) by (cases out) (auto simp: outcome_ok_simps)
    then have "rs_phase (rs ! h) \<noteq> phaseDeferred" using ok by (simp add: outcome_ok_simps)
    with serve sv show thesis by (intro that [of h]) (auto simp: is_deferred_head_def)
  qed (use assms(2) in auto)
qed

lemma outcome_size:
  assumes "outcome_ok oor p rs h gap c out" "0 < bc_size c"
  obtains b where "b \<in> set (p_batches p)" "bp_size b = bc_size c" "eligible p (compatibleCount rs h) b"
proof (cases out)
  case (Batch_energy b)
  with assms have best: "best_energy p rs h (compatibleCount rs h) gap = Some b" "bc_size c = bp_size b"
    by (auto simp: outcome_ok_simps)
  from best_energy_spec [OF best(1)] best(2) show thesis by (intro that [of b]) (auto simp: usable_def)
next
  case (Batch_throughput t)
  with assms have best: "best_cost p rs h (compatibleCount rs h) gap = t" "bc_size c = bp_size (profile_of t)"
    by (auto simp: outcome_ok_simps)
  with assms(2) obtain b where "t = Some b" by (cases t) auto
  with best_cost_spec [of p rs h "compatibleCount rs h" gap b] best show thesis by (intro that [of b]) auto
qed (use assms in \<open>auto simp: outcome_ok_simps\<close>)

lemma starting_choice:
  assumes "slo_numbers rs" "0 < bc_size (ChooseBatch oor p rs gap)"
  obtains h where "h < length rs" "normalRequest (rs ! h) \<or> is_deferred_head rs h"
    "serves rs h (ChooseBatch oor p rs gap)" "bc_size (ChooseBatch oor p rs gap) \<le> int (compatibleCount rs h)"
proof (cases "0 < p_fixedBatchSize p")
  case True
  let ?js = "filter (\<lambda>i. normalRequest (rs ! i) \<and> p_fixedBatchSize p \<le> int (compatibleCount rs i)) [0..<length rs]"
  from True assms(2) obtain h where h: "scan_best (earlierEDF rs) None ?js = Some h"
    "serves rs h (ChooseBatch oor p rs gap)" "bc_size (ChooseBatch oor p rs gap) = p_fixedBatchSize p"
    by (auto simp: chooseBatch_def chooseFixedBatch_def Let_def serves_def split: if_splits option.splits)
  then have "h \<in> set ?js" using scan_best_in [OF h(1)] by auto
  with h show thesis by (intro that [of h]) auto
next
  case False
  then have fixed: "p_fixedBatchSize p \<le> 0" by simp
  have pos: "0 < bc_size (chooseBatch oor p rs gap)" using assms(2) by simp
  from positive_size_serves [OF fixed assms(1) pos] obtain h out where h: "is_head rs h"
    "serves rs h (chooseBatch oor p rs gap)" and ok: "outcome_ok oor p rs h gap (chooseBatch oor p rs gap) out" by blast
  from outcome_size [OF ok pos] h show thesis
    by (intro that [of h]) (auto simp: is_head_def is_edf_head_def is_deferred_head_def eligible_def)
qed

text \<open>
  C6: a batch the dynamic policy starts fits the queue of the request it names.
  Nothing is running, the request is the earliest deadline of the normal work (or, when
  there is none, the first deferred request), the batch is no larger than the compatible
  requests queued behind it, and its size is one of the measured and allowed sizes.
\<close>

theorem choice_fits_queue:
  assumes "p_fixedBatchSize p \<le> 0" "slo_numbers rs" "0 < bc_size (ChooseBatch oor p rs gap)"
  shows "(\<forall>r \<in> set rs. rs_phase r \<noteq> phaseRunning) \<and>
    (\<exists>h < length rs. is_head rs h \<and> serves rs h (ChooseBatch oor p rs gap)
       \<and> bc_size (ChooseBatch oor p rs gap) \<le> int (compatibleCount rs h)
       \<and> (\<exists>b \<in> set (p_batches p). bp_size b = bc_size (ChooseBatch oor p rs gap)
            \<and> allowedBatch p (bp_size b)))"
proof -
  from assms(3) have pos: "0 < bc_size (chooseBatch oor p rs gap)" by simp
  from positive_size_serves [OF assms(1,2) pos] obtain h out where h: "is_head rs h"
    "\<forall>r \<in> set rs. rs_phase r \<noteq> phaseRunning" "serves rs h (chooseBatch oor p rs gap)"
    and ok: "outcome_ok oor p rs h gap (chooseBatch oor p rs gap) out" by blast
  have lt: "h < length rs" using h(1) by (auto simp: is_head_def is_edf_head_def is_deferred_head_def)
  obtain b where "b \<in> set (p_batches p)" "bp_size b = bc_size (chooseBatch oor p rs gap)"
    "eligible p (compatibleCount rs h) b" by (rule outcome_size [OF ok pos])
  with h lt show ?thesis
    by (intro conjI exI [of _ h] bexI [of _ b]) (auto simp: eligible_def)
qed

text \<open>
  C25: the order of service. Iterating \<open>nextCompatible\<close> from a normal head visits
  every normal request of the head's queue once, earliest deadline first and in queue order
  on ties, and \<open>compatibleCount\<close> is the number of requests it visits.
\<close>

theorem service_order:
  assumes "slo_numbers rs" "rs_phase (rs ! h) \<noteq> phaseDeferred"
  shows "mset (compatible_chain (length rs) rs h None) = mset (candidates rs h)
    \<and> sorted_wrt (earlierEDF rs) (compatible_chain (length rs) rs h None)
    \<and> length (compatible_chain (length rs) rs h None) = compatibleCount rs h"
  using chain_None_normal [OF assms] chain_length [OF assms(1)] by auto

text \<open>
  C7: when the reason is \<open>available_energy\<close>, the batch is that of a measured
  profile for which every request it would contain still has slack, and no other usable
  profile needs less energy per item, or the same energy with a larger batch.
\<close>

theorem energy_choice_optimal:
  assumes "p_fixedBatchSize p \<le> 0" "slo_numbers rs"
    and "\<forall>b \<in> set (p_batches p). \<not> is_nan (bp_energyPerItemJ b)"
    and "bc_reason (ChooseBatch oor p rs gap) = ''available_energy''"
  shows "\<exists>h b. is_edf_head rs h \<and> serves rs h (ChooseBatch oor p rs gap) \<and> b \<in> set (p_batches p)
    \<and> bc_size (ChooseBatch oor p rs gap) = bp_size b \<and> 1 \<le> bp_size b
    \<and> (\<forall>i \<in> set (take (nat (bp_size b)) (compatible_chain (length rs) rs h None)).
         \<not> f_less (requestSlack (rs ! i) b gap) f_zero)
    \<and> (\<forall>b' \<in> set (p_batches p). usable p rs h (compatibleCount rs h) gap b' \<longrightarrow> \<not> energy_better b' b)"
proof -
  let ?c = "chooseBatch oor p rs gap"
  from assms(4) have "bc_reason ?c \<notin> {''active'', ''empty'', OutcomeDeadlineDrop}" by simp
  from chooseBatch_serves [OF assms(1,2) this] obtain h out where h: "is_head rs h" "serves rs h ?c"
    and ok: "outcome_ok oor p rs h gap ?c out" by blast
  from ok assms(4) obtain b where best: "best_energy p rs h (compatibleCount rs h) gap = Some b"
    and size: "bc_size ?c = bp_size b"
    by (cases out) (auto simp: outcome_ok_simps split: if_splits)
  note spec = best_energy_spec [OF best]
  from spec(2) have us: "rs_phase (rs ! h) \<noteq> phaseDeferred" "1 \<le> bp_size b"
    "bp_size b \<le> int (compatibleCount rs h)" "batchFeasible rs h b gap"
    by (auto simp: usable_def eligible_def)
  have opt: "\<not> energy_better b' b"
    if "b' \<in> set (p_batches p)" "usable p rs h (compatibleCount rs h) gap b'" for b'
    by (rule energy.scan_optimal(2) [where xs = "filter (usable p rs h (compatibleCount rs h) gap) (p_batches p)"])
      (use assms(3) best that in \<open>auto simp: best_energy_def\<close>)
  have edf: "is_edf_head rs h" using h(1) us(1) by (auto simp: is_head_def is_deferred_head_def)
  show ?thesis
    using edf h(2) spec(1) size us opt batchFeasible_iff [OF assms(2) us(2,3)]
    by (intro exI [of _ h] exI [of _ b]) auto
qed

text \<open>
  C19: waiting is safe. When the policy waits for a cheaper batch, the wait is
  positive and at most \<open>maxBatchWaitMS\<close>; the batch waited for is larger, allowed and
  cheaper than the one available now; and no queued request loses its slack by the wait.
\<close>

theorem wait_is_safe:
  assumes "p_fixedBatchSize p \<le> 0" "slo_numbers rs"
    and "bc_reason (ChooseBatch oor p rs gap) = ''measured_energy_gain_fill''"
  shows "bc_size (ChooseBatch oor p rs gap) = 0
    \<and> f_less f_zero (bc_waitMS (ChooseBatch oor p rs gap))
    \<and> f_leq (bc_waitMS (ChooseBatch oor p rs gap)) (p_maxBatchWaitMS p)
    \<and> (\<exists>h a b. is_edf_head rs h \<and> best_energy p rs h (compatibleCount rs h) gap = Some a
        \<and> b \<in> set (p_batches p) \<and> allowedBatch p (bp_size b)
        \<and> int (compatibleCount rs h) < bp_size b
        \<and> \<not> f_leq (bp_energyPerItemJ a) (bp_energyPerItemJ b)
        \<and> (\<forall>q \<in> set rs. normalRequest q \<longrightarrow>
             wait_bounded p (rs ! h) b (future_gap oor gap (bc_waitMS (ChooseBatch oor p rs gap)))
               (bc_waitMS (ChooseBatch oor p rs gap)) q))"
proof -
  let ?c = "chooseBatch oor p rs gap"
  from assms(3) have "bc_reason ?c \<notin> {''active'', ''empty'', OutcomeDeadlineDrop}" by simp
  from chooseBatch_serves [OF assms(1,2) this] obtain h out where h: "is_head rs h"
    and ok: "outcome_ok oor p rs h gap ?c out" by blast
  from ok assms(3) obtain a b w where
    best: "best_energy p rs h (compatibleCount rs h) gap = Some a"
    and worth: "worth_waiting oor p rs (rs ! h) (compatibleCount rs h) a gap b w"
    and c: "bc_size ?c = 0" "bc_waitMS ?c = w"
    by (cases out) (auto simp: outcome_ok_simps split: if_splits)
  have edf: "is_edf_head rs h" using h best_energy_spec(2) [OF best]
    by (auto simp: is_head_def is_deferred_head_def usable_def)
  show ?thesis
    unfolding ChooseBatch_fields c using worth edf best unfolding worth_waiting_def
    by (intro conjI exI [of _ h] exI [of _ a] exI [of _ b]) blast+
qed

text \<open>
  While a request is running no batch is started and no wait is armed; the
  only other answer is to give up an expired head.
\<close>

lemma running_is_exclusive:
  assumes "\<exists>r \<in> set rs. rs_phase r = phaseRunning" "slo_numbers rs"
  shows "bc_size (ChooseBatch oor p rs gap) = 0 \<and> bc_waitMS (ChooseBatch oor p rs gap) = f_zero
    \<and> bc_reason (ChooseBatch oor p rs gap) \<in> {''active'', OutcomeDeadlineDrop}"
proof (cases "0 < p_fixedBatchSize p")
  case True
  with assms show ?thesis by (auto simp: chooseBatch_def chooseFixedBatch_def)
next
  case False
  then have "p_fixedBatchSize p \<le> 0" by simp
  from chooseBatch_cases [OF this assms(2), of oor gap] show ?thesis
    using assms(1) by cases auto
qed

text \<open>
  C24: a request is dropped only under the \<open>drop\<close> policy, only as the earliest
  deadline, and only when its deadline has passed or no measured batch can serve it.
\<close>

theorem drop_only_when_hopeless:
  assumes "p_fixedBatchSize p \<le> 0" "slo_numbers rs"
    and "bc_reason (ChooseBatch oor p rs gap) = OutcomeDeadlineDrop"
    and "p_deadlinePolicy p \<in> {'''', DeadlineKeep, DeadlineDefer, DeadlineDrop}"
  shows "p_deadlinePolicy p = DeadlineDrop \<and>
    (\<exists>h. is_edf_head rs h \<and> serves rs h (ChooseBatch oor p rs gap) \<and>
       (SLOExpired (rs ! h) \<or>
        (\<forall>b \<in> set (p_batches p). \<not> usable p rs h (compatibleCount rs h) gap b)))"
proof (cases rule: chooseBatch_cases [OF assms(1,2), of oor gap, case_names expired active idle serve])
  case (expired h)
  then have "p_deadlinePolicy p = DeadlineDrop"
    by (auto simp: EffectiveDeadlinePolicy_def split: if_splits)
  then show ?thesis using expired by (auto intro!: exI [of _ h])
next
  case (serve h)
  from serve_head_outcome [of rs h oor p gap] obtain out where
    sv: "serves rs h (serve_head oor p rs h gap)" and ok: "outcome_ok oor p rs h gap (serve_head oor p rs h gap) out"
    by blast
  have "out = Reject" using ok assms(3) serve(3) by (cases out) (auto simp: outcome_ok_simps)
  with ok have "best_energy p rs h (compatibleCount rs h) gap = None" "rs_phase (rs ! h) \<noteq> phaseDeferred"
    "EffectiveDeadlinePolicy (p_deadlinePolicy p) \<notin> {DeadlineKeep, DeadlineDefer}"
    using assms(3) serve(3) by (auto simp: outcome_ok_simps)
  then show ?thesis
    using assms(4) serve sv
    by (auto simp: best_energy_None is_deferred_head_def EffectiveDeadlinePolicy_def split: if_splits intro!: exI [of _ h])
qed (use assms(3) in auto)

lemma adaptive_keep_serves:
  assumes "p_fixedBatchSize p \<le> 0" "slo_numbers rs"
    and "p_deadlinePolicy p \<in> {'''', DeadlineKeep}"
    and "\<forall>r \<in> set rs. rs_phase r \<noteq> phaseRunning"
    and "\<exists>r \<in> set rs. rs_phase r \<noteq> phaseFinished"
    and "\<exists>b \<in> set (p_batches p). bp_size b = 1 \<and> allowedBatch p 1"
  shows "0 < bc_size (ChooseBatch oor p rs gap) \<or> f_less f_zero (bc_waitMS (ChooseBatch oor p rs gap))"
proof (cases rule: chooseBatch_cases [OF assms(1,2), of oor gap, case_names expired active idle serve])
  case (serve h)
  let ?n = "compatibleCount rs h"
  from serve_head_outcome [of rs h oor p gap] obtain out where
    ok: "outcome_ok oor p rs h gap (serve_head oor p rs h gap) out" by blast
  have keep: "EffectiveDeadlinePolicy (p_deadlinePolicy p) = DeadlineKeep"
    using assms(3) by (auto simp: EffectiveDeadlinePolicy_def)
  have n: "1 \<le> ?n" using serve(1) by (rule head_count)
  then obtain b where b: "b \<in> set (p_batches p)" "eligible p ?n b"
    using assms(6) by (auto simp: eligible_def)
  show ?thesis
  proof (cases out)
    case (Batch_energy a)
    with ok best_energy_spec(2) [of p rs h ?n gap a] serve show ?thesis
      by (auto simp: outcome_ok_simps usable_def eligible_def)
  next
    case (Batch_throughput t)
    have "best_cost p rs h ?n gap \<noteq> None" using b by (auto simp: best_cost_def filter_empty_conv)
    then obtain x where x: "best_cost p rs h ?n gap = Some x" by blast
    then have "1 \<le> bp_size x" using best_cost_spec(2) [OF x] by (simp add: eligible_def)
    moreover have "bc_size (serve_head oor p rs h gap) = bp_size (profile_of (best_cost p rs h ?n gap))"
      using ok Batch_throughput by (simp add: outcome_ok_simps)
    ultimately show ?thesis using x serve by simp
  next
    case (Wait_fill a w)
    with ok serve show ?thesis by (auto simp: outcome_ok_simps worth_waiting_def)
  qed (use ok keep in \<open>auto simp: outcome_ok_simps\<close>)
qed (use assms in \<open>auto simp: EffectiveDeadlinePolicy_def\<close>)

text \<open>
  A fixed batch policy starts exactly the configured size, for the earliest
  deadline among the requests whose queue can fill it, and starts nothing otherwise.
\<close>

lemma fixed_batch_exact:
  assumes "0 < p_fixedBatchSize p" "slo_numbers rs" "\<forall>r \<in> set rs. rs_phase r \<noteq> phaseRunning"
  shows "bc_waitMS (ChooseBatch oor p rs gap) = f_zero \<and>
    (if \<exists>i < length rs. normalRequest (rs ! i) \<and> p_fixedBatchSize p \<le> int (compatibleCount rs i)
     then bc_size (ChooseBatch oor p rs gap) = p_fixedBatchSize p \<and>
       (\<exists>h < length rs. normalRequest (rs ! h) \<and> serves rs h (ChooseBatch oor p rs gap)
          \<and> p_fixedBatchSize p \<le> int (compatibleCount rs h)
          \<and> (\<forall>i < length rs. normalRequest (rs ! i) \<and> p_fixedBatchSize p \<le> int (compatibleCount rs i)
               \<longrightarrow> i \<noteq> h \<longrightarrow> earlierEDF rs h i))
     else bc_size (ChooseBatch oor p rs gap) = 0)"
proof -
  let ?js = "filter (\<lambda>i. normalRequest (rs ! i) \<and> p_fixedBatchSize p \<le> int (compatibleCount rs i)) [0..<length rs]"
  have eq: "chooseBatch oor p rs gap = chooseFixedBatch (p_fixedBatchSize p) rs"
    using assms(1) by (simp add: chooseBatch_def)
  show ?thesis
  proof (cases "scan_best (earlierEDF rs) None ?js")
    case None
    then have "?js = []" by simp
    then have "\<not> (\<exists>i < length rs. normalRequest (rs ! i) \<and> p_fixedBatchSize p \<le> int (compatibleCount rs i))"
      by (auto simp: filter_empty_conv)
    with None assms(3) show ?thesis by (auto simp: eq chooseFixedBatch_def)
  next
    case (Some h)
    note best = scan_edf [OF assms(2) _ Some]
    have h: "h \<in> set ?js" by (rule best(1)) simp
    have least: "earlierEDF rs h i" if "i \<in> set ?js" "i \<noteq> h" for i by (rule best(2)) (use that in auto)
    show ?thesis
      using Some assms(3) h least
      by (auto simp: eq chooseFixedBatch_def serves_def Let_def intro!: exI [of _ h])
  qed
qed

text \<open>
  C20: work conservation. Under the \<open>keep\<close> policy, with nothing running and some
  unfinished request, a policy that measured batch size 1 always starts a batch or arms a
  positive wait, except where a fixed batch size is configured and no queue holds that many
  requests of one workload: only then does the scheduler leave work standing.
\<close>

theorem keep_serves_work:
  assumes "slo_numbers rs"
    and "p_deadlinePolicy p \<in> {'''', DeadlineKeep}"
    and "\<forall>r \<in> set rs. rs_phase r \<noteq> phaseRunning"
    and "\<exists>r \<in> set rs. rs_phase r \<noteq> phaseFinished"
    and "\<exists>b \<in> set (p_batches p). bp_size b = 1 \<and> allowedBatch p 1"
  shows "0 < bc_size (ChooseBatch oor p rs gap) \<or> f_less f_zero (bc_waitMS (ChooseBatch oor p rs gap))
    \<or> (0 < p_fixedBatchSize p
        \<and> \<not> (\<exists>i < length rs. normalRequest (rs ! i) \<and> p_fixedBatchSize p \<le> int (compatibleCount rs i)))"
proof (cases "0 < p_fixedBatchSize p")
  case True
  then show ?thesis using fixed_batch_exact [OF True assms(1,3), of oor gap] by (auto split: if_splits)
next
  case False
  then have "p_fixedBatchSize p \<le> 0" by simp
  from adaptive_keep_serves [OF this assms] show ?thesis by blast
qed


section \<open>A worked example\<close>

text \<open>
  A queue of one workload, a percentile of 50 and a target of 100 ms, and measured
  profiles of one sample each: the inputs of the witnesses.
\<close>

definition demo_state :: "string \<Rightarrow> int \<Rightarrow> RequestState" where
  "demo_state phase elapsed = zero_state\<lparr>
     rs_context := zero_context\<lparr>rc_requestID := ''a'', rc_workloadUID := ''w'', rc_definition := ''d'',
       rc_senderElapsedMS := f_of_int elapsed,
       rc_slo := \<lparr>slo_percentile = f_of_int 50, slo_targetMS = f_of_int 100\<rparr>\<rparr>,
     rs_phase := phase, rs_arrivalRate := f_of_int 100\<rparr>"

definition demo_profile :: "int \<Rightarrow> int \<Rightarrow> BatchProfile" where
  "demo_profile k joules =
     (let s = \<lparr>ss_serviceDurationNanos = 10000000, ss_precedingIdleNanos = Some 0, ss_trialID = ''t''\<rparr>
      in \<lparr>bp_size = k, bp_serviceSamples = [s],
          bp_distribution = Some \<lparr>sd_trials =
              [\<lparr>st_startup = [], st_groups = [\<lparr>sg_gap = 0, sg_samples = [s]\<rparr>]\<rparr>],
            sd_services = [10000000]\<rparr>,
          bp_energyPerItemJ = f_of_int joules\<rparr>)"

definition demo_policy :: "string \<Rightarrow> int \<Rightarrow> BatchProfile list \<Rightarrow> Policy" where
  "demo_policy mode fixed bs = \<lparr>p_decisionID = ''x'', p_profileID = ''y'',
     p_maxBatchWaitMS = f_of_int 50, p_maxBatchSize = 0, p_deadlinePolicy = mode,
     p_fixedBatchSize = fixed, p_batches = bs\<rparr>"

lemma demo_floats: "f_of_int 0 = f_zero" "f_of_int 4 = Fin False 4" "f_of_int 3 = Fin False 3"
  "f_of_int 50 = Fin False 50" "f_of_int 100 = Fin False 100"
  by code_simp+

lemma demo_simps [simp]:
  "rs_phase (demo_state ph e) = ph" "rs_arrivalRate (demo_state ph e) = f_of_int 100"
  "rs_queueMS (demo_state ph e) = f_zero"
  "sameQueue (demo_state ph e) (demo_state ph' e')"
  "rc_requestID (rs_context (demo_state ph e)) = ''a''"
  "rc_workloadUID (rs_context (demo_state ph e)) = ''w''"
  "rc_definition (rs_context (demo_state ph e)) = ''d''"
  "rc_slo (rs_context (demo_state ph e)) = \<lparr>slo_percentile = Fin False 50, slo_targetMS = Fin False 100\<rparr>"
  "bp_size (demo_profile k j) = k" "bp_energyPerItemJ (demo_profile k j) = f_of_int j"
  "p_batches (demo_policy m fb bs) = bs" "p_fixedBatchSize (demo_policy m fb bs) = fb"
  "p_deadlinePolicy (demo_policy m fb bs) = m" "p_maxBatchWaitMS (demo_policy m fb bs) = Fin False 50"
  "allowedBatch (demo_policy m fb bs) k"
  by (simp_all add: demo_state_def demo_profile_def demo_policy_def zero_state_def zero_context_def
      sameQueue_def Let_def allowedBatch_def demo_floats)

lemma demo_remaining [simp]:
  "RemainingSLOMS (demo_state ph 0) = Fin False 100"
  "RemainingSLOMS (demo_state ph 10) = Fin False 90"
  "RemainingSLOMS (demo_state ph 100) = Fin False 0"
  by (simp_all add: RemainingSLOMS_def demo_state_def zero_state_def zero_context_def) (code_simp+)

lemma demo_cost [simp]:
  "serviceCost (demo_profile k j) (Fin False 50) (Some 0) = Fin False 10"
  "serviceCost (demo_profile k j) (Fin False 50) (Some 10000000) = Fin False 10"
  by (simp_all add: serviceCost_def demo_profile_def Let_def) (code_simp+)

lemma demo_slack [simp]:
  "requestSlack (demo_state ph 0) (demo_profile k j) (Some 0) = Fin False 90"
  "requestSlack (demo_state ph 0) (demo_profile k j) (Some 10000000) = Fin False 90"
  unfolding requestSlack_def demo_remaining
  by (simp_all add: demo_state_def zero_context_def zero_state_def demo_floats) (code_simp+)

lemma demo_numbers [simp]:
  "slo_numbers [demo_state ph 0]" "slo_numbers [demo_state ph 100]"
  "slo_numbers [demo_state ph 10, demo_state ph 0]"
  by (simp_all add: slo_numbers_def)

lemma demo_queued [simp]: "normalRequest (demo_state phaseQueued e)"
  by (simp add: normalRequest_def)

lemma demo_candidates [simp]: "candidates [demo_state phaseQueued e] 0 = [0]"
  by (simp add: candidates_def)

lemma demo_count [simp]: "compatibleCount [demo_state phaseQueued e] 0 = 1"
  by (simp add: compatibleCount_def)

lemma demo_heads [simp]: "queueHeads [demo_state phaseQueued e] = (Some 0, None, False)"
  by (simp add: queueHeads_def)

lemma demo_feasible [simp]:
  "batchFeasible [demo_state phaseQueued 0] 0 (demo_profile 1 j) (Some 0)"
  by (simp add: batchFeasible_def eval_nat_numeral nextCompatible_def after_previous_def f_order_defs)

lemma demo_not_expired [simp]: "\<not> SLOExpired (demo_state ph 0)" "SLOExpired (demo_state ph 100)"
  by (simp_all add: SLOExpired_def f_order_defs)

text \<open>The energy choice: one request, one profile of size 1.\<close>

lemma demo_energy:
  "chooseBatch oor (demo_policy m 0 [demo_profile 1 4]) [demo_state phaseQueued 0] (Some 0) =
     (head_choice (demo_state phaseQueued 0))\<lparr>bc_size := 1, bc_reason := ''available_energy''\<rparr>"
  by (simp add: chooseBatch_def serve_head_def select_step_def zero_profile_def energyGainWait_def
      demo_floats f_order_defs head_choice_def zero_choice_def)

text \<open>The wait: a profile of size 2 needs less energy, and arrivals come every 10 ms.\<close>

lemma demo_fill: "fill_time 2 (Suc 0) (Fin False 100) = Fin False 10"
  by code_simp

lemma demo_nanos: "f_to_int64 oor (f_mul (Fin False 10) (f_of_int 1000000)) = 10000000"
proof -
  have "f_mul (Fin False 10) (f_of_int 1000000) = Fin False 10000000" by code_simp
  then show ?thesis by (simp add: f_to_int64_def int64_range_def max_int64_def min_int64_def)
qed

lemma demo_allowed:
  "f_min (f_min (Fin False 50) (f_sub (Fin False 50) f_zero)) (Fin False 90) = Fin False 50"
  by code_simp

lemma demo_wait:
  "chooseBatch oor (demo_policy m 0 [demo_profile 1 4, demo_profile 2 3]) [demo_state phaseQueued 0] (Some 0) =
     (head_choice (demo_state phaseQueued 0))\<lparr>bc_size := 0, bc_waitMS := Fin False 10,
       bc_reason := ''measured_energy_gain_fill''\<rparr>"
  by (simp add: chooseBatch_def serve_head_def select_step_def zero_profile_def energyGainWait_def
      demo_floats f_order_defs head_choice_def zero_choice_def demo_fill demo_nanos allowed_step_def demo_allowed
      wrap64_def)

section \<open>Witnesses\<close>

lemma demo_percent: "\<not> is_nan (bp_energyPerItemJ (demo_profile k 4))"
  "\<not> is_nan (bp_energyPerItemJ (demo_profile k 3))"
  by (simp_all add: demo_floats)

theorem choice_fits_queue_witness:
  "\<exists>h < 1. is_head [demo_state phaseQueued 0] h
     \<and> serves [demo_state phaseQueued 0] h
         (ChooseBatch (\<lambda>_. 0) (demo_policy DeadlineDrop 0 [demo_profile 1 4]) [demo_state phaseQueued 0] (Some 0))"
  using choice_fits_queue [of "demo_policy DeadlineDrop 0 [demo_profile 1 4]" "[demo_state phaseQueued 0]"
      "\<lambda>_. 0" "Some 0"]
  by (auto simp: demo_energy)

lemma demo_two:
  "candidates [demo_state phaseQueued 10, demo_state phaseQueued 0] 0 = [0, Suc 0]"
  by (simp add: candidates_def)

theorem service_order_witness:
  "sorted_wrt (earlierEDF [demo_state phaseQueued 10, demo_state phaseQueued 0])
     (compatible_chain 2 [demo_state phaseQueued 10, demo_state phaseQueued 0] 0 None)
   \<and> mset (compatible_chain 2 [demo_state phaseQueued 10, demo_state phaseQueued 0] 0 None) = {#0, 1#}"
  using service_order [of "[demo_state phaseQueued 10, demo_state phaseQueued 0]" 0]
  by (simp add: demo_two numeral_2_eq_2)

theorem energy_choice_optimal_witness:
  "\<exists>b \<in> {demo_profile 1 4}. bc_size (ChooseBatch (\<lambda>_. 0) (demo_policy DeadlineDrop 0 [demo_profile 1 4])
      [demo_state phaseQueued 0] (Some 0)) = bp_size b \<and> 1 \<le> bp_size b"
  using energy_choice_optimal [of "demo_policy DeadlineDrop 0 [demo_profile 1 4]" "[demo_state phaseQueued 0]"
      "\<lambda>_. 0" "Some 0"] demo_percent
  by (auto simp: demo_energy)

theorem wait_is_safe_witness:
  "f_leq (bc_waitMS (ChooseBatch (\<lambda>_. 0) (demo_policy DeadlineDrop 0 [demo_profile 1 4, demo_profile 2 3])
      [demo_state phaseQueued 0] (Some 0))) (Fin False 50)"
  using wait_is_safe [of "demo_policy DeadlineDrop 0 [demo_profile 1 4, demo_profile 2 3]"
      "[demo_state phaseQueued 0]" "\<lambda>_. 0" "Some 0"]
  by (simp add: demo_wait)

lemma running_is_exclusive_witness:
  "bc_size (ChooseBatch (\<lambda>_. 0) (demo_policy DeadlineDrop 0 [demo_profile 1 4])
      [demo_state phaseRunning 0] (Some 0)) = 0"
  using running_is_exclusive [of "[demo_state phaseRunning 0]" "\<lambda>_. 0"
      "demo_policy DeadlineDrop 0 [demo_profile 1 4]" "Some 0"]
  by simp

theorem drop_only_when_hopeless_witness:
  "\<exists>h. is_edf_head [demo_state phaseQueued 100] h"
  using drop_only_when_hopeless [of "demo_policy DeadlineDrop 0 [demo_profile 1 4]" "[demo_state phaseQueued 100]"
      "\<lambda>_. 0" "Some 0"]
  by (auto simp: chooseBatch_def EffectiveDeadlinePolicy_def)

theorem keep_serves_work_witness:
  "0 < bc_size (ChooseBatch (\<lambda>_. 0) (demo_policy DeadlineKeep 0 [demo_profile 1 4]) [demo_state phaseQueued 0] (Some 0))
   \<or> f_less f_zero (bc_waitMS (ChooseBatch (\<lambda>_. 0) (demo_policy DeadlineKeep 0 [demo_profile 1 4])
       [demo_state phaseQueued 0] (Some 0)))"
  using keep_serves_work [of "[demo_state phaseQueued 0]" "demo_policy DeadlineKeep 0 [demo_profile 1 4]" "\<lambda>_. 0" "Some 0"]
  by simp

lemma fixed_batch_exact_witness:
  "bc_size (ChooseBatch (\<lambda>_. 0) (demo_policy DeadlineKeep 1 []) [demo_state phaseQueued 0] (Some 0)) = 1"
  using fixed_batch_exact [of "demo_policy DeadlineKeep 1 []" "[demo_state phaseQueued 0]" "\<lambda>_. 0" "Some 0"]
  by simp

end
