(* ===== verification/FFScheduling.thy ===== *)
theory FFScheduling
  imports FFActor FFChoice
begin

text \<open>
  What the actor of \<open>internal/firstfloor/scheduler.go\<close> keeps: its books (counters, queued
  bytes, one reply per request) balance in every reachable state, the loop that starts a
  batch always ends, a started batch has exactly the chosen size and one kind of request,
  and a finished batch answers each request with its own output.
\<close>

section \<open>The books\<close>

text \<open>
  \<open>held\<close> lists the queued requests in any order; \<open>frame\<close> says that an operation only
  retired queued requests.
\<close>

definition book :: "schedulerActor \<Rightarrow> request list \<Rightarrow> bool" where
  "book a held \<longleftrightarrow> a_accepted a = a_completed a + length held + length (a_active a)
     \<and> a_queuedBytes a = sum_list (map q_bytes held)
     \<and> distinct (map q_ref (held @ a_active a) @ map fst (a_replies a))"

definition frame :: "schedulerActor \<Rightarrow> schedulerActor \<Rightarrow> bool" where
  "frame a b \<longleftrightarrow> a_cfg b = a_cfg a \<and> a_queue b = a_queue a \<and> a_deferred b = a_deferred a
     \<and> a_active b = a_active a \<and> a_launched b = a_launched a \<and> a_rates b = a_rates a
     \<and> a_batchID b = a_batchID a \<and> a_executions b = a_executions a"

lemma frame_refl [simp]: "frame a a"
  by (simp add: frame_def)

lemma frame_trans: "frame a b \<Longrightarrow> frame b c \<Longrightarrow> frame a c"
  by (simp add: frame_def)

lemma book_perm:
  assumes "mset xs = mset ys" "book a xs"
  shows "book a ys"
proof -
  have "length xs = length ys" "mset (map q_bytes xs) = mset (map q_bytes ys)"
    using assms(1) by (auto dest: mset_eq_length)
  then have "sum_list (map q_bytes xs) = sum_list (map q_bytes ys)" by (metis sum_mset_sum_list)
  moreover have "mset (map q_ref (xs @ a_active a) @ map fst (a_replies a)) =
      mset (map q_ref (ys @ a_active a) @ map fst (a_replies a))" using assms(1) by simp
  then have "distinct (map q_ref (ys @ a_active a) @ map fst (a_replies a))"
    using assms(2) unfolding book_def by (metis mset_eq_imp_distinct_iff)
  ultimately show ?thesis using assms(2) \<open>length xs = length ys\<close> by (simp add: book_def)
qed

lemma emit_fields [simp]:
  "a_cfg (emit p a) = a_cfg a" "a_queue (emit p a) = a_queue a" "a_deferred (emit p a) = a_deferred a"
  "a_active (emit p a) = a_active a" "a_queuedBytes (emit p a) = a_queuedBytes a"
  "a_accepted (emit p a) = a_accepted a" "a_completed (emit p a) = a_completed a"
  "a_replies (emit p a) = a_replies a" "a_launched (emit p a) = a_launched a"
  "a_batchID (emit p a) = a_batchID a" "a_executions (emit p a) = a_executions a"
  "a_rates (emit p a) = a_rates a" "a_started (emit p a) = a_started a"
  "book (emit p a) held = book a held"
  by (simp_all add: emit_def book_def)

lemma answer_fields [simp]:
  "a_cfg (answer r v a) = a_cfg a" "a_queue (answer r v a) = a_queue a"
  "a_deferred (answer r v a) = a_deferred a" "a_active (answer r v a) = a_active a"
  "a_queuedBytes (answer r v a) = a_queuedBytes a" "a_accepted (answer r v a) = a_accepted a"
  "a_completed (answer r v a) = a_completed a" "a_launched (answer r v a) = a_launched a"
  "a_replies (answer r v a) = a_replies a @ [(q_ref r, v)]" "a_batchID (answer r v a) = a_batchID a"
  "a_executions (answer r v a) = a_executions a" "a_rates (answer r v a) = a_rates a"
  by (simp_all add: answer_def)

lemma finishQueued_frame [simp]: "frame a (finishQueued r now e a)"
  by (simp add: finishQueued_def frame_def Let_def)

lemma finishQueued_book:
  "book a (r # held) \<Longrightarrow> book (finishQueued r now e a) held"
  by (auto simp: book_def finishQueued_def Let_def)

section \<open>Expiry\<close>

lemma expire_fold:
  assumes "foldl (expire_step oor ctx now dp) (a, kept, n) rs = (a', kept', n')" "book a (kept @ rs @ other)"
    and "\<forall>r \<in> set rs. 0 \<le> q_bytes r"
  shows "frame a a' \<and> book a' (kept' @ other) \<and> set kept' \<subseteq> set kept \<union> set rs
    \<and> length kept' \<le> length kept + length rs \<and> a_queuedBytes a' \<le> a_queuedBytes a"
  using assms
proof (induction rs arbitrary: a kept n)
  case (Cons r rs)
  obtain a1 k1 n1 where step: "expire_step oor ctx now dp (a, kept, n) r = (a1, k1, n1)"
    by (cases "expire_step oor ctx now dp (a, kept, n) r") auto
  have "frame a a1 \<and> book a1 (k1 @ rs @ other) \<and> (k1 = kept \<or> k1 = kept @ [r])
      \<and> a_queuedBytes a1 \<le> a_queuedBytes a"
  proof (cases "k1 = kept @ [r]")
    case True
    with step have "a1 = a" by (auto simp: expire_step_def Let_def split: option.splits)
    with True Cons.prems(2) show ?thesis by simp
  next
    case False
    with step obtain e where "a1 = finishQueued r now e a" "k1 = kept"
      by (auto simp: expire_step_def Let_def split: option.splits)
    moreover have "book a (r # kept @ rs @ other)" by (rule book_perm [OF _ Cons.prems(2)]) simp
    moreover have "a_queuedBytes (finishQueued r now e a) \<le> a_queuedBytes a"
      using Cons.prems(3) by (simp add: finishQueued_def Let_def)
    ultimately show ?thesis using finishQueued_book by simp
  qed
  moreover have "foldl (expire_step oor ctx now dp) (a1, k1, n1) rs = (a', kept', n')"
    using Cons.prems(1) step by simp
  moreover have "\<forall>x \<in> set rs. 0 \<le> q_bytes x" using Cons.prems(3) by simp
  ultimately show ?case using Cons.IH [of a1 k1 n1] frame_trans [of a a1 a'] by auto
qed simp

lemma book_lists [simp]:
  "book (a\<lparr>a_queue := q\<rparr>) held = book a held" "book (a\<lparr>a_deferred := q\<rparr>) held = book a held"
  "book (a\<lparr>a_started := t\<rparr>) held = book a held" "book (a\<lparr>a_cfg := c\<rparr>) held = book a held"
  "book (a\<lparr>a_rates := rts\<rparr>) held = book a held"
  by (simp_all add: book_def)

lemma expireQueued_book:
  assumes "expireQueued oor ctx now a = (b, n)" "book a (a_queue a @ a_deferred a)"
    and "\<forall>r \<in> set (a_queue a @ a_deferred a). 0 \<le> q_bytes r"
  shows "book b (a_queue b @ a_deferred b)" "a_cfg b = a_cfg a" "a_active b = a_active a"
    "set (a_queue b) \<subseteq> set (a_queue a)" "set (a_deferred b) \<subseteq> set (a_deferred a)"
    "length (a_queue b) \<le> length (a_queue a)" "length (a_deferred b) \<le> length (a_deferred a)"
    "a_launched b = a_launched a" "a_queuedBytes b \<le> a_queuedBytes a"
proof -
  obtain a1 k1 n1 where f1: "foldl (expire_step oor ctx now (drops_expired (a_cfg a))) (a, [], 0) (a_queue a) = (a1, k1, n1)"
    by (cases "foldl (expire_step oor ctx now (drops_expired (a_cfg a))) (a, [], 0) (a_queue a)") auto
  let ?a2 = "a1\<lparr>a_queue := k1\<rparr>"
  obtain a3 k2 n2 where f2: "foldl (expire_step oor ctx now False) (?a2, [], n1) (a_deferred ?a2) = (a3, k2, n2)"
    by (cases "foldl (expire_step oor ctx now False) (?a2, [], n1) (a_deferred ?a2)") auto
  have b: "b = a3\<lparr>a_deferred := k2\<rparr>" using assms(1) f1 f2 by (simp add: expireQueued_def Let_def)
  have 1: "frame a a1 \<and> book a1 (k1 @ a_deferred a) \<and> set k1 \<subseteq> set (a_queue a) \<and> length k1 \<le> length (a_queue a)
      \<and> a_queuedBytes a1 \<le> a_queuedBytes a"
    using expire_fold [OF f1, of "a_deferred a"] assms(2,3) by simp
  then have "book ?a2 ([] @ a_deferred ?a2 @ k1)"
    by (auto simp: frame_def intro: book_perm [rotated])
  moreover have "\<forall>r \<in> set (a_deferred ?a2). 0 \<le> q_bytes r" using 1 assms(3) by (simp add: frame_def)
  ultimately have 2: "frame ?a2 a3 \<and> book a3 (k2 @ k1) \<and> set k2 \<subseteq> set (a_deferred a1) \<and> length k2 \<le> length (a_deferred a1)
      \<and> a_queuedBytes a3 \<le> a_queuedBytes a1"
    using expire_fold [OF f2, of k1] by simp
  then have "book a3 (k1 @ k2)" by (auto intro: book_perm [rotated])
  with 1 2 show "book b (a_queue b @ a_deferred b)" "a_cfg b = a_cfg a" "a_active b = a_active a"
    "set (a_queue b) \<subseteq> set (a_queue a)" "set (a_deferred b) \<subseteq> set (a_deferred a)"
    "length (a_queue b) \<le> length (a_queue a)" "length (a_deferred b) \<le> length (a_deferred a)"
    "a_launched b = a_launched a" "a_queuedBytes b \<le> a_queuedBytes a"
    by (auto simp: b frame_def)
qed

section \<open>The invariant\<close>

definition same_kind :: "request \<Rightarrow> request \<Rightarrow> bool" where
  "same_kind r s \<longleftrightarrow> rc_workloadUID (q_context r) = rc_workloadUID (q_context s)
     \<and> rc_definition (q_context r) = rc_definition (q_context s)"

text \<open>What the handler submits in the configured mode.\<close>

definition request_ok :: "Config \<Rightarrow> request \<Rightarrow> bool" where
  "request_ok cfg r \<longleftrightarrow> 0 \<le> q_bytes r
     \<and> (if c_mode cfg = modeServing then serving_request r \<and> q_profile r = None else q_profile r \<noteq> None)"

definition actor_inv :: "schedulerActor \<Rightarrow> bool" where
  "actor_inv a \<longleftrightarrow> config_ok (a_cfg a) \<and> book a (a_queue a @ a_deferred a)
     \<and> int (length (a_queue a) + length (a_deferred a)) \<le> c_maxQueueRequests (a_cfg a)
     \<and> a_queuedBytes a \<le> c_maxQueueBytes (a_cfg a)
     \<and> (\<forall>r \<in> set (a_queue a @ a_deferred a @ a_active a). request_ok (a_cfg a) r)
     \<and> (\<forall>r \<in> set (a_active a). \<forall>s \<in> set (a_active a). same_kind r s)
     \<and> (c_mode (a_cfg a) \<noteq> modeServing \<longrightarrow> a_deferred a = [] \<and> length (a_active a) \<le> 1)"


text \<open>An operation that only retires or moves requests keeps the invariant.\<close>

lemma actor_inv_move:
  assumes "actor_inv a" "a_cfg b = a_cfg a" "book b (a_queue b @ a_deferred b)"
    and "set (a_queue b @ a_deferred b @ a_active b) \<subseteq> set (a_queue a @ a_deferred a @ a_active a)"
    and "length (a_queue b) + length (a_deferred b) \<le> length (a_queue a) + length (a_deferred a)"
    and "a_queuedBytes b \<le> a_queuedBytes a"
    and "\<forall>r \<in> set (a_active b). \<forall>s \<in> set (a_active b). same_kind r s"
    and "c_mode (a_cfg a) \<noteq> modeServing \<Longrightarrow> a_deferred b = [] \<and> length (a_active b) \<le> 1"
  shows "actor_inv b"
proof -
  have "\<forall>r \<in> set (a_queue b @ a_deferred b @ a_active b). request_ok (a_cfg a) r"
    using assms(1,4) unfolding actor_inv_def by blast
  with assms show ?thesis unfolding actor_inv_def by auto
qed

lemma expireQueued_inv:
  assumes "expireQueued oor ctx now a = (b, n)" "actor_inv a"
  shows "actor_inv b" "a_active b = a_active a" "a_cfg b = a_cfg a"
proof -
  have bk: "book a (a_queue a @ a_deferred a)" "\<forall>r \<in> set (a_queue a @ a_deferred a). 0 \<le> q_bytes r"
    using assms(2) by (auto simp: actor_inv_def request_ok_def)
  note x = expireQueued_book [OF assms(1) bk]
  show "actor_inv b"
  proof (rule actor_inv_move [OF assms(2)])
    show "set (a_queue b @ a_deferred b @ a_active b) \<subseteq> set (a_queue a @ a_deferred a @ a_active a)"
      using x by auto
    show "c_mode (a_cfg a) \<noteq> modeServing \<Longrightarrow> a_deferred b = [] \<and> length (a_active b) \<le> 1"
      using x assms(2) by (auto simp: actor_inv_def)
  qed (use x assms(2) in \<open>auto simp: actor_inv_def\<close>)
  show "a_active b = a_active a" "a_cfg b = a_cfg a" using x by simp_all
qed

section \<open>The choice on the actor's queue\<close>

lemma time_sub_range: "int64_range (time_sub t u)"
  by (simp add: time_sub_def int64_range_def min_int64_def max_int64_def)

lemma state_fields [simp]:
  "rs_context (request_state a now clock ph r) = q_context r"
  "rs_elapsedMS (request_state a now clock ph r) = milliseconds (time_sub now (q_received r))"
  "rs_phase (request_state a now clock ph r) = ph"
  by (simp_all add: request_state_def Let_def)

lemma states_numbers:
  assumes "actor_inv a" "c_mode (a_cfg a) = modeServing"
  shows "slo_numbers (requestStates a now clock)"
proof -
  have "\<not> is_nan (RemainingSLOMS (request_state a now clock ph r))"
    if "r \<in> set (a_queue a @ a_deferred a @ a_active a)" for ph r
  proof -
    have "serving_request r" using assms that by (auto simp: actor_inv_def request_ok_def)
    then have "validateContext (q_context r) (rc_requestID (q_context r)) = None"
      by (simp add: serving_request_def)
    then show ?thesis by (rule validated_remaining [OF _ time_sub_range]) simp_all
  qed
  then show ?thesis by (auto simp: slo_numbers_def requestStates_def)
qed

text \<open>A normal request of the snapshot is one of the queue, at the same position.\<close>

lemma normal_state:
  assumes "h < length (requestStates a now clock)" "normalRequest (requestStates a now clock ! h)"
  shows "h < length (a_queue a)" "rs_context (requestStates a now clock ! h) = q_context (a_queue a ! h)"
proof -
  let ?rs = "requestStates a now clock"
  show lt: "h < length (a_queue a)"
  proof (rule ccontr)
    assume ge: "\<not> h < length (a_queue a)"
    then have "?rs ! h = (map (request_state a now clock phaseDeferred) (a_deferred a)
        @ map (request_state a now clock phaseRunning) (a_active a)) ! (h - length (a_queue a))"
      by (simp add: requestStates_def nth_append)
    then have "rs_phase (?rs ! h) \<in> {phaseDeferred, phaseRunning}"
      using assms(1) ge by (simp add: requestStates_def nth_append split: if_splits)
    with assms(2) show False by (auto simp: normalRequest_def)
  qed
  then show "rs_context (?rs ! h) = q_context (a_queue a ! h)"
    by (simp add: requestStates_def nth_append)
qed

lemma choice_removes_head:
  assumes "actor_inv a" "c_mode (a_cfg a) = modeServing"
    and "next_choice oor now idle a = Some choice"
    and "bc_reason choice = OutcomeDeadlineDrop \<or> bc_reason choice = ReasonDeadlineDefer"
  shows "\<exists>i. find_index (\<lambda>r. rc_requestID (q_context r) = bc_requestID choice) (a_queue a) = Some i"
proof -
  let ?rs = "requestStates a now (None, None)"
  have choice: "choice = ChooseBatch oor (c_policy (a_cfg a)) ?rs idle"
    using assms(2,3) by (simp add: next_choice_def)
  from rejecting_choice [OF states_numbers [OF assms(1,2)]] assms(4) choice
  obtain h where h: "is_edf_head ?rs h" "serves ?rs h choice" by blast
  then have n: "h < length ?rs" "normalRequest (?rs ! h)" by (auto simp: is_edf_head_def)
  from normal_state [OF n] h(2) have "a_queue a ! h \<in> set (a_queue a)"
    "rc_requestID (q_context (a_queue a ! h)) = bc_requestID choice" by (auto simp: serves_def)
  then have "find_index (\<lambda>r. rc_requestID (q_context r) = bc_requestID choice) (a_queue a) \<noteq> None"
    by (auto simp: find_index_None_iff)
  then show ?thesis by blast
qed

section \<open>Dropping and deferring\<close>

lemma mset_remove_index:
  assumes "i < length xs"
  shows "mset xs = add_mset (xs ! i) (mset (delete_at i xs))"
  using assms mset_delete_at [OF assms] nth_mem [OF assms] by simp

lemma drop_or_defer_inv:
  assumes "actor_inv a" "c_mode (a_cfg a) = modeServing"
    and "find_index (\<lambda>r. rc_requestID (q_context r) = bc_requestID choice) (a_queue a) = Some i"
  shows "actor_inv (drop_or_defer now choice a)"
    "length (a_queue (drop_or_defer now choice a)) < length (a_queue a)"
    "a_active (drop_or_defer now choice a) = a_active a" "a_cfg (drop_or_defer now choice a) = a_cfg a"
proof -
  let ?r = "a_queue a ! i" and ?b = "a\<lparr>a_queue := delete_at i (a_queue a)\<rparr>"
  have i: "i < length (a_queue a)" using find_index_Some [OF assms(3)] by simp
  note ms = mset_remove_index [OF i]
  have sub: "set (delete_at i (a_queue a)) \<subseteq> set (a_queue a)" "?r \<in> set (a_queue a)"
    using set_delete_at_subset i by fastforce+
  have bk: "book a (?r # delete_at i (a_queue a) @ a_deferred a)"
    using assms(1) ms by (auto simp: actor_inv_def intro: book_perm [rotated])
  show "actor_inv (drop_or_defer now choice a)"
  proof (rule actor_inv_move [OF assms(1)])
    show "book (drop_or_defer now choice a)
        (a_queue (drop_or_defer now choice a) @ a_deferred (drop_or_defer now choice a))"
    proof (cases "bc_reason choice = ReasonDeadlineDefer")
      case True
      have "book a (delete_at i (a_queue a) @ a_deferred a @ [?r])"
        by (rule book_perm [OF _ bk]) simp
      then show ?thesis using True assms(3) by (simp add: drop_or_defer_def Let_def)
    next
      case False
      have "book ?b (?r # delete_at i (a_queue a) @ a_deferred a)" using bk by simp
      from finishQueued_book [OF this] show ?thesis
        using False assms(3) finishQueued_frame [of ?b ?r now DeadlineDropped]
        by (simp add: drop_or_defer_def Let_def frame_def)
    qed
    show "a_queuedBytes (drop_or_defer now choice a) \<le> a_queuedBytes a"
      using assms(1,3) sub(2)
      by (auto simp: drop_or_defer_def Let_def finishQueued_def actor_inv_def request_ok_def)
    show "length (a_queue (drop_or_defer now choice a)) + length (a_deferred (drop_or_defer now choice a))
        \<le> length (a_queue a) + length (a_deferred a)"
      using assms(3) i by (auto simp: drop_or_defer_def Let_def finishQueued_def)
    show "set (a_queue (drop_or_defer now choice a) @ a_deferred (drop_or_defer now choice a)
        @ a_active (drop_or_defer now choice a)) \<subseteq> set (a_queue a @ a_deferred a @ a_active a)"
      using assms(3) sub by (auto simp: drop_or_defer_def Let_def finishQueued_def)
  qed (use assms in \<open>auto simp: drop_or_defer_def Let_def finishQueued_def actor_inv_def\<close>)
  show "length (a_queue (drop_or_defer now choice a)) < length (a_queue a)"
    "a_active (drop_or_defer now choice a) = a_active a" "a_cfg (drop_or_defer now choice a) = a_cfg a"
    using assms(3) i by (auto simp: drop_or_defer_def Let_def finishQueued_def)
qed

section \<open>Launching\<close>

definition of_kind :: "string \<Rightarrow> string \<Rightarrow> request \<Rightarrow> bool" where
  "of_kind uid def r \<longleftrightarrow> rc_workloadUID (q_context r) = uid \<and> rc_definition (q_context r) = def"

lemma take_batch_spec:
  "fst (take_batch k uid def rs) = take k (filter (of_kind uid def) rs)
   \<and> mset rs = mset (fst (take_batch k uid def rs)) + mset (snd (take_batch k uid def rs))"
proof (induction k uid def rs rule: take_batch.induct)
  case (2 k uid def r rs)
  then show ?case
    by (cases k) (auto simp: of_kind_def split: prod.splits)
qed simp

text \<open>The queue a batch is taken from.\<close>

definition batch_source :: "schedulerActor \<Rightarrow> request list" where
  "batch_source a = (if a_queue a \<noteq> [] then a_queue a else a_deferred a)"

definition batch_taken :: "BatchChoice \<Rightarrow> schedulerActor \<Rightarrow> request list" where
  "batch_taken choice a =
     take (nat (bc_size choice)) (filter (of_kind (bc_workloadUID choice) (bc_definition choice)) (batch_source a))"

lemma emit_fold:
  "a_cfg (foldl (\<lambda>x r. emit (f x r) x) b rs) = a_cfg b \<and> a_queue (foldl (\<lambda>x r. emit (f x r) x) b rs) = a_queue b
   \<and> a_deferred (foldl (\<lambda>x r. emit (f x r) x) b rs) = a_deferred b
   \<and> a_active (foldl (\<lambda>x r. emit (f x r) x) b rs) = a_active b
   \<and> a_queuedBytes (foldl (\<lambda>x r. emit (f x r) x) b rs) = a_queuedBytes b
   \<and> a_accepted (foldl (\<lambda>x r. emit (f x r) x) b rs) = a_accepted b
   \<and> a_completed (foldl (\<lambda>x r. emit (f x r) x) b rs) = a_completed b
   \<and> a_replies (foldl (\<lambda>x r. emit (f x r) x) b rs) = a_replies b
   \<and> a_launched (foldl (\<lambda>x r. emit (f x r) x) b rs) = a_launched b
   \<and> a_batchID (foldl (\<lambda>x r. emit (f x r) x) b rs) = a_batchID b"
  by (induction rs arbitrary: b) auto

lemma launch_fields:
  assumes "a_active a = []"
  obtains kept where "mset (batch_source a) = mset (batch_taken choice a) + mset kept"
    "a_active (launch now choice a) = batch_taken choice a"
    "a_queue (launch now choice a) = (if a_queue a \<noteq> [] then kept else a_queue a)"
    "a_deferred (launch now choice a) = (if a_queue a \<noteq> [] then a_deferred a else kept)"
    "a_cfg (launch now choice a) = a_cfg a" "a_accepted (launch now choice a) = a_accepted a"
    "a_completed (launch now choice a) = a_completed a" "a_replies (launch now choice a) = a_replies a"
    "a_queuedBytes (launch now choice a) = a_queuedBytes a - sum_list (map q_bytes (batch_taken choice a))"
    "a_launched (launch now choice a) = a_launched a @ [(a_batchID a + 1, batch_taken choice a, a_cfg a)]"
proof -
  let ?tb = "take_batch (nat (bc_size choice)) (bc_workloadUID choice) (bc_definition choice) (batch_source a)"
  have src: "(if a_queue a \<noteq> [] then a_queue a else a_deferred a) = batch_source a" by (simp add: batch_source_def)
  note spec = take_batch_spec [of "nat (bc_size choice)" "bc_workloadUID choice" "bc_definition choice" "batch_source a"]
  obtain taken kept where tb: "?tb = (taken, kept)" by (cases ?tb) auto
  with spec have t: "taken = batch_taken choice a" "mset (batch_source a) = mset taken + mset kept"
    by (auto simp: batch_taken_def)
  show thesis
    by (rule that [of kept]) (use t tb in \<open>simp_all add: launch_def Let_def src emit_fold\<close>)
qed

lemma mset_map_sum: "mset xs = mset ys + mset zs \<Longrightarrow>
    sum_list (map f xs) = sum_list (map f ys) + (sum_list (map f zs) :: int)"
proof -
  assume "mset xs = mset ys + mset zs"
  then have "mset xs = mset (ys @ zs)" by simp
  then have "mset (map f xs) = mset (map f (ys @ zs))" by simp
  then have "sum_list (map f xs) = sum_list (map f (ys @ zs))" by (metis sum_mset_sum_list)
  then show ?thesis by simp
qed

lemma launch_inv:
  assumes "actor_inv a" "a_active a = []" "c_mode (a_cfg a) \<noteq> modeServing \<Longrightarrow> bc_size choice \<le> 1"
  shows "actor_inv (launch now choice a)"
proof -
  obtain kept where l: "mset (batch_source a) = mset (batch_taken choice a) + mset kept"
    "a_active (launch now choice a) = batch_taken choice a"
    "a_queue (launch now choice a) = (if a_queue a \<noteq> [] then kept else a_queue a)"
    "a_deferred (launch now choice a) = (if a_queue a \<noteq> [] then a_deferred a else kept)"
    "a_cfg (launch now choice a) = a_cfg a" "a_accepted (launch now choice a) = a_accepted a"
    "a_completed (launch now choice a) = a_completed a" "a_replies (launch now choice a) = a_replies a"
    "a_queuedBytes (launch now choice a) = a_queuedBytes a - sum_list (map q_bytes (batch_taken choice a))"
    by (rule launch_fields [OF assms(2), of choice now]) blast
  let ?b = "launch now choice a" and ?t = "batch_taken choice a"
  have held: "mset (a_queue a @ a_deferred a) = mset ?t + mset (a_queue ?b @ a_deferred ?b)"
    using l(1,3,4) by (auto simp: batch_source_def)
  have bk: "book a (a_queue a @ a_deferred a)" using assms(1) by (simp add: actor_inv_def)
  have len: "length (a_queue a @ a_deferred a) = length ?t + length (a_queue ?b @ a_deferred ?b)"
    using mset_eq_length [of "a_queue a @ a_deferred a" "?t @ a_queue ?b @ a_deferred ?b"] held by simp
  have dist: "distinct (map q_ref ((a_queue ?b @ a_deferred ?b) @ ?t) @ map fst (a_replies a))"
    using book_perm [OF _ bk, of "(a_queue ?b @ a_deferred ?b) @ ?t"] held assms(2)
    by (simp add: book_def ac_simps)
  have sub: "set ?t \<subseteq> set (a_queue a @ a_deferred a)" "set (a_queue ?b @ a_deferred ?b) \<subseteq> set (a_queue a @ a_deferred a)"
    using arg_cong [OF held, of set_mset] by auto
  show ?thesis
  proof (rule actor_inv_move [OF assms(1) l(5)])
    have "a_accepted ?b = a_completed ?b + length (a_queue ?b @ a_deferred ?b) + length (a_active ?b)"
      using bk len l(2,6,7) assms(2) by (simp add: book_def)
    moreover have "a_queuedBytes ?b = sum_list (map q_bytes (a_queue ?b @ a_deferred ?b))"
      using bk mset_map_sum [OF held, of q_bytes] l(9) by (simp add: book_def)
    moreover have "distinct (map q_ref ((a_queue ?b @ a_deferred ?b) @ a_active ?b) @ map fst (a_replies ?b))"
      using dist by (simp only: l(2,8))
    ultimately show "book ?b (a_queue ?b @ a_deferred ?b)" by (simp only: book_def)
    have "0 \<le> sum_list (map q_bytes ?t)"
      using sub(1) assms(1) by (intro sum_list_nonneg) (auto simp: actor_inv_def request_ok_def)
    then show "a_queuedBytes ?b \<le> a_queuedBytes a" using l(9) by simp
    show "\<forall>r \<in> set (a_active ?b). \<forall>s \<in> set (a_active ?b). same_kind r s"
      using l(2) by (auto simp: batch_taken_def same_kind_def of_kind_def dest!: in_set_takeD)
    assume m: "c_mode (a_cfg a) \<noteq> modeServing"
    then have "length ?t \<le> 1" using assms(3) by (simp add: batch_taken_def)
    moreover have "a_deferred a = []" using m assms(1) by (simp add: actor_inv_def)
    moreover have "a_deferred ?b = []"
      using calculation(2) sub l(4) l(1) by (cases "a_queue a") (auto simp: batch_source_def)
    ultimately show "a_deferred ?b = [] \<and> length (a_active ?b) \<le> 1" using l(2) by simp
  qed (use len sub l in auto)
qed

section \<open>The loop ends\<close>

lemma start_loop_ok:
  assumes "actor_inv a" "a_active a = []" "length (a_queue a) \<le> fuel"
  shows "\<exists>b n. start_loop fuel oor now idle next_at a = Done (b, n) \<and> actor_inv b \<and> a_cfg b = a_cfg a
    \<and> (a_active b = [] \<and> a_launched b = a_launched a
       \<or> (\<exists>c choice. actor_inv c \<and> a_active c = [] \<and> a_cfg c = a_cfg a \<and> a_launched c = a_launched a
            \<and> (a_queue c \<noteq> [] \<or> a_deferred c \<noteq> [])
            \<and> next_choice oor now idle c = Some choice \<and> 0 < bc_size choice \<and> b = launch now choice c))"
  using assms
proof (induction fuel arbitrary: a)
  case (0 a)
  then have "a_queue a = []" by simp
  show ?case
  proof (cases "a_deferred a = []")
    case True
    with 0 show ?thesis by (simp add: start_loop.simps [of 0])
  next
    case False
    then have serving: "c_mode (a_cfg a) = modeServing" using 0 by (auto simp: actor_inv_def)
    then obtain choice where ch: "next_choice oor now idle a = Some choice" by (simp add: next_choice_def)
    have no: "\<not> (bc_reason choice = OutcomeDeadlineDrop \<or> bc_reason choice = ReasonDeadlineDefer)"
      using choice_removes_head [OF 0(1) serving ch] \<open>a_queue a = []\<close> by auto
    show ?thesis
    proof (cases "bc_size choice \<le> 0")
      case True
      with False ch no 0 show ?thesis by (simp add: start_loop.simps [of 0] Let_def)
    next
      case pos: False
      have "actor_inv (launch now choice a)" using launch_inv [OF 0(1,2)] serving by simp
      moreover have "a_cfg (launch now choice a) = a_cfg a"
        by (rule launch_fields [OF 0(2), of choice now]) simp
      ultimately show ?thesis using False ch no 0 pos
        by (auto simp: start_loop.simps [of 0] Let_def intro!: exI [of _ a] exI [of _ choice])
    qed
  qed
next
  case (Suc fuel a)
  show ?case
  proof (cases "a_queue a = [] \<and> a_deferred a = []")
    case True
    with Suc.prems show ?thesis by (simp add: start_loop.simps [of "Suc fuel"])
  next
    case work: False
    have "\<exists>choice. next_choice oor now idle a = Some choice"
      using work Suc.prems(1) by (auto simp: next_choice_def actor_inv_def split: list.splits)
    then obtain choice where ch: "next_choice oor now idle a = Some choice" by blast
    show ?thesis
    proof (cases "bc_reason choice = OutcomeDeadlineDrop \<or> bc_reason choice = ReasonDeadlineDefer")
      case True
      have serving: "c_mode (a_cfg a) = modeServing"
      proof (rule ccontr)
        assume "c_mode (a_cfg a) \<noteq> modeServing"
        then have "c_mode (a_cfg a) = modeProfiling" using Suc.prems(1) by (auto simp: actor_inv_def config_ok_def)
        with ch True show False by (auto simp: next_choice_def split: list.splits)
      qed
      from choice_removes_head [OF Suc.prems(1) serving ch True] obtain i where
        i: "find_index (\<lambda>r. rc_requestID (q_context r) = bc_requestID choice) (a_queue a) = Some i" by blast
      let ?d = "drop_or_defer now choice a"
      note d = drop_or_defer_inv [OF Suc.prems(1) serving i, of now]
      have la: "a_launched ?d = a_launched a"
        using i by (simp add: drop_or_defer_def Let_def finishQueued_def)
      have "start_loop (Suc fuel) oor now idle next_at a = start_loop fuel oor now idle next_at ?d"
        using work ch True by (auto simp: start_loop.simps [of "Suc fuel"])
      moreover have "a_active ?d = []" "length (a_queue ?d) \<le> fuel" using d Suc.prems by auto
      ultimately show ?thesis using Suc.IH [OF d(1)] d(4) la by auto
    next
      case no: False
      show ?thesis
      proof (cases "bc_size choice \<le> 0")
        case True
        with work ch no Suc.prems show ?thesis by (simp add: start_loop.simps [of "Suc fuel"] Let_def)
      next
        case pos: False
        have "c_mode (a_cfg a) \<noteq> modeServing \<Longrightarrow> bc_size choice \<le> 1"
          using ch Suc.prems(1) by (auto simp: next_choice_def actor_inv_def config_ok_def split: list.splits if_splits)
        then have "actor_inv (launch now choice a)" by (rule launch_inv [OF Suc.prems(1,2)])
        moreover have "a_cfg (launch now choice a) = a_cfg a"
          by (rule launch_fields [OF Suc.prems(2), of choice now]) simp
        ultimately show ?thesis using work ch no Suc.prems pos
          by (auto simp: start_loop.simps [of "Suc fuel"] Let_def intro!: exI [of _ a] exI [of _ choice])
      qed
    qed
  qed
qed

section \<open>A started batch has exactly the chosen size\<close>

lemma length_filter_index: "length (filter (\<lambda>i. P (xs ! i)) [0..<length xs]) = length (filter P xs)"
proof -
  have "filter P xs = filter P (map ((!) xs) [0..<length xs])" by (simp add: map_nth)
  then show ?thesis by (simp add: filter_map comp_def)
qed

lemma takeWhile_filter_le:
  assumes "\<And>x. P x \<Longrightarrow> Q x \<Longrightarrow> R x"
  shows "length (takeWhile P (filter Q xs)) \<le> length (filter R xs)"
proof -
  have "length (takeWhile P ys) \<le> length (filter P ys)" for ys by (induction ys) auto
  also have "length (filter P (filter Q xs)) \<le> length (filter R xs)"
    using assms by (induction xs) auto
  finally show ?thesis .
qed

lemma queue_state_normal [simp]: "normalRequest (request_state a now clock phaseQueued r)"
  "\<not> normalRequest (request_state a now clock phaseDeferred r)"
  "\<not> normalRequest (request_state a now clock phaseRunning r)"
  by (simp_all add: normalRequest_def)

lemma same_queue_kind:
  "serves rs h choice \<Longrightarrow> sameQueue (request_state a now clock ph r) (rs ! h)
     = of_kind (bc_workloadUID choice) (bc_definition choice) r"
  by (simp add: sameQueue_def serves_def of_kind_def)

lemma batch_exact:
  assumes "actor_inv a" "a_active a = []" "a_queue a \<noteq> [] \<or> a_deferred a \<noteq> []"
    and "next_choice oor now idle a = Some choice" "0 < bc_size choice"
  shows "length (batch_taken choice a) = nat (bc_size choice)"
proof (cases "c_mode (a_cfg a) = modeServing")
  case False
  then have m: "c_mode (a_cfg a) = modeProfiling" "a_deferred a = []"
    using assms(1) by (auto simp: actor_inv_def config_ok_def)
  with assms(3) obtain r rs where q: "a_queue a = r # rs" by (cases "a_queue a") auto
  have "bc_size choice = 1" "bc_workloadUID choice = rc_workloadUID (q_context r)"
    "bc_definition choice = rc_definition (q_context r)"
    using assms(4) m q by (auto simp: next_choice_def)
  then show ?thesis by (simp add: batch_taken_def batch_source_def q of_kind_def)
next
  case True
  let ?rs = "requestStates a now (None, None)"
  let ?P = "of_kind (bc_workloadUID choice) (bc_definition choice)"
  have choice: "choice = ChooseBatch oor (c_policy (a_cfg a)) ?rs idle"
    using True assms(4) by (simp add: next_choice_def)
  from starting_choice [OF states_numbers [OF assms(1) True], where oor = oor and p = "c_policy (a_cfg a)" and gap = idle]
    assms(5) choice obtain h where h: "h < length ?rs" "normalRequest (?rs ! h) \<or> is_deferred_head ?rs h"
    "serves ?rs h choice" "bc_size choice \<le> int (compatibleCount ?rs h)" by blast
  have "compatibleCount ?rs h \<le> length (filter ?P (batch_source a))"
  proof (cases "normalRequest (?rs ! h)")
    case normal: True
    then have "rs_phase (?rs ! h) \<noteq> phaseDeferred" by (auto simp: normalRequest_def)
    then have "compatibleCount ?rs h = length (filter (\<lambda>q. normalRequest q \<and> sameQueue q (?rs ! h)) ?rs)"
      using length_filter_index [of "\<lambda>q. normalRequest q \<and> sameQueue q (?rs ! h)" ?rs]
      by (simp add: compatibleCount_def candidates_def)
    also have "\<dots> = length (filter ?P (a_queue a))"
      unfolding requestStates_def using same_queue_kind [OF h(3)]
      by (simp add: filter_map comp_def requestStates_def)
    finally show ?thesis using normal_state(1) [OF h(1) normal] by (auto simp: batch_source_def)
  next
    case False
    with h(2) have dh: "is_deferred_head ?rs h" by blast
    have "a_queue a = []"
    proof (rule ccontr)
      assume "a_queue a \<noteq> []"
      then obtain r rs where "a_queue a = r # rs" by (cases "a_queue a") auto
      then have "request_state a now (None, None) phaseQueued r \<in> set ?rs" by (simp add: requestStates_def)
      with dh show False using queue_state_normal(1) by (auto simp: is_deferred_head_def)
    qed
    let ?Q = "\<lambda>q. rs_phase q = phaseDeferred \<and> sameQueue q (?rs ! h)"
    have "compatibleCount ?rs h =
        length (takeWhile (\<lambda>i. sameQueue (?rs ! i) (?rs ! h))
          (filter (\<lambda>i. \<not> (i < h \<or> rs_phase (?rs ! i) \<noteq> phaseDeferred)) [0..<length ?rs]))"
      using dh by (simp add: compatibleCount_def is_deferred_head_def)
    also have "\<dots> \<le> length (filter (\<lambda>i. ?Q (?rs ! i)) [0..<length ?rs])"
      by (rule takeWhile_filter_le) auto
    also have "\<dots> = length (filter ?Q ?rs)" by (rule length_filter_index)
    also have "\<dots> = length (filter ?P (a_deferred a))"
      unfolding requestStates_def using same_queue_kind [OF h(3)]
      by (simp add: filter_map comp_def requestStates_def)
    finally show ?thesis using \<open>a_queue a = []\<close> by (simp add: batch_source_def)
  qed
  with h(4) show ?thesis by (simp add: batch_taken_def)
qed

section \<open>Finishing a batch\<close>

text \<open>What \<open>executeBatch\<close> hands back for a serving batch that keeps the loop going.\<close>

definition output_ok :: "nat \<Rightarrow> runnerOutput \<Rightarrow> bool" where
  "output_ok n out \<longleftrightarrow> length (ro_items out) = n \<and> list_all item_ok (ro_items out)
     \<and> (\<forall>f \<in> set (ro_outputs out). length (f_Data f) = successes_of (ro_items out))"

definition completed_ok :: "schedulerActor \<Rightarrow> batch_result \<Rightarrow> bool" where
  "completed_ok a done \<longleftrightarrow> \<not> ends_loop done \<and>
     (c_mode (a_cfg a) = modeServing \<longrightarrow>
        (case br_err done of
           None \<Rightarrow> output_ok (length (a_active a)) (br_output done)
         | Some (BatchFailed _ _) \<Rightarrow> True
         | Some _ \<Rightarrow> False))"

text \<open>The answer to the \<open>j\<close>-th request of a batch.\<close>

definition item_answer :: "batch_result \<Rightarrow> nat \<Rightarrow> request \<Rightarrow> result \<Rightarrow> bool" where
  "item_answer done j r v \<longleftrightarrow> rl_complete v \<and>
     (case rl_response v of
        None \<Rightarrow> False
      | Some resp \<Rightarrow> re_id resp = rc_requestID (q_context r) \<and>
          (case br_err done of
             Some e \<Rightarrow> rl_err v = Some e \<and> re_outputs resp = []
           | None \<Rightarrow>
               (let items = ro_items (br_output done) in
                if ir_Error (items ! j) \<noteq> []
                then rl_err v = Some (PreprocessFailed (ir_Error (items ! j))) \<and> re_outputs resp = []
                else re_outputs resp =
                  map (\<lambda>f. \<lparr>f_Name = f_Name f, f_Data = [f_Data f ! successes_of (take j items)]\<rparr>)
                    (ro_outputs (br_output done)))))"

lemma successes_take:
  assumes "j < length items" "list_all item_ok items"
  shows "successes_of (take (Suc j) items) = successes_of (take j items) + (if ir_Error (items ! j) = [] then 1 else 0)"
    and "ir_Error (items ! j) = [] \<Longrightarrow> successes_of (take j items) < successes_of items"
proof -
  have ok: "item_ok (items ! j)" using assms by (simp add: list_all_length)
  then have pos: "0 < ir_Units (items ! j) \<longleftrightarrow> ir_Error (items ! j) = []" by (auto simp: item_ok_def)
  show st: "successes_of (take (Suc j) items) = successes_of (take j items) + (if ir_Error (items ! j) = [] then 1 else 0)"
    using assms(1) pos by (simp add: successes_of_def take_Suc_conv_app_nth)
  assume "ir_Error (items ! j) = []"
  moreover have "successes_of (take (Suc j) items) \<le> successes_of items"
    by (metis append_take_drop_id filter_append le_add1 length_append successes_of_def)
  ultimately show "successes_of (take j items) < successes_of items" using st by simp
qed

lemma finish_item_step:
  assumes "br_err done = None \<and> output_ok n (br_output done) \<and> i < n
      \<and> success = successes_of (take i (ro_items (br_output done)))
    \<or> (\<exists>x y. br_err done = Some (BatchFailed x y))"
  shows "\<exists>b k v. finish_item ctx now done i success r a = Some (b, k) \<and> frame a b
    \<and> a_replies b = a_replies a @ [(q_ref r, v)] \<and> item_answer done i r v
    \<and> a_accepted b = a_accepted a \<and> a_completed b = a_completed a \<and> a_queuedBytes b = a_queuedBytes a
    \<and> (br_err done = None \<longrightarrow> k = successes_of (take (Suc i) (ro_items (br_output done))))"
proof (cases "br_err done")
  case (Some e)
  with assms obtain x y where "e = BatchFailed x y" by auto
  with Some show ?thesis
    by (auto simp: finish_item_def Let_def item_answer_def response_of_def frame_def)
next
  case None
  let ?items = "ro_items (br_output done)"
  from None assms have ok: "length ?items = n" "list_all item_ok ?items" "i < n"
    "success = successes_of (take i ?items)"
    "\<forall>f \<in> set (ro_outputs (br_output done)). length (f_Data f) = successes_of ?items"
    by (auto simp: output_ok_def)
  note st = successes_take [of i ?items, OF _ ok(2)]
  show ?thesis
  proof (cases "ir_Error (?items ! i) = []")
    case True
    then have "\<not> list_ex (\<lambda>f. length (f_Data f) < success + 1) (ro_outputs (br_output done))"
      using st ok by (auto simp: list_ex_iff)
    with None True ok st show ?thesis
      by (simp add: finish_item_def Let_def item_answer_def response_of_def frame_def)
  next
    case False
    with None ok st show ?thesis
      by (simp add: finish_item_def Let_def item_answer_def response_of_def frame_def)
  qed
qed

lemma finish_items_ok:
  assumes "br_err done = None \<and> output_ok (i + length rs) (br_output done)
      \<and> success = successes_of (take i (ro_items (br_output done)))
    \<or> (\<exists>x y. br_err done = Some (BatchFailed x y))"
  shows "\<exists>b new. finish_items ctx now done i success rs a = Some b \<and> frame a b
    \<and> a_replies b = a_replies a @ new \<and> map fst new = map q_ref rs
    \<and> (\<forall>j < length rs. item_answer done (i + j) (rs ! j) (snd (new ! j)))
    \<and> a_accepted b = a_accepted a \<and> a_completed b = a_completed a \<and> a_queuedBytes b = a_queuedBytes a"
  using assms
proof (induction rs arbitrary: i success a)
  case Nil
  then show ?case by simp
next
  case (Cons r rs)
  have "br_err done = None \<and> output_ok (i + length (r # rs)) (br_output done) \<and> i < i + length (r # rs)
      \<and> success = successes_of (take i (ro_items (br_output done)))
    \<or> (\<exists>x y. br_err done = Some (BatchFailed x y))" using Cons.prems by simp
  from finish_item_step [OF this, of ctx now r a] obtain b k v where
    step: "finish_item ctx now done i success r a = Some (b, k)" "frame a b"
      "a_replies b = a_replies a @ [(q_ref r, v)]" "item_answer done i r v"
      "a_accepted b = a_accepted a" "a_completed b = a_completed a" "a_queuedBytes b = a_queuedBytes a"
      "br_err done = None \<longrightarrow> k = successes_of (take (Suc i) (ro_items (br_output done)))"
    by (elim exE conjE) (rule that)
  have "br_err done = None \<and> output_ok (Suc i + length rs) (br_output done)
      \<and> k = successes_of (take (Suc i) (ro_items (br_output done)))
    \<or> (\<exists>x y. br_err done = Some (BatchFailed x y))" using Cons.prems step(8) by auto
  from Cons.IH [OF this, of b] obtain c new where
    rest: "finish_items ctx now done (Suc i) k rs b = Some c" "frame b c" "a_replies c = a_replies b @ new"
      "map fst new = map q_ref rs" "\<forall>j < length rs. item_answer done (Suc i + j) (rs ! j) (snd (new ! j))"
      "a_accepted c = a_accepted b" "a_completed c = a_completed b" "a_queuedBytes c = a_queuedBytes b" by blast
  have "item_answer done (i + j) ((r # rs) ! j) (snd (((q_ref r, v) # new) ! j))" if "j < length (r # rs)" for j
    using that step(4) rest(5) by (cases j) auto
  with step rest frame_trans show ?case
    by (intro exI [of _ c] exI [of _ "(q_ref r, v) # new"]) auto
qed

text \<open>Every active request is answered; the books balance again.\<close>

lemma book_finish:
  assumes "book a held" "a_accepted b = a_accepted a" "a_completed b = a_completed a + length (a_active a)"
    "a_active b = []" "a_queuedBytes b = a_queuedBytes a" "a_replies b = a_replies a @ new"
    "map fst new = map q_ref (a_active a)"
  shows "book b held"
proof -
  have "mset (map q_ref (held @ a_active a) @ map fst (a_replies a))
      = mset (map q_ref (held @ []) @ map fst (a_replies a @ new))"
    using assms(7) by (simp add: ac_simps)
  then have "distinct (map q_ref (held @ []) @ map fst (a_replies a @ new))"
    using assms(1) unfolding book_def by (metis mset_eq_imp_distinct_iff)
  with assms show ?thesis by (simp add: book_def)
qed

lemma finishBatch_ok:
  assumes "actor_inv a" "a_active a \<noteq> []" "completed_ok a done"
  obtains b new where "finishBatch ctx now done a = Some b" "actor_inv b" "a_active b = []" "a_cfg b = a_cfg a"
    "a_queue b = a_queue a" "a_deferred b = a_deferred a" "a_launched b = a_launched a"
    "a_replies b = a_replies a @ new" "map fst new = map q_ref (a_active a)"
    "c_mode (a_cfg a) = modeServing \<Longrightarrow> \<forall>j < length (a_active a). item_answer done j (a_active a ! j) (snd (new ! j))"
proof -
  obtain r rs where act: "a_active a = r # rs" using assms(2) by (cases "a_active a") auto
  let ?a = "a\<lparr>a_completed := a_completed a + length (a_active a), a_executions := a_executions a + 1\<rparr>"
  have inv: "config_ok (a_cfg a)" "book a (a_queue a @ a_deferred a)"
    "\<forall>x \<in> set (a_active a). request_ok (a_cfg a) x" using assms(1) by (auto simp: actor_inv_def)
  have body: "\<exists>b new. (if q_profile r \<noteq> None then Some (finish_profile now done r ?a)
        else finish_items ctx now done 0 0 (a_active a) ?a) = Some b
      \<and> frame ?a b \<and> a_accepted b = a_accepted ?a \<and> a_completed b = a_completed ?a
      \<and> a_queuedBytes b = a_queuedBytes ?a
      \<and> a_replies b = a_replies a @ new \<and> map fst new = map q_ref (a_active a)
      \<and> (c_mode (a_cfg a) = modeServing \<longrightarrow>
           (\<forall>j < length (a_active a). item_answer done j (a_active a ! j) (snd (new ! j))))"
  proof (cases "c_mode (a_cfg a) = modeServing")
    case True
    then have "q_profile r = None" using inv(3) act by (auto simp: request_ok_def)
    moreover have "br_err done = None \<and> output_ok (0 + length (a_active a)) (br_output done)
        \<and> 0 = successes_of (take 0 (ro_items (br_output done)))
      \<or> (\<exists>x y. br_err done = Some (BatchFailed x y))"
      using assms(3) True by (auto simp: completed_ok_def successes_of_def split: option.splits ff_error.splits)
    from finish_items_ok [OF this, of ctx now ?a] obtain b new where
      "finish_items ctx now done 0 0 (a_active a) ?a = Some b" "frame ?a b"
      "a_replies b = a_replies ?a @ new" "map fst new = map q_ref (a_active a)"
      "\<forall>j < length (a_active a). item_answer done (0 + j) (a_active a ! j) (snd (new ! j))"
      "a_accepted b = a_accepted ?a" "a_completed b = a_completed ?a" "a_queuedBytes b = a_queuedBytes ?a" by blast
    ultimately show ?thesis by (intro exI [of _ b] exI [of _ new]) simp
  next
    case False
    then have "q_profile r \<noteq> None" "rs = []"
      using assms(1) act by (auto simp: actor_inv_def request_ok_def)
    with False act show ?thesis
      by (auto simp: finish_profile_def Let_def frame_def)
  qed
  then obtain b new where b: "(if q_profile r \<noteq> None then Some (finish_profile now done r ?a)
        else finish_items ctx now done 0 0 (a_active a) ?a) = Some b"
      "frame ?a b" "a_accepted b = a_accepted a" "a_completed b = a_completed a + length (a_active a)"
      "a_queuedBytes b = a_queuedBytes a" "a_replies b = a_replies a @ new" "map fst new = map q_ref (a_active a)"
      "c_mode (a_cfg a) = modeServing \<longrightarrow>
           (\<forall>j < length (a_active a). item_answer done j (a_active a ! j) (snd (new ! j)))" by auto
  let ?b = "b\<lparr>a_active := [], a_started := 0\<rparr>"
  have run: "finishBatch ctx now done a = Some ?b"
    using b(1) act by (simp add: finishBatch_def Let_def split: if_splits)
  have bk: "book ?b (a_queue ?b @ a_deferred ?b)"
    using book_finish [OF inv(2), of ?b new] b by (simp add: frame_def)
  have "actor_inv ?b"
    by (rule actor_inv_move [OF assms(1) _ bk]) (use b(2,5) assms(1) in \<open>auto simp: frame_def actor_inv_def\<close>)
  then show thesis using run b by (intro that [of ?b new]) (auto simp: frame_def)
qed

end
