(* ===== verification/FFLifecycle.thy ===== *)
theory FFLifecycle
  imports FFScheduling
begin

text \<open>
  The life of the actor of \<open>internal/firstfloor/scheduler.go\<close>: the states its loop reaches
  from a valid configuration, the invariant they keep, and the properties of one executor
  that follow: nothing is lost or answered twice, the loop is never stuck, batches have the
  chosen size, and the answers of a batch are those of its exchange with the runner.
\<close>

section \<open>Admission keeps the books\<close>

definition fresh_request :: "schedulerActor \<Rightarrow> request \<Rightarrow> bool" where
  "fresh_request a r \<longleftrightarrow> q_ref r \<notin> q_ref ` set (a_queue a @ a_deferred a @ a_active a) \<union> fst ` set (a_replies a)"

lemma observeArrival_fields [simp]:
  "a_cfg (observeArrival r a) = a_cfg a" "a_queue (observeArrival r a) = a_queue a"
  "a_deferred (observeArrival r a) = a_deferred a" "a_active (observeArrival r a) = a_active a"
  "a_queuedBytes (observeArrival r a) = a_queuedBytes a" "a_accepted (observeArrival r a) = a_accepted a"
  "a_completed (observeArrival r a) = a_completed a" "a_replies (observeArrival r a) = a_replies a"
  "a_launched (observeArrival r a) = a_launched a"
  by (simp_all add: observeArrival_def Let_def)

text \<open>An admission either answers at once or inserts the request into the queue.\<close>

lemma admit_cases:
  obtains (refused) e where "admit ctx now r a = answer r (failure e) a"
  | (queued) b where "admit ctx now r a = b" "mset (a_queue b) = add_mset r (mset (a_queue a))"
      "a_deferred b = a_deferred a" "a_active b = a_active a" "a_cfg b = a_cfg a"
      "a_queuedBytes b = a_queuedBytes a + q_bytes r" "a_accepted b = a_accepted a + 1"
      "a_completed b = a_completed a" "a_replies b = a_replies a" "a_launched b = a_launched a"
      "int (length (a_queue a) + length (a_deferred a)) < c_maxQueueRequests (a_cfg a)"
      "a_queuedBytes a + q_bytes r \<le> c_maxQueueBytes (a_cfg a)"
proof (cases "ctx (q_ref r)")
  case (Some e)
  then show thesis using refused [of e] by (simp add: admit_def)
next
  case None
  show thesis
  proof (cases "c_maxQueueRequests (a_cfg a) \<le> int (length (a_queue a) + length (a_deferred a))
      \<or> c_maxQueueBytes (a_cfg a) - a_queuedBytes a < q_bytes r")
    case True
    with None show thesis using refused [of QueueFull] by (simp add: admit_def)
  next
    case False
    with None show thesis
      by (intro queued [of "admit ctx now r a"]) (simp_all add: admit_def Let_def)
  qed
qed

lemma admit_inv:
  assumes "actor_inv a" "request_ok (a_cfg a) r" "fresh_request a r"
  shows "actor_inv (admit ctx now r a)"
proof (cases rule: admit_cases [of ctx now r a])
  case (refused e)
  have bk: "book a (a_queue a @ a_deferred a)" using assms(1) by (simp add: actor_inv_def)
  have "book (answer r (failure e) a) (a_queue a @ a_deferred a)"
    using bk assms(3) by (auto simp: book_def fresh_request_def)
  then show ?thesis using assms(1) unfolding refused
    by (intro actor_inv_move [OF assms(1)]) (auto simp: actor_inv_def)
next
  case (queued b)
  have ms: "mset (a_queue b @ a_deferred b) = mset (r # a_queue a @ a_deferred a)" using queued by simp
  have len: "length (a_queue b) = Suc (length (a_queue a))"
    using mset_eq_length [of "a_queue b" "r # a_queue a"] queued(2) by simp
  have st: "set (a_queue b) = insert r (set (a_queue a))"
    using queued(2) by (metis set_mset_add_mset_insert set_mset_mset)
  have "book b (r # a_queue a @ a_deferred a)"
    using assms(1,3) queued by (auto simp: actor_inv_def book_def fresh_request_def)
  then have bk: "book b (a_queue b @ a_deferred b)" by (rule book_perm [OF ms [symmetric]])
  have "c_mode (a_cfg a) \<noteq> modeServing \<longrightarrow> a_deferred b = [] \<and> length (a_active b) \<le> 1"
    using assms(1) queued by (simp add: actor_inv_def)
  then have "actor_inv b"
    using assms bk queued(3-6,11,12) len st unfolding actor_inv_def by auto
  then show ?thesis by (simp add: queued(1))
qed

section \<open>Policy updates\<close>

lemma Update_spec:
  assumes "Update current cfg = Inr new" "config_ok current"
  shows "config_ok new" "new\<lparr>c_policy := c_policy current\<rparr> = current"
    "p_batches (c_policy new) = p_batches (c_policy current)"
    "p_fixedBatchSize (c_policy new) = p_fixedBatchSize (c_policy current)"
    "p_deadlinePolicy (c_policy new) = p_deadlinePolicy (c_policy current)"
    "c_mode new = c_mode current" "c_maxQueueRequests new = c_maxQueueRequests current"
    "c_maxQueueBytes new = c_maxQueueBytes current"
proof -
  let ?p = "(c_policy cfg)\<lparr>p_deadlinePolicy := EffectiveDeadlinePolicy (p_deadlinePolicy (c_policy cfg)),
      p_batches := p_batches (c_policy current)\<rparr>"
  have u: "new = current\<lparr>c_policy := ?p\<rparr>" "validateBatchCap ?p (c_batchSizes current) = None"
    "EffectiveDeadlinePolicy (p_deadlinePolicy (c_policy cfg)) = EffectiveDeadlinePolicy (p_deadlinePolicy (c_policy current))"
    "p_fixedBatchSize (c_policy cfg) = p_fixedBatchSize (c_policy current)"
    using assms(1) by (auto simp: Update_def Let_def split: if_splits option.splits)
  have known: "p_deadlinePolicy (c_policy current) \<in> {DeadlineDrop, DeadlineKeep, DeadlineDefer}"
    using assms(2) by (simp add: config_ok_def)
  then have "EffectiveDeadlinePolicy (p_deadlinePolicy (c_policy current)) = p_deadlinePolicy (c_policy current)"
    by (auto simp: EffectiveDeadlinePolicy_def)
  then show dp: "p_deadlinePolicy (c_policy new) = p_deadlinePolicy (c_policy current)"
    using u by simp
  show "new\<lparr>c_policy := c_policy current\<rparr> = current"
    "p_batches (c_policy new) = p_batches (c_policy current)"
    "p_fixedBatchSize (c_policy new) = p_fixedBatchSize (c_policy current)"
    "c_mode new = c_mode current" "c_maxQueueRequests new = c_maxQueueRequests current"
    "c_maxQueueBytes new = c_maxQueueBytes current" using u by simp_all
  have sizes: "sorted_wrt (<) (c_batchSizes current)" "\<forall>k \<in> set (c_batchSizes current). 1 \<le> k"
    using assms(2) by (auto simp: config_ok_def)
  note cap = validateBatchCap_sound [OF u(2) sizes]
  have "policy_ok (c_batchSizes current) ?p" if "policy_ok (c_batchSizes current) (c_policy current)"
    using that cap u(4) by (auto simp: policy_ok_def)
  then show "config_ok new" using assms(2) dp u by (auto simp: config_ok_def)
qed

section \<open>Reachable states\<close>

text \<open>
  What the other goroutines may deliver: a request the handler prepared and that is new to
  the actor, a configuration that passed \<open>Update\<close>, the result of the running batch.
\<close>

definition event_ok :: "schedulerActor \<Rightarrow> event \<Rightarrow> bool" where
  "event_ok a ev \<longleftrightarrow> (case ev of
     Admit r \<Rightarrow> request_ok (a_cfg a) r \<and> fresh_request a r
   | Change new \<Rightarrow> (\<exists>cfg. Update (a_cfg a) cfg = Inr new)
   | Completed done \<Rightarrow> a_active a \<noteq> [] \<and> completed_ok a done
   | Query \<Rightarrow> True
   | Woken \<Rightarrow> True)"

inductive reachable :: "(f64 \<Rightarrow> int) \<Rightarrow> schedulerActor \<Rightarrow> bool" for oor where
  created: "config_ok cfg \<Longrightarrow> reachable oor (new_actor cfg)"
| iteration: "reachable oor a \<Longrightarrow> loop_head oor env a = Done (b, n) \<Longrightarrow> event_ok b ev
    \<Longrightarrow> handle env' ev b = Some c \<Longrightarrow> reachable oor c"

inductive_cases reachable_cases: "reachable oor a"

lemma new_actor_inv: "config_ok cfg \<Longrightarrow> actor_inv (new_actor cfg)"
proof -
  assume ok: "config_ok cfg"
  then have "hd (c_batchSizes cfg) \<in> set (c_batchSizes cfg)"
    "\<forall>k \<in> set (c_batchSizes cfg). 1 \<le> k \<and> k \<le> c_maxBatchSize cfg" by (simp_all add: config_ok_def)
  then have "1 \<le> c_maxBatchSize cfg" by fastforce
  with ok have "0 \<le> c_maxQueueRequests cfg" "0 \<le> c_maxQueueBytes cfg" by (auto simp: config_ok_def)
  with ok show ?thesis by (simp add: actor_inv_def new_actor_def book_def)
qed

lemma loop_head_ok:
  assumes "actor_inv a"
  obtains b n where "loop_head oor env a = Done (b, n)" "actor_inv b" "a_cfg b = a_cfg a"
    "a_active a \<noteq> [] \<Longrightarrow> a_active b = a_active a \<and> a_launched b = a_launched a"
    "a_active a = [] \<Longrightarrow> a_active b = [] \<and> a_launched b = a_launched a
       \<or> (\<exists>c choice. actor_inv c \<and> a_active c = [] \<and> a_cfg c = a_cfg a \<and> a_launched c = a_launched a
            \<and> (a_queue c \<noteq> [] \<or> a_deferred c \<noteq> [])
            \<and> next_choice oor (e_now env) (e_idle env) c = Some choice \<and> 0 < bc_size choice
            \<and> b = launch (e_now env) choice c)"
proof -
  obtain c n where ex: "expireQueued oor (e_ctx env) (e_now env) a = (c, n)"
    by (cases "expireQueued oor (e_ctx env) (e_now env) a") auto
  note c = expireQueued_inv [OF ex assms]
  have bk: "book a (a_queue a @ a_deferred a)" "\<forall>r \<in> set (a_queue a @ a_deferred a). 0 \<le> q_bytes r"
    using assms by (auto simp: actor_inv_def request_ok_def)
  have la: "a_launched c = a_launched a" by (rule expireQueued_book(8) [OF ex bk])
  show thesis
  proof (cases "a_active a = []")
    case False
    then show thesis using ex c la by (intro that [of c n]) (auto simp: loop_head_def startBatch_def)
  next
    case True
    let ?c = "c\<lparr>a_started := 0\<rparr>"
    have inv: "actor_inv ?c" using c(1) by (simp add: actor_inv_def)
    from start_loop_ok [OF inv, of "length (a_queue c)" oor "e_now env" "e_idle env" n] True c
    obtain b m where run: "start_loop (length (a_queue c)) oor (e_now env) (e_idle env) n ?c = Done (b, m)"
      "actor_inv b" "a_cfg b = a_cfg ?c"
      and st: "a_active b = [] \<and> a_launched b = a_launched ?c
       \<or> (\<exists>d choice. actor_inv d \<and> a_active d = [] \<and> a_cfg d = a_cfg ?c \<and> a_launched d = a_launched ?c
            \<and> (a_queue d \<noteq> [] \<or> a_deferred d \<noteq> [])
            \<and> next_choice oor (e_now env) (e_idle env) d = Some choice \<and> 0 < bc_size choice
            \<and> b = launch (e_now env) choice d)" by auto
    show thesis
    proof (rule that [of b m])
      show "loop_head oor env a = Done (b, m)"
        using ex c True run by (simp add: loop_head_def startBatch_def enough_fuel_def)
    qed (use True run st c la in auto)
  qed
qed

lemma handle_inv:
  assumes "actor_inv a" "event_ok a ev" "handle env ev a = Some b"
  shows "actor_inv b"
proof (cases ev)
  case (Admit r)
  then show ?thesis using assms admit_inv by (auto simp: event_ok_def handle_def)
next
  case Query
  then show ?thesis using assms by (simp add: handle_def)
next
  case (Change new)
  with assms obtain cfg where u: "Update (a_cfg a) cfg = Inr new" and b: "b = a\<lparr>a_cfg := new\<rparr>"
    by (auto simp: event_ok_def handle_def)
  note s = Update_spec [OF u]
  show ?thesis using assms(1) s by (auto simp: actor_inv_def b request_ok_def)
next
  case (Completed res)
  with assms have "a_active a \<noteq> []" "completed_ok a res" "finishBatch (e_ctx env) (e_now env) res a = Some b"
    by (auto simp: event_ok_def handle_def split: if_splits)
  with assms(1) finishBatch_ok show ?thesis by (metis option.inject)
next
  case Woken
  then show ?thesis using assms by (simp add: handle_def)
qed

lemma reachable_inv: "reachable oor a \<Longrightarrow> actor_inv a"
proof (induction rule: reachable.induct)
  case (created cfg)
  then show ?case by (rule new_actor_inv)
next
  case (iteration a env b n ev env' c)
  have "actor_inv b"
    by (rule loop_head_ok [OF iteration.IH, of oor env]) (use iteration.hyps(2) in simp)
  from handle_inv [OF this iteration.hyps(3,4)] show ?case .
qed

section \<open>A batch and its exchange\<close>

lemma cut_outputs_error: "cut_outputs ts names k b out = Inl e \<Longrightarrow> \<exists>x. e = OtherError x"
  by (induction ts arbitrary: names b out) (auto split: list.splits if_splits sum.splits)

text \<open>An exchange fails with a batch error, which keeps the runner, or with one that does not.\<close>

lemma exchange_error:
  assumes "exchange outputs generative bid items sent reply = Inl e"
  shows "(\<exists>x y. e = BatchFailed x y) \<or> (\<exists>x. e = OtherError x)"
  using assms
  by (auto simp: exchange_def validateOutput_def Let_def split: option.splits sum.splits prod.splits if_splits
      dest: cut_outputs_error)

text \<open>
  The result the actor receives for a serving batch: the exchange with the runner, stamped by
  the runner's clock and packed by \<open>executeBatch\<close>.
\<close>

definition batch_outcome ::
  "schedulerActor \<Rightarrow> instant \<Rightarrow> instant \<Rightarrow> string \<Rightarrow> runner_clock \<Rightarrow> (ff_error + runnerOutput) \<Rightarrow> batch_result" where
  "batch_outcome a started ended trial k reply =
     (case infer_exchange started ended trial [] reply k of (k', out, e) \<Rightarrow>
        executeBatch (a_active a) (a_batchID a) (a_cfg a) (time_sub ended started) out e)"

lemma batch_outcome_ok:
  assumes "actor_inv a" "c_mode (a_cfg a) = modeServing" "a_active a \<noteq> []"
    and "exchange outputs generative bid (int (length (a_active a))) sent reply = r"
    and "\<not> ends_loop (batch_outcome a started ended trial k r)"
  shows "completed_ok a (batch_outcome a started ended trial k r)"
proof -
  have "hd (a_active a) \<in> set (a_active a)" using assms(3) by simp
  then have "request_ok (a_cfg a) (hd (a_active a))" using assms(1) by (simp add: actor_inv_def)
  then have np: "q_profile (hd (a_active a)) = None" using assms(2) by (simp add: request_ok_def)
  show ?thesis
  proof (cases r)
    case (Inl e)
    with exchange_error assms(4) np assms(5) show ?thesis
      by (fastforce simp: completed_ok_def batch_outcome_def infer_exchange_def executeBatch_def ends_loop_def Let_def)
  next
    case (Inr out)
    note shape = exchange_shape [OF assms(4) [unfolded Inr]]
    with Inr np assms(2,5) show ?thesis
      by (simp add: completed_ok_def batch_outcome_def infer_exchange_def executeBatch_def output_ok_def Let_def)
  qed
qed

section \<open>The end of the actor\<close>

lemma fail_fold:
  "a_queue (foldl (fail_step now e) a rs) = a_queue a \<and> a_deferred (foldl (fail_step now e) a rs) = a_deferred a
   \<and> a_active (foldl (fail_step now e) a rs) = a_active a \<and> a_accepted (foldl (fail_step now e) a rs) = a_accepted a
   \<and> a_completed (foldl (fail_step now e) a rs) = a_completed a + length rs
   \<and> a_replies (foldl (fail_step now e) a rs) = a_replies a @ map (\<lambda>r. (q_ref r, failure e)) rs"
  by (induction rs arbitrary: a) (auto simp: fail_step_def Let_def)

section \<open>Properties\<close>

text \<open>
  C5: in every reachable state of an executor's actor the books balance: accepted requests are
  the completed, waiting and running ones, the byte counter is the size of the waiting ones,
  both queue limits hold, no request is answered twice or after it was queued again, and the
  running requests are of one workload and definition.
\<close>

theorem actor_invariant:
  assumes "reachable oor a"
  shows "a_accepted a = a_completed a + length (a_queue a) + length (a_deferred a) + length (a_active a)
    \<and> a_queuedBytes a = sum_list (map q_bytes (a_queue a @ a_deferred a))
    \<and> int (length (a_queue a) + length (a_deferred a)) \<le> c_maxQueueRequests (a_cfg a)
    \<and> a_queuedBytes a \<le> c_maxQueueBytes (a_cfg a)
    \<and> distinct (map q_ref (a_queue a @ a_deferred a @ a_active a) @ map fst (a_replies a))
    \<and> (\<forall>r \<in> set (a_active a). \<forall>s \<in> set (a_active a). same_kind r s)
    \<and> config_ok (a_cfg a)"
  using reachable_inv [OF assms] unfolding actor_inv_def book_def by simp

text \<open>
  C28: the head of the loop always ends and never indexes an empty queue. Starting a batch may
  drop or defer queued requests first; each round removes one, so as many rounds as there are
  queued requests suffice.
\<close>

theorem loop_head_terminates:
  assumes "reachable oor a"
  shows "\<exists>b n. loop_head oor env a = Done (b, n)"
  by (rule loop_head_ok [OF reachable_inv [OF assms], of oor env]) blast

text \<open>
  C27: a batch that an idle executor starts has exactly the size the policy chose, its requests
  are of the chosen workload and definition, and they are handed to the runner under the
  current configuration.
\<close>

theorem started_batch_exact:
  assumes "reachable oor a" "a_active a = []" "loop_head oor env a = Done (b, n)" "a_active b \<noteq> []"
  shows "\<exists>c choice id. a_cfg c = a_cfg a \<and> next_choice oor (e_now env) (e_idle env) c = Some choice
    \<and> int (length (a_active b)) = bc_size choice
    \<and> (\<forall>r \<in> set (a_active b). of_kind (bc_workloadUID choice) (bc_definition choice) r)
    \<and> a_launched b = a_launched a @ [(id, a_active b, a_cfg a)]"
proof -
  obtain c choice where c: "actor_inv c" "a_active c = []" "a_cfg c = a_cfg a" "a_launched c = a_launched a"
    "a_queue c \<noteq> [] \<or> a_deferred c \<noteq> []"
    "next_choice oor (e_now env) (e_idle env) c = Some choice" "0 < bc_size choice"
    "b = launch (e_now env) choice c"
    by (rule loop_head_ok [OF reachable_inv [OF assms(1)], of oor env]) (use assms(2-4) in auto)
  have act: "a_active b = batch_taken choice c"
    and la: "a_launched b = a_launched a @ [(a_batchID c + 1, batch_taken choice c, a_cfg a)]"
    by (rule launch_fields [OF c(2), of choice "e_now env"]; simp add: c(3,4,8))+
  have "length (batch_taken choice c) = nat (bc_size choice)" by (rule batch_exact [OF c(1,2,5,6,7)])
  moreover have "\<forall>r \<in> set (batch_taken choice c). of_kind (bc_workloadUID choice) (bc_definition choice) r"
    by (auto simp: batch_taken_def dest!: in_set_takeD)
  ultimately show ?thesis using act la c(3,6,7)
    by (intro exI [of _ c] exI [of _ choice] exI [of _ "a_batchID c + 1"]) simp
qed

text \<open>
  C26: every request of a finished serving batch gets the answer of its own item. From the
  exchange with the runner on, the actor cannot index past the items or outputs; it answers
  the running requests in order, a failed item with its reason and a successful one with
  its element of every output, and it is then idle.
\<close>

theorem batch_answers_own_items:
  assumes "reachable oor a" "c_mode (a_cfg a) = modeServing" "a_active a \<noteq> []"
    and "exchange outputs generative bid (int (length (a_active a))) sent reply = r"
    and "\<not> ends_loop (batch_outcome a started ended trial k r)"
  shows "\<exists>b new. finishBatch ctx now (batch_outcome a started ended trial k r) a = Some b
    \<and> a_active b = [] \<and> a_replies b = a_replies a @ new \<and> map fst new = map q_ref (a_active a)
    \<and> (\<forall>j < length (a_active a).
         item_answer (batch_outcome a started ended trial k r) j (a_active a ! j) (snd (new ! j)))"
proof -
  note inv = reachable_inv [OF assms(1)]
  show ?thesis
    by (rule finishBatch_ok [OF inv assms(3) batch_outcome_ok [OF inv assms(2-5)], of ctx now])
      (use assms(2) in blast)
qed

text \<open>
  Nothing is left unanswered when the runner is gone. \<open>fail\<close> answers every queued,
  deferred and running request once with the error, and the counters then agree.
\<close>

lemma fail_answers_pending:
  assumes "reachable oor a"
  shows "a_replies (fail now e a)
      = a_replies a @ map (\<lambda>r. (q_ref r, failure e)) (a_queue a @ a_deferred a @ a_active a)
    \<and> a_accepted (fail now e a) = a_completed (fail now e a)
    \<and> distinct (map fst (a_replies (fail now e a)))"
proof -
  have bk: "book a (a_queue a @ a_deferred a)" using reachable_inv [OF assms] by (simp add: actor_inv_def)
  then have "distinct (map fst (a_replies a) @ map q_ref (a_queue a @ a_deferred a @ a_active a))"
    by (auto simp: book_def)
  with bk show ?thesis by (simp add: fail_def fail_fold book_def comp_def)
qed

text \<open>
  A policy update changes nothing but the wait bound, the batch cap and the decision and
  profile names. Mode, capacity, deadline policy, fixed batch size and the measured batches
  survive it, and the new configuration is well formed again.
\<close>

lemma update_keeps_startup_facts:
  assumes "Update current cfg = Inr new" "config_ok current"
  shows "config_ok new \<and> new\<lparr>c_policy := c_policy current\<rparr> = current
    \<and> p_batches (c_policy new) = p_batches (c_policy current)
    \<and> p_fixedBatchSize (c_policy new) = p_fixedBatchSize (c_policy current)
    \<and> p_deadlinePolicy (c_policy new) = p_deadlinePolicy (c_policy current)"
  using Update_spec [OF assms] by simp

section \<open>An executor at work\<close>

text \<open>A serving configuration with fixed batches of one request, and one queued request.\<close>

definition life_rows :: "ServiceSample list" where
  "life_rows = [\<lparr>ss_serviceDurationNanos = 10000000, ss_precedingIdleNanos = Some 0, ss_trialID = ''t''\<rparr>]"

definition life_dist :: ServiceDistribution where
  "life_dist = \<lparr>sd_trials = [\<lparr>st_startup = [], st_groups = [\<lparr>sg_gap = 0, sg_samples = life_rows\<rparr>]\<rparr>],
     sd_services = [10000000]\<rparr>"

lemma life_hydrated: "NewServiceDistribution identity life_rows = Inr life_dist"
  by code_simp

definition started_config :: Config where
  "started_config = (demo_config modeServing)\<lparr>c_policy := (c_policy (demo_config modeServing))
     \<lparr>p_fixedBatchSize := 1, p_deadlinePolicy := DeadlineKeep,
      p_batches := [demo_batch\<lparr>bp_distribution := Some life_dist\<rparr>]\<rparr>\<rparr>"

lemma started_fields [simp]:
  "c_mode started_config = modeServing" "c_maxQueueRequests started_config = 4"
  "c_maxQueueBytes started_config = 100" "p_fixedBatchSize (c_policy started_config) = 1"
  "p_deadlinePolicy (c_policy started_config) = DeadlineKeep"
  by (simp_all add: started_config_def demo_config_def)

lemma started_config_ok: "config_ok started_config"
  using hydrated [OF life_hydrated]
  by (simp add: config_ok_def started_config_def demo_config_def policy_ok_def batch_ok_def demo_batch_def
      life_rows_def allowedBatch_def measured_def f_order_defs)

definition life_request :: request where
  "life_request = \<lparr>q_ref = 7, q_context = rq_context demo_infer, q_received = 5, q_data = [frame_element [1, 2]],
     q_bytes = 6, q_profile = None, q_lifetime = 0\<rparr>"

lemma life_request_fields [simp]:
  "q_ref life_request = 7" "q_bytes life_request = 6" "q_profile life_request = None" "q_lifetime life_request = 0"
  by (simp_all add: life_request_def)

lemma life_request_ok: "request_ok started_config life_request"
proof -
  have "validateContext (rq_context demo_infer) (rc_requestID (rq_context demo_infer)) = None" by code_simp
  then show ?thesis by (simp add: request_ok_def serving_request_def life_request_def)
qed

definition demo_env :: environment where
  "demo_env = \<lparr>e_now = 6, e_idle = Some 0, e_ctx = (\<lambda>_. None)\<rparr>"

lemma demo_env_fields [simp]: "e_now demo_env = 6" "e_idle demo_env = Some 0" "e_ctx demo_env = (\<lambda>_. None)"
  by (simp_all add: demo_env_def)

definition queued_actor :: schedulerActor where
  "queued_actor = admit (\<lambda>_. None) 6 life_request (new_actor started_config)"

lemma queued_fields [simp]:
  "a_queue queued_actor = [life_request]" "a_deferred queued_actor = []" "a_active queued_actor = []"
  "a_cfg queued_actor = started_config" "a_launched queued_actor = []" "a_replies queued_actor = []"
  by (simp_all add: queued_actor_def admit_def new_actor_def observeArrival_def Let_def insert_at_def)

lemma queued_reachable: "reachable oor queued_actor"
proof (rule reachable.iteration [OF reachable.created [OF started_config_ok]])
  show "loop_head oor demo_env (new_actor started_config) = Done (new_actor started_config, 0)"
    by (simp add: loop_head_def expireQueued_def new_actor_def startBatch_def start_loop.simps)
  show "event_ok (new_actor started_config) (Admit life_request)"
    using life_request_ok by (simp add: event_ok_def new_actor_def fresh_request_def)
  show "handle demo_env (Admit life_request) (new_actor started_config) = Some queued_actor"
    by (simp add: handle_def queued_actor_def)
qed

lemma queued_choice:
  assumes "a_queue a = [life_request]" "a_deferred a = []" "a_active a = []" "a_cfg a = started_config"
  shows "next_choice oor now idle a = Some ((zero_choice\<lparr>bc_requestID := rc_requestID (rq_context demo_infer),
    bc_workloadUID := rc_workloadUID (rq_context demo_infer), bc_definition := rc_definition (rq_context demo_infer),
    bc_size := 1, bc_reason := ''fixed_batch''\<rparr>)\<lparr>bc_decisionIdleNanos := idle, bc_decisionIdleApproximate := True\<rparr>)"
  using assms
  by (simp add: next_choice_def ChooseBatch_def chooseBatch_def chooseFixedBatch_def requestStates_def
      compatibleCount_def candidates_def life_request_def sameQueue_def Let_def)

definition running_actor :: schedulerActor where
  "running_actor = (case loop_head (\<lambda>_. 0) demo_env queued_actor of Done (b, n) \<Rightarrow> b | _ \<Rightarrow> queued_actor)"

lemma running_fields:
  "\<exists>n. loop_head (\<lambda>_. 0) demo_env queued_actor = Done (running_actor, n)" "a_active running_actor = [life_request]"
  "a_queue running_actor = []" "a_cfg running_actor = started_config"
proof -
  let ?a = "queued_actor\<lparr>a_started := 0\<rparr>"
  have ex: "expireQueued (\<lambda>_. 0) (\<lambda>_. None) 6 queued_actor = (queued_actor, 0)"
    by (simp add: expireQueued_def expire_step_def requestError_def drops_expired_def is_zero_time_def Let_def)
  have a: "a_queue ?a = [life_request]" "a_deferred ?a = []" "a_active ?a = []" "a_cfg ?a = started_config" by simp_all
  obtain choice where ch: "next_choice (\<lambda>_. 0) 6 (Some 0) ?a = Some choice" "bc_size choice = 1"
    "bc_reason choice = ''fixed_batch''" "bc_waitMS choice = f_zero"
    "bc_workloadUID choice = rc_workloadUID (rq_context demo_infer)"
    "bc_definition choice = rc_definition (rq_context demo_infer)"
    using queued_choice [OF a] by simp
  have run: "loop_head (\<lambda>_. 0) demo_env queued_actor = Done (launch 6 choice ?a, 0)"
    using ch by (simp add: loop_head_def ex startBatch_def enough_fuel_def start_loop.simps f_order_defs)
  then have r: "running_actor = launch 6 choice ?a" by (simp add: running_actor_def)
  have taken: "take_batch (Suc 0) (rc_workloadUID (rq_context demo_infer)) (rc_definition (rq_context demo_infer)) [life_request]
      = ([life_request], [])"
    "rc_workloadUID (q_context life_request) = rc_workloadUID (rq_context demo_infer)"
    "rc_definition (q_context life_request) = rc_definition (rq_context demo_infer)" by (simp_all add: life_request_def)
  show "\<exists>n. loop_head (\<lambda>_. 0) demo_env queued_actor = Done (running_actor, n)" using run r by simp
  show "a_active running_actor = [life_request]" "a_queue running_actor = []" "a_cfg running_actor = started_config"
    by (simp_all add: r launch_def ch taken Let_def)
qed

text \<open>Someone asks for the state while the batch runs.\<close>
lemma running_reachable: "reachable (\<lambda>_. 0) running_actor"
proof -
  obtain n where "loop_head (\<lambda>_. 0) demo_env queued_actor = Done (running_actor, n)" using running_fields(1) by blast
  then show ?thesis
    by (rule reachable.iteration [OF queued_reachable, where ev = Query and env' = demo_env]) (simp_all add: event_ok_def handle_def)
qed

section \<open>Witnesses\<close>

theorem actor_invariant_witness:
  "a_accepted running_actor = a_completed running_actor + length (a_deferred running_actor) + 1"
  using actor_invariant [OF running_reachable] by (simp add: running_fields)

theorem loop_head_terminates_witness:
  "\<exists>b n. loop_head (\<lambda>_. 0) demo_env queued_actor = Done (b, n)"
  by (rule loop_head_terminates [OF queued_reachable])

theorem started_batch_exact_witness:
  "\<exists>id. a_launched running_actor = [(id, [life_request], started_config)]"
proof -
  obtain n where "loop_head (\<lambda>_. 0) demo_env queued_actor = Done (running_actor, n)" using running_fields(1) by blast
  from started_batch_exact [OF queued_reachable _ this] show ?thesis by (auto simp: running_fields)
qed

definition demo_reply :: ipc_frame where
  "demo_reply = demo_header\<lparr>fr_Items := [\<lparr>ir_Units = 1, ir_Error = []\<rparr>]\<rparr>"

lemma demo_answered:
  "\<exists>out. exchange [''y''] False 1 1 None (Inr (demo_reply, [1, 0, 0, 0, 42])) = Inr out \<and> ro_items out = [\<lparr>ir_Units = 1, ir_Error = []\<rparr>]
    \<and> ro_outputs out = [\<lparr>f_Name = ''y'', f_Data = [[42]]\<rparr>]"
proof -
  have add: "f_add (f_add f_zero (Fin False 2)) f_zero = Fin False 2" by code_simp
  have un: "unframe [1, 0, 0, 0, 42] (Suc 0) = Inr [[42]]" by (simp add: unframe_def rd32_def)
  show ?thesis
    by (simp add: exchange_def demo_reply_def demo_header_def zero_frame_def validateOutput_def demo_duration add un item_ok_def
        list_all_iff f_order_defs del: f_add.simps)
qed

theorem batch_answers_own_items_witness:
  "\<exists>b v. finishBatch (\<lambda>_. None) 9 (batch_outcome running_actor 6 8 ''t'' \<lparr>rk_lastEnd = 0, rk_exchangeAt = 0, rk_exchangeGap = None\<rparr>
      (exchange [''y''] False 1 1 None (Inr (demo_reply, [1, 0, 0, 0, 42])))) running_actor = Some b
    \<and> a_replies b = a_replies running_actor @ [(7, v)]
    \<and> map_option re_outputs (rl_response v) = Some [\<lparr>f_Name = ''y'', f_Data = [[42]]\<rparr>]"
proof -
  let ?k = "\<lparr>rk_lastEnd = 0, rk_exchangeAt = 0, rk_exchangeGap = None\<rparr>"
  let ?r = "exchange [''y''] False 1 1 None (Inr (demo_reply, [1, 0, 0, 0, 42]))"
  let ?o = "batch_outcome running_actor 6 8 ''t'' ?k ?r"
  obtain out where out: "?r = Inr out" "ro_items out = [\<lparr>ir_Units = 1, ir_Error = []\<rparr>]"
    "ro_outputs out = [\<lparr>f_Name = ''y'', f_Data = [[42]]\<rparr>]" using demo_answered by blast
  have o: "br_err ?o = None" "ro_items (br_output ?o) = [\<lparr>ir_Units = 1, ir_Error = []\<rparr>]"
    "ro_outputs (br_output ?o) = [\<lparr>f_Name = ''y'', f_Data = [[42]]\<rparr>]"
    using out by (simp_all add: batch_outcome_def infer_exchange_def executeBatch_def running_fields Let_def)
  then have "\<not> ends_loop ?o" by (simp add: ends_loop_def)
  from batch_answers_own_items [OF running_reachable, where outputs = "[''y'']" and generative = False and bid = 1
      and sent = None and reply = "Inr (demo_reply, [1, 0, 0, 0, 42])" and r = ?r and started = 6 and ended = 8
      and trial = "''t''" and k = ?k and ctx = "\<lambda>_. None" and now = 9] this obtain b new where b:
    "finishBatch (\<lambda>_. None) 9 ?o running_actor = Some b" "a_replies b = a_replies running_actor @ new"
    "map fst new = [7]" "item_answer ?o 0 life_request (snd (new ! 0))"
    by (auto simp: running_fields)
  then obtain v where "new = [(7, v)]" by (cases new) auto
  with b o show ?thesis by (auto simp: item_answer_def successes_of_def split: option.splits)
qed

lemma fail_answers_pending_witness:
  "a_replies (fail 9 (OtherError ''exit'') running_actor)
    = a_replies running_actor @ map (\<lambda>r. (q_ref r, failure (OtherError ''exit''))) (a_deferred running_actor)
      @ [(7, failure (OtherError ''exit''))]"
  using fail_answers_pending [OF running_reachable, of 9 "OtherError ''exit''"] by (simp add: running_fields)

definition wanted_config :: Config where
  "wanted_config = started_config\<lparr>c_policy := (c_policy started_config)
     \<lparr>p_decisionID := ''e'', p_maxBatchSize := 1, p_batches := []\<rparr>\<rparr>"

lemma demo_update: "\<exists>new. Update started_config wanted_config = Inr new"
proof -
  have "durationOK f_zero" "identity ''e''" by code_simp+
  then show ?thesis
    by (simp add: Update_def wanted_config_def started_config_def demo_config_def EffectiveDeadlinePolicy_def
        validateBatchCap_def initialized_iff measured_def allowedBatch_def demo_batch_def Let_def)
qed

lemma update_keeps_startup_facts_witness:
  "\<exists>new. Update started_config wanted_config = Inr new \<and> config_ok new
    \<and> p_batches (c_policy new) = [demo_batch\<lparr>bp_distribution := Some life_dist\<rparr>]"
proof -
  obtain new where new: "Update started_config wanted_config = Inr new" using demo_update by blast
  from update_keeps_startup_facts [OF new started_config_ok] new show ?thesis
    by (auto simp: started_config_def)
qed

end
