(* ===== verification/Routing.thy ===== *)
theory Routing
  imports Prelude
begin

text \<open>
  Weighted routing of one workload's requests: \<open>SmoothWeightedRoute\<close> of
  \<open>internal/serving/scheduler.go\<close>, shared by ingress and replay, and
  \<open>SchedulerRebaseRouting\<close> of \<open>internal/serving/scheduler_routing.go\<close>, which composes the
  weights of one owner with the applied route. A route is an association list with
  distinct keys in some iteration order of the Go map.
\<close>

section \<open>Smooth weighted round robin\<close>

text \<open>
  One step of the scan: the best index so far, the sum of the weights and the credits, which
  are signed 64-bit integers that wrap. \<open>available\<close> has an entry for every weight.
\<close>

definition route_step ::
  "int list \<Rightarrow> bool list \<Rightarrow> nat option \<times> int \<times> int list \<Rightarrow> nat \<Rightarrow> nat option \<times> int \<times> int list" where
  "route_step weights available = (\<lambda>(best, tot, current) i.
     (if weights ! i \<le> 0 \<or> \<not> available ! i then (best, tot, current)
      else
        (let credits = current[i := wrap64 (current ! i + weights ! i)]
         in (case best of
               None \<Rightarrow> Some i
             | Some b \<Rightarrow> if credits ! b < credits ! i then Some i else Some b,
             wrap64 (tot + weights ! i), credits))))"

text \<open>The chosen index (None for -1) and the credits afterwards.\<close>

definition SmoothWeightedRoute :: "int list \<Rightarrow> int list \<Rightarrow> bool list \<Rightarrow> nat option \<times> int list" where
  "SmoothWeightedRoute weights current available =
     (case foldl (route_step weights available) (None, 0, current) [0..<length weights] of
        (None, tot, credits) \<Rightarrow> (None, credits)
      | (Some b, tot, credits) \<Rightarrow> (Some b, credits[b := wrap64 (credits ! b - tot)]))"

text \<open>Consecutive calls: the chosen indices and the last credits.\<close>

primrec route_run :: "nat \<Rightarrow> int list \<Rightarrow> bool list \<Rightarrow> int list \<Rightarrow> nat option list \<times> int list" where
  "route_run 0 weights available current = ([], current)"
| "route_run (Suc n) weights available current =
     (case route_run n weights available current of
        (chosen, credits) \<Rightarrow>
          (case SmoothWeightedRoute weights credits available of
             (b, credits') \<Rightarrow> (chosen @ [b], credits')))"

section \<open>One call\<close>

definition credit_gain :: "int list \<Rightarrow> bool list \<Rightarrow> nat \<Rightarrow> int" where
  "credit_gain weights available i = (if weights ! i \<le> 0 \<or> \<not> available ! i then 0 else weights ! i)"

text \<open>Weights are int32 values and the credits stay far from the bounds of int64.\<close>

definition credits_small :: "int list \<Rightarrow> int list \<Rightarrow> bool" where
  "credits_small weights current \<longleftrightarrow> length current = length weights
     \<and> (\<forall>i < length weights. weights ! i \<le> max_int32)
     \<and> int (length weights) * max_int32 \<le> 2 ^ 61
     \<and> (\<forall>i < length weights. \<bar>current ! i\<bar> \<le> 2 ^ 61)"

lemma gain_bounds:
  "\<forall>i < n. weights ! i \<le> max_int32 \<Longrightarrow> i < n \<Longrightarrow> 0 \<le> credit_gain weights av i \<and> credit_gain weights av i \<le> max_int32"
  by (auto simp: credit_gain_def max_int32_def)

lemma gain_sum_bound:
  assumes "\<forall>i < n. weights ! i \<le> max_int32" "m \<le> n"
  shows "0 \<le> (\<Sum>i<m. credit_gain weights av i) \<and> (\<Sum>i<m. credit_gain weights av i) \<le> int m * max_int32"
proof -
  have "0 \<le> credit_gain weights av i \<and> credit_gain weights av i \<le> max_int32" if "i < m" for i
    using gain_bounds [OF assms(1)] that assms(2) by simp
  then show ?thesis
    using sum_bounded_above [of "{..<m}" "credit_gain weights av" max_int32] by (auto intro!: sum_nonneg)
qed

lemma scan_credits:
  assumes "credits_small weights current" "m \<le> length weights"
  shows "\<exists>best credits. foldl (route_step weights available) (None, 0, current) [0..<m]
      = (best, \<Sum>i<m. credit_gain weights available i, credits)
    \<and> length credits = length current
    \<and> (\<forall>i < length weights. credits ! i = current ! i + (if i < m then credit_gain weights available i else 0))
    \<and> (case best of
         None \<Rightarrow> \<forall>i < m. credit_gain weights available i = 0
       | Some b \<Rightarrow> b < m \<and> 0 < credit_gain weights available b
           \<and> (\<forall>i < m. 0 < credit_gain weights available i \<longrightarrow> credits ! i \<le> credits ! b))"
  using assms(2)
proof (induction m)
  case 0
  then show ?case by simp
next
  case (Suc m)
  let ?g = "credit_gain weights available"
  from Suc obtain best credits where h:
    "foldl (route_step weights available) (None, 0, current) [0..<m] = (best, \<Sum>i<m. ?g i, credits)"
    "length credits = length current"
    "\<forall>i < length weights. credits ! i = current ! i + (if i < m then ?g i else 0)"
    "case best of None \<Rightarrow> \<forall>i < m. ?g i = 0
       | Some b \<Rightarrow> b < m \<and> 0 < ?g b \<and> (\<forall>i < m. 0 < ?g i \<longrightarrow> credits ! i \<le> credits ! b)" by auto
  have small: "length current = length weights" "\<forall>i < length weights. weights ! i \<le> max_int32"
    "int (length weights) * max_int32 \<le> 2 ^ 61" "\<forall>i < length weights. \<bar>current ! i\<bar> \<le> 2 ^ 61"
    using assms(1) by (auto simp: credits_small_def)
  have m: "m < length weights" using Suc.prems by simp
  show ?case
  proof (cases "weights ! m \<le> 0 \<or> \<not> available ! m")
    case True
    then have "?g m = 0" by (simp add: credit_gain_def)
    then show ?thesis using h True
      by (intro exI [of _ best] exI [of _ credits])
        (auto simp: route_step_def less_Suc_eq split: option.splits)
  next
    case False
    then have g: "?g m = weights ! m" "0 < ?g m" by (auto simp: credit_gain_def)
    have "\<bar>credits ! m\<bar> \<le> 2 ^ 61" using h(3) small(4) m by simp
    moreover have "weights ! m \<le> max_int32" using small(2) m by blast
    ultimately have w: "wrap64 (credits ! m + weights ! m) = credits ! m + weights ! m"
      using g by (intro wrap64_id) (simp add: abs_le_iff int64_range_def min_int64_def max_int64_def max_int32_def)
    have "int m * max_int32 \<le> int (length weights) * max_int32"
      using m by (intro mult_right_mono) (auto simp: max_int32_def)
    then have "(\<Sum>i<m. ?g i) \<le> 2 ^ 61" "0 \<le> (\<Sum>i<m. ?g i)"
      using gain_sum_bound [OF small(2), of m available] small(3) m by auto
    then have s: "wrap64 ((\<Sum>i<m. ?g i) + weights ! m) = (\<Sum>i<m. ?g i) + weights ! m"
      using g \<open>weights ! m \<le> max_int32\<close>
      by (intro wrap64_id) (simp add: int64_range_def min_int64_def max_int64_def max_int32_def)
    let ?c = "credits[m := credits ! m + weights ! m]"
    let ?best = "case best of None \<Rightarrow> m | Some b \<Rightarrow> if ?c ! b < ?c ! m then m else b"
    have step: "foldl (route_step weights available) (None, 0, current) [0..<Suc m]
        = (Some ?best, \<Sum>i<Suc m. ?g i, ?c)"
      using h(1) False w s g by (simp add: route_step_def Let_def split: option.splits)
    have lm: "m < length credits" using m h(2) small(1) by simp
    have c: "\<forall>i < length weights. ?c ! i = current ! i + (if i < Suc m then ?g i else 0)"
      using h(3) g lm by (auto simp: nth_list_update less_Suc_eq)
    have b: "?best < Suc m \<and> 0 < ?g ?best \<and> (\<forall>i < Suc m. 0 < ?g i \<longrightarrow> ?c ! i \<le> ?c ! ?best)"
      using h(4) g lm by (auto simp: nth_list_update less_Suc_eq split: option.splits)
    show ?thesis using step c b h(2) by auto
  qed
qed

text \<open>What one call does, for credits that do not overflow.\<close>

lemma route_call:
  assumes "credits_small weights current"
  shows "(fst (SmoothWeightedRoute weights current available) = None
        \<and> snd (SmoothWeightedRoute weights current available) = current
        \<and> (\<forall>i < length weights. credit_gain weights available i = 0))
    \<or> (\<exists>b. fst (SmoothWeightedRoute weights current available) = Some b
        \<and> b < length weights \<and> 0 < credit_gain weights available b
        \<and> length (snd (SmoothWeightedRoute weights current available)) = length current
        \<and> (\<forall>i < length weights. 0 < credit_gain weights available i
             \<longrightarrow> current ! i + credit_gain weights available i \<le> current ! b + credit_gain weights available b)
        \<and> (\<forall>i < length weights. snd (SmoothWeightedRoute weights current available) ! i
             = current ! i + credit_gain weights available i
               - (if i = b then \<Sum>j<length weights. credit_gain weights available j else 0)))"
proof -
  let ?n = "length weights" and ?g = "credit_gain weights available"
  have small: "length current = ?n" "\<forall>i < ?n. weights ! i \<le> max_int32"
    "int ?n * max_int32 \<le> 2 ^ 61" "\<forall>i < ?n. \<bar>current ! i\<bar> \<le> 2 ^ 61"
    using assms by (auto simp: credits_small_def)
  from scan_credits [OF assms order_refl, of available] obtain best credits where h:
    "foldl (route_step weights available) (None, 0, current) [0..<?n] = (best, \<Sum>i<?n. ?g i, credits)"
    "length credits = length current" "\<forall>i < ?n. credits ! i = current ! i + ?g i"
    "case best of None \<Rightarrow> \<forall>i < ?n. ?g i = 0
       | Some b \<Rightarrow> b < ?n \<and> 0 < ?g b \<and> (\<forall>i < ?n. 0 < ?g i \<longrightarrow> credits ! i \<le> credits ! b)" by auto
  show ?thesis
  proof (cases best)
    case None
    with h have "credits = current" using small(1) by (auto intro: nth_equalityI)
    with None h show ?thesis by (simp add: SmoothWeightedRoute_def)
  next
    case (Some b)
    with h have b: "b < ?n" "0 < ?g b" "\<forall>i < ?n. 0 < ?g i \<longrightarrow> credits ! i \<le> credits ! b" by auto
    have s: "0 \<le> (\<Sum>i<?n. ?g i) \<and> (\<Sum>i<?n. ?g i) \<le> 2 ^ 61"
      using gain_sum_bound [OF small(2) order_refl, of available] small(3) by linarith
    have "\<bar>current ! b\<bar> \<le> 2 ^ 61" "0 \<le> ?g b \<and> ?g b \<le> max_int32"
      using small(4) b(1) gain_bounds [OF small(2)] by auto
    then have "int64_range (credits ! b - (\<Sum>i<?n. ?g i))"
      using h(3) b(1) s by (simp add: abs_le_iff int64_range_def min_int64_def max_int64_def max_int32_def)
    then have "SmoothWeightedRoute weights current available
        = (Some b, credits[b := credits ! b - (\<Sum>i<?n. ?g i)])"
      using h(1) Some by (simp add: SmoothWeightedRoute_def)
    then show ?thesis using b h(2,3) small(1) by (auto simp: nth_list_update)
  qed
qed

section \<open>A full round\<close>

text \<open>Every target available; \<open>chosen_times i n\<close> counts the choices of target \<open>i\<close>.\<close>

abbreviation all_available :: "int list \<Rightarrow> bool list" where
  "all_available weights \<equiv> replicate (length weights) True"

definition share :: "int list \<Rightarrow> nat \<Rightarrow> int" where
  "share weights i = credit_gain weights (all_available weights) i"

lemma share_eq: "i < length weights \<Longrightarrow> share weights i = max 0 (weights ! i)"
  by (auto simp: share_def credit_gain_def)

definition round_length :: "int list \<Rightarrow> int" where
  "round_length weights = (\<Sum>i<length weights. share weights i)"

text \<open>Weights whose full round keeps the credits far from the bounds of int64.\<close>

definition weights_small :: "int list \<Rightarrow> bool" where
  "weights_small weights \<longleftrightarrow> (\<forall>i < length weights. weights ! i \<le> max_int32)
     \<and> int (length weights) * max_int32 \<le> 2 ^ 61
     \<and> int (length weights) * round_length weights \<le> 2 ^ 61"

text \<open>
  After \<open>n\<close> calls from zero credits each credit is the weight's due minus what the target
  received, no credit is a whole round behind, and the choices are the targets with weight.
\<close>

lemma run_invariant:
  assumes "weights_small weights" "0 < round_length weights"
    and "route_run n weights (all_available weights) (replicate (length weights) 0) = (chosen, credits)"
  shows "length credits = length weights \<and> length chosen = n
    \<and> (\<forall>c \<in> set chosen. \<exists>i < length weights. c = Some i \<and> 0 < share weights i)
    \<and> (\<forall>i < length weights. credits ! i
         = int n * share weights i - round_length weights * int (count_list chosen (Some i)))
    \<and> (\<forall>i < length weights. - round_length weights < credits ! i)
    \<and> (\<Sum>i<length weights. credits ! i) = 0"
  using assms(3)
proof (induction n arbitrary: chosen credits)
  case 0
  then show ?case using assms(2) by auto
next
  case (Suc n)
  let ?n = "length weights" and ?av = "all_available weights" and ?W = "round_length weights"
  obtain cs cr where prev: "route_run n weights ?av (replicate ?n 0) = (cs, cr)"
    by (cases "route_run n weights ?av (replicate ?n 0)")
  obtain b cr' where call: "SmoothWeightedRoute weights cr ?av = (b, cr')"
    by (cases "SmoothWeightedRoute weights cr ?av")
  have res: "chosen = cs @ [b]" "credits = cr'" using Suc.prems prev call by auto
  from Suc.IH [OF prev] have IH: "length cr = ?n" "length cs = n"
    "\<forall>c \<in> set cs. \<exists>i < ?n. c = Some i \<and> 0 < share weights i"
    "\<forall>i < ?n. cr ! i = int n * share weights i - ?W * int (count_list cs (Some i))"
    "\<forall>i < ?n. - ?W < cr ! i" "(\<Sum>i<?n. cr ! i) = 0" by auto
  have W: "0 \<le> int ?n * ?W" "int ?n * ?W \<le> 2 ^ 61" using assms(1,2) by (auto simp: weights_small_def)
  have upper: "cr ! i \<le> int ?n * ?W" if "i < ?n" for i
  proof -
    have "(\<Sum>j \<in> {..<?n} - {i}. - ?W) \<le> (\<Sum>j \<in> {..<?n} - {i}. cr ! j)"
      using IH(5) by (intro sum_mono) (auto intro: less_imp_le)
    moreover have "(\<Sum>j<?n. cr ! j) = cr ! i + (\<Sum>j \<in> {..<?n} - {i}. cr ! j)"
      using that by (simp add: sum.remove)
    moreover have "int (card ({..<?n} - {i})) = int ?n - 1" using that by simp
    ultimately have "cr ! i \<le> (int ?n - 1) * ?W" using IH(6) by simp
    then show ?thesis using assms(2) by (simp add: algebra_simps)
  qed
  have lower: "- (int ?n * ?W) \<le> cr ! i" if "i < ?n" for i
  proof -
    have "?W \<le> int ?n * ?W" using that assms(2) by (simp add: mult_le_cancel_right1)
    then show ?thesis using IH(5) that by fastforce
  qed
  have small: "credits_small weights cr"
    using assms(1) IH(1) upper lower W by (fastforce simp: credits_small_def weights_small_def abs_le_iff)
  have Wg: "(\<Sum>j<?n. credit_gain weights ?av j) = ?W" by (simp add: round_length_def share_def)
  from route_call [OF small, of ?av] call Wg assms(2)
  obtain j where j: "b = Some j" "j < ?n" "0 < share weights j" "length cr' = ?n"
    "\<forall>i < ?n. 0 < share weights i \<longrightarrow> cr ! i + share weights i \<le> cr ! j + share weights j"
    "\<forall>i < ?n. cr' ! i = cr ! i + share weights i - (if i = j then ?W else 0)"
    using IH(1) by (auto simp: share_def)
  have nonneg: "0 \<le> share weights i" if "i < ?n" for i using share_eq [OF that] by simp
  have top: "0 < cr ! j + share weights j"
  proof (rule ccontr)
    assume neg: "\<not> 0 < cr ! j + share weights j"
    have "cr ! i + share weights i \<le> 0" if "i < ?n" for i
    proof (cases "0 < share weights i")
      case True
      with j(5) that neg show ?thesis by fastforce
    next
      case False
      then have z: "share weights i = 0" using nonneg [OF that] by simp
      then have "count_list cs (Some i) = 0"
        using IH(3) by (fastforce simp: count_list_0_iff)
      with IH(4) that z show ?thesis by simp
    qed
    then have "(\<Sum>i<?n. cr ! i + share weights i) \<le> 0" by (intro sum_nonpos) auto
    then show False using IH(6) assms(2) by (simp add: sum.distrib round_length_def)
  qed
  have "(\<Sum>i<?n. cr' ! i) = (\<Sum>i<?n. cr ! i + share weights i - (if i = j then ?W else 0))"
    using j(6) by (intro sum.cong) auto
  also have "\<dots> = 0" using IH(6) j(2) by (simp add: sum.distrib sum_subtractf sum.delta round_length_def)
  finally have tot: "(\<Sum>i<?n. cr' ! i) = 0" .
  have "- ?W < cr' ! i" if "i < ?n" for i
    using j(6) IH(5) nonneg [OF that] top that by fastforce
  moreover have "cr' ! i = int (Suc n) * share weights i - ?W * int (count_list chosen (Some i))"
    if "i < ?n" for i
    using j(1,6) IH(4) that res(1) by (auto simp: algebra_simps)
  ultimately show ?case using j IH(2,3) res tot by auto
qed

text \<open>A round ends where it began, and it served every target as often as its weight says.\<close>

lemma full_round:
  assumes "weights_small weights" "0 < round_length weights"
    and "route_run (nat (round_length weights)) weights (all_available weights)
           (replicate (length weights) 0) = (chosen, credits)"
  shows "credits = replicate (length weights) 0
    \<and> (\<forall>i < length weights. int (count_list chosen (Some i)) = share weights i)"
proof -
  let ?n = "length weights" and ?W = "round_length weights"
  note inv = run_invariant [OF assms]
  have nW: "int (nat ?W) = ?W" using assms(2) by simp
  have eq: "credits ! i = ?W * (share weights i - int (count_list chosen (Some i)))" if "i < ?n" for i
    using inv that nW by (simp add: algebra_simps)
  have nonneg: "0 \<le> credits ! i" if "i < ?n" for i
  proof (rule ccontr)
    assume "\<not> 0 \<le> credits ! i"
    then have "share weights i - int (count_list chosen (Some i)) \<le> - 1"
      using eq [OF that] assms(2) by (simp add: mult_less_0_iff not_le)
    then have "credits ! i \<le> - ?W"
      using eq [OF that] assms(2) mult_left_mono [of _ "- 1" ?W] by fastforce
    with inv that show False by fastforce
  qed
  have zero: "credits ! i = 0" if "i < ?n" for i
    using inv nonneg sum_nonneg_eq_0_iff [of "{..<?n}" "(!) credits"] that by auto
  then have "credits = replicate ?n 0" using inv by (intro nth_equalityI) auto
  moreover have "int (count_list chosen (Some i)) = share weights i" if "i < ?n" for i
    using zero [OF that] eq [OF that] assms(2) by simp
  ultimately show ?thesis by blast
qed

section \<open>Rebasing a route\<close>

type_synonym route = "(string \<times> int) list"

abbreviation schedulerRouteUnits :: int where "schedulerRouteUnits \<equiv> 1000"

text \<open>
  \<open>normalize\<close>: \<open>share\<close> units over the sorted destinations by cumulative rounding; a
  destination that gets nothing is deleted. The quotient truncates as in Go, whose
  operands are nonnegative here. Weights are int32 values and \<open>share\<close> is at most
  \<open>schedulerRouteUnits\<close>, so the products stay far below the bound of int64.
\<close>

fun normalize_loop :: "route \<Rightarrow> int \<Rightarrow> int \<Rightarrow> int \<Rightarrow> int \<Rightarrow> route" where
  "normalize_loop [] total_weight units cumulative assigned = []"
| "normalize_loop ((d, w) # ds) total_weight units cumulative assigned =
     (let cum = cumulative + w; upto = cum * units div total_weight
      in (if upto - assigned = 0 then [] else [(d, upto - assigned)])
         @ normalize_loop ds total_weight units cum upto)"

definition normalize :: "route \<Rightarrow> int \<Rightarrow> int \<Rightarrow> route" where
  "normalize ds total_weight units =
     normalize_loop (sort_by (\<lambda>a b. string_lt (fst a) (fst b)) ds) total_weight units 0 0"

definition route_total :: "route \<Rightarrow> int" where
  "route_total ds = sum_list (map snd ds)"

text \<open>
  The destinations of the newer owners, of the older ones and of the owner itself. The
  remainder goes to the older ones; None stands for the nil map.
\<close>

definition kept_newer :: "route \<Rightarrow> (string \<Rightarrow> bool) \<Rightarrow> (string \<Rightarrow> bool) \<Rightarrow> route" where
  "kept_newer current ready newer = filter (\<lambda>(d, w). ready d \<and> 0 < w \<and> newer d) current"

definition kept_older :: "route \<Rightarrow> route \<Rightarrow> (string \<Rightarrow> bool) \<Rightarrow> (string \<Rightarrow> bool) \<Rightarrow> route" where
  "kept_older current delta ready newer =
     filter (\<lambda>(d, w). ready d \<and> 0 < w \<and> \<not> newer d \<and> d \<notin> fst ` set delta) current"

definition own_targets :: "route \<Rightarrow> (string \<Rightarrow> bool) \<Rightarrow> (string \<Rightarrow> bool) \<Rightarrow> route" where
  "own_targets delta ready newer = filter (\<lambda>(d, w). ready d \<and> \<not> newer d \<and> 0 < w) delta"

definition SchedulerRebaseRouting ::
  "route \<Rightarrow> route \<Rightarrow> (string \<Rightarrow> bool) \<Rightarrow> (string \<Rightarrow> bool) \<Rightarrow> route option" where
  "SchedulerRebaseRouting current delta ready newer =
     (let fixed = kept_newer current ready newer;
          older = kept_older current delta ready newer;
          own = own_targets delta ready newer;
          budget = schedulerRouteUnits - route_total fixed;
          ownBudget = (if route_total older = 0 \<and> 0 < route_total own then budget
                       else min (route_total own) budget)
      in if route_total older = 0 \<and> route_total own = 0 \<and> budget \<noteq> 0 then None
         else Some (fixed @ normalize own (route_total own) ownBudget
                @ normalize older (route_total older) (budget - ownBudget)))"

lemma normalize_loop_total:
  assumes "0 < total_weight" "0 \<le> units" "\<forall>(d, w) \<in> set ds. 0 \<le> w" "0 \<le> cumulative"
    and "assigned = cumulative * units div total_weight" "cumulative + route_total ds = total_weight"
  shows "route_total (normalize_loop ds total_weight units cumulative assigned) = units - assigned"
  using assms
proof (induction ds total_weight units cumulative assigned rule: normalize_loop.induct)
  case (1 total_weight units cumulative assigned)
  then show ?case by (auto simp: route_total_def)
next
  case (2 d w ds total_weight units cumulative assigned)
  have "route_total (normalize_loop ds total_weight units (cumulative + w)
      ((cumulative + w) * units div total_weight)) = units - (cumulative + w) * units div total_weight"
    using 2 by (intro "2.IH" [OF refl refl]) (auto simp: route_total_def)
  then show ?case by (simp add: route_total_def Let_def)
qed

lemma normalize_loop_positive:
  assumes "0 < total_weight" "0 \<le> units" "\<forall>(d, w) \<in> set ds. 0 \<le> w"
    and "assigned = cumulative * units div total_weight"
  shows "(\<forall>(d, w) \<in> set (normalize_loop ds total_weight units cumulative assigned). 0 < w \<and> d \<in> fst ` set ds)
    \<and> (distinct (map fst ds) \<longrightarrow> distinct (map fst (normalize_loop ds total_weight units cumulative assigned)))"
  using assms
proof (induction ds total_weight units cumulative assigned rule: normalize_loop.induct)
  case (2 d w ds total_weight units cumulative assigned)
  let ?up = "(cumulative + w) * units div total_weight"
  have "cumulative * units \<le> (cumulative + w) * units"
    using "2.prems" by (intro mult_right_mono) auto
  then have "assigned \<le> ?up" using "2.prems"(1,4) by (simp add: zdiv_mono1)
  moreover have IH: "(\<forall>(x, v) \<in> set (normalize_loop ds total_weight units (cumulative + w) ?up). 0 < v \<and> x \<in> fst ` set ds)
    \<and> (distinct (map fst ds) \<longrightarrow> distinct (map fst (normalize_loop ds total_weight units (cumulative + w) ?up)))"
    using "2.prems" by (intro "2.IH" [OF refl refl]) auto
  moreover have "d \<notin> fst ` set ds \<Longrightarrow>
      d \<notin> fst ` set (normalize_loop ds total_weight units (cumulative + w) ?up)"
    using IH by fastforce
  ultimately show ?case by (auto simp: Let_def)
qed simp

lemma route_total_perm: "mset xs = mset ys \<Longrightarrow> route_total xs = route_total ys"
  unfolding route_total_def by (metis mset_map sum_mset_sum_list)

lemma normalize_spec:
  assumes "\<forall>(d, w) \<in> set ds. 0 < w" "0 \<le> units" "ds = [] \<longrightarrow> units = 0"
  shows "route_total (normalize ds (route_total ds) units) = units"
    "\<forall>(d, w) \<in> set (normalize ds (route_total ds) units). 0 < w \<and> d \<in> fst ` set ds"
    "distinct (map fst ds) \<Longrightarrow> distinct (map fst (normalize ds (route_total ds) units))"
proof -
  let ?lt = "\<lambda>a b. string_lt (fst a) (fst b)"
  have pos: "0 < route_total ds" if ne: "ds \<noteq> []"
  proof -
    obtain x xs where "ds = x # xs" using ne by (cases ds) auto
    moreover have "0 \<le> sum_list (map snd xs)"
      using assms(1) calculation by (intro sum_list_nonneg) (auto simp: less_imp_le)
    ultimately show ?thesis using assms(1) by (auto simp: route_total_def)
  qed
  have ws: "\<forall>(d, w) \<in> set (sort_by ?lt ds). 0 \<le> w" using assms(1) by (auto simp: less_imp_le)
  have tot: "route_total (sort_by ?lt ds) = route_total ds" by (rule route_total_perm) simp
  have dist: "distinct (map fst ds) = distinct (map fst (sort_by ?lt ds))"
    by (metis mset_map mset_sort_by mset_eq_imp_distinct_iff)
  show "route_total (normalize ds (route_total ds) units) = units"
  proof (cases "ds = []")
    case True
    then show ?thesis using assms(3) by (simp add: normalize_def route_total_def)
  next
    case False
    with normalize_loop_total [OF pos [OF False] assms(2) ws, of 0 0] tot
    show ?thesis by (simp add: normalize_def)
  qed
  have "(\<forall>(d, w) \<in> set (normalize ds (route_total ds) units). 0 < w \<and> d \<in> fst ` set ds)
      \<and> (distinct (map fst ds) \<longrightarrow> distinct (map fst (normalize ds (route_total ds) units)))"
  proof (cases "ds = []")
    case True
    then show ?thesis by (simp add: normalize_def)
  next
    case False
    from normalize_loop_positive [OF pos [OF False] assms(2) ws, of 0 0] dist
    show ?thesis by (simp add: normalize_def)
  qed
  then show "\<forall>(d, w) \<in> set (normalize ds (route_total ds) units). 0 < w \<and> d \<in> fst ` set ds"
    "distinct (map fst ds) \<Longrightarrow> distinct (map fst (normalize ds (route_total ds) units))" by auto
qed

text \<open>The applied route has distinct destinations and at most the units of one workload.\<close>

lemma route_total_filter: "\<forall>(d, w) \<in> set ds. 0 \<le> w \<Longrightarrow> route_total (filter P ds) \<le> route_total ds"
  by (induction ds) (auto simp: route_total_def)

lemma rebase_spec:
  assumes "distinct (map fst current)" "distinct (map fst delta)" "\<forall>(d, w) \<in> set current. 0 \<le> w"
    and "route_total current \<le> schedulerRouteUnits"
    and "SchedulerRebaseRouting current delta ready newer = Some m"
  shows "route_total m = schedulerRouteUnits" "distinct (map fst m)"
    "\<forall>(d, w) \<in> set m. 0 < w \<and> ready d"
    "\<forall>(d, w) \<in> set current. newer d \<and> ready d \<and> 0 < w \<longrightarrow> (d, w) \<in> set m"
    "\<forall>(d, w) \<in> set m. newer d \<longrightarrow> (d, w) \<in> set current"
    "\<forall>(d, w) \<in> set delta. w \<le> 0 \<and> \<not> newer d \<longrightarrow> d \<notin> fst ` set m"
proof -
  let ?F = "kept_newer current ready newer" and ?O = "kept_older current delta ready newer"
  let ?D = "own_targets delta ready newer"
  let ?b = "schedulerRouteUnits - route_total ?F"
  let ?ob = "if route_total ?O = 0 \<and> 0 < route_total ?D then ?b else min (route_total ?D) ?b"
  let ?nd = "normalize ?D (route_total ?D) ?ob" and ?no = "normalize ?O (route_total ?O) (?b - ?ob)"
  have m: "m = ?F @ ?nd @ ?no" and nn: "\<not> (route_total ?O = 0 \<and> route_total ?D = 0 \<and> ?b \<noteq> 0)"
    using assms(5) by (auto simp: SchedulerRebaseRouting_def Let_def split: if_splits)
  have posF: "\<forall>(d, w) \<in> set ?F. 0 < w" and posO: "\<forall>(d, w) \<in> set ?O. 0 < w" and posD: "\<forall>(d, w) \<in> set ?D. 0 < w"
    by (auto simp: kept_newer_def kept_older_def own_targets_def)
  have ge: "0 \<le> route_total ds \<and> (route_total ds = 0 \<longrightarrow> ds = [])" if "\<forall>(d, w) \<in> set ds. 0 < w" for ds :: route
    using that by (induction ds) (fastforce simp: route_total_def)+
  have b: "0 \<le> ?b" using route_total_filter [OF assms(3), of "\<lambda>(d, w). ready d \<and> 0 < w \<and> newer d"] assms(4)
    by (simp add: kept_newer_def)
  have zD: "?D = [] \<longrightarrow> ?ob = 0" using b by (auto simp: route_total_def)
  have obb: "0 \<le> ?ob" "?ob \<le> ?b" using b ge [OF posD] by auto
  have zO: "?O = [] \<longrightarrow> ?b - ?ob = 0"
    using nn b ge [OF posD] by (auto simp: route_total_def)
  note nd = normalize_spec [OF posD obb(1) zD]
  have "0 \<le> ?b - ?ob" using obb by simp
  note no = normalize_spec [OF posO this zO]
  show "route_total m = schedulerRouteUnits"
    using nd(1) no(1) by (simp add: m route_total_def)
  have dF: "distinct (map fst ?F)" "distinct (map fst ?O)" "distinct (map fst ?D)"
    using assms(1,2) by (simp_all add: kept_newer_def kept_older_def own_targets_def distinct_map_filter)
  have in_nd: "(d, w) \<in> set ?nd \<Longrightarrow> 0 < w \<and> d \<in> fst ` set ?D" for d w using nd(2) by auto
  have in_no: "(d, w) \<in> set ?no \<Longrightarrow> 0 < w \<and> d \<in> fst ` set ?O" for d w using no(2) by auto
  have sF: "\<And>d. d \<in> fst ` set ?F \<Longrightarrow> ready d \<and> newer d" by (auto simp: kept_newer_def)
  have sO: "\<And>d. d \<in> fst ` set ?O \<Longrightarrow> ready d \<and> \<not> newer d \<and> d \<notin> fst ` set delta"
    by (force simp: kept_older_def)
  have sD: "\<And>d. d \<in> fst ` set ?D \<Longrightarrow> ready d \<and> \<not> newer d \<and> d \<in> fst ` set delta"
    by (force simp: own_targets_def)
  have snd: "fst ` set ?nd \<subseteq> fst ` set ?D"
  proof (rule image_subsetI)
    fix x assume "x \<in> set ?nd"
    with in_nd [of "fst x" "snd x"] show "fst x \<in> fst ` set ?D" by simp
  qed
  have sno: "fst ` set ?no \<subseteq> fst ` set ?O"
  proof (rule image_subsetI)
    fix x assume "x \<in> set ?no"
    with in_no [of "fst x" "snd x"] show "fst x \<in> fst ` set ?O" by simp
  qed
  have disj: "A \<inter> B = {}" if "A \<subseteq> {d. P d}" "B \<subseteq> {d. \<not> P d}" for A B :: "string set" and P
    using that by blast
  have nF: "fst ` set ?F \<subseteq> {d. newer d}" using sF by (simp add: subset_iff)
  have nD: "fst ` set ?nd \<subseteq> {d. \<not> newer d}" by (rule subset_trans [OF snd]) (use sD in \<open>simp add: subset_iff\<close>)
  have nO: "fst ` set ?no \<subseteq> {d. \<not> newer d}" by (rule subset_trans [OF sno]) (use sO in \<open>simp add: subset_iff\<close>)
  have tD: "fst ` set ?nd \<subseteq> {d. d \<in> fst ` set delta}"
    by (rule subset_trans [OF snd]) (use sD in \<open>simp add: subset_iff\<close>)
  have tO: "fst ` set ?no \<subseteq> {d. \<not> d \<in> fst ` set delta}"
    by (rule subset_trans [OF sno]) (use sO in \<open>simp add: subset_iff\<close>)
  note d1 = disj [OF nF nD] and d2 = disj [OF nF nO] and d3 = disj [OF tD tO]
  show "distinct (map fst m)"
    using dF(1) nd(3) [OF dF(3)] no(3) [OF dF(2)] d1 d2 d3
    by (simp only: m map_append distinct_append set_append set_map Int_Un_distrib simp_thms Un_empty_left)
  have mem: "(d, w) \<in> set ?F \<or> (d, w) \<in> set ?nd \<or> (d, w) \<in> set ?no" if "(d, w) \<in> set m" for d w
    using that by (auto simp: m)
  have ready_m: "0 < w \<and> ready d \<and> (newer d \<longrightarrow> (d, w) \<in> set ?F)" if "(d, w) \<in> set m" for d w
    using mem [OF that]
  proof (elim disjE)
    assume "(d, w) \<in> set ?F"
    then show ?thesis by (simp add: kept_newer_def)
  next
    assume "(d, w) \<in> set ?nd"
    with in_nd [of d w] sD [of d] show ?thesis by blast
  next
    assume "(d, w) \<in> set ?no"
    with in_no [of d w] sO [of d] show ?thesis by blast
  qed
  show "\<forall>(d, w) \<in> set m. 0 < w \<and> ready d"
    using ready_m by (simp add: split_paired_all)
  show "\<forall>(d, w) \<in> set current. newer d \<and> ready d \<and> 0 < w \<longrightarrow> (d, w) \<in> set m"
    by (auto simp: m kept_newer_def)
  show "\<forall>(d, w) \<in> set m. newer d \<longrightarrow> (d, w) \<in> set current"
  proof (clarify)
    fix d w assume "(d, w) \<in> set m" "newer d"
    with ready_m [of d w] show "(d, w) \<in> set current" by (simp add: kept_newer_def)
  qed
  have once: "w = v" if "(d, w) \<in> set delta" "(d, v) \<in> set delta" for d w v
    using assms(2) that by (metis map_of_is_SomeI option.inject)
  have "d \<notin> fst ` set m" if w: "(d, w) \<in> set delta" "w \<le> 0" "\<not> newer d" for d w
  proof
    assume "d \<in> fst ` set m"
    then obtain v where v: "(d, v) \<in> set m" by force
    have "(d, v) \<notin> set ?F" using w(3) by (simp add: kept_newer_def)
    moreover have "d \<in> fst ` set delta" using w(1) by force
    then have "(d, v) \<notin> set ?no" using in_no [of d v] sO [of d] by blast
    moreover have "d \<notin> fst ` set ?D"
    proof
      assume "d \<in> fst ` set ?D"
      then obtain u where "(d, u) \<in> set delta" "0 < u" by (auto simp: own_targets_def)
      with once [OF w(1)] w(2) show False by auto
    qed
    then have "(d, v) \<notin> set ?nd" using in_nd [of d v] by blast
    ultimately show False using mem [OF v] by blast
  qed
  then show "\<forall>(d, w) \<in> set delta. w \<le> 0 \<and> \<not> newer d \<longrightarrow> d \<notin> fst ` set m"
    by (simp add: split_paired_all)
qed

section \<open>Properties\<close>

text \<open>
  C23: over one full round, as many calls as the positive weights sum to, smooth weighted round
  robin chooses each available target exactly as often as its weight says and returns all
  credits to zero, so rounds repeat without drift and without overflowing int64.
\<close>

theorem smooth_round_fair:
  assumes "weights_small weights" "0 < round_length weights"
    and "route_run (nat (round_length weights)) weights (all_available weights)
           (replicate (length weights) 0) = (chosen, credits)"
  shows "(\<forall>i < length weights. int (count_list chosen (Some i)) = max 0 (weights ! i))
    \<and> int (length chosen) = round_length weights \<and> credits = replicate (length weights) 0"
  using full_round [OF assms] run_invariant [OF assms] share_eq assms(2) by simp

text \<open>
  C32: one routing call chooses a target exactly when some available target has positive
  weight. The chosen target is available with positive weight and of the largest credit, no
  unavailable target's credit changes, and the sum of the credits is conserved.
\<close>

theorem smooth_choice_sound:
  assumes "credits_small weights current" "SmoothWeightedRoute weights current available = (choice, credits)"
  shows "(choice = None \<longleftrightarrow> (\<forall>i < length weights. weights ! i \<le> 0 \<or> \<not> available ! i))
    \<and> (\<forall>b. choice = Some b \<longrightarrow> b < length weights \<and> 0 < weights ! b \<and> available ! b
         \<and> (\<forall>i < length weights. 0 < weights ! i \<and> available ! i
              \<longrightarrow> current ! i + weights ! i \<le> current ! b + weights ! b))
    \<and> (\<forall>i < length weights. \<not> available ! i \<longrightarrow> credits ! i = current ! i)
    \<and> (\<Sum>i<length weights. credits ! i) = (\<Sum>i<length weights. current ! i)"
proof -
  let ?n = "length weights" and ?g = "credit_gain weights available"
  have gain0: "?g i = 0 \<longleftrightarrow> weights ! i \<le> 0 \<or> \<not> available ! i" for i by (simp add: credit_gain_def)
  consider (none) "choice = None" "credits = current" "\<forall>i<?n. ?g i = 0"
    | (some) b where "choice = Some b" "b < ?n" "0 < ?g b"
      "\<forall>i<?n. 0 < ?g i \<longrightarrow> current ! i + ?g i \<le> current ! b + ?g b"
      "\<forall>i<?n. credits ! i = current ! i + ?g i - (if i = b then \<Sum>j<?n. ?g j else 0)"
    using route_call [OF assms(1), of available] assms(2) by auto
  then show ?thesis
  proof cases
    case none
    then show ?thesis using gain0 by simp
  next
    case some
    have "(\<Sum>i<?n. credits ! i) = (\<Sum>i<?n. current ! i + ?g i - (if i = b then \<Sum>j<?n. ?g j else 0))"
      using some(5) by (intro sum.cong) auto
    also have "\<dots> = (\<Sum>i<?n. current ! i)"
      using some(2) by (simp add: sum.distrib sum_subtractf sum.delta)
    finally have "(\<Sum>i<?n. credits ! i) = (\<Sum>i<?n. current ! i)" .
    moreover have "0 < weights ! b \<and> available ! b" using some(3) by (simp add: credit_gain_def split: if_splits)
    moreover have "\<forall>i<?n. \<not> available ! i \<longrightarrow> credits ! i = current ! i"
      using some(2,5) calculation(2) by (auto simp: credit_gain_def)
    moreover have "\<forall>i<?n. 0 < weights ! i \<and> available ! i \<longrightarrow> current ! i + weights ! i \<le> current ! b + weights ! b"
      using some(4) calculation(2) by (auto simp: credit_gain_def)
    ultimately show ?thesis using some(1,2) by auto
  qed
qed

text \<open>
  C31: rebasing a route keeps it a complete route. From an applied route of at most the units of
  one workload, a result hands out exactly those units, to ready destinations only, each with
  a positive weight; the newer owners' ready destinations keep their weights and get no new
  ones, and a destination the owner withdrew is gone.
\<close>

theorem rebase_keeps_units:
  assumes "distinct (map fst current)" "distinct (map fst delta)" "\<forall>(d, w) \<in> set current. 0 \<le> w"
    and "route_total current \<le> schedulerRouteUnits"
    and "SchedulerRebaseRouting current delta ready newer = Some m"
  shows "route_total m = schedulerRouteUnits \<and> distinct (map fst m)
    \<and> (\<forall>(d, w) \<in> set m. 0 < w \<and> ready d)
    \<and> (\<forall>(d, w) \<in> set current. newer d \<and> ready d \<and> 0 < w \<longrightarrow> (d, w) \<in> set m)
    \<and> (\<forall>(d, w) \<in> set m. newer d \<longrightarrow> (d, w) \<in> set current)
    \<and> (\<forall>(d, w) \<in> set delta. w \<le> 0 \<and> \<not> newer d \<longrightarrow> d \<notin> fst ` set m)"
  by (intro conjI rebase_spec [OF assms])

section \<open>Witnesses\<close>

theorem smooth_round_fair_witness:
  "count_list [Some 0, Some 0, Some 1, Some 0, Some 2, Some 0, Some (0 :: nat)] (Some 0) = 5"
proof -
  have "route_run (nat (round_length [5, 1, 1])) [5, 1, 1] (all_available [5, 1, 1]) (replicate (length [5, 1, 1 :: int]) 0)
      = ([Some 0, Some 0, Some 1, Some 0, Some 2, Some 0, Some 0], [0, 0, 0])" by code_simp
  moreover have "weights_small [5, 1, 1]" "0 < round_length [5, 1, 1]" by code_simp+
  ultimately show ?thesis using smooth_round_fair [of "[5, 1, 1]"] by fastforce
qed

theorem smooth_choice_sound_witness:
  "\<exists>credits. SmoothWeightedRoute [5, 1] [0, 0] [False, True] = (Some 1, credits) \<and> credits ! 0 = 0"
proof -
  have "SmoothWeightedRoute [5, 1] [0, 0] [False, True] = (Some 1, [0, 0])" "credits_small [5, 1] [0, 0]"
    by code_simp+
  with smooth_choice_sound [of "[5, 1]" "[0, 0]" "[False, True]" "Some 1" "[0, 0]"] show ?thesis by simp
qed

theorem rebase_keeps_units_witness:
  "\<exists>m. SchedulerRebaseRouting [(''a'', 300), (''b'', 300), (''c'', 400)] [(''b'', 0), (''d'', 500)]
      (\<lambda>_. True) (\<lambda>d. d = ''c'') = Some m \<and> route_total m = 1000 \<and> (''c'', 400) \<in> set m \<and> ''b'' \<notin> fst ` set m"
proof -
  have run: "SchedulerRebaseRouting [(''a'', 300), (''b'', 300), (''c'', 400)] [(''b'', 0), (''d'', 500)]
      (\<lambda>_. True) (\<lambda>d. d = ''c'') = Some [(''c'', 400), (''d'', 500), (''a'', 100)]" by code_simp
  from rebase_keeps_units [OF _ _ _ _ this] show ?thesis
    using run by (auto simp: route_total_def)
qed

end
