(* ===== verification/SchedTypes.thy ===== *)
theory SchedTypes
  imports FFConfig Routing
begin

text \<open>
  The data of the serving scheduler (\<open>internal/serving/types.go\<close>,
  \<open>internal/serving/scheduler.go\<close>, \<open>scheduler_operation_cost.go\<close>,
  \<open>scheduler_preparation.go\<close>): the observed pool, its instances and their measured
  profiles, the actions of a plan, measured costs and the settings. A Go map is an
  association list with distinct keys in some iteration order; a pointer is an option;
  \<open>uint64\<close> memory sizes are 64-bit words.
\<close>

section \<open>Constants\<close>

abbreviation schedulerActionPrepare :: string where "schedulerActionPrepare \<equiv> ''prepare''"
abbreviation schedulerActionRemove :: string where "schedulerActionRemove \<equiv> ''remove''"
abbreviation schedulerActionPower :: string where "schedulerActionPower \<equiv> ''power''"
abbreviation schedulerActionRoute :: string where "schedulerActionRoute \<equiv> ''route''"
abbreviation schedulerActionStop :: string where "schedulerActionStop \<equiv> ''stop''"
abbreviation schedulerActionDrain :: string where "schedulerActionDrain \<equiv> ''drain''"
abbreviation schedulerActionPlanned :: string where "schedulerActionPlanned \<equiv> ''planned''"
abbreviation schedulerActionComplete :: string where "schedulerActionComplete \<equiv> ''complete''"
abbreviation schedulerNodeWallScope :: string where "schedulerNodeWallScope \<equiv> ''node-exclusive-wall''"
abbreviation schedulerTargetBaselineDelta :: string where "schedulerTargetBaselineDelta \<equiv> ''target-baseline-delta''"
abbreviation schedulerWholeWall :: string where "schedulerWholeWall \<equiv> ''whole-wall''"
abbreviation phasePending :: string where "phasePending \<equiv> ''pending''"
abbreviation phaseAssigned :: string where "phaseAssigned \<equiv> ''assigned''"
abbreviation phaseReturning :: string where "phaseReturning \<equiv> ''returning''"
abbreviation NodePowerModeUnavailable :: string where "NodePowerModeUnavailable \<equiv> ''PowerModeUnavailable''"
abbreviation NodeInstanceUnavailable :: string where "NodeInstanceUnavailable \<equiv> ''InstanceUnavailable''"
abbreviation NodeExcluded :: string where "NodeExcluded \<equiv> ''ExcludedNode''"
abbreviation schedulerNodeUnavailable :: string where "schedulerNodeUnavailable \<equiv> ''NodeUnavailable''"
abbreviation schedulerScaleDownStabilizing :: string where "schedulerScaleDownStabilizing \<equiv> ''ScaleDownStabilizing''"
abbreviation operationSourceExact :: string where "operationSourceExact \<equiv> ''exact''"
abbreviation operationSourceNode :: string where "operationSourceNode \<equiv> ''node''"
abbreviation operationSourceDeviceClass :: string where "operationSourceDeviceClass \<equiv> ''deviceClass''"
abbreviation operationSourceDefault :: string where "operationSourceDefault \<equiv> ''default''"
abbreviation occupancySourceMeasured :: string where "occupancySourceMeasured \<equiv> ''measured''"
abbreviation occupancySourceDOM :: string where "occupancySourceDOM \<equiv> ''dom''"

type_synonym uint64 = "64 word"

section \<open>Definitions and profiles\<close>

record NodeReference =
  nr_name :: string
  nr_uid :: string

record FirstfloorSettings =
  fs_maxBatchSize :: int
  fs_maxQueueSize :: int
  fs_deadlinePolicy :: string

record PreprocessorArtifact =
  pa_image :: string
  pa_architecture :: string
  pa_path :: string

record ModelPath =
  mp_name :: string
  mp_artifact :: string
  mp_format :: string
  mp_image :: string
  mp_architecture :: string
  mp_files :: "string list"
  mp_runtimeFamily :: string
  mp_backend :: string
  mp_firstfloor :: "FirstfloorSettings option"
  mp_preprocessor :: PreprocessorArtifact

record Model =
  mo_name :: string
  mo_uid :: string
  mo_generation :: int
  mo_paths :: "ModelPath list"

record RawField =
  rf_name :: string
  rf_format :: string
  rf_maxBytes :: int

record Preprocessor =
  pp_name :: string
  pp_uid :: string
  pp_generation :: int
  pp_input :: "RawField list"
  pp_output :: "RawField list"
  pp_maxNewTokens :: int

record DatasetReference =
  ds_name :: string
  ds_uid :: string

record DefinitionSLO =
  sl_percentile :: f64
  sl_targetLatency :: duration

record Definition =
  df_name :: string
  df_uid :: string
  df_generation :: int
  df_model :: Model
  df_preprocessor :: Preprocessor
  df_dataset :: "DatasetReference option"
  df_slo :: DefinitionSLO
  df_requestLifetime :: "duration option"

text \<open>The measured condition of a profile: the fields of \<open>CurvePlanSpec\<close> the scheduler reads.\<close>

record ArtifactContract =
  at_executionPath :: string
  at_name :: string
  at_files :: "string list"
  at_image :: string

record PreprocessorContract =
  pc_name :: string
  pc_image :: string
  pc_architecture :: string
  pc_path :: string
  pc_maxNewTokens :: int
  pc_inputs :: "string list"
  pc_outputs :: "string list"

record RuntimeAccess =
  ra_privileged :: bool
  ra_supplementalGroups :: "int list"
  ra_resources :: "(string \<times> string) list"
  ra_gpuUUID :: string

record Condition =
  cd_logicalModel :: string
  cd_deviceClass :: string
  cd_nodeUID :: string
  cd_runtimeFamily :: string
  cd_backend :: string
  cd_firstfloor :: "FirstfloorSettings option"
  cd_runtimeImage :: string
  cd_powerMode :: string
  cd_artifact :: ArtifactContract
  cd_preprocessor :: PreprocessorContract
  cd_dataset :: "DatasetReference option"
  cd_runtimeAccess :: "RuntimeAccess option"
  cd_plannedBatchSizes :: "int list"

record ServingBatchProfile =
  sb_batch :: int
  sb_serviceSamples :: "ServiceSample list"
  sb_serviceDistribution :: "ServiceDistribution option"
  sb_energyPerInputJoules :: f64
  sb_memoryBytes :: uint64

record Profile =
  pl_id :: string
  pl_condition :: Condition
  pl_batches :: "ServingBatchProfile list"
  pl_idleBaselineWatts :: f64
  pl_measuredAt :: instant

section \<open>The pool\<close>

record SchedulerAllocation =
  al_gpuUUID :: string
  al_memoryBytes :: uint64

record PowerReboot =
  rb_from :: string
  rb_to :: string
  rb_beforeBootID :: string
  rb_afterBootID :: string

record SchedulerNode =
  sn_node :: NodeReference
  sn_powerMode :: string
  sn_ready :: bool
  sn_measurement :: bool
  sn_gpuUUIDs :: "string list"
  sn_memoryBytes :: uint64
  sn_reserved :: SchedulerAllocation
  sn_nonServing :: "SchedulerAllocation list"
  sn_observedAt :: instant
  sn_reasons :: "string list"
  sn_reboots :: "PowerReboot list"

record PreparationFailureObservation =
  po_classification :: string
  po_reasonKey :: string
  po_reason :: string

record SchedulerInstance =
  si_id :: string
  si_podUID :: string
  si_podName :: string
  si_targetID :: string
  si_ownerWorkloadUID :: string
  si_node :: NodeReference
  si_profile :: "Profile option"
  si_profileID :: string
  si_runtimeImage :: string
  si_runnerCommand :: "string list"
  si_workloadUID :: string
  si_allocation :: SchedulerAllocation
  si_ready :: bool
  si_stopped :: bool
  si_terminated :: bool
  si_startupFailure :: "PreparationFailureObservation option"
  si_routable :: "string list"
  si_reasons :: "string list"
  si_capacity :: int
  si_weight :: int
  si_maxBatch :: int
  si_fixedBatchSize :: int
  si_maxWait :: duration
  si_observedAt :: instant
  si_idleMeter :: string
  si_idleScope :: string
  si_heldUntil :: "instant option"

record SchedulerOption =
  op_instance :: SchedulerInstance
  op_compatibleUIDs :: "string list"

record SchedulerRequest =
  sr_id :: string
  sr_remainingLifetime :: "duration option"
  sr_definition :: "Definition option"
  sr_receivedAt :: instant
  sr_elapsed :: duration
  sr_queueAge :: duration
  sr_phase :: string
  sr_instance :: string
  sr_batchID :: string
  sr_runningElapsed :: duration
  sr_returnElapsed :: duration
  sr_nativeSenderElapsedMS :: "f64 option"

record SchedulerArrival =
  av_id :: string
  av_lifetime :: duration
  av_at :: instant
  av_definition :: "Definition option"
  av_accepted :: bool
  av_compute :: bool
  av_workloadUID :: string

section \<open>Evidence and costs\<close>

record ObjectIdentity =
  oi_store :: string
  oi_key :: string
  oi_size :: int

record NodeBaseline =
  nb_id :: string
  nb_node :: NodeReference
  nb_deviceClass :: string
  nb_powerMode :: string
  nb_state :: "string list"
  nb_stateIdentities :: "(string \<times> string) list"
  nb_watts :: f64
  nb_wattsUncertainty :: f64
  nb_meter :: string
  nb_scope :: string
  nb_measuredAt :: instant
  nb_reference :: ObjectIdentity

record OperationTrial =
  ot_duration :: duration
  ot_joules :: f64
  ot_energyUncertaintyJoules :: f64

record OperationCost =
  oc_id :: string
  oc_node :: NodeReference
  oc_deviceClass :: string
  oc_kind :: string
  oc_from :: string
  oc_to :: string
  oc_trials :: "OperationTrial list"
  oc_energyScope :: string
  oc_subtractedWatts :: "f64 option"
  oc_meter :: string
  oc_scope :: string
  oc_reference :: ObjectIdentity
  oc_powerMode :: string
  oc_beforeState :: "string list"
  oc_targetState :: "string list"
  oc_measuredAt :: instant
  oc_stateIdentities :: "(string \<times> string) list"

record OperationCostValue =
  ov_seconds :: f64
  ov_joules :: f64

record OperationCostProvenance =
  op_source :: string
  op_costRef :: string
  op_value :: "OperationCostValue option"

record ActionExpectedSource =
  ae_costID :: string
  ae_reference :: ObjectIdentity
  ae_statistic :: string
  ae_trialCount :: nat

record IdlePowerDefault =
  ip_nodeWatts :: f64
  ip_perInstanceWatts :: f64

record IdlePowerProvenance =
  iv_source :: string
  iv_watts :: f64
  iv_references :: "string list"
  iv_reconstructed :: bool

section \<open>Actions and plans\<close>

type_synonym routing = "(string \<times> route) list"

record PreparationFailure =
  fl_profileID :: string
  fl_runtimeImage :: string
  fl_runnerCommand :: "string list"
  fl_allocation :: SchedulerAllocation
  fl_profileMemoryBytes :: uint64
  fl_podUID :: string
  fl_observation :: PreparationFailureObservation
  fl_repeatCount :: uint64
  fl_previousPodUID :: string

text \<open>The target of an intermediate route has no actions of its own.\<close>

record RouteTarget =
  rt_id :: string
  rt_nodes :: "SchedulerNode list"
  rt_instances :: "SchedulerInstance list"
  rt_routing :: routing

record Action =
  ac_id :: string
  ac_kind :: string
  ac_node :: NodeReference
  ac_instance :: string
  ac_from :: string
  ac_to :: string
  ac_dependsOn :: "string list"
  ac_costID :: string
  ac_costProvenance :: "OperationCostProvenance option"
  ac_expectedSeconds :: "f64 option"
  ac_expectedSource :: "ActionExpectedSource option"
  ac_routeTarget :: "RouteTarget option"
  ac_fixed :: bool
  ac_status :: string
  ac_elapsed :: duration
  ac_cancelable :: bool
  ac_reason :: string
  ac_preparationFailure :: "PreparationFailure option"

record SchedulerCandidate =
  sc_id :: string
  sc_keep :: bool
  sc_nodes :: "SchedulerNode list"
  sc_instances :: "SchedulerInstance list"
  sc_routing :: routing
  sc_actions :: "Action list"
  sc_status :: string
  sc_reasons :: "string list"

record SchedulerReservation =
  rv_owner :: string
  rv_nodes :: "NodeReference list"
  rv_workloadUIDs :: "string list"
  rv_podUIDs :: "string list"
  rv_instances :: "string list"
  rv_target :: "SchedulerCandidate option"

record DispatchOccupancyProvenance =
  dp_source :: string
  dp_pairs :: int
  dp_updatedAt :: instant
  dp_value :: int

record DispatchOccupancy =
  do_node :: NodeReference
  do_powerMode :: string
  do_runtimeImage :: string
  do_model :: string
  do_profileID :: string
  do_executionPath :: string
  do_batch :: int
  do_perRequest :: duration
  do_source :: string
  do_provenance :: "DispatchOccupancyProvenance option"

text \<open>How far the demand of a workload allows its capacity to shrink.\<close>

record SchedulerDownState =
  ds_rate :: f64
  ds_windowMax :: f64
  ds_windowNanos :: duration
  ds_supply :: f64
  ds_allowed :: bool
  ds_reason :: string
  ds_resetReason :: string

record SchedulerReplacement =
  sp_nodeUID :: string
  sp_workloadUID :: string
  sp_profileID :: string
  sp_completedAt :: instant

text \<open>\<open>ss_scaleDown\<close> is None for a nil map.\<close>

record SchedulerSnapshot =
  ss_at :: instant
  ss_bootstrapStartedAt :: instant
  ss_scaleDown :: "(string \<times> SchedulerDownState) list option"
  ss_emptyNodeScaleDownAllowed :: bool
  ss_replacements :: "SchedulerReplacement list"
  ss_observationEnd :: instant
  ss_observedSince :: instant
  ss_workloads :: "Definition option list"
  ss_nodes :: "SchedulerNode list"
  ss_instances :: "SchedulerInstance list"
  ss_routing :: routing
  ss_outstanding :: "SchedulerRequest list"
  ss_arrivals :: "SchedulerArrival list"
  ss_options :: "SchedulerOption list"
  ss_baselines :: "NodeBaseline list"
  ss_costs :: "OperationCost list"
  ss_dispatchOccupancy :: "DispatchOccupancy list"
  ss_actions :: "Action list"
  ss_reasons :: "string list"
  ss_reservations :: "SchedulerReservation list"

record SchedulerControls =
  sk_placement :: bool
  sk_resources :: bool
  sk_replicas :: bool
  sk_routing :: bool
  sk_batching :: bool
  sk_power :: bool
  sk_membership :: bool

record SchedulerSettings =
  st_observationWindow :: duration
  st_controlInterval :: duration
  st_comparisonPeriod :: duration
  st_replacementDwell :: duration
  st_maxObservationAge :: duration
  st_bootstrapCapacityWait :: duration
  st_scaleDownStabilization :: duration
  st_transitionReserveFraction :: f64
  st_scaleDownHeadroomFraction :: f64
  st_maxReplicas :: int
  st_maxInstances :: int
  st_servingMemoryBytes :: uint64
  st_completionMarginMS :: f64
  st_autonomousWorkloads :: "string list"
  st_minimumDemand :: "(string \<times> f64) list"
  st_excludedNodes :: "string list"
  st_capacityWindow :: duration
  st_capacityWindows :: int
  st_capacityPassingWindows :: int
  st_capacityMinimumRequests :: int
  st_capacityGridSteps :: int
  st_capacityBisectionWidth :: f64
  st_capacityTailSamples :: int
  st_defaultDispatchOccupancyNanos :: int
  st_defaultOperationCost :: "(string \<times> OperationCostValue) list"
  st_defaultIdlePower :: "IdlePowerDefault option"
  st_planSearchWorkers :: int
  st_controls :: SchedulerControls

end
