(* ===== verification/SchedState.thy ===== *)
theory SchedState
  imports SchedTypes
begin

text \<open>
  What the scheduler reads off an observed pool: textual states, power modes, reservations,
  node and instance availability, node budgets and the validation of a snapshot
  (\<open>scheduler.go\<close>, \<open>scheduler_plan.go\<close>, \<open>scheduler_validate.go\<close>, \<open>profilePath\<close> of
  \<open>runtime.go\<close>).
\<close>

section \<open>Text\<close>

text \<open>\<open>time.Duration.String\<close>: the fraction without trailing zeros, then the units.\<close>

definition fmtFrac :: "nat \<Rightarrow> nat \<Rightarrow> string" where
  "fmtFrac v prec =
     (let d = digits (v mod 10 ^ prec);
          padded = replicate (prec - length d) (CHR ''0'') @ d;
          stripped = rev (dropWhile (\<lambda>c. c = CHR ''0'') (rev padded))
      in if prec = 0 \<or> stripped = [] then [] else CHR ''.'' # stripped)"

definition Duration_String :: "duration \<Rightarrow> string" where
  "Duration_String d =
     (let u = nat \<bar>d\<bar>;
          frac = (\<lambda>v prec. digits (v div 10 ^ prec) @ fmtFrac v prec);
          body =
            (if u = 0 then ''0s''
             else if u < 1000 then digits u @ ''ns''
             else if u < 1000000 then frac u 3 @ [CHR 0xC2, CHR 0xB5] @ ''s''
             else if u < 1000000000 then frac u 6 @ ''ms''
             else
               (let s = u div 1000000000; m = s div 60; h = m div 60 in
                (if 0 < h then digits h @ ''h'' else [])
                @ (if 0 < m then digits (m mod 60) @ ''m'' else [])
                @ digits (s mod 60) @ fmtFrac u 9 @ ''s''))
      in if d < 0 then CHR ''-'' # body else body)"

fun join :: "string \<Rightarrow> string list \<Rightarrow> string" where
  "join sep [] = []"
| "join sep [x] = x"
| "join sep (x # y # xs) = x @ sep @ join sep (y # xs)"

text \<open>\<open>fmt.Sprint\<close> of a slice.\<close>

definition sprint_list :: "string list \<Rightarrow> string" where
  "sprint_list xs = ''['' @ join '' '' xs @ '']''"

definition appendUnique :: "string list \<Rightarrow> string list \<Rightarrow> string list" where
  "appendUnique xs extra = foldl (\<lambda>out s. if s \<in> set out then out else out @ [s]) xs extra"

definition cut_before :: "char \<Rightarrow> string \<Rightarrow> string" where
  "cut_before c s = takeWhile (\<lambda>x. x \<noteq> c) s"

text \<open>\<open>schedulerState\<close> and \<open>schedulerCostState\<close>, which drops the memory field.\<close>

definition schedulerState :: "SchedulerInstance \<Rightarrow> string" where
  "schedulerState i =
     (case si_profile i of None \<Rightarrow> [] | Some p \<Rightarrow> pl_id p)
     @ '':'' @ al_gpuUUID (si_allocation i) @ '':'' @ digits (unat (al_memoryBytes (si_allocation i)))"

definition schedulerCostState :: "string \<Rightarrow> string" where
  "schedulerCostState s =
     (if CHR '':'' \<in> set s then rev (tl (dropWhile (\<lambda>c. c \<noteq> CHR '':'') (rev s))) else s)"

section \<open>Definitions and profiles\<close>

definition SameExecution :: "Definition \<Rightarrow> Definition \<Rightarrow> bool" where
  "SameExecution d e \<longleftrightarrow> mo_uid (df_model d) = mo_uid (df_model e)
     \<and> mo_generation (df_model d) = mo_generation (df_model e)
     \<and> pp_uid (df_preprocessor d) = pp_uid (df_preprocessor e)
     \<and> pp_generation (df_preprocessor d) = pp_generation (df_preprocessor e)"

definition rawFieldNames :: "RawField list \<Rightarrow> string list" where
  "rawFieldNames fs = map rf_name fs"

definition profilePath :: "Definition \<Rightarrow> Profile option \<Rightarrow> ModelPath option" where
  "profilePath d profile =
     (case profile of
        None \<Rightarrow> None
      | Some p \<Rightarrow>
          (let c = pl_condition p; pre = df_preprocessor d; pc = cd_preprocessor c; art = cd_artifact c in
           if cd_logicalModel c \<noteq> mo_name (df_model d) \<or> pc_name pc \<noteq> pp_name pre
              \<or> pc_inputs pc \<noteq> rawFieldNames (pp_input pre) \<or> pc_outputs pc \<noteq> rawFieldNames (pp_output pre)
              \<or> pc_maxNewTokens pc \<noteq> pp_maxNewTokens pre
           then None
           else find (\<lambda>path. mp_name path = at_executionPath art \<and> mp_artifact path = at_name art
                  \<and> mp_files path = at_files art \<and> mp_image path = at_image art
                  \<and> mp_runtimeFamily path = cd_runtimeFamily c \<and> mp_backend path = cd_backend c
                  \<and> mp_preprocessor path = \<lparr>pa_image = pc_image pc, pa_architecture = pc_architecture pc,
                      pa_path = pc_path pc\<rparr>
                  \<and> mp_firstfloor path = cd_firstfloor c) (mo_paths (df_model d))))"

definition schedulerProfileMatches :: "Definition option \<Rightarrow> Profile option \<Rightarrow> bool" where
  "schedulerProfileMatches d p \<longleftrightarrow> (case d of None \<Rightarrow> False | Some x \<Rightarrow> profilePath x p \<noteq> None)"

section \<open>The pool\<close>

definition schedulerReservedNode :: "SchedulerSnapshot \<Rightarrow> NodeReference \<Rightarrow> bool" where
  "schedulerReservedNode s n \<longleftrightarrow> list_ex (\<lambda>r. n \<in> set (rv_nodes r)) (ss_reservations s)"

definition schedulerFixedReason :: "SchedulerSnapshot \<Rightarrow> string \<Rightarrow> string" where
  "schedulerFixedReason s uid =
     (case find (\<lambda>r. uid \<in> set (rv_workloadUIDs r)) (ss_reservations s) of
        None \<Rightarrow> [] | Some r \<Rightarrow> ''ReservedScope:'' @ rv_owner r)"

definition schedulerPhysicalChangeReason :: "SchedulerSnapshot \<Rightarrow> NodeReference \<Rightarrow> string" where
  "schedulerPhysicalChangeReason s node =
     (case find (\<lambda>n. sn_node n = node) (ss_nodes s) of
        None \<Rightarrow> schedulerNodeUnavailable
      | Some n \<Rightarrow>
          if \<not> sn_ready n then schedulerNodeUnavailable
          else if NodeInstanceUnavailable \<in> set (sn_reasons n)
            \<or> list_ex (\<lambda>i. si_node i = node \<and> \<not> si_terminated i \<and> \<not> si_ready i) (ss_instances s)
          then NodeInstanceUnavailable else [])"

definition schedulerAvailable :: "SchedulerSnapshot \<Rightarrow> SchedulerNode \<Rightarrow> bool" where
  "schedulerAvailable s n \<longleftrightarrow> schedulerPhysicalChangeReason s (sn_node n) = []
     \<and> \<not> schedulerReservedNode s (sn_node n) \<and> \<not> sn_measurement n
     \<and> NodeExcluded \<notin> set (sn_reasons n) \<and> NodePowerModeUnavailable \<notin> set (sn_reasons n)
     \<and> \<not> list_ex (\<lambda>i. si_node i = sn_node n) (ss_instances s)"

definition schedulerNodeMode :: "SchedulerNode list \<Rightarrow> NodeReference \<Rightarrow> string" where
  "schedulerNodeMode nodes node =
     (case find (\<lambda>n. sn_node n = node) nodes of None \<Rightarrow> [] | Some n \<Rightarrow> sn_powerMode n)"

definition schedulerCommonNodes :: "SchedulerSnapshot \<Rightarrow> SchedulerNode list" where
  "schedulerCommonNodes s =
     map (\<lambda>n. foldl (\<lambda>m a. if ac_fixed a \<and> ac_node a = sn_node n
              \<and> (ac_status a = schedulerActionPlanned \<or> ac_status a = phaseRunning)
            then m\<lparr>sn_powerMode := ac_to a\<rparr> else m) n (ss_actions s)) (ss_nodes s)"

definition schedulerInstanceRouted :: "routing \<Rightarrow> string \<Rightarrow> bool" where
  "schedulerInstanceRouted rts d \<longleftrightarrow>
     list_ex (\<lambda>(uid, weights). (case map_of weights d of None \<Rightarrow> False | Some w \<Rightarrow> 0 < w)) rts"

definition route_weight :: "route \<Rightarrow> string \<Rightarrow> int" where
  "route_weight weights d = (case map_of weights d of None \<Rightarrow> 0 | Some w \<Rightarrow> w)"

definition schedulerRouted :: "SchedulerInstance list \<Rightarrow> routing \<Rightarrow> string \<Rightarrow> bool" where
  "schedulerRouted instances rts uid \<longleftrightarrow>
     list_ex (\<lambda>i. 0 < (case map_of rts uid of
         Some weights \<Rightarrow> route_weight weights (si_id i)
       | None \<Rightarrow> if si_workloadUID i = uid then si_weight i else 0)) instances"

definition SchedulerFixedBatchAutonomy :: "SchedulerSnapshot \<Rightarrow> string list \<Rightarrow> string option" where
  "SchedulerFixedBatchAutonomy s autonomous =
     (let fixed = filter (\<lambda>i. 0 < si_fixedBatchSize i) (ss_instances s) in
      case find (schedulerRouted fixed (ss_routing s)) autonomous of
        None \<Rightarrow> None
      | Some uid \<Rightarrow> Some (''workload '' @ uid @ '' is routed to a fixedBatchSize instance; remove that routing before enabling autonomy''))"

definition schedulerOwnerAllows :: "string \<Rightarrow> string \<Rightarrow> bool" where
  "schedulerOwnerAllows owner uid \<longleftrightarrow> owner = [] \<or> uid = [] \<or> uid = owner"

definition schedulerSamePhysicalTarget :: "SchedulerInstance \<Rightarrow> SchedulerInstance \<Rightarrow> bool" where
  "schedulerSamePhysicalTarget actual wanted \<longleftrightarrow> si_terminated actual = si_terminated wanted
     \<and> (\<not> si_terminated actual \<or> si_id actual = si_id wanted)
     \<and> (si_id actual = si_id wanted \<or> si_targetID actual \<noteq> [] \<and> si_targetID actual = si_id wanted)
     \<and> si_node actual = si_node wanted \<and> schedulerState actual = schedulerState wanted"

definition profile_firstfloor :: "SchedulerInstance \<Rightarrow> FirstfloorSettings option" where
  "profile_firstfloor i = (case si_profile i of None \<Rightarrow> None | Some p \<Rightarrow> cd_firstfloor (pl_condition p))"

definition schedulerSnapshotTargetMatches :: "SchedulerInstance \<Rightarrow> SchedulerInstance \<Rightarrow> bool" where
  "schedulerSnapshotTargetMatches actual wanted \<longleftrightarrow>
     si_profile actual \<noteq> None \<and> si_profile wanted \<noteq> None \<and> si_ready actual \<and> \<not> si_stopped actual
     \<and> \<not> si_terminated actual \<and> \<not> si_terminated wanted \<and> si_id actual = si_id wanted
     \<and> si_node actual = si_node wanted \<and> schedulerState actual = schedulerState wanted
     \<and> schedulerOwnerAllows (si_ownerWorkloadUID actual) (si_workloadUID wanted)
     \<and> si_capacity actual = si_capacity wanted \<and> si_maxBatch actual = si_maxBatch wanted
     \<and> si_maxWait actual = si_maxWait wanted \<and> profile_firstfloor actual = profile_firstfloor wanted"

definition schedulerSameResourceChoice :: "SchedulerInstance \<Rightarrow> SchedulerInstance \<Rightarrow> bool" where
  "schedulerSameResourceChoice old target \<longleftrightarrow>
     (let a = al_gpuUUID (si_allocation old); b = al_gpuUUID (si_allocation target) in
      if si_node old \<noteq> si_node target then (a = []) = (b = []) else a = b)"

text \<open>The identity of a route action: every executor, its weight and the power modes.\<close>

definition config_part :: "SchedulerCandidate \<Rightarrow> SchedulerInstance \<Rightarrow> string" where
  "config_part c i =
     (let uids = (if si_workloadUID i \<noteq> [] then [si_workloadUID i] else []);
          weights = map (\<lambda>uid. case map_of (sc_routing c) uid of
              None \<Rightarrow> si_weight i | Some rt \<Rightarrow> route_weight rt (si_id i)) uids;
          policy = (case profile_firstfloor i of None \<Rightarrow> [] | Some f \<Rightarrow> fs_deadlinePolicy f)
      in si_id i @ nr_uid (si_node i) @ schedulerState i @ sprint_list uids @ '' ''
         @ sprint_list (map Itoa weights) @ '' '' @ Itoa (si_capacity i) @ '' '' @ Itoa (si_maxBatch i)
         @ '' '' @ Duration_String (si_maxWait i) @ policy)"

definition schedulerConfigKey :: "SchedulerCandidate \<Rightarrow> string" where
  "schedulerConfigKey c =
     sprint_list (sort_by string_lt (map (config_part c) (sc_instances c))
       @ map (\<lambda>n. nr_uid (sn_node n) @ ''/'' @ sn_powerMode n) (sc_nodes c))"

section \<open>Node budgets\<close>

record budget =
  bu_gpus :: "string list"
  bu_memory :: uint64
  bu_reasons :: "string list"

definition budget_step :: "SchedulerNode \<Rightarrow> budget \<Rightarrow> SchedulerAllocation \<Rightarrow> budget" where
  "budget_step n b a =
     (let uid = nr_uid (sn_node n);
          b1 = (if - 1 - bu_memory b < al_memoryBytes a
                then b\<lparr>bu_reasons := appendUnique (bu_reasons b) [''MemoryBudgetOverflow:'' @ uid]\<rparr>
                else b\<lparr>bu_memory := bu_memory b + al_memoryBytes a\<rparr>)
      in if al_gpuUUID a = [] then b1
         else b1\<lparr>bu_gpus := al_gpuUUID a # bu_gpus b1,
           bu_reasons := (if al_gpuUUID a \<notin> set (sn_gpuUUIDs n) \<or> al_gpuUUID a \<in> set (bu_gpus b1)
             then appendUnique (bu_reasons b1) [''ExclusiveGPUInfeasible:'' @ uid] else bu_reasons b1)\<rparr>)"

definition ValidateNodeBudget :: "SchedulerNode \<Rightarrow> SchedulerAllocation list \<Rightarrow> string list \<Rightarrow> string list" where
  "ValidateNodeBudget n allocations reasons =
     (let b = foldl (budget_step n) \<lparr>bu_gpus = [], bu_memory = 0, bu_reasons = reasons\<rparr> allocations
      in if sn_memoryBytes n < bu_memory b
         then appendUnique (bu_reasons b) [''MemoryBudgetInfeasible:'' @ nr_uid (sn_node n)]
         else bu_reasons b)"

end
