(* ===== verification/SchedValidate.thy ===== *)
theory SchedValidate
  imports SchedState
begin

text \<open>
  Validation of what the scheduler is given: an observed snapshot and its resources
  (\<open>scheduler_validate.go\<close>), the settings (\<open>scheduler.go\<close>,
  \<open>scheduler_operation_cost.go\<close>), the dispatch occupancy of a cell, and the population a
  decision looks at (\<open>scheduler_plan.go\<close>).
\<close>

section \<open>Floats and times\<close>

definition schedulerFinite :: "f64 \<Rightarrow> bool" where
  "schedulerFinite x \<longleftrightarrow> is_fin x"

definition schedulerUnitFraction :: "f64 \<Rightarrow> bool" where
  "schedulerUnitFraction x \<longleftrightarrow> schedulerFinite x \<and> f_leq f_zero x \<and> f_leq x (f_of_int 1)"

definition schedulerValidHalfWidth :: "f64 \<Rightarrow> bool" where
  "schedulerValidHalfWidth x \<longleftrightarrow> schedulerFinite x \<and> f_leq f_zero x"

text \<open>\<open>time.Duration.Seconds\<close>: whole seconds and the rest, both truncated towards zero.\<close>

definition Duration_Seconds :: "duration \<Rightarrow> f64" where
  "Duration_Seconds d =
     (let u = \<bar>d\<bar>; s = u div 1000000000; r = u mod 1000000000; sg = (\<lambda>x. if d < 0 then - x else x)
      in f_add (f_of_int (sg s)) (f_div (f_of_int (sg r)) (f_of_int 1000000000)))"

definition LaterTime :: "instant \<Rightarrow> instant \<Rightarrow> instant" where
  "LaterTime a b = (if b < a then a else b)"

definition ObjectIdentity_valid :: "ObjectIdentity \<Rightarrow> bool" where
  "ObjectIdentity_valid i \<longleftrightarrow> oi_store i \<noteq> [] \<and> oi_key i \<noteq> [] \<and> 1 \<le> oi_size i"

section \<open>Snapshots\<close>

definition stale_node :: "SchedulerSnapshot \<Rightarrow> duration \<Rightarrow> SchedulerNode \<Rightarrow> bool" where
  "stale_node s maxAge n \<longleftrightarrow> nr_uid (sn_node n) = [] \<or> is_zero_time (sn_observedAt n)
     \<or> ss_at s < sn_observedAt n \<or> maxAge < time_sub (ss_at s) (sn_observedAt n)"

definition stale_instance :: "SchedulerSnapshot \<Rightarrow> duration \<Rightarrow> SchedulerInstance \<Rightarrow> bool" where
  "stale_instance s maxAge i \<longleftrightarrow>
     (if si_terminated i \<or> \<not> si_ready i then False
      else if schedulerFixedReason s (si_workloadUID i) \<noteq> [] \<or> schedulerFixedReason s (si_ownerWorkloadUID i) \<noteq> []
      then False
      else is_zero_time (si_observedAt i) \<or> ss_at s < si_observedAt i
        \<or> maxAge < time_sub (ss_at s) (si_observedAt i))"

definition schedulerValidateObservationTimes :: "SchedulerSnapshot \<Rightarrow> duration \<Rightarrow> string list" where
  "schedulerValidateObservationTimes s maxAge =
     (let r0 = (if is_zero_time (ss_at s) \<or> is_zero_time (ss_observationEnd s) \<or> ss_at s < ss_observationEnd s
                then [''UnknownOrFutureObservationWindow''] else []);
          r1 = foldl (\<lambda>r n. if stale_node s maxAge n
                 then appendUnique r [''UnknownOrStaleNode:'' @ nr_name (sn_node n)] else r) r0 (ss_nodes s)
      in foldl (\<lambda>r i. if stale_instance s maxAge i
           then appendUnique r [''UnknownOrStaleInstance:'' @ si_id i] else r) r1 (ss_instances s))"

definition request_phases :: "string list" where
  "request_phases = [phasePending, phaseAssigned, phaseQueued, phaseDeferred, phaseRunning, phaseReturning]"

definition remark :: "bool \<Rightarrow> string \<Rightarrow> string list \<Rightarrow> string list" where
  "remark wrong reason reasons = (if wrong then appendUnique reasons [reason] else reasons)"

definition schedulerValidateRequest :: "SchedulerRequest \<Rightarrow> string set \<Rightarrow> string list \<Rightarrow> string list" where
  "schedulerValidateRequest r ids reasons =
     (if sr_definition r = None \<or> is_zero_time (sr_receivedAt r) \<or> sr_elapsed r < 0 \<or> sr_queueAge r < 0
         \<or> sr_runningElapsed r < 0
      then appendUnique reasons [''UnknownRequestContext:'' @ sr_id r]
      else
        remark ((sr_phase r = phaseQueued \<or> sr_phase r = phaseDeferred \<or> sr_phase r = phaseRunning)
              \<and> (case sr_nativeSenderElapsedMS r of None \<Rightarrow> True
                 | Some x \<Rightarrow> \<not> schedulerFinite x \<or> f_less x f_zero)) (''MissingNativeSenderContext:'' @ sr_id r)
        (remark (sr_phase r = phaseReturning \<and> sr_returnElapsed r < 0) (''MissingReturningCompletionEvidence:'' @ sr_id r)
        (remark (case sr_remainingLifetime r of None \<Rightarrow> False | Some l \<Rightarrow> l < 0) (''InvalidRequestLifetime:'' @ sr_id r)
        (remark (sr_phase r = phaseRunning \<and> sr_batchID r = []) (''UnknownRunningBatch:'' @ sr_id r)
        (remark (sr_phase r \<noteq> phasePending \<and> sr_instance r \<notin> ids) (''UnknownNativeInstance:'' @ sr_id r)
        (remark (sr_phase r \<notin> set request_phases) (''UnknownRequestPhase:'' @ sr_id r) reasons))))))"

definition invalid_slo :: "Definition \<Rightarrow> bool" where
  "invalid_slo d \<longleftrightarrow>
     (let p = sl_percentile (df_slo d) in f_leq p f_zero \<or> f_less (f_of_int 100) p \<or> \<not> schedulerFinite p
        \<or> sl_targetLatency (df_slo d) \<le> 0)"

definition schedulerValidateSnapshot :: "SchedulerSettings \<Rightarrow> SchedulerSnapshot \<Rightarrow> string list" where
  "schedulerValidateSnapshot st s =
     (let r0 = schedulerValidateObservationTimes s (st_maxObservationAge st)
             @ (if ss_nodes s = [] then [''MissingPoolInventory''] else []);
          ids = set (map si_id (ss_instances s));
          r1 = foldl (\<lambda>r q. schedulerValidateRequest q ids r) r0 (ss_outstanding s);
          r2 = foldl (\<lambda>r a. remark ((av_compute a \<or> av_accepted a) \<and> av_lifetime a < 0)
                 (''InvalidArrivalLifetime:'' @ av_id a) r) r1 (ss_arrivals s);
          definitions = ss_workloads s @ map sr_definition (ss_outstanding s)
            @ map av_definition (filter (\<lambda>a. av_compute a \<or> av_accepted a) (ss_arrivals s))
      in foldl (\<lambda>r d. case d of None \<Rightarrow> appendUnique r [''MissingImmutableDefinition'']
           | Some x \<Rightarrow> remark (invalid_slo x) (''InvalidSLO:'' @ df_uid x) r) r2 definitions)"

section \<open>Resources\<close>

text \<open>The service evidence of one instance: reasons, the largest batch memory, a batch of one.\<close>

definition service_step ::
  "SchedulerInstance \<Rightarrow> string list \<times> uint64 \<times> bool \<Rightarrow> ServingBatchProfile \<Rightarrow> string list \<times> uint64 \<times> bool" where
  "service_step i acc b = (case acc of (reasons, maxMemory, single) \<Rightarrow>
     if si_maxBatch i < sb_batch b then acc
     else
       (let r1 = remark (sb_serviceSamples b = [] \<or> sb_serviceDistribution b = None
                   \<or> f_less (sb_energyPerInputJoules b) f_zero \<or> \<not> schedulerFinite (sb_energyPerInputJoules b))
                 (''MissingServiceEnergyEvidence:'' @ si_id i) reasons;
            r2 = foldl (\<lambda>r x. remark (ss_serviceDurationNanos x \<le> 0
                   \<or> (case ss_precedingIdleNanos x of None \<Rightarrow> False | Some g \<Rightarrow> g < 0))
                 (''InvalidServiceSample:'' @ si_id i) r) r1 (sb_serviceSamples b)
        in (r2, max maxMemory (sb_memoryBytes b), single \<or> sb_batch b = 1)))"

definition schedulerValidateService :: "SchedulerInstance \<Rightarrow> Profile \<Rightarrow> string list \<Rightarrow> string list \<times> uint64" where
  "schedulerValidateService i p reasons =
     (case foldl (service_step i) (reasons, 0, False) (pl_batches p) of
        (r, maxMemory, single) \<Rightarrow> (remark (\<not> single) (''MissingSingleBatchEvidence:'' @ si_id i) r, maxMemory))"

definition schedulerValidateInstance ::
  "SchedulerSettings \<Rightarrow> SchedulerNode \<Rightarrow> SchedulerInstance \<Rightarrow> Profile \<Rightarrow> string list \<Rightarrow> string list" where
  "schedulerValidateInstance st n i p reasons =
     (let r1 = remark (\<not> sn_ready n) (''NodeUnavailable:'' @ nr_uid (sn_node n)) reasons;
          r2 = remark (cd_nodeUID (pl_condition p) \<noteq> nr_uid (sn_node n) \<or> cd_powerMode (pl_condition p) \<noteq> sn_powerMode n)
                 (''ProfileConditionMismatch:'' @ si_id i) r1;
          r3 = remark (si_capacity i < 1 \<or> si_weight i < 0 \<or> si_maxWait i < 0)
                 (''MissingQueueOrTransportEvidence:'' @ si_id i) r2;
          r4 = remark (pl_batches p = [] \<or> pl_id p = []) (''MissingProfileEvidence:'' @ si_id i) r3
      in case schedulerValidateService i p r4 of (r5, maxMemory) \<Rightarrow>
           remark (maxMemory = 0 \<or> al_memoryBytes (si_allocation i) < maxMemory
                 \<or> al_memoryBytes (si_allocation i) - maxMemory < st_servingMemoryBytes st)
             (''MeasuredMemoryInfeasible:'' @ si_id i) r5)"

text \<open>The instances of one node: reasons, the allocations to budget and whether it hosts any.\<close>

definition resource_step :: "SchedulerSettings \<Rightarrow> SchedulerNode
    \<Rightarrow> string list \<times> SchedulerAllocation list \<times> bool \<Rightarrow> SchedulerInstance
    \<Rightarrow> string list \<times> SchedulerAllocation list \<times> bool" where
  "resource_step st n acc i = (case acc of (reasons, allocations, hosted) \<Rightarrow>
     if si_node i \<noteq> sn_node n then acc
     else if si_terminated i \<or> \<not> si_ready i \<and> NodeInstanceUnavailable \<in> set (sn_reasons n)
     then (reasons, allocations @ [si_allocation i], True)
     else (case si_profile i of
         None \<Rightarrow> (appendUnique reasons [''MissingProfile:'' @ si_id i], allocations, True)
       | Some p \<Rightarrow> (schedulerValidateInstance st n i p reasons, allocations @ [si_allocation i], True)))"

definition node_resources :: "SchedulerSettings \<Rightarrow> SchedulerInstance list
    \<Rightarrow> string list \<times> string list \<Rightarrow> SchedulerNode \<Rightarrow> string list \<times> string list" where
  "node_resources st instances acc n = (case acc of (reasons, seen) \<Rightarrow>
     let uid = nr_uid (sn_node n);
         r0 = remark (uid \<in> set seen) (''DuplicateNode:'' @ uid) reasons
     in case foldl (resource_step st n) (r0, sn_reserved n # sn_nonServing n, False) instances of
          (r1, allocations, hosted) \<Rightarrow>
            (if hosted then ValidateNodeBudget n allocations r1 else r1, uid # seen))"

definition schedulerValidateResources ::
  "SchedulerSettings \<Rightarrow> SchedulerNode list \<Rightarrow> SchedulerInstance list \<Rightarrow> string list" where
  "schedulerValidateResources st nodes instances =
     (case foldl (node_resources st instances) ([], []) nodes of
        (reasons, seen) \<Rightarrow>
          foldl (\<lambda>r i. remark (nr_uid (si_node i) \<notin> set seen) (''UnknownPlacementNode:'' @ si_id i) r) reasons instances)"

definition SchedulerContinuationReasons :: "SchedulerSettings \<Rightarrow> SchedulerSnapshot \<Rightarrow> string list" where
  "SchedulerContinuationReasons st s =
     appendUnique (ss_reasons s @ schedulerValidateSnapshot st s)
       (schedulerValidateResources st (ss_nodes s) (ss_instances s))"

definition NativeBundle :: "Profile \<Rightarrow> ProfileBundle" where
  "NativeBundle p = \<lparr>pb_profileID = pl_id p,
     pb_batches = map (\<lambda>b. \<lparr>bp_size = sb_batch b, bp_serviceSamples = sb_serviceSamples b,
       bp_distribution = sb_serviceDistribution b, bp_energyPerItemJ = sb_energyPerInputJoules b\<rparr>) (pl_batches p)\<rparr>"

definition schedulerPolicy :: "SchedulerInstance \<Rightarrow> Profile \<Rightarrow> Policy" where
  "schedulerPolicy i p = \<lparr>p_decisionID = [], p_profileID = pl_id p,
     p_maxBatchWaitMS = f_div (f_of_int (si_maxWait i)) (f_of_int 1000000), p_maxBatchSize = si_maxBatch i,
     p_deadlinePolicy = EffectiveDeadlinePolicy
       (case cd_firstfloor (pl_condition p) of None \<Rightarrow> [] | Some f \<Rightarrow> fs_deadlinePolicy f),
     p_fixedBatchSize = 0, p_batches = pb_batches (NativeBundle p)\<rparr>"

end
