(* ===== verification/SchedSettings.thy ===== *)
theory SchedSettings
  imports SchedValidate
begin

text \<open>
  The scheduler's settings and what a decision derives from them: validation and defaults
  (\<open>scheduler.go\<close>, \<open>scheduler_operation_cost.go\<close>), the dispatch occupancy of a cell, the
  workload states and the observed population (\<open>scheduler_plan.go\<close>), and the variants of an
  option (\<open>capacity.go\<close>). The iteration order of a Go map is the order of its list.
\<close>

section \<open>Settings\<close>

datatype settings_error =
    NonpositiveInterval | NegativeReplacementDwell | BootstrapWaitRange | NegativeStabilization
  | ReserveFraction | HeadroomFraction | NonpositiveBounds | CompletionMargin | NegativeOccupancy
  | MissingOperationCost string | MissingIdlePower | UnsupportedKind string | OperationCostValueRange string
  | IdlePowerRange | MinimumDemandEntry | CapacityWindowSettings | CapacityNumerics | SearchWorkers
  | ExcludedNodeNames | MissingMargin

definition operation_kinds :: "string list" where
  "operation_kinds = [schedulerActionPrepare, schedulerActionRemove, schedulerActionPower]"

text \<open>\<open>float64(time.Duration(1<<63-1)) / float64(time.Second)\<close>\<close>

definition max_seconds :: f64 where
  "max_seconds = f_div (f_of_int max_int64) (f_of_int 1000000000)"

definition cost_value_ok :: "OperationCostValue \<Rightarrow> bool" where
  "cost_value_ok v \<longleftrightarrow> schedulerFinite (ov_seconds v)
     \<and> \<not> f_less (f_mul (ov_seconds v) (f_of_int 1000000000)) (f_of_int 1)
     \<and> \<not> f_leq max_seconds (ov_seconds v)
     \<and> schedulerFinite (ov_joules v) \<and> \<not> f_less (ov_joules v) f_zero"

definition kind_value_error :: "string \<times> OperationCostValue \<Rightarrow> settings_error option" where
  "kind_value_error kv =
     (if fst kv \<notin> set operation_kinds then Some (UnsupportedKind (fst kv))
      else if \<not> cost_value_ok (snd kv) then Some (OperationCostValueRange (fst kv)) else None)"

definition first_error :: "settings_error option list \<Rightarrow> settings_error option" where
  "first_error es = foldr (\<lambda>e r. case e of Some x \<Rightarrow> Some x | None \<Rightarrow> r) es None"

definition check :: "bool \<Rightarrow> settings_error \<Rightarrow> settings_error option" where
  "check wrong e = (if wrong then Some e else None)"

definition validateEstimateDefaults :: "SchedulerSettings \<Rightarrow> settings_error option" where
  "validateEstimateDefaults s =
     first_error (map (\<lambda>k. check (map_of (st_defaultOperationCost s) k = None) (MissingOperationCost k)) operation_kinds
       @ [check (st_defaultIdlePower s = None) MissingIdlePower]
       @ map kind_value_error (st_defaultOperationCost s)
       @ [case st_defaultIdlePower s of None \<Rightarrow> None
          | Some p \<Rightarrow> check (\<not> schedulerFinite (ip_nodeWatts p) \<or> f_less (ip_nodeWatts p) f_zero
              \<or> \<not> schedulerFinite (ip_perInstanceWatts p) \<or> f_less (ip_perInstanceWatts p) f_zero) IdlePowerRange])"

definition validateCapacityNumerics :: "SchedulerSettings \<Rightarrow> settings_error option" where
  "validateCapacityNumerics s =
     check (st_capacityGridSteps s < 1 \<or> st_capacityTailSamples s < 1
         \<or> \<not> schedulerFinite (st_capacityBisectionWidth s) \<or> f_leq (st_capacityBisectionWidth s) f_zero
         \<or> f_less (f_of_int 1) (st_capacityBisectionWidth s)) CapacityNumerics"

fun excluded_loop :: "string list \<Rightarrow> string list \<Rightarrow> settings_error option" where
  "excluded_loop excluded [] = None"
| "excluded_loop excluded (name # names) =
     (if name = [] \<or> name \<in> set excluded then Some ExcludedNodeNames else excluded_loop (name # excluded) names)"

definition validateExcludedNodes :: "SchedulerSettings \<Rightarrow> settings_error option" where
  "validateExcludedNodes s = excluded_loop [] (st_excludedNodes s)"

definition hour :: duration where "hour = 3600000000000"

definition ValidateSettings :: "SchedulerSettings \<Rightarrow> settings_error option" where
  "ValidateSettings s =
     first_error
       ([check (st_observationWindow s \<le> 0 \<or> st_controlInterval s \<le> 0 \<or> st_comparisonPeriod s \<le> 0
           \<or> st_maxObservationAge s \<le> 0) NonpositiveInterval,
         check (st_replacementDwell s < 0) NegativeReplacementDwell,
         check (st_bootstrapCapacityWait s < 0 \<or> hour < st_bootstrapCapacityWait s) BootstrapWaitRange,
         check (st_scaleDownStabilization s < 0) NegativeStabilization,
         check (\<not> schedulerUnitFraction (st_transitionReserveFraction s)) ReserveFraction,
         check (\<not> schedulerUnitFraction (st_scaleDownHeadroomFraction s)) HeadroomFraction,
         check (st_maxReplicas s < 1 \<or> st_maxInstances s < 1) NonpositiveBounds,
         check (\<not> schedulerFinite (st_completionMarginMS s) \<or> f_less (st_completionMarginMS s) f_zero) CompletionMargin,
         check (st_defaultDispatchOccupancyNanos s < 0) NegativeOccupancy,
         validateEstimateDefaults s,
         check (list_ex (\<lambda>(uid, rate). uid = [] \<or> \<not> schedulerFinite rate \<or> f_less rate f_zero) (st_minimumDemand s))
           MinimumDemandEntry,
         check (st_capacityWindow s \<le> 0 \<or> st_capacityWindows s < 1 \<or> st_capacityPassingWindows s < 1
           \<or> st_capacityWindows s < st_capacityPassingWindows s \<or> st_capacityMinimumRequests s < 1) CapacityWindowSettings,
         validateCapacityNumerics s,
         check (st_planSearchWorkers s < 1) SearchWorkers,
         validateExcludedNodes s])"

text \<open>\<open>SchedulerSettingsInput\<close>: the decoded settings and the fields that tell omitted from zero.\<close>

record SchedulerSettingsInput =
  in_settings :: SchedulerSettings
  in_completionMarginMS :: "f64 option"
  in_bootstrapCapacityWait :: "duration option"
  in_scaleDownStabilization :: "duration option"
  in_replacementDwell :: "duration option"
  in_capacityGridSteps :: "int option"
  in_capacityBisectionWidth :: "f64 option"
  in_capacityTailSamples :: "int option"

definition orElse :: "'a option \<Rightarrow> 'a \<Rightarrow> 'a" where
  "orElse v d = (case v of None \<Rightarrow> d | Some x \<Rightarrow> x)"

definition Settings :: "SchedulerSettingsInput \<Rightarrow> settings_error + SchedulerSettings" where
  "Settings i =
     (case in_completionMarginMS i of
        None \<Rightarrow> Inl MissingMargin
      | Some margin \<Rightarrow>
          (let s = (in_settings i)\<lparr>st_capacityGridSteps := orElse (in_capacityGridSteps i) 20,
             st_capacityBisectionWidth := orElse (in_capacityBisectionWidth i) (f_div (f_of_int 5) (f_of_int 1000)),
             st_capacityTailSamples := orElse (in_capacityTailSamples i) 100,
             st_completionMarginMS := margin,
             st_bootstrapCapacityWait := orElse (in_bootstrapCapacityWait i) 600000000000,
             st_scaleDownStabilization := orElse (in_scaleDownStabilization i) 300000000000,
             st_replacementDwell := orElse (in_replacementDwell i) 0\<rparr>
           in case ValidateSettings s of Some e \<Rightarrow> Inl e | None \<Rightarrow> Inr s))"

section \<open>Dispatch occupancy\<close>

text \<open>
  The scan of \<open>ResolveDispatchOccupancy\<close>: a measured exact cell ends it; otherwise the
  first admissible DOM entry and the first exact default are kept.
\<close>

definition exact_cell :: "SchedulerInstance \<Rightarrow> Profile \<Rightarrow> DispatchOccupancy \<Rightarrow> bool" where
  "exact_cell i p d \<longleftrightarrow> do_profileID d = pl_id p
     \<and> do_executionPath d = at_executionPath (cd_artifact (pl_condition p)) \<and> do_batch d = si_maxBatch i"

definition wildcard_cell :: "SchedulerInstance \<Rightarrow> Profile \<Rightarrow> DispatchOccupancy \<Rightarrow> bool" where
  "wildcard_cell i p d \<longleftrightarrow> (do_profileID d = [] \<or> do_profileID d = pl_id p)
     \<and> (do_executionPath d = [] \<or> do_executionPath d = at_executionPath (cd_artifact (pl_condition p)))
     \<and> (do_batch d = 0 \<or> do_batch d = si_maxBatch i)"

definition same_scope :: "SchedulerInstance \<Rightarrow> Profile \<Rightarrow> DispatchOccupancy \<Rightarrow> bool" where
  "same_scope i p d \<longleftrightarrow> nr_uid (do_node d) = nr_uid (si_node i) \<and> do_powerMode d = cd_powerMode (pl_condition p)
     \<and> do_model d = cd_logicalModel (pl_condition p)"

definition occupancy_source :: "DispatchOccupancy \<Rightarrow> string option" where
  "occupancy_source d = map_option dp_source (do_provenance d)"

fun occupancy_scan :: "SchedulerInstance \<Rightarrow> Profile \<Rightarrow> DispatchOccupancy option \<Rightarrow> DispatchOccupancy option
    \<Rightarrow> DispatchOccupancy list \<Rightarrow> DispatchOccupancy option" where
  "occupancy_scan i p legacy fallback [] = (if legacy \<noteq> None then legacy else fallback)"
| "occupancy_scan i p legacy fallback (d # ds) =
     (if \<not> same_scope i p d then occupancy_scan i p legacy fallback ds
      else if occupancy_source d = Some occupancySourceMeasured
      then (if exact_cell i p d then Some d else occupancy_scan i p legacy fallback ds)
      else if (occupancy_source d = None \<or> occupancy_source d = Some occupancySourceDOM) \<and> wildcard_cell i p d \<and> legacy = None
      then occupancy_scan i p (Some d) fallback ds
      else if occupancy_source d = Some operationSourceDefault \<and> exact_cell i p d \<and> fallback = None
      then occupancy_scan i p legacy (Some d) ds
      else occupancy_scan i p legacy fallback ds)"

definition ResolveDispatchOccupancy ::
  "SchedulerSettings \<Rightarrow> DispatchOccupancy list \<Rightarrow> SchedulerInstance \<Rightarrow> DispatchOccupancy option" where
  "ResolveDispatchOccupancy st occupancy i =
     (case si_profile i of
        None \<Rightarrow> None
      | Some p \<Rightarrow>
          (let c = pl_condition p; selected = occupancy_scan i p None None occupancy;
               per = max 0 (case selected of None \<Rightarrow> st_defaultDispatchOccupancyNanos st | Some d \<Rightarrow> do_perRequest d);
               prov = (case selected of
                   None \<Rightarrow> \<lparr>dp_source = operationSourceDefault, dp_pairs = 0, dp_updatedAt = 0, dp_value = 0\<rparr>
                 | Some d \<Rightarrow> (case do_provenance d of
                     None \<Rightarrow> \<lparr>dp_source = occupancySourceDOM, dp_pairs = 0, dp_updatedAt = 0, dp_value = 0\<rparr>
                   | Some v \<Rightarrow> v))
           in Some \<lparr>do_node = si_node i, do_powerMode = cd_powerMode c,
                do_runtimeImage = (case selected of None \<Rightarrow> cd_runtimeImage c | Some d \<Rightarrow> do_runtimeImage d),
                do_model = cd_logicalModel c, do_profileID = pl_id p,
                do_executionPath = at_executionPath (cd_artifact c), do_batch = si_maxBatch i, do_perRequest = per,
                do_source = (case selected of None \<Rightarrow> [] | Some d \<Rightarrow> do_source d),
                do_provenance = Some (prov\<lparr>dp_value := per\<rparr>)\<rparr>))"

definition CapacityVariants :: "SchedulerOption \<Rightarrow> SchedulerOption list" where
  "CapacityVariants opt =
     (case si_profile (op_instance opt) of
        None \<Rightarrow> []
      | Some p \<Rightarrow> map (\<lambda>b. opt\<lparr>op_instance := (op_instance opt)\<lparr>si_maxBatch := sb_batch b\<rparr>\<rparr>)
          (filter (\<lambda>b. sb_batch b \<le> si_maxBatch (op_instance opt)) (pl_batches p)))"

definition occupancy_cell :: "SchedulerInstance \<Rightarrow> Profile \<Rightarrow> string list \<times> int" where
  "occupancy_cell i p =
     (let c = pl_condition p in
      ([nr_uid (si_node i), cd_powerMode c, cd_logicalModel c, at_executionPath (cd_artifact c), pl_id p], si_maxBatch i))"

definition select_cell :: "SchedulerSettings \<Rightarrow> DispatchOccupancy list
    \<Rightarrow> (string list \<times> int) list \<times> DispatchOccupancy list \<Rightarrow> SchedulerInstance
    \<Rightarrow> (string list \<times> int) list \<times> DispatchOccupancy list" where
  "select_cell st occupancy acc i =
     (case (si_profile i, ResolveDispatchOccupancy st occupancy i) of
        (Some p, Some d) \<Rightarrow> (if occupancy_cell i p \<in> set (fst acc) then acc
          else (occupancy_cell i p # fst acc, snd acc @ [d]))
      | _ \<Rightarrow> acc)"

definition SchedulerSelectedOccupancy :: "SchedulerSettings \<Rightarrow> SchedulerSnapshot \<Rightarrow> DispatchOccupancy list" where
  "SchedulerSelectedOccupancy st s =
     (if ss_instances s = [] \<and> ss_options s = [] then ss_dispatchOccupancy s
      else snd (foldl (select_cell st (ss_dispatchOccupancy s)) ([], [])
        (ss_instances s @ map op_instance (concat (map CapacityVariants (ss_options s))))))"

end
