(* ===== verification/SchedDemand.thy ===== *)
theory SchedDemand
  imports SchedSettings
begin

text \<open>
  What a decision keeps about demand and about failed preparations: the workload states and
  the arrival population (\<open>scheduler_plan.go\<close>), the demand window that protects a scale-down
  (\<open>scheduler_tempo.go\<close>) and the evidence that a preparation failed
  (\<open>scheduler_preparation.go\<close>).
\<close>

section \<open>Workload states\<close>

record SchedulerWorkloadState =
  ws_uid :: string
  ws_state :: string
  ws_reason :: string

definition workload_state :: "SchedulerSettings \<Rightarrow> SchedulerSnapshot \<Rightarrow> string \<Rightarrow> SchedulerWorkloadState" where
  "workload_state st s uid =
     (if uid \<notin> set (st_autonomousWorkloads st)
      then \<lparr>ws_uid = uid, ws_state = ''Disabled'', ws_reason = ''AutonomousControlOff''\<rparr>
      else if \<not> list_ex (\<lambda>x. uid \<in> set (op_compatibleUIDs x)) (ss_options s)
      then \<lparr>ws_uid = uid, ws_state = ''MeasurementEvidenceMissing'', ws_reason = ''NoCompletedMeasurementMatches''\<rparr>
      else \<lparr>ws_uid = uid, ws_state = ''Controlled'', ws_reason = []\<rparr>)"

definition schedulerWorkloadStates :: "SchedulerSettings \<Rightarrow> SchedulerSnapshot \<Rightarrow> SchedulerWorkloadState list" where
  "schedulerWorkloadStates st s =
     sort_by (\<lambda>a b. string_lt (ws_uid a) (ws_uid b))
       (map (\<lambda>d. workload_state st s (df_uid d)) (List.map_filter id (ss_workloads s)))"

section \<open>The arrival population\<close>

record SchedulerLoad =
  ld_uid :: string
  ld_received :: nat
  ld_accepted :: nat
  ld_computeInputs :: nat
  ld_inputsPerSecond :: f64
  ld_recentComputeInputs :: nat
  ld_recentInputsPerSecond :: f64

record SchedulerSearch =
  se_windowStart :: instant
  se_windowEnd :: instant
  se_recentWindowStart :: instant
  se_received :: nat
  se_accepted :: nat
  se_computeInputs :: nat
  se_loads :: "SchedulerLoad list"

definition new_load :: "string \<Rightarrow> SchedulerLoad" where
  "new_load uid = \<lparr>ld_uid = uid, ld_received = 0, ld_accepted = 0, ld_computeInputs = 0,
     ld_inputsPerSecond = f_zero, ld_recentComputeInputs = 0, ld_recentInputsPerSecond = f_zero\<rparr>"

definition count_if :: "bool \<Rightarrow> nat \<Rightarrow> nat" where
  "count_if b n = (if b then Suc n else n)"

definition arrival_uid :: "SchedulerArrival \<Rightarrow> string" where
  "arrival_uid a = (case av_definition a of None \<Rightarrow> av_workloadUID a | Some d \<Rightarrow> df_uid d)"

definition arrival_computes :: "SchedulerArrival \<Rightarrow> bool" where
  "arrival_computes a \<longleftrightarrow> (av_compute a \<or> av_accepted a) \<and> av_definition a \<noteq> None"

definition count_arrival :: "instant \<Rightarrow> SchedulerArrival \<Rightarrow> SchedulerLoad \<Rightarrow> SchedulerLoad" where
  "count_arrival recent a l =
     l\<lparr>ld_received := Suc (ld_received l),
       ld_accepted := count_if (av_accepted a) (ld_accepted l),
       ld_computeInputs := count_if (arrival_computes a) (ld_computeInputs l),
       ld_recentComputeInputs := count_if (arrival_computes a \<and> \<not> av_at a < recent) (ld_recentComputeInputs l)\<rparr>"

fun update_load :: "(SchedulerLoad \<Rightarrow> SchedulerLoad) \<Rightarrow> string \<Rightarrow> SchedulerLoad list \<Rightarrow> SchedulerLoad list" where
  "update_load f uid [] = [f (new_load uid)]"
| "update_load f uid (l # ls) = (if ld_uid l = uid then f l # ls else l # update_load f uid ls)"

definition population_step :: "SchedulerSearch \<Rightarrow> SchedulerArrival \<Rightarrow> SchedulerSearch" where
  "population_step s a =
     (if av_at a < se_windowStart s \<or> \<not> av_at a < se_windowEnd s then s
      else s\<lparr>se_received := Suc (se_received s),
        se_accepted := count_if (av_accepted a) (se_accepted s),
        se_computeInputs := count_if (arrival_computes a) (se_computeInputs s),
        se_loads := update_load (count_arrival (se_recentWindowStart s) a) (arrival_uid a) (se_loads s)\<rparr>)"

definition load_rates :: "SchedulerSearch \<Rightarrow> SchedulerLoad \<Rightarrow> SchedulerLoad" where
  "load_rates s l =
     (let covered = time_sub (se_windowEnd s) (se_windowStart s);
          recent = time_sub (se_windowEnd s) (se_recentWindowStart s);
          l1 = (if 0 < covered then l\<lparr>ld_inputsPerSecond := f_div (f_of_int (int (ld_computeInputs l))) (Duration_Seconds covered)\<rparr>
                else l)
      in if 0 < recent
         then l1\<lparr>ld_recentInputsPerSecond := f_div (f_of_int (int (ld_recentComputeInputs l))) (Duration_Seconds recent)\<rparr>
         else l1)"

text \<open>Without cancellation of the context.\<close>

definition schedulerSearchPopulation :: "SchedulerSettings \<Rightarrow> SchedulerSnapshot \<Rightarrow> SchedulerSearch" where
  "schedulerSearchPopulation st s =
     (let w0 = ss_observationEnd s - st_observationWindow st;
          start = (if w0 < ss_observedSince s then ss_observedSince s else w0);
          r = foldl population_step \<lparr>se_windowStart = start, se_windowEnd = ss_observationEnd s,
                se_recentWindowStart = LaterTime start (ss_observationEnd s - st_controlInterval st),
                se_received = 0, se_accepted = 0, se_computeInputs = 0, se_loads = []\<rparr> (ss_arrivals s)
      in r\<lparr>se_loads := map (load_rates r) (sort_by (\<lambda>a b. string_lt (ld_uid a) (ld_uid b)) (se_loads r))\<rparr>)"

section \<open>The demand window\<close>

record schedulerDemandSample =
  dm_at :: instant
  dm_rate :: f64

record schedulerDemandWindow =
  dw_since :: instant
  dw_samples :: "schedulerDemandSample list"

text \<open>Go's built-in \<open>max\<close> of two floats: NaN if either is, and 0 over -0.\<close>

definition f_max :: "f64 \<Rightarrow> f64 \<Rightarrow> f64" where
  "f_max a b =
     (if is_nan a \<or> is_nan b then NaN
      else if f_eq a f_zero \<and> f_eq a b then (if neg a then b else a)
      else if f_less a b then b else a)"

definition observe :: "schedulerDemandWindow \<Rightarrow> instant \<Rightarrow> f64 \<Rightarrow> duration
    \<Rightarrow> schedulerDemandWindow \<times> f64 \<times> bool" where
  "observe w now rate dur =
     (let samples = dropWhile (\<lambda>x. \<not> now - dur < dm_at x) (dw_samples w) @ [\<lparr>dm_at = now, dm_rate = rate\<rparr>]
      in (w\<lparr>dw_samples := samples\<rparr>, foldl (\<lambda>m x. f_max m (dm_rate x)) rate samples,
          dur \<le> time_sub now (dw_since w)))"

section \<open>Failed preparations\<close>

abbreviation PreparationDeterministic :: string where "PreparationDeterministic \<equiv> ''deterministic''"
abbreviation PreparationTransient :: string where "PreparationTransient \<equiv> ''transient''"
abbreviation PreparationUnknownTransient :: string where
  "PreparationUnknownTransient \<equiv> ''unknown'' @ [CHR 0xE2, CHR 0x86, CHR 0x92] @ ''transient''"
abbreviation PreparationPromoted :: string where "PreparationPromoted \<equiv> ''promoted''"

definition preparationProfileMemory :: "Profile \<Rightarrow> uint64" where
  "preparationProfileMemory p = foldl (\<lambda>m b. max m (sb_memoryBytes b)) 0 (pl_batches p)"

definition NewPreparationFailure ::
  "SchedulerInstance \<Rightarrow> string \<Rightarrow> PreparationFailureObservation \<Rightarrow> PreparationFailure option" where
  "NewPreparationFailure i podUID obs =
     (case si_profile i of
        None \<Rightarrow> None
      | Some p \<Rightarrow> Some \<lparr>fl_profileID = pl_id p, fl_runtimeImage = si_runtimeImage i,
          fl_runnerCommand = si_runnerCommand i, fl_allocation = si_allocation i,
          fl_profileMemoryBytes = preparationProfileMemory p, fl_podUID = podUID, fl_observation = obs,
          fl_repeatCount = 0, fl_previousPodUID = []\<rparr>)"

definition Matches :: "PreparationFailure \<Rightarrow> SchedulerNode \<Rightarrow> SchedulerInstance \<Rightarrow> bool" where
  "Matches f n i \<longleftrightarrow>
     (case si_profile i of
        None \<Rightarrow> False
      | Some p \<Rightarrow> si_node i = sn_node n \<and> fl_profileID f = pl_id p \<and> fl_allocation f = si_allocation i
          \<and> fl_profileMemoryBytes f = preparationProfileMemory p \<and> fl_runtimeImage f = si_runtimeImage i
          \<and> fl_runnerCommand f = si_runnerCommand i)"

definition failure_option :: "Action \<Rightarrow> PreparationFailure \<Rightarrow> SchedulerInstance \<Rightarrow> bool" where
  "failure_option a f i \<longleftrightarrow> si_node i = ac_node a
     \<and> (case si_profile i of None \<Rightarrow> False | Some p \<Rightarrow> pl_id p = fl_profileID f)"

fun failure_nodes :: "Action \<Rightarrow> PreparationFailure \<Rightarrow> SchedulerInstance list \<Rightarrow> SchedulerNode list \<Rightarrow> bool" where
  "failure_nodes a f options [] = True"
| "failure_nodes a f options (n # ns) =
     (if sn_node n \<noteq> ac_node a
      then (if nr_name (sn_node n) = nr_name (ac_node a) \<or> nr_uid (sn_node n) = nr_uid (ac_node a) then False
            else failure_nodes a f options ns)
      else (let found = filter (failure_option a f) options
            in if list_ex (Matches f n) found then True else found = []))"

definition PreparationFailurePresent :: "Action \<Rightarrow> SchedulerSnapshot \<Rightarrow> bool" where
  "PreparationFailurePresent a s \<longleftrightarrow>
     (case ac_preparationFailure a of
        None \<Rightarrow> False
      | Some f \<Rightarrow> failure_nodes a f (map op_instance (ss_options s)) (ss_nodes s))"

definition PreparationFailureReproduces :: "Action \<Rightarrow> Action \<Rightarrow> bool" where
  "PreparationFailureReproduces current previous \<longleftrightarrow>
     (case (ac_preparationFailure current, ac_preparationFailure previous) of
        (Some f, Some old) \<Rightarrow>
          (let c = po_classification (fl_observation f); c0 = po_classification (fl_observation old) in
           ac_id current \<noteq> ac_id previous \<and> fl_podUID f \<noteq> fl_podUID old
           \<and> ac_node current = ac_node previous \<and> c \<noteq> PreparationDeterministic
           \<and> po_reasonKey (fl_observation f) = po_reasonKey (fl_observation old)
           \<and> fl_profileID f = fl_profileID old \<and> fl_allocation f = fl_allocation old
           \<and> fl_profileMemoryBytes f = fl_profileMemoryBytes old
           \<and> fl_runtimeImage f = fl_runtimeImage old \<and> fl_runnerCommand f = fl_runnerCommand old
           \<and> (c = c0 \<or> c = PreparationUnknownTransient \<and> c0 = PreparationPromoted
              \<or> c = PreparationPromoted \<and> c0 = PreparationUnknownTransient))
      | _ \<Rightarrow> False)"

definition ObserveRepeatedPreparationFailure :: "Action \<Rightarrow> Action \<Rightarrow> Action" where
  "ObserveRepeatedPreparationFailure current previous =
     (if \<not> PreparationFailureReproduces current previous then current
      else (case (ac_preparationFailure current, ac_preparationFailure previous) of
          (Some f, Some old) \<Rightarrow>
            (let f1 = f\<lparr>fl_repeatCount := fl_repeatCount old + 1, fl_previousPodUID := fl_podUID old\<rparr>;
                 obs = fl_observation f1
             in current\<lparr>ac_preparationFailure := Some
                  (if po_classification obs = PreparationUnknownTransient
                   then f1\<lparr>fl_observation := obs\<lparr>po_classification := PreparationPromoted\<rparr>\<rparr> else f1)\<rparr>)
        | _ \<Rightarrow> current))"

end
