(* ===== verification/SchedCost.thy ===== *)
theory SchedCost
  imports SchedDemand
begin

text \<open>
  Measured evidence: which measurement stands for an operation or an idle node
  (\<open>scheduler_operation_cost.go\<close>, \<open>scheduler_cost_baseline.go\<close>), what it costs
  (\<open>capacityOperationCost\<close>, \<open>ActionDeadline\<close> of \<open>scheduler_capacity_cost.go\<close>,
  \<open>schedulerCost\<close> of \<open>scheduler_replay_actions.go\<close>) and the lowest power mode of a node
  (\<open>scheduler_plan.go\<close>). A map that is only looked up is a function with the zero value as default.
\<close>

section \<open>Identities\<close>

text \<open>\<open>json.Marshal\<close> of a slice of strings, with HTML escaping and repaired UTF-8.\<close>

definition byte_in :: "nat \<Rightarrow> nat \<Rightarrow> char \<Rightarrow> bool" where
  "byte_in a b c \<longleftrightarrow> a \<le> of_char c \<and> of_char c \<le> b"

definition rune_size :: "string \<Rightarrow> nat" where
  "rune_size s =
     (case s of
        a # b # c # d # _ \<Rightarrow>
          (if byte_in 0xC2 0xDF a \<and> byte_in 0x80 0xBF b then 2
           else if byte_in 0xE0 0xEF a \<and> byte_in (if of_char a = (0xE0::nat) then 0xA0 else 0x80)
             (if of_char a = (0xED::nat) then 0x9F else 0xBF) b \<and> byte_in 0x80 0xBF c then 3
           else if byte_in 0xF0 0xF4 a \<and> byte_in (if of_char a = (0xF0::nat) then 0x90 else 0x80)
             (if of_char a = (0xF4::nat) then 0x8F else 0xBF) b \<and> byte_in 0x80 0xBF c \<and> byte_in 0x80 0xBF d then 4
           else 0)
      | [a, b, c] \<Rightarrow>
          (if byte_in 0xC2 0xDF a \<and> byte_in 0x80 0xBF b then 2
           else if byte_in 0xE0 0xEF a \<and> byte_in (if of_char a = (0xE0::nat) then 0xA0 else 0x80)
             (if of_char a = (0xED::nat) then 0x9F else 0xBF) b \<and> byte_in 0x80 0xBF c then 3 else 0)
      | [a, b] \<Rightarrow> (if byte_in 0xC2 0xDF a \<and> byte_in 0x80 0xBF b then 2 else 0)
      | _ \<Rightarrow> 0)"

definition hex :: "nat \<Rightarrow> char" where
  "hex n = (if n < 10 then char_of (48 + n) else char_of (87 + n))"

definition json_ascii :: "char \<Rightarrow> string" where
  "json_ascii c =
     (if c = CHR 0x22 \<or> c = CHR 0x5C then [CHR 0x5C, c]
      else if c = CHR 0x08 then [CHR 0x5C, CHR ''b'']
      else if c = CHR 0x0C then [CHR 0x5C, CHR ''f'']
      else if c = CHR 0x0A then [CHR 0x5C, CHR ''n'']
      else if c = CHR 0x0D then [CHR 0x5C, CHR ''r'']
      else if c = CHR 0x09 then [CHR 0x5C, CHR ''t'']
      else if of_char c < (0x20::nat) \<or> c = CHR ''<'' \<or> c = CHR ''>'' \<or> c = CHR ''&''
      then CHR 0x5C # ''u00'' @ [hex (of_char c div 16), hex (of_char c mod 16)]
      else [c])"

fun json_chars :: "string \<Rightarrow> string" where
  "json_chars [] = []"
| "json_chars (c # cs) =
     (if of_char c < (0x80::nat) then json_ascii c @ json_chars cs
      else (let n = rune_size (c # cs) in
        if n = 0 then CHR 0x5C # ''ufffd'' @ json_chars cs
        else if take n (c # cs) = [CHR 0xE2, CHR 0x80, CHR 0xA8] then CHR 0x5C # ''u2028'' @ json_chars (drop (n - 1) cs)
        else if take n (c # cs) = [CHR 0xE2, CHR 0x80, CHR 0xA9] then CHR 0x5C # ''u2029'' @ json_chars (drop (n - 1) cs)
        else take n (c # cs) @ json_chars (drop (n - 1) cs)))"

definition json_strings :: "string list \<Rightarrow> string" where
  "json_strings xs = ''['' @ join '','' (map (\<lambda>s. [CHR 0x22] @ json_chars s @ [CHR 0x22]) xs) @ '']''"

definition MeasurementProfileIdentity :: "Profile option \<Rightarrow> string" where
  "MeasurementProfileIdentity profile =
     (case profile of
        None \<Rightarrow> []
      | Some p \<Rightarrow> (let c = pl_condition p in
          json_strings [cd_logicalModel c, at_executionPath (cd_artifact c), cd_runtimeFamily c, cd_backend c]))"

text \<open>\<open>strconv.Atoi\<close>\<close>

definition Atoi :: "string \<Rightarrow> int option" where
  "Atoi s =
     (let negative = (s \<noteq> [] \<and> hd s = CHR ''-'');
          ds = (if s \<noteq> [] \<and> (hd s = CHR ''-'' \<or> hd s = CHR ''+'') then tl s else s);
          n = foldl (\<lambda>v c. 10 * v + (of_char c - 48 :: int)) 0 ds;
          v = (if negative then - n else n)
      in if ds \<noteq> [] \<and> list_all (byte_in 48 57) ds \<and> int64_range v then Some v else None)"

type_synonym lookup = "string \<Rightarrow> string"

definition MeasurementStateIdentity :: "string \<Rightarrow> lookup \<Rightarrow> string" where
  "MeasurementStateIdentity st profiles =
     (let idn = cut_before (CHR '':'') st; rest = drop (Suc (length idn)) st; cell = profiles idn in
      if cell \<noteq> []
      then cell @ '':'' @
        (if 2 \<le> length (filter (\<lambda>c. c = CHR '':'') rest)
         then (case Atoi (rev (takeWhile (\<lambda>c. c \<noteq> CHR '':'') (rev rest))) of
             Some n \<Rightarrow> if 0 < n then Itoa n else ''1'' | None \<Rightarrow> ''1'')
         else ''1'')
      else schedulerCostState st)"

definition measurementStates :: "string list \<Rightarrow> lookup \<Rightarrow> string list" where
  "measurementStates states identities = sort_by string_lt (map (\<lambda>s. MeasurementStateIdentity s identities) states)"

definition measurementEqualState :: "string list \<Rightarrow> string list \<Rightarrow> lookup \<Rightarrow> bool" where
  "measurementEqualState a b identities \<longleftrightarrow>
     list_all (\<lambda>s. identities (cut_before (CHR '':'') s) \<noteq> []) (a @ b)
     \<and> measurementStates a identities = measurementStates b identities"

definition measurementOperationMatches :: "OperationCost \<Rightarrow> Action \<Rightarrow> lookup \<Rightarrow> bool" where
  "measurementOperationMatches cost a identities \<longleftrightarrow>
     (if oc_kind cost = schedulerActionPower then oc_from cost = ac_from a \<and> oc_to cost = ac_to a
      else if oc_kind cost = schedulerActionRemove then measurementEqualState [oc_from cost] [ac_from a] identities
      else measurementEqualState [oc_to cost] [ac_to a] identities)"

definition put_all :: "(string \<times> string) list \<Rightarrow> lookup \<Rightarrow> lookup" where
  "put_all kvs m = foldl (\<lambda>m (k, v). m(k := v)) m kvs"

definition add_identity :: "lookup \<Rightarrow> SchedulerInstance \<Rightarrow> lookup" where
  "add_identity m i =
     (case si_profile i of None \<Rightarrow> m | Some p \<Rightarrow> m(pl_id p := MeasurementProfileIdentity (Some p)))"

definition schedulerMeasurementIdentities :: "OperationCost list \<Rightarrow> NodeBaseline list
    \<Rightarrow> SchedulerInstance list \<Rightarrow> SchedulerOption list \<Rightarrow> SchedulerInstance list \<Rightarrow> lookup" where
  "schedulerMeasurementIdentities costs baselines instances options targets =
     foldl add_identity
       (foldl (\<lambda>m b. put_all (nb_stateIdentities b) m)
         (foldl (\<lambda>m c. put_all (oc_stateIdentities c) m) (\<lambda>_. []) costs) baselines)
       (instances @ map op_instance options @ targets)"

definition add_class :: "lookup \<Rightarrow> SchedulerInstance \<Rightarrow> lookup" where
  "add_class m i =
     (case si_profile i of None \<Rightarrow> m | Some p \<Rightarrow> m(nr_uid (si_node i) := cd_deviceClass (pl_condition p)))"

definition measurementDeviceClasses ::
  "SchedulerOption list \<Rightarrow> SchedulerInstance list \<Rightarrow> SchedulerInstance list \<Rightarrow> lookup" where
  "measurementDeviceClasses options instances targets =
     foldl add_class (\<lambda>_. []) (map op_instance options @ instances @ targets)"

section \<open>Preference among measurements\<close>

definition measurementRank :: "string \<Rightarrow> string \<Rightarrow> string \<Rightarrow> string \<Rightarrow> bool \<Rightarrow> nat" where
  "measurementRank node class targetNode targetClass exact =
     (if node = targetNode then (if exact then 0 else 1)
      else if class \<noteq> [] \<and> class = targetClass then 2 else 3)"

definition measurementSource :: "nat \<Rightarrow> string" where
  "measurementSource rank =
     [operationSourceExact, operationSourceNode, operationSourceDeviceClass, operationSourceDefault] ! rank"

definition measurementPreferred :: "nat \<Rightarrow> instant \<Rightarrow> string \<Rightarrow> nat \<Rightarrow> instant \<Rightarrow> string \<Rightarrow> bool" where
  "measurementPreferred rank t idn oldRank oldT oldID \<longleftrightarrow>
     rank < oldRank \<or> rank = oldRank \<and> (oldT < t \<or> t = oldT \<and> string_lt idn oldID)"

text \<open>A measurement as a candidate: its rank, when it was made and its ID.\<close>

definition cost_preferred :: "nat \<times> OperationCost \<Rightarrow> nat \<times> OperationCost \<Rightarrow> bool" where
  "cost_preferred x y \<longleftrightarrow> measurementPreferred (fst x) (oc_measuredAt (snd x)) (oc_id (snd x))
     (fst y) (oc_measuredAt (snd y)) (oc_id (snd y))"

definition baseline_preferred :: "nat \<times> NodeBaseline \<Rightarrow> nat \<times> NodeBaseline \<Rightarrow> bool" where
  "baseline_preferred x y \<longleftrightarrow> measurementPreferred (fst x) (nb_measuredAt (snd x)) (nb_id (snd x))
     (fst y) (nb_measuredAt (snd y)) (nb_id (snd y))"

lemma preferred_asym:
  "measurementPreferred r t i r' t' i' \<Longrightarrow> \<not> measurementPreferred r' t' i' r t i"
  unfolding measurementPreferred_def using string_lt_asym [of i i'] by linarith

lemma preferred_neg_trans:
  assumes "\<not> measurementPreferred r t i r' t' i'" "\<not> measurementPreferred r' t' i' r'' t'' i''"
  shows "\<not> measurementPreferred r t i r'' t'' i''"
proof
  assume pref: "measurementPreferred r t i r'' t'' i''"
  note defs = measurementPreferred_def
  have "r' \<le> r" "r'' \<le> r'" "r \<le> r''"
    using assms pref unfolding defs by linarith+
  then have r: "r' = r" "r'' = r" by simp_all
  have "t \<le> t'" "t' \<le> t''" "t'' \<le> t"
    using assms pref unfolding defs r by linarith+
  then have t: "t' = t" "t'' = t" by simp_all
  have "\<not> string_lt i i'" "\<not> string_lt i' i''" "string_lt i i''"
    using assms pref unfolding defs r t by simp_all
  then show False using string_order.neg_trans [OF TrueI TrueI TrueI] by blast
qed

interpretation cost_order: selection "\<lambda>_. True" cost_preferred
proof unfold_locales
  fix x y z :: "nat \<times> OperationCost"
  show "cost_preferred x y \<Longrightarrow> \<not> cost_preferred y x"
    unfolding cost_preferred_def by (rule preferred_asym)
  show "\<not> cost_preferred x y \<Longrightarrow> \<not> cost_preferred y z \<Longrightarrow> \<not> cost_preferred x z"
    unfolding cost_preferred_def by (rule preferred_neg_trans)
qed

interpretation baseline_order: selection "\<lambda>_. True" baseline_preferred
proof unfold_locales
  fix x y z :: "nat \<times> NodeBaseline"
  show "baseline_preferred x y \<Longrightarrow> \<not> baseline_preferred y x"
    unfolding baseline_preferred_def by (rule preferred_asym)
  show "\<not> baseline_preferred x y \<Longrightarrow> \<not> baseline_preferred y z \<Longrightarrow> \<not> baseline_preferred x z"
    unfolding baseline_preferred_def by (rule preferred_neg_trans)
qed

section \<open>Costs\<close>

definition actionDefaultCost :: "(f64 \<Rightarrow> int) \<Rightarrow> Action \<Rightarrow> OperationCost option" where
  "actionDefaultCost oor a =
     (case ac_costProvenance a of
        None \<Rightarrow> None
      | Some pr \<Rightarrow>
          (case op_value pr of
             None \<Rightarrow> None
           | Some v \<Rightarrow>
               if op_source pr \<noteq> operationSourceDefault then None
               else
                 (let d = f_to_int64 oor (f_mul (ov_seconds v) (f_of_int 1000000000));
                      outlived = ac_status a = phaseRunning \<and> d \<le> ac_elapsed a;
                      joules = (if outlived
                        then f_mul (ov_joules v) (f_add (f_of_int 1) (f_div (f_of_int (ac_elapsed a)) (f_of_int d)))
                        else ov_joules v);
                      dur = (if outlived then wrap64 (d + ac_elapsed a) else d)
                  in Some \<lparr>oc_id = ''settings.defaultOperationCost.'' @ ac_kind a, oc_node = ac_node a,
                       oc_deviceClass = [], oc_kind = ac_kind a, oc_from = ac_from a, oc_to = ac_to a,
                       oc_trials = [\<lparr>ot_duration = dur, ot_joules = joules, ot_energyUncertaintyJoules = f_zero\<rparr>],
                       oc_energyScope = schedulerWholeWall, oc_subtractedWatts = None, oc_meter = [],
                       oc_scope = schedulerNodeWallScope,
                       oc_reference = \<lparr>oi_store = [], oi_key = [], oi_size = 0\<rparr>, oc_powerMode = [],
                       oc_beforeState = [], oc_targetState = [], oc_measuredAt = 0, oc_stateIdentities = []\<rparr>)))"

definition schedulerCost :: "OperationCost list \<Rightarrow> string \<Rightarrow> OperationCost option" where
  "schedulerCost costs idn = find (\<lambda>c. oc_id c = idn) costs"

text \<open>One trial: mean and longest seconds and mean joules so far, or a trial that voids the cost.\<close>

definition trial_step :: "OperationCost \<Rightarrow> (f64 \<times> f64 \<times> f64) option \<Rightarrow> OperationTrial
    \<Rightarrow> (f64 \<times> f64 \<times> f64) option" where
  "trial_step cost acc t =
     (case acc of
        None \<Rightarrow> None
      | Some (mean, longest, joules) \<Rightarrow>
          (let d = Duration_Seconds (ot_duration t); n = f_of_int (int (length (oc_trials cost)));
               j = (case oc_subtractedWatts cost of
                   Some w \<Rightarrow> if oc_energyScope cost = schedulerTargetBaselineDelta
                     then f_add (ot_joules t) (f_mul w d) else ot_joules t
                 | None \<Rightarrow> ot_joules t)
           in if f_leq d f_zero \<or> \<not> schedulerFinite (ot_joules t)
                \<or> \<not> schedulerValidHalfWidth (ot_energyUncertaintyJoules t)
              then None
              else Some (f_add mean (f_div d n), f_max longest d, f_add joules (f_div j n))))"

definition capacityOperationCost :: "OperationCost option \<Rightarrow> (f64 \<times> f64 \<times> f64) option" where
  "capacityOperationCost c =
     (case c of
        None \<Rightarrow> None
      | Some cost \<Rightarrow>
          if oc_meter cost = [] \<or> oc_scope cost \<noteq> schedulerNodeWallScope \<or> oc_trials cost = [] then None
          else if oc_energyScope cost = schedulerTargetBaselineDelta
              \<and> (case oc_subtractedWatts cost of None \<Rightarrow> True | Some w \<Rightarrow> \<not> schedulerFinite w)
            \<or> oc_energyScope cost \<noteq> schedulerWholeWall \<and> oc_energyScope cost \<noteq> schedulerTargetBaselineDelta
          then None
          else foldl (trial_step cost) (Some (f_zero, f_zero, f_zero)) (oc_trials cost))"

definition default_value :: "SchedulerSettings \<Rightarrow> string \<Rightarrow> OperationCostValue" where
  "default_value st kind =
     (case map_of (st_defaultOperationCost st) kind of
        None \<Rightarrow> \<lparr>ov_seconds = f_zero, ov_joules = f_zero\<rparr> | Some v \<Rightarrow> v)"

definition actionOperationCost ::
  "(f64 \<Rightarrow> int) \<Rightarrow> SchedulerSettings \<Rightarrow> OperationCost list \<Rightarrow> Action \<Rightarrow> f64 \<times> f64 \<times> f64" where
  "actionOperationCost oor st costs a =
     (case actionDefaultCost oor a of
        Some c \<Rightarrow> (let t = hd (oc_trials c); s = Duration_Seconds (ot_duration t) in (s, s, ot_joules t))
      | None \<Rightarrow>
          (case capacityOperationCost (schedulerCost costs (ac_costID a)) of
             Some r \<Rightarrow> r
           | None \<Rightarrow> (let v = default_value st (ac_kind a) in (ov_seconds v, ov_seconds v, ov_joules v))))"

definition ActionDeadline :: "(f64 \<Rightarrow> int) \<Rightarrow> duration \<Rightarrow> OperationCost list \<Rightarrow> Action \<Rightarrow> duration" where
  "ActionDeadline oor window costs a =
     (let l0 = (case actionDefaultCost oor a of None \<Rightarrow> 0 | Some c \<Rightarrow> ot_duration (hd (oc_trials c)));
          l1 = (case schedulerCost costs (ac_costID a) of None \<Rightarrow> l0
              | Some c \<Rightarrow> foldl (\<lambda>l t. max l (ot_duration t)) l0 (oc_trials c))
      in wrap64 (l1 + window))"

section \<open>Idle power\<close>

definition idle_valid :: "NodeBaseline \<Rightarrow> bool" where
  "idle_valid b \<longleftrightarrow> nb_scope b = schedulerNodeWallScope \<and> nb_meter b \<noteq> [] \<and> schedulerFinite (nb_watts b)
     \<and> \<not> f_less (nb_watts b) f_zero \<and> schedulerValidHalfWidth (nb_wattsUncertainty b) \<and> nb_id b \<noteq> []
     \<and> ObjectIdentity_valid (nb_reference b)"

definition baseline_rank :: "SchedulerNode \<Rightarrow> string list \<Rightarrow> lookup \<Rightarrow> lookup \<Rightarrow> NodeBaseline \<Rightarrow> nat" where
  "baseline_rank n state identities classes b =
     measurementRank (nr_uid (nb_node b))
       (if nb_deviceClass b = [] then classes (nr_uid (nb_node b)) else nb_deviceClass b)
       (nr_uid (sn_node n)) (classes (nr_uid (sn_node n)))
       (nb_powerMode b = sn_powerMode n \<and> measurementEqualState (nb_state b) state identities)"

definition unloaded_here :: "SchedulerNode \<Rightarrow> NodeBaseline \<Rightarrow> bool" where
  "unloaded_here n b \<longleftrightarrow> nr_uid (nb_node b) = nr_uid (sn_node n) \<and> nb_powerMode b = sn_powerMode n \<and> nb_state b = []"

text \<open>The unloaded baseline of the node at its mode and the preferred one of any rank.\<close>

definition selectIdleMeasurements :: "NodeBaseline list \<Rightarrow> SchedulerNode \<Rightarrow> string list \<Rightarrow> lookup \<Rightarrow> lookup
    \<Rightarrow> NodeBaseline option \<times> (nat \<times> NodeBaseline) option" where
  "selectIdleMeasurements baselines n state identities classes =
     foldl (\<lambda>(unloaded, selected) b.
         if \<not> idle_valid b then (unloaded, selected)
         else
           (let rank = baseline_rank n state identities classes b in
            (if unloaded_here n b
             then map_option snd (keep_best baseline_preferred (map_option (Pair 0) unloaded) (0, b)) else unloaded,
             if rank < 3 then keep_best baseline_preferred selected (rank, b) else selected)))
       (None, None) baselines"

definition idle_preferred :: "SchedulerInstance \<times> Profile \<Rightarrow> SchedulerInstance \<times> Profile \<Rightarrow> bool" where
  "idle_preferred x y \<longleftrightarrow> pl_measuredAt (snd y) < pl_measuredAt (snd x)
     \<or> pl_measuredAt (snd x) = pl_measuredAt (snd y) \<and> string_lt (pl_id (snd x)) (pl_id (snd y))"

definition idle_option :: "SchedulerInstance \<Rightarrow> Profile \<Rightarrow> string \<Rightarrow> SchedulerOption
    \<Rightarrow> (SchedulerInstance \<times> Profile) option" where
  "idle_option i p mode x =
     (let j = op_instance x in
      case si_profile j of
        None \<Rightarrow> None
      | Some q \<Rightarrow>
          if nr_uid (si_node j) \<noteq> nr_uid (si_node i) \<or> cd_powerMode (pl_condition q) \<noteq> mode
             \<or> MeasurementProfileIdentity (Some q) \<noteq> MeasurementProfileIdentity (Some p)
          then None else Some (j, q))"

definition schedulerIdleAtMode :: "SchedulerInstance \<Rightarrow> string \<Rightarrow> SchedulerOption list
    \<Rightarrow> (SchedulerInstance \<times> Profile) option" where
  "schedulerIdleAtMode i mode options =
     (case si_profile i of
        None \<Rightarrow> None
      | Some p \<Rightarrow>
          if cd_powerMode (pl_condition p) = mode then Some (i, p)
          else scan_best idle_preferred None (List.map_filter (idle_option i p mode) options))"

definition idle_step :: "NodeBaseline \<Rightarrow> string \<Rightarrow> SchedulerOption list
    \<Rightarrow> (f64 \<times> string list) option \<Rightarrow> SchedulerInstance \<Rightarrow> (f64 \<times> string list) option" where
  "idle_step unloaded mode options acc i =
     (case (acc, schedulerIdleAtMode i mode options) of
        (Some (watts, sources), Some (j, p)) \<Rightarrow>
          if \<not> schedulerFinite (pl_idleBaselineWatts p) \<or> f_less (pl_idleBaselineWatts p) f_zero
             \<or> si_idleMeter j \<noteq> nb_meter unloaded \<or> si_idleScope j \<noteq> schedulerNodeWallScope
          then None
          else Some (f_add watts (f_sub (pl_idleBaselineWatts p) (nb_watts unloaded)), appendUnique sources [pl_id p])
      | _ \<Rightarrow> None)"

definition reconstructIdlePower :: "NodeBaseline \<Rightarrow> SchedulerInstance list \<Rightarrow> string \<Rightarrow> SchedulerOption list
    \<Rightarrow> IdlePowerProvenance option" where
  "reconstructIdlePower unloaded instances mode options =
     (case foldl (idle_step unloaded mode options) (Some (nb_watts unloaded, [nb_id unloaded])) instances of
        None \<Rightarrow> None
      | Some (watts, sources) \<Rightarrow>
          if \<not> schedulerFinite watts \<or> f_less watts f_zero then None
          else Some \<lparr>iv_source = operationSourceExact, iv_watts = watts, iv_references = sources, iv_reconstructed = True\<rparr>)"

definition zero_idle :: IdlePowerDefault where
  "zero_idle = \<lparr>ip_nodeWatts = f_zero, ip_perInstanceWatts = f_zero\<rparr>"

text \<open>
  Watts, meter, provenance and assumptions. \<open>settings.DefaultIdlePower\<close> is not nil in valid
  settings; a nil one, on which the code panics, is None.
\<close>

definition schedulerBaseline :: "SchedulerSettings \<Rightarrow> NodeBaseline list \<Rightarrow> SchedulerNode
    \<Rightarrow> SchedulerInstance list \<Rightarrow> SchedulerOption list
    \<Rightarrow> (f64 \<times> string \<times> IdlePowerProvenance \<times> string list) option" where
  "schedulerBaseline st baselines n instances options =
     (let identities = schedulerMeasurementIdentities [] baselines instances options [];
          classes = measurementDeviceClasses options instances [];
          sel = selectIdleMeasurements baselines n (map schedulerState instances) identities classes;
          rebuilt = (case fst sel of None \<Rightarrow> None
            | Some u \<Rightarrow> map_option (Pair u) (reconstructIdlePower u instances (sn_powerMode n) options));
          direct = (\<lambda>rank b. \<lparr>iv_source = measurementSource rank, iv_watts = nb_watts b,
            iv_references = [nb_id b], iv_reconstructed = False\<rparr>)
      in case (snd sel, rebuilt) of
           (Some (0, b), _) \<Rightarrow> Some (nb_watts b, nb_meter b, direct 0 b, [])
         | (_, Some (u, v)) \<Rightarrow> Some (iv_watts v, nb_meter u, v,
             [''derived unloaded baseline plus measured per-instance idle increments; coexistence interaction unmeasured''])
         | (Some (rank, b), None) \<Rightarrow>
             Some (nb_watts b,
               (if rank = 2 then ''estimate:'' @ nr_uid (sn_node n) @ '':'' @ nb_meter b else nb_meter b), direct rank b,
               [''nearest idle measurement transferred to target cell; not an exact target measurement''])
         | (None, None) \<Rightarrow>
             (case st_defaultIdlePower st of
                None \<Rightarrow> None
              | Some d \<Rightarrow>
                  (let watts = f_add (ip_nodeWatts d)
                         (f_mul (f_of_int (int (length instances))) (ip_perInstanceWatts d))
                   in Some (watts, ''default:'' @ nr_uid (sn_node n),
                        \<lparr>iv_source = operationSourceDefault, iv_watts = watts, iv_references = [], iv_reconstructed = False\<rparr>,
                        [''configured idle-power estimate replaces absent or incompatible baseline measurement; not measured'']))))"

section \<open>The lowest power mode\<close>

definition mode_valid :: "NodeReference \<Rightarrow> (string \<Rightarrow> bool) \<Rightarrow> NodeBaseline \<Rightarrow> bool" where
  "mode_valid node accepts b \<longleftrightarrow> nb_node b = node \<and> nb_state b = [] \<and> nb_scope b = schedulerNodeWallScope
     \<and> nb_meter b \<noteq> [] \<and> schedulerFinite (nb_watts b) \<and> \<not> f_less (nb_watts b) f_zero \<and> nb_id b \<noteq> []
     \<and> ObjectIdentity_valid (nb_reference b) \<and> accepts (nb_powerMode b)"

fun keep_latest :: "NodeBaseline \<Rightarrow> (string \<times> NodeBaseline) list \<Rightarrow> (string \<times> NodeBaseline) list" where
  "keep_latest b [] = [(nb_powerMode b, b)]"
| "keep_latest b ((m, c) # rest) =
     (if m = nb_powerMode b then (m, if nb_measuredAt c < nb_measuredAt b then b else c) # rest
      else (m, c) # keep_latest b rest)"

definition lower_mode :: "(string \<times> NodeBaseline) list \<Rightarrow> string \<Rightarrow> string \<times> NodeBaseline \<Rightarrow> string" where
  "lower_mode latest lowest mb =
     (case map_of latest lowest of
        None \<Rightarrow> fst mb
      | Some l \<Rightarrow> if lowest = [] \<or> f_less (nb_watts (snd mb)) (nb_watts l)
            \<or> f_eq (nb_watts (snd mb)) (nb_watts l) \<and> string_lt (fst mb) lowest
          then fst mb else lowest)"

definition SchedulerLowestModeMatching :: "NodeBaseline list \<Rightarrow> NodeReference \<Rightarrow> (string \<Rightarrow> bool) \<Rightarrow> string" where
  "SchedulerLowestModeMatching baselines node accepts =
     (let latest = foldl (\<lambda>m b. if mode_valid node accepts b then keep_latest b m else m) [] baselines
      in foldl (lower_mode latest) [] latest)"

definition SchedulerLowestMode :: "NodeBaseline list \<Rightarrow> NodeReference \<Rightarrow> string" where
  "SchedulerLowestMode baselines node = SchedulerLowestModeMatching baselines node (\<lambda>_. True)"

end
