(* ===== verification/SchedPlan.thy ===== *)
theory SchedPlan
  imports SchedCost
begin

text \<open>
  The action graph of a candidate (\<open>scheduler_plan.go\<close>): power changes, preparations, the
  route change and the retirement of what the candidate no longer has, each action with the
  actions it waits for and the measured cost that stands for it.
\<close>

section \<open>The state of a plan\<close>

record schedulerPlanState =
  pn_settings :: SchedulerSettings
  pn_snap :: SchedulerSnapshot
  pn_target :: "SchedulerCandidate option"
  pn_actions :: "Action list"
  pn_nodeTail :: lookup
  pn_prepares :: "string list"
  pn_stops :: lookup
  pn_reasons :: "string list"

definition new_plan :: "SchedulerSettings \<Rightarrow> SchedulerSnapshot \<Rightarrow> SchedulerCandidate option \<Rightarrow> Action list
    \<Rightarrow> schedulerPlanState" where
  "new_plan st s c actions = \<lparr>pn_settings = st, pn_snap = s, pn_target = c, pn_actions = actions,
     pn_nodeTail = (\<lambda>_. []), pn_prepares = [], pn_stops = (\<lambda>_. []), pn_reasons = []\<rparr>"

definition target_instances :: "schedulerPlanState \<Rightarrow> SchedulerInstance list" where
  "target_instances p = (case pn_target p of None \<Rightarrow> [] | Some c \<Rightarrow> sc_instances c)"

definition zero_node :: NodeReference where
  "zero_node = \<lparr>nr_name = [], nr_uid = []\<rparr>"

text \<open>Nanoseconds since the Unix epoch.\<close>

definition UnixNano :: "instant \<Rightarrow> int" where
  "UnixNano t = t - 62135596800000000000"

definition action_id :: "string \<Rightarrow> string \<Rightarrow> string \<Rightarrow> instant \<Rightarrow> nat \<Rightarrow> string" where
  "action_id kind uid inst t n =
     kind @ ''-'' @ uid @ ''-'' @ inst @ ''-'' @ Itoa (UnixNano t) @ ''-'' @ digits n"

section \<open>Effects that are already there\<close>

definition maps_equal :: "('v \<Rightarrow> 'v \<Rightarrow> bool) \<Rightarrow> (string \<times> 'v) list \<Rightarrow> (string \<times> 'v) list \<Rightarrow> bool" where
  "maps_equal eq a b \<longleftrightarrow> length a = length b
     \<and> list_all (\<lambda>(k, v). case map_of b k of None \<Rightarrow> False | Some w \<Rightarrow> eq v w) a"

definition target_weight :: "SchedulerCandidate \<Rightarrow> SchedulerInstance \<Rightarrow> int" where
  "target_weight c i =
     (case map_of (sc_routing c) (si_workloadUID i) of None \<Rightarrow> 0 | Some rt \<Rightarrow> route_weight rt (si_id i))"

definition routeEffectPresent :: "schedulerPlanState \<Rightarrow> bool" where
  "routeEffectPresent p \<longleftrightarrow>
     (case pn_target p of
        None \<Rightarrow> False
      | Some c \<Rightarrow>
          maps_equal (maps_equal (=)) (ss_routing (pn_snap p)) (sc_routing c)
          \<and> list_all (\<lambda>wanted. si_terminated wanted \<and> target_weight c wanted \<le> 0
              \<or> list_ex (\<lambda>actual. schedulerSnapshotTargetMatches actual wanted
                    \<or> \<not> si_ready actual \<and> \<not> si_stopped actual \<and> schedulerSamePhysicalTarget actual wanted)
                  (ss_instances (pn_snap p))) (sc_instances c))"

definition outstanding_at :: "SchedulerSnapshot \<Rightarrow> string \<Rightarrow> bool" where
  "outstanding_at s inst \<longleftrightarrow> list_ex (\<lambda>r. sr_instance r = inst) (ss_outstanding s)"

definition completedEffectPresent :: "schedulerPlanState \<Rightarrow> Action \<Rightarrow> bool" where
  "completedEffectPresent p a \<longleftrightarrow>
     (let s = pn_snap p in
      if ac_kind a = schedulerActionPrepare
      then list_ex (\<lambda>i. si_id i = ac_instance a \<and> si_node i = ac_node a \<and> \<not> si_stopped i
             \<and> schedulerState i = ac_to a) (ss_instances s)
      else if ac_kind a = schedulerActionRoute then routeEffectPresent p
      else if ac_kind a = schedulerActionStop \<or> ac_kind a = schedulerActionDrain
      then \<not> schedulerInstanceRouted (ss_routing s) (ac_instance a)
        \<and> \<not> list_ex (\<lambda>i. si_id i = ac_instance a \<and> (si_node i \<noteq> ac_node a \<or> \<not> si_stopped i)) (ss_instances s)
        \<and> (ac_kind a = schedulerActionStop \<or> \<not> outstanding_at s (ac_instance a))
      else if ac_kind a = schedulerActionRemove
      then ac_status a = schedulerActionComplete
        \<and> \<not> list_ex (\<lambda>i. si_id i = ac_instance a) (ss_instances s)
        \<and> \<not> outstanding_at s (ac_instance a) \<and> \<not> schedulerInstanceRouted (ss_routing s) (ac_instance a)
      else if ac_kind a = schedulerActionPower
      then schedulerNodeMode (ss_nodes s) (ac_node a) = ac_to a
      else False)"

section \<open>Adding an action\<close>

definition physical_kind :: "string \<Rightarrow> bool" where
  "physical_kind kind \<longleftrightarrow> kind = schedulerActionPrepare \<or> kind = schedulerActionRemove \<or> kind = schedulerActionPower"

definition same_operation :: "Action \<Rightarrow> Action \<Rightarrow> bool" where
  "same_operation old a \<longleftrightarrow> ac_kind old = ac_kind a \<and> ac_node old = ac_node a
     \<and> ac_instance old = ac_instance a \<and> ac_from old = ac_from a \<and> ac_to old = ac_to a"

definition prerequisite_step :: "Action \<Rightarrow> Action \<Rightarrow> Action" where
  "prerequisite_step a old =
     (if ac_status old \<noteq> phaseRunning \<or> same_operation old a then a
      else if nr_uid (ac_node a) \<noteq> [] \<and> ac_node old = ac_node a \<and> ac_id old \<notin> set (ac_dependsOn a)
      then a\<lparr>ac_dependsOn := ac_dependsOn a @ [ac_id old]\<rparr> else a)"

definition addRunningPrerequisites :: "SchedulerSnapshot \<Rightarrow> Action \<Rightarrow> Action" where
  "addRunningPrerequisites s a = foldl prerequisite_step a (ss_actions s)"

definition reusable :: "schedulerPlanState \<Rightarrow> Action \<Rightarrow> Action \<Rightarrow> bool" where
  "reusable p a old \<longleftrightarrow> same_operation old a
     \<and> (ac_status old = schedulerActionPlanned \<or> ac_status old = phaseRunning
        \<or> ac_status old = schedulerActionComplete)
     \<and> \<not> (ac_status old = schedulerActionComplete \<and> \<not> completedEffectPresent p old)"

definition reuse :: "Action \<Rightarrow> Action \<Rightarrow> Action" where
  "reuse a old = a\<lparr>ac_id := ac_id old, ac_status := ac_status old, ac_elapsed := ac_elapsed old,
     ac_cancelable := ac_cancelable old, ac_reason := ac_reason old,
     ac_expectedSeconds := ac_expectedSeconds old, ac_expectedSource := ac_expectedSource old,
     ac_costProvenance := ac_costProvenance old,
     ac_costID := (if ac_costID old \<noteq> [] then ac_costID old else ac_costID a)\<rparr>"

definition new_action :: "string \<Rightarrow> string \<Rightarrow> NodeReference \<Rightarrow> string \<Rightarrow> string \<Rightarrow> string \<Rightarrow> string list \<Rightarrow> Action" where
  "new_action idn kind node inst from to deps =
     \<lparr>ac_id = idn, ac_kind = kind, ac_node = node, ac_instance = inst, ac_from = from, ac_to = to,
      ac_dependsOn = deps, ac_costID = [], ac_costProvenance = None, ac_expectedSeconds = None,
      ac_expectedSource = None, ac_routeTarget = None, ac_fixed = False, ac_status = schedulerActionPlanned,
      ac_elapsed = 0, ac_cancelable = False, ac_reason = [], ac_preparationFailure = None\<rparr>"

text \<open>The action \<open>add\<close> builds, and the one it appends.\<close>

definition waiting_action :: "schedulerPlanState \<Rightarrow> string \<Rightarrow> NodeReference \<Rightarrow> string \<Rightarrow> string \<Rightarrow> string
    \<Rightarrow> string list \<Rightarrow> Action" where
  "waiting_action p kind node inst from to deps =
     (let tail = pn_nodeTail p (nr_uid node);
          idn = action_id kind (nr_uid node) inst (ss_at (pn_snap p)) (length (pn_actions p))
      in addRunningPrerequisites (pn_snap p) (new_action idn kind node inst from to
           (deps @ (if physical_kind kind \<and> tail \<noteq> [] then [tail] else []))))"

definition built_action :: "schedulerPlanState \<Rightarrow> string \<Rightarrow> NodeReference \<Rightarrow> string \<Rightarrow> string \<Rightarrow> string
    \<Rightarrow> string list \<Rightarrow> Action" where
  "built_action p kind node inst from to deps =
     (let a = waiting_action p kind node inst from to deps
      in case find (reusable p a) (ss_actions (pn_snap p)) of None \<Rightarrow> a | Some old \<Rightarrow> reuse a old)"

definition plan_add :: "schedulerPlanState \<Rightarrow> string \<Rightarrow> NodeReference \<Rightarrow> string \<Rightarrow> string \<Rightarrow> string
    \<Rightarrow> string list \<Rightarrow> schedulerPlanState \<times> string" where
  "plan_add p kind node inst from to deps =
     (let a = built_action p kind node inst from to deps
      in (p\<lparr>pn_nodeTail := (if physical_kind kind then (pn_nodeTail p)(nr_uid node := ac_id a) else pn_nodeTail p),
            pn_actions := pn_actions p @ [a]\<rparr>, ac_id a))"

definition add_reason :: "string \<Rightarrow> NodeReference \<Rightarrow> schedulerPlanState \<Rightarrow> schedulerPlanState" where
  "add_reason reason node p =
     p\<lparr>pn_reasons := appendUnique (pn_reasons p) [reason @ '':'' @ nr_name node @ '':'' @ nr_uid node]\<rparr>"

definition set_last :: "(Action \<Rightarrow> Action) \<Rightarrow> schedulerPlanState \<Rightarrow> schedulerPlanState" where
  "set_last f p = p\<lparr>pn_actions := butlast (pn_actions p) @ [f (last (pn_actions p))]\<rparr>"

section \<open>Power changes\<close>

definition remove_step :: "NodeReference \<Rightarrow> string list \<Rightarrow> schedulerPlanState \<Rightarrow> SchedulerInstance
    \<Rightarrow> schedulerPlanState" where
  "remove_step node deps p i =
     (if si_node i = node
      then fst (plan_add p schedulerActionRemove node (si_id i) (schedulerState i) ''unloaded'' deps) else p)"

definition removeNodeInstances :: "schedulerPlanState \<Rightarrow> NodeReference \<Rightarrow> string list \<Rightarrow> schedulerPlanState" where
  "removeNodeInstances p node deps = foldl (remove_step node deps) p (ss_instances (pn_snap p))"

definition stop_and_drain :: "schedulerPlanState \<Rightarrow> SchedulerInstance \<Rightarrow> string list
    \<Rightarrow> schedulerPlanState \<times> string \<times> string" where
  "stop_and_drain p i deps =
     (case plan_add p schedulerActionStop (si_node i) (si_id i) [] [] deps of
        (p1, st) \<Rightarrow> (case plan_add p1 schedulerActionDrain (si_node i) (si_id i) [] [] [st] of
          (p2, dr) \<Rightarrow> (p2, st, dr)))"

definition drain_step :: "NodeReference \<Rightarrow> schedulerPlanState \<times> string list \<Rightarrow> SchedulerInstance
    \<Rightarrow> schedulerPlanState \<times> string list" where
  "drain_step node acc i =
     (if si_node i = node
      then (case stop_and_drain (fst acc) i [] of
          (p, st, dr) \<Rightarrow> (p\<lparr>pn_stops := (pn_stops p)(si_id i := st)\<rparr>, snd acc @ [dr]))
      else acc)"

definition authorized_lowering :: "SchedulerSnapshot \<Rightarrow> NodeReference \<Rightarrow> Action option" where
  "authorized_lowering s node =
     find (\<lambda>a. ac_fixed a \<and> ac_node a = node
         \<and> (ac_status a = schedulerActionPlanned \<or> ac_status a = phaseRunning)) (ss_actions s)"

definition keep_lowering :: "schedulerPlanState \<Rightarrow> SchedulerNode \<Rightarrow> schedulerPlanState \<times> string" where
  "keep_lowering p old =
     (case authorized_lowering (pn_snap p) (sn_node old) of
        None \<Rightarrow> (p, sn_powerMode old)
      | Some a \<Rightarrow> (set_last (\<lambda>x. x\<lparr>ac_fixed := True\<rparr>)
            (fst (plan_add p schedulerActionPower (sn_node old) [] (ac_from a) (ac_to a) [])), ac_to a))"

definition hosts :: "SchedulerCandidate \<Rightarrow> NodeReference \<Rightarrow> bool" where
  "hosts c node \<longleftrightarrow> list_ex (\<lambda>i. si_node i = node) (sc_instances c)"

definition empty_saving :: "schedulerPlanState \<Rightarrow> SchedulerCandidate \<Rightarrow> SchedulerNode \<Rightarrow> SchedulerNode \<Rightarrow> bool" where
  "empty_saving p c n old \<longleftrightarrow> schedulerAvailable (pn_snap p) old \<and> \<not> hosts c (sn_node n)
     \<and> sn_powerMode n = SchedulerLowestMode (ss_baselines (pn_snap p)) (sn_node n)"

definition add_prepare :: "schedulerPlanState \<Rightarrow> string \<Rightarrow> schedulerPlanState" where
  "add_prepare p idn = p\<lparr>pn_prepares := pn_prepares p @ [idn]\<rparr>"

text \<open>The power action, unless the mode is already the one wanted, and what waits for it.\<close>

definition add_power :: "schedulerPlanState \<Rightarrow> SchedulerNode \<Rightarrow> string \<Rightarrow> bool \<Rightarrow> string list
    \<Rightarrow> schedulerPlanState \<times> string list" where
  "add_power p n from saving deps =
     (if sn_powerMode n \<noteq> from
      then (case plan_add p schedulerActionPower (sn_node n) [] from (sn_powerMode n) deps of
          (q, dep) \<Rightarrow> (set_last (\<lambda>x. x\<lparr>ac_fixed := saving\<rparr>) q, [dep]))
      else (p, deps))"

text \<open>The route waits for the node, unless its last change is an empty lowering.\<close>

definition await_node :: "schedulerPlanState \<Rightarrow> SchedulerCandidate \<Rightarrow> NodeReference \<Rightarrow> string list
    \<Rightarrow> schedulerPlanState" where
  "await_node p c node drains =
     (let tail = pn_nodeTail p (nr_uid node) in
      if tail \<noteq> [] \<and> (hosts c node \<or> drains \<noteq> [] \<or> \<not> ac_fixed (last (pn_actions p)))
      then add_prepare p tail else p)"

text \<open>
  The actions of one power change, after the checks of \<open>changeNodes\<close>: a mode reached by a
  reboot removes the instances first, any other keeps them until the mode is proved.
\<close>

definition switch_power :: "schedulerPlanState \<Rightarrow> SchedulerCandidate \<Rightarrow> SchedulerNode \<Rightarrow> SchedulerNode
    \<Rightarrow> string \<Rightarrow> schedulerPlanState" where
  "switch_power p c n old from =
     (let node = sn_node n;
          saving = empty_saving p c n old;
          reboot = list_ex (\<lambda>f. rb_from f = from \<and> rb_to f = sn_powerMode n) (sn_reboots old);
          drained = foldl (drain_step node) (p, []) (ss_instances (pn_snap p));
          p3 = (if reboot then removeNodeInstances (fst drained) node (snd drained) else fst drained);
          powered = add_power p3 n from saving (snd drained);
          p5 = (if reboot then fst powered else removeNodeInstances (fst powered) node (snd powered))
      in await_node p5 c node (snd drained))"

definition change_node :: "SchedulerCandidate \<Rightarrow> SchedulerNode \<Rightarrow> schedulerPlanState \<Rightarrow> SchedulerNode
    \<Rightarrow> schedulerPlanState" where
  "change_node c n p old =
     (if sn_node n \<noteq> sn_node old \<or> sn_powerMode n = sn_powerMode old then p
      else
        (let reason = schedulerPhysicalChangeReason (pn_snap p) (sn_node n) in
         if reason \<noteq> [] then add_reason reason (sn_node n) p
         else
           (case keep_lowering p old of
              (p1, from) \<Rightarrow>
                if empty_saving p1 c n old \<and> from \<noteq> sn_powerMode n \<and> ss_scaleDown (pn_snap p) \<noteq> None
                   \<and> \<not> ss_emptyNodeScaleDownAllowed (pn_snap p)
                then p1\<lparr>pn_reasons := appendUnique (pn_reasons p1) [schedulerScaleDownStabilizing]\<rparr>
                else switch_power p1 c n old from)))"

definition changeNodes :: "SchedulerCandidate \<Rightarrow> schedulerPlanState \<Rightarrow> schedulerPlanState" where
  "changeNodes c p =
     foldl (\<lambda>q n. if schedulerReservedNode (pn_snap q) (sn_node n) then q
         else foldl (change_node c n) q (ss_nodes (pn_snap q))) p (sc_nodes c)"

section \<open>Preparations\<close>

definition preparation_of :: "SchedulerSnapshot \<Rightarrow> SchedulerInstance \<Rightarrow> Action \<Rightarrow> bool" where
  "preparation_of s wanted a \<longleftrightarrow> ac_kind a = schedulerActionPrepare \<and> ac_status a = phaseRunning
     \<and> ac_node a = si_node wanted \<and> ac_to a = schedulerState wanted
     \<and> (ac_instance a = si_id wanted
        \<or> list_ex (\<lambda>i. si_id i = si_id wanted \<and> si_targetID i = ac_instance a) (ss_instances s))"

text \<open>\<open>runningPreparation\<close> returns "" for none: an action has a nonempty ID.\<close>

definition runningPreparation :: "schedulerPlanState \<Rightarrow> SchedulerInstance \<Rightarrow> string" where
  "runningPreparation p wanted =
     (case find (preparation_of (pn_snap p) wanted) (ss_actions (pn_snap p)) of None \<Rightarrow> [] | Some a \<Rightarrow> ac_id a)"

definition removed_before :: "Action list \<Rightarrow> SchedulerInstance \<Rightarrow> bool" where
  "removed_before actions i \<longleftrightarrow> list_ex (\<lambda>a. ac_kind a = schedulerActionRemove \<and> ac_instance a = si_id i
     \<and> ac_node a = si_node i) actions"

definition planned_allocations :: "schedulerPlanState \<Rightarrow> SchedulerNode \<Rightarrow> SchedulerInstance \<Rightarrow> SchedulerAllocation list" where
  "planned_allocations p n wanted =
     sn_reserved n # sn_nonServing n
     @ map si_allocation (filter (\<lambda>i. si_node i = si_node wanted \<and> \<not> removed_before (pn_actions p) i)
         (ss_instances (pn_snap p)))
     @ concat (map (\<lambda>a. map si_allocation (filter (\<lambda>i. si_id i = ac_instance a) (target_instances p)))
         (filter (\<lambda>a. ac_kind a = schedulerActionPrepare \<and> ac_node a = si_node wanted) (pn_actions p)))
     @ [si_allocation wanted]"

definition preparationFits :: "schedulerPlanState \<Rightarrow> SchedulerInstance \<Rightarrow> bool" where
  "preparationFits p wanted \<longleftrightarrow>
     (case find (\<lambda>n. sn_node n = si_node wanted) (ss_nodes (pn_snap p)) of
        None \<Rightarrow> False
      | Some n \<Rightarrow> schedulerPhysicalChangeReason (pn_snap p) (si_node wanted) = []
          \<and> ValidateNodeBudget n (planned_allocations p n wanted) [] = [])"

definition running_removal :: "SchedulerInstance \<Rightarrow> Action \<Rightarrow> bool" where
  "running_removal i a \<longleftrightarrow> ac_kind a = schedulerActionRemove \<and> ac_instance a = si_id i
     \<and> ac_node a = si_node i \<and> ac_status a = phaseRunning"

definition retire :: "schedulerPlanState \<Rightarrow> SchedulerInstance \<Rightarrow> string list \<Rightarrow> schedulerPlanState \<times> string" where
  "retire p i deps =
     (case stop_and_drain p i deps of
        (p1, st, dr) \<Rightarrow> (fst (plan_add p1 schedulerActionRemove (si_node i) (si_id i) (schedulerState i) ''unloaded'' [dr]), st))"

definition retirePreparationBlocker :: "schedulerPlanState \<Rightarrow> SchedulerInstance \<Rightarrow> schedulerPlanState" where
  "retirePreparationBlocker p i =
     (if schedulerPhysicalChangeReason (pn_snap p) (si_node i) \<noteq> [] then p
      else (case find (running_removal i) (ss_actions (pn_snap p)) of
          Some old \<Rightarrow> fst (plan_add (p\<lparr>pn_stops := (pn_stops p)(si_id i := ac_id old)\<rparr>)
            (ac_kind old) (ac_node old) (ac_instance old) (ac_from old) (ac_to old) (ac_dependsOn old))
        | None \<Rightarrow> (case retire p i [] of (q, st) \<Rightarrow> q\<lparr>pn_stops := (pn_stops q)(si_id i := st)\<rparr>)))"

definition not_a_blocker :: "schedulerPlanState \<Rightarrow> SchedulerInstance \<Rightarrow> bool \<times> SchedulerInstance \<Rightarrow> bool" where
  "not_a_blocker p wanted pr \<longleftrightarrow>
     (case pr of (second, i) \<Rightarrow>
        si_node i \<noteq> si_node wanted \<or> pn_stops p (si_id i) \<noteq> []
        \<or> list_ex (schedulerSamePhysicalTarget i) (target_instances p)
        \<or> \<not> second \<and> \<not> (al_gpuUUID (si_allocation i) \<noteq> []
            \<and> al_gpuUUID (si_allocation i) = al_gpuUUID (si_allocation wanted)))"

fun free_loop :: "schedulerPlanState \<Rightarrow> SchedulerInstance \<Rightarrow> (bool \<times> SchedulerInstance) list \<Rightarrow> schedulerPlanState" where
  "free_loop p wanted [] = p"
| "free_loop p wanted (pr # rest) =
     (if not_a_blocker p wanted pr then free_loop p wanted rest
      else (let q = retirePreparationBlocker p (snd pr)
        in if preparationFits q wanted then q else free_loop q wanted rest))"

definition freePreparationResources :: "schedulerPlanState \<Rightarrow> SchedulerInstance \<Rightarrow> schedulerPlanState" where
  "freePreparationResources p wanted =
     (if preparationFits p wanted then p
      else free_loop p wanted (map (Pair False) (ss_instances (pn_snap p)) @ map (Pair True) (ss_instances (pn_snap p))))"

definition prepare_target :: "schedulerPlanState \<Rightarrow> SchedulerInstance \<Rightarrow> schedulerPlanState" where
  "prepare_target p wanted =
     (let s = pn_snap p; running = runningPreparation p wanted;
          reason = schedulerPhysicalChangeReason s (si_node wanted) in
      if si_terminated wanted \<or> schedulerReservedNode s (si_node wanted) then p
      else if running \<noteq> [] then add_prepare p running
      else if list_ex (\<lambda>actual. schedulerSamePhysicalTarget actual wanted) (ss_instances s) then p
      else if reason \<noteq> [] then add_reason reason (si_node wanted) p
      else (case plan_add (freePreparationResources p wanted) schedulerActionPrepare (si_node wanted) (si_id wanted)
              ''unloaded'' (schedulerState wanted) [] of (q, idn) \<Rightarrow> add_prepare q idn))"

definition prepareTargets :: "SchedulerCandidate \<Rightarrow> schedulerPlanState \<Rightarrow> schedulerPlanState" where
  "prepareTargets c p = foldl prepare_target p (sc_instances c)"

section \<open>Retirement\<close>

definition retire_step :: "SchedulerCandidate \<Rightarrow> string \<Rightarrow> schedulerPlanState \<Rightarrow> SchedulerInstance
    \<Rightarrow> schedulerPlanState" where
  "retire_step c route p i =
     (if schedulerReservedNode (pn_snap p) (si_node i) \<or> schedulerPhysicalChangeReason (pn_snap p) (si_node i) \<noteq> []
      then p
      else if \<not> list_ex (schedulerSamePhysicalTarget i) (sc_instances c) \<and> pn_stops p (si_id i) = []
      then fst (retire p i (if schedulerInstanceRouted (ss_routing (pn_snap p)) (si_id i) then [route] else []))
      else p)"

definition retireOld :: "SchedulerCandidate \<Rightarrow> string \<Rightarrow> schedulerPlanState \<Rightarrow> schedulerPlanState" where
  "retireOld c route p = foldl (retire_step c route) p (ss_instances (pn_snap p))"

section \<open>Costs of the actions\<close>

type_synonym 'v by_node = "NodeReference \<Rightarrow> 'v"

text \<open>The power mode and the loaded states of every node, as the actions so far leave them.\<close>

record cost_state =
  cs_modes :: "string by_node"
  cs_loaded :: "string list by_node"

definition cost_start :: "SchedulerSnapshot \<Rightarrow> cost_state" where
  "cost_start s =
     \<lparr>cs_modes = foldl (\<lambda>m n. m(sn_node n := sn_powerMode n)) (\<lambda>_. []) (ss_nodes s),
      cs_loaded = foldl (\<lambda>m i. m(si_node i := m (si_node i) @ [schedulerState i])) (\<lambda>_. []) (ss_instances s)\<rparr>"

definition costs_advance :: "cost_state \<Rightarrow> Action \<Rightarrow> cost_state" where
  "costs_advance c a =
     (let node = ac_node a in
      if ac_kind a = schedulerActionPrepare
      then c\<lparr>cs_loaded := (cs_loaded c)(node := cs_loaded c node @ [ac_to a])\<rparr>
      else if ac_kind a = schedulerActionRemove
      then c\<lparr>cs_loaded := (cs_loaded c)(node := remove1 (ac_from a) (cs_loaded c node))\<rparr>
      else if ac_kind a = schedulerActionPower
      then c\<lparr>cs_modes := (cs_modes c)(node := ac_to a)\<rparr>
      else c)"

text \<open>The condition a cost was measured under, against the node before the action.\<close>

definition cost_matches :: "cost_state \<Rightarrow> lookup \<Rightarrow> Action \<Rightarrow> OperationCost \<Rightarrow> bool" where
  "cost_matches c identities a cost \<longleftrightarrow>
     (if ac_kind a = schedulerActionPower
      then measurementEqualState (cs_loaded c (ac_node a)) (oc_beforeState cost) identities
        \<and> measurementEqualState (cs_loaded c (ac_node a)) (oc_targetState cost) identities
      else oc_powerMode cost = cs_modes c (ac_node a))"

definition cost_rank :: "cost_state \<Rightarrow> lookup \<Rightarrow> lookup \<Rightarrow> Action \<Rightarrow> OperationCost \<Rightarrow> nat" where
  "cost_rank c identities classes a cost =
     measurementRank (nr_uid (oc_node cost))
       (if oc_deviceClass cost = [] then classes (nr_uid (oc_node cost)) else oc_deviceClass cost)
       (nr_uid (ac_node a)) (classes (nr_uid (ac_node a)))
       (measurementOperationMatches cost a identities \<and> cost_matches c identities a cost)"

definition cost_candidates :: "cost_state \<Rightarrow> lookup \<Rightarrow> lookup \<Rightarrow> Action \<Rightarrow> OperationCost list \<Rightarrow> (nat \<times> OperationCost) list" where
  "cost_candidates c identities classes a costs =
     filter (\<lambda>rc. fst rc < 3)
       (map (\<lambda>cost. (cost_rank c identities classes a cost, cost))
         (filter (\<lambda>cost. oc_kind cost = ac_kind a \<and> capacityOperationCost (Some cost) \<noteq> None
            \<and> ObjectIdentity_valid (oc_reference cost)) costs))"

definition fresh :: "Action \<Rightarrow> bool" where
  "fresh a \<longleftrightarrow> ac_status a = schedulerActionPlanned \<or> ac_status a = []"

definition clear_cost :: "Action \<Rightarrow> Action" where
  "clear_cost a = (if fresh a then a\<lparr>ac_costID := [], ac_expectedSeconds := None, ac_expectedSource := None,
     ac_costProvenance := None\<rparr> else a)"

definition take_cost :: "(nat \<times> OperationCost) option \<Rightarrow> Action \<Rightarrow> Action" where
  "take_cost selected a =
     (case selected of
        None \<Rightarrow> a
      | Some (rank, cost) \<Rightarrow>
          if fresh a
          then a\<lparr>ac_costID := oc_id cost, ac_costProvenance := Some \<lparr>op_source = measurementSource rank,
                 op_costRef = oc_id cost, op_value = None\<rparr>\<rparr>
          else a)"

definition default_provenance :: "Action \<Rightarrow> bool" where
  "default_provenance a \<longleftrightarrow>
     (case ac_costProvenance a of None \<Rightarrow> False | Some pr \<Rightarrow> op_source pr = operationSourceDefault)"

definition expect_cost :: "SchedulerSettings \<Rightarrow> OperationCost list \<Rightarrow> Action \<Rightarrow> Action" where
  "expect_cost st costs a =
     (let cost = schedulerCost costs (ac_costID a); measured = capacityOperationCost cost in
      if fresh a \<or> measured = None \<and> \<not> default_provenance a
      then (case (cost, measured) of
          (Some k, Some (mean, longest, joules)) \<Rightarrow>
            a\<lparr>ac_expectedSeconds := Some mean,
              ac_expectedSource := Some \<lparr>ae_costID = oc_id k, ae_reference = oc_reference k,
                ae_statistic = ''mean'', ae_trialCount = length (oc_trials k)\<rparr>,
              ac_costProvenance := (case ac_costProvenance a of
                  None \<Rightarrow> Some \<lparr>op_source = operationSourceNode, op_costRef = oc_id k, op_value = None\<rparr>
                | Some pr \<Rightarrow> Some pr)\<rparr>
        | _ \<Rightarrow>
            (let v = default_value st (ac_kind a) in
             a\<lparr>ac_expectedSource := None, ac_costID := [], ac_expectedSeconds := Some (ov_seconds v),
               ac_costProvenance := Some \<lparr>op_source = operationSourceDefault, op_costRef = [],
                 op_value = Some v\<rparr>\<rparr>))
      else a)"

definition cost_action :: "schedulerPlanState \<Rightarrow> lookup \<Rightarrow> lookup \<Rightarrow> cost_state \<Rightarrow> Action \<Rightarrow> Action" where
  "cost_action p identities classes c a =
     (if physical_kind (ac_kind a)
      then (let costs = ss_costs (pn_snap p) in
        expect_cost (pn_settings p) costs
          (take_cost (scan_best cost_preferred None (cost_candidates c identities classes a costs)) (clear_cost a)))
      else clear_cost a)"

fun cost_loop :: "schedulerPlanState \<Rightarrow> lookup \<Rightarrow> lookup \<Rightarrow> cost_state \<Rightarrow> Action list \<Rightarrow> Action list" where
  "cost_loop p identities classes c [] = []"
| "cost_loop p identities classes c (a # as) =
     cost_action p identities classes c a # cost_loop p identities classes (costs_advance c a) as"

definition selectCosts :: "schedulerPlanState \<Rightarrow> schedulerPlanState" where
  "selectCosts p =
     (let s = pn_snap p;
          identities = schedulerMeasurementIdentities (ss_costs s) (ss_baselines s) (ss_instances s)
            (ss_options s) (target_instances p);
          classes = measurementDeviceClasses (ss_options s) (ss_instances s) (target_instances p)
      in p\<lparr>pn_actions := cost_loop p identities classes (cost_start s) (pn_actions p)\<rparr>)"

definition EstimateAction :: "SchedulerSettings \<Rightarrow> SchedulerSnapshot \<Rightarrow> Action \<Rightarrow> Action" where
  "EstimateAction st s a = hd (pn_actions (selectCosts (new_plan st s None [a])))"

section \<open>The plan\<close>

definition has_prefix :: "string \<Rightarrow> string \<Rightarrow> bool" where
  "has_prefix pre s \<longleftrightarrow> take (length pre) s = pre"

definition explain_route :: "string list \<Rightarrow> Action \<Rightarrow> Action" where
  "explain_route reasons a =
     (if ac_status a = schedulerActionPlanned
         \<and> (reasons \<noteq> [] \<or> has_prefix (NodeInstanceUnavailable @ '':'') (ac_reason a))
      then a\<lparr>ac_reason := join '';'' reasons\<rparr> else a)"

text \<open>The state after the route action, and its ID.\<close>

definition plan_to_route :: "SchedulerSettings \<Rightarrow> SchedulerSnapshot \<Rightarrow> SchedulerCandidate
    \<Rightarrow> schedulerPlanState \<times> string" where
  "plan_to_route st s c =
     (let p = prepareTargets c (changeNodes c (new_plan st s (Some c) [])) in
      case plan_add p schedulerActionRoute zero_node [] [] (schedulerConfigKey c) (pn_prepares p) of
        (q, route) \<Rightarrow> (set_last (explain_route (pn_reasons q)) q, route))"

definition plan_state :: "SchedulerSettings \<Rightarrow> SchedulerSnapshot \<Rightarrow> SchedulerCandidate \<Rightarrow> schedulerPlanState" where
  "plan_state st s c =
     (case plan_to_route st s c of
        (q, route) \<Rightarrow> if pn_reasons q = [] then retireOld c route q else q)"

definition schedulerPlan :: "SchedulerSettings \<Rightarrow> SchedulerSnapshot \<Rightarrow> SchedulerCandidate \<Rightarrow> Action list" where
  "schedulerPlan st s c = pn_actions (selectCosts (plan_state st s c))"

end
