(* ===== verification/SchedSamples.thy ===== *)
theory SchedSamples
  imports SchedPlan
begin

text \<open>
  A small pool on which the properties of the scheduler are evaluated: one node of 100 bytes
  with an instance of 60 bytes, and a candidate that replaces it by another one of 60 bytes, so
  that the old instance has to go before the new one is prepared.
\<close>

definition sample_condition :: "string \<Rightarrow> Condition" where
  "sample_condition art = \<lparr>cd_logicalModel = ''m'', cd_deviceClass = ''d'', cd_nodeUID = ''u'', cd_runtimeFamily = ''f'',
     cd_backend = ''b'', cd_firstfloor = None, cd_runtimeImage = ''r'', cd_powerMode = ''low'',
     cd_artifact = \<lparr>at_executionPath = ''e'', at_name = art, at_files = [], at_image = ''i''\<rparr>,
     cd_preprocessor = \<lparr>pc_name = ''p'', pc_image = [], pc_architecture = [], pc_path = [], pc_maxNewTokens = 0,
       pc_inputs = [], pc_outputs = []\<rparr>,
     cd_dataset = None, cd_runtimeAccess = None, cd_plannedBatchSizes = []\<rparr>"

definition sample_profile :: "string \<Rightarrow> Profile" where
  "sample_profile idn = \<lparr>pl_id = idn, pl_condition = sample_condition idn, pl_batches = [], pl_idleBaselineWatts = f_zero, pl_measuredAt = 5\<rparr>"

definition sample_node :: NodeReference where "sample_node = \<lparr>nr_name = ''n'', nr_uid = ''u''\<rparr>"

definition sample_instance :: "string \<Rightarrow> string \<Rightarrow> SchedulerInstance" where
  "sample_instance idn prof = \<lparr>si_id = idn, si_podUID = [], si_podName = [], si_targetID = [], si_ownerWorkloadUID = [],
     si_node = sample_node, si_profile = Some (sample_profile prof), si_profileID = [], si_runtimeImage = [], si_runnerCommand = [],
     si_workloadUID = ''w'', si_allocation = \<lparr>al_gpuUUID = [], al_memoryBytes = 60\<rparr>, si_ready = True, si_stopped = False,
     si_terminated = False, si_startupFailure = None, si_routable = [], si_reasons = [], si_capacity = 1, si_weight = 1000,
     si_maxBatch = 1, si_fixedBatchSize = 0, si_maxWait = 0, si_observedAt = 7, si_idleMeter = [], si_idleScope = [],
     si_heldUntil = None\<rparr>"

definition sample_pool_node :: SchedulerNode where
  "sample_pool_node = \<lparr>sn_node = sample_node, sn_powerMode = ''low'', sn_ready = True, sn_measurement = False,
     sn_gpuUUIDs = [], sn_memoryBytes = 100, sn_reserved = \<lparr>al_gpuUUID = [], al_memoryBytes = 0\<rparr>, sn_nonServing = [],
     sn_observedAt = 7, sn_reasons = [], sn_reboots = []\<rparr>"

definition sample_snapshot :: SchedulerSnapshot where
  "sample_snapshot = \<lparr>ss_at = 62135596800000000009, ss_bootstrapStartedAt = 0, ss_scaleDown = None,
     ss_emptyNodeScaleDownAllowed = False, ss_replacements = [],
     ss_observationEnd = 8, ss_observedSince = 1, ss_workloads = [], ss_nodes = [sample_pool_node],
     ss_instances = [sample_instance ''old'' ''p1''], ss_routing = [(''w'', [(''old'', 1000)])], ss_outstanding = [],
     ss_arrivals = [], ss_options = [], ss_baselines = [], ss_costs = [], ss_dispatchOccupancy = [], ss_actions = [],
     ss_reasons = [], ss_reservations = []\<rparr>"

definition sample_candidate :: SchedulerCandidate where
  "sample_candidate = \<lparr>sc_id = ''c'', sc_keep = False, sc_nodes = [sample_pool_node],
     sc_instances = [sample_instance ''new'' ''p2''], sc_routing = [(''w'', [(''new'', 1000)])], sc_actions = [],
     sc_status = [], sc_reasons = []\<rparr>"

definition sample_settings :: SchedulerSettings where
  "sample_settings = \<lparr>st_observationWindow = 1, st_controlInterval = 1, st_comparisonPeriod = 1, st_replacementDwell = 0,
     st_maxObservationAge = 1, st_bootstrapCapacityWait = 0, st_scaleDownStabilization = 0,
     st_transitionReserveFraction = f_zero, st_scaleDownHeadroomFraction = f_zero, st_maxReplicas = 1, st_maxInstances = 1,
     st_servingMemoryBytes = 0, st_completionMarginMS = f_zero, st_autonomousWorkloads = [], st_minimumDemand = [],
     st_excludedNodes = [], st_capacityWindow = 1, st_capacityWindows = 1, st_capacityPassingWindows = 1,
     st_capacityMinimumRequests = 1, st_capacityGridSteps = 20, st_capacityBisectionWidth = f_of_int 1, st_capacityTailSamples = 1,
     st_defaultDispatchOccupancyNanos = 0, st_defaultOperationCost = [], st_defaultIdlePower = None, st_planSearchWorkers = 1,
     st_controls = \<lparr>sk_placement = True, sk_resources = True, sk_replicas = True, sk_routing = True, sk_batching = True,
       sk_power = True, sk_membership = True\<rparr>\<rparr>"
text \<open>The plan for it, evaluated.\<close>

lemma sample_plan:
  "map (\<lambda>a. (ac_id a, ac_kind a, ac_instance a, ac_dependsOn a))
     (schedulerPlan sample_settings sample_snapshot sample_candidate)
   = [(''stop-u-old-9-0'', ''stop'', ''old'', []),
      (''drain-u-old-9-1'', ''drain'', ''old'', [''stop-u-old-9-0'']),
      (''remove-u-old-9-2'', ''remove'', ''old'', [''drain-u-old-9-1'']),
      (''prepare-u-new-9-3'', ''prepare'', ''new'', [''remove-u-old-9-2'']),
      (''route---9-4'', ''route'', [], [''prepare-u-new-9-3''])]"
  by code_simp

lemma sample_no_actions: "ss_actions sample_snapshot = []"
  by (simp add: sample_snapshot_def)

lemma sample_length: "length (schedulerPlan sample_settings sample_snapshot sample_candidate) = 5"
  using arg_cong [OF sample_plan, of length] by simp

lemma sample_nth:
  assumes "k < 5"
  shows "(ac_id (schedulerPlan sample_settings sample_snapshot sample_candidate ! k),
     ac_kind (schedulerPlan sample_settings sample_snapshot sample_candidate ! k),
     ac_instance (schedulerPlan sample_settings sample_snapshot sample_candidate ! k),
     ac_dependsOn (schedulerPlan sample_settings sample_snapshot sample_candidate ! k))
   = [(''stop-u-old-9-0'', ''stop'', ''old'', []),
      (''drain-u-old-9-1'', ''drain'', ''old'', [''stop-u-old-9-0'']),
      (''remove-u-old-9-2'', ''remove'', ''old'', [''drain-u-old-9-1'']),
      (''prepare-u-new-9-3'', ''prepare'', ''new'', [''remove-u-old-9-2'']),
      (''route---9-4'', ''route'', [], [''prepare-u-new-9-3''])] ! k"
  using nth_map [of k "schedulerPlan sample_settings sample_snapshot sample_candidate"
      "\<lambda>a. (ac_id a, ac_kind a, ac_instance a, ac_dependsOn a)"] assms
  by (simp add: sample_plan sample_length)

end
