(* ===== verification/PlanSafety.thy ===== *)
theory PlanSafety
  imports SchedSamples
begin

text \<open>
  What a plan may do. Every action it has is where the scheduler may act, waits only for what
  is planned before it or already running, and removes an instance only after a stop and a
  drain of it. The construction appends actions one at a time, so these are invariants of
  \<open>plan_add\<close> that every operation of \<open>scheduler_plan.go\<close> keeps.
\<close>

section \<open>What is asked of an action, given those before it\<close>

text \<open>An ID an action may wait for: of an earlier action, or of what is already running.\<close>

definition known :: "SchedulerSnapshot \<Rightarrow> Action list \<Rightarrow> string \<Rightarrow> bool" where
  "known s acts d \<longleftrightarrow> (\<exists>a \<in> set acts. ac_id a = d)
     \<or> (\<exists>a \<in> set (ss_actions s). ac_status a = phaseRunning
          \<and> (ac_id a = d \<or> ac_kind a = schedulerActionRemove \<and> d \<in> set (ac_dependsOn a)))"

text \<open>A node the plan may change: observed ready, its executors confirmed, and not reserved.\<close>

definition may_change :: "SchedulerSnapshot \<Rightarrow> NodeReference \<Rightarrow> bool" where
  "may_change s node \<longleftrightarrow> schedulerPhysicalChangeReason s node = [] \<and> \<not> schedulerReservedNode s node"

definition in_scope :: "SchedulerSnapshot \<Rightarrow> Action \<Rightarrow> bool" where
  "in_scope s a \<longleftrightarrow> ac_kind a = schedulerActionRoute \<or> may_change s (ac_node a)"

definition of_instance :: "string \<Rightarrow> NodeReference \<Rightarrow> string \<Rightarrow> Action \<Rightarrow> bool" where
  "of_instance kind node inst a \<longleftrightarrow> ac_kind a = kind \<and> ac_node a = node \<and> ac_instance a = inst"

text \<open>A drain of the instance that waits for its stop.\<close>

definition drain_in :: "Action list \<Rightarrow> NodeReference \<Rightarrow> string \<Rightarrow> string \<Rightarrow> bool" where
  "drain_in acts node inst d \<longleftrightarrow>
     (\<exists>dr \<in> set acts. \<exists>st \<in> set acts. ac_id dr = d \<and> of_instance schedulerActionDrain node inst dr
        \<and> of_instance schedulerActionStop node inst st \<and> ac_id st \<in> set (ac_dependsOn dr))"

text \<open>What a removal waits for: the drain, or a power change of the node that waits for it.\<close>

definition after_drain :: "Action list \<Rightarrow> NodeReference \<Rightarrow> string \<Rightarrow> string list \<Rightarrow> bool" where
  "after_drain acts node inst deps \<longleftrightarrow>
     (\<exists>d \<in> set deps. drain_in acts node inst d
        \<or> (\<exists>pw \<in> set acts. ac_id pw = d \<and> ac_kind pw = schedulerActionPower \<and> ac_node pw = node
             \<and> (\<exists>e \<in> set (ac_dependsOn pw). drain_in acts node inst e)))"

definition drained_first :: "SchedulerSnapshot \<Rightarrow> Action list \<Rightarrow> Action \<Rightarrow> bool" where
  "drained_first s acts a \<longleftrightarrow> ac_kind a = schedulerActionRemove
     \<longrightarrow> after_drain acts (ac_node a) (ac_instance a) (ac_dependsOn a)
       \<or> (\<exists>old \<in> set (ss_actions s). ac_status old = phaseRunning \<and> same_operation old a)"

definition sound_next :: "SchedulerSnapshot \<Rightarrow> Action list \<Rightarrow> Action \<Rightarrow> bool" where
  "sound_next s acts a \<longleftrightarrow> (\<forall>d \<in> set (ac_dependsOn a). known s acts d) \<and> in_scope s a \<and> drained_first s acts a"

definition sound_plan :: "SchedulerSnapshot \<Rightarrow> Action list \<Rightarrow> bool" where
  "sound_plan s acts \<longleftrightarrow> (\<forall>k < length acts. sound_next s (take k acts) (acts ! k))"

lemma sound_plan_Nil [simp]: "sound_plan s []"
  by (simp add: sound_plan_def)

lemma sound_plan_snoc: "sound_plan s (acts @ [a]) \<longleftrightarrow> sound_plan s acts \<and> sound_next s acts a"
  by (auto simp: sound_plan_def nth_append less_Suc_eq)

section \<open>The part of an action these laws read\<close>

definition shape :: "Action \<Rightarrow> string \<times> string \<times> NodeReference \<times> string \<times> string \<times> string \<times> string list" where
  "shape a = (ac_id a, ac_kind a, ac_node a, ac_instance a, ac_from a, ac_to a, ac_dependsOn a)"

lemma shape_eq:
  "shape a = shape b \<longleftrightarrow> ac_id a = ac_id b \<and> ac_kind a = ac_kind b \<and> ac_node a = ac_node b
     \<and> ac_instance a = ac_instance b \<and> ac_from a = ac_from b \<and> ac_to a = ac_to b \<and> ac_dependsOn a = ac_dependsOn b"
  by (simp add: shape_def)

lemma shapes_in:
  assumes "map shape acts = map shape bs" "a \<in> set acts"
  obtains b where "b \<in> set bs" "shape b = shape a"
proof -
  have "shape a \<in> shape ` set acts" using assms(2) by blast
  also have "shape ` set acts = shape ` set bs" using arg_cong [OF assms(1), of set] by simp
  finally obtain b where "b \<in> set bs" "shape a = shape b" by (rule imageE) simp
  then show ?thesis by (intro that [of b]) simp_all
qed

lemma known_shape:
  assumes eq: "map shape acts = map shape bs" and kn: "known s acts d" shows "known s bs d"
proof (cases "\<exists>a \<in> set acts. ac_id a = d")
  case True
  then obtain a where a: "a \<in> set acts" "ac_id a = d" by blast
  obtain b where b: "b \<in> set bs" "shape b = shape a" using shapes_in [OF eq a(1)] .
  from b(2) a(2) have "ac_id b = d" by (simp add: shape_eq)
  with b(1) show ?thesis unfolding known_def by (intro disjI1 bexI [of _ b])
next
  case False
  with kn show ?thesis unfolding known_def by (intro disjI2) simp
qed

lemma drain_in_shape:
  assumes eq: "map shape acts = map shape bs" and dr: "drain_in acts node inst d"
  shows "drain_in bs node inst d"
proof -
  from dr obtain x y where x: "x \<in> set acts" "ac_id x = d" "of_instance schedulerActionDrain node inst x"
    and y: "y \<in> set acts" "of_instance schedulerActionStop node inst y" "ac_id y \<in> set (ac_dependsOn x)"
    by (auto simp: drain_in_def)
  obtain x' where "x' \<in> set bs" "shape x' = shape x" using shapes_in [OF eq x(1)] .
  moreover obtain y' where "y' \<in> set bs" "shape y' = shape y" using shapes_in [OF eq y(1)] .
  ultimately show ?thesis
    using x(2,3) y(2,3) unfolding drain_in_def of_instance_def shape_eq
    by (intro bexI [of _ x'] bexI [of _ y']) simp_all
qed

lemma after_drain_shape:
  assumes eq: "map shape acts = map shape bs" and ad: "after_drain acts node inst deps"
  shows "after_drain bs node inst deps"
proof -
  from ad obtain d where d: "d \<in> set deps" "drain_in acts node inst d
      \<or> (\<exists>pw \<in> set acts. ac_id pw = d \<and> ac_kind pw = schedulerActionPower \<and> ac_node pw = node
          \<and> (\<exists>e \<in> set (ac_dependsOn pw). drain_in acts node inst e))"
    by (auto simp: after_drain_def)
  show ?thesis
  proof (cases "drain_in acts node inst d")
    case True
    then have "drain_in bs node inst d" by (rule drain_in_shape [OF eq])
    with d(1) show ?thesis unfolding after_drain_def by blast
  next
    case False
    with d obtain pw e where pw: "pw \<in> set acts" "ac_id pw = d" "ac_kind pw = schedulerActionPower"
      "ac_node pw = node" "e \<in> set (ac_dependsOn pw)" "drain_in acts node inst e" by blast
    obtain q where "q \<in> set bs" "shape q = shape pw" using shapes_in [OF eq pw(1)] .
    moreover have "drain_in bs node inst e" by (rule drain_in_shape [OF eq pw(6)])
    ultimately show ?thesis
      using pw(2-5) d(1) unfolding after_drain_def shape_eq by (intro bexI [of _ d]) auto
  qed
qed

lemma sound_next_shape:
  assumes eq: "map shape acts = map shape bs" "shape a = shape b" and ok: "sound_next s acts a"
  shows "sound_next s bs b"
proof -
  have "known s bs d" if "d \<in> set (ac_dependsOn b)" for d
    using that ok eq(2) known_shape [OF eq(1)] by (auto simp: sound_next_def shape_eq)
  moreover have "in_scope s b" using ok eq(2) by (simp add: sound_next_def in_scope_def shape_eq)
  moreover have "drained_first s bs b"
    using ok eq(2) after_drain_shape [OF eq(1)]
    by (auto simp: sound_next_def drained_first_def shape_eq same_operation_def)
  ultimately show ?thesis by (simp add: sound_next_def)
qed

lemma sound_plan_shape:
  assumes eq: "map shape acts = map shape bs" and ok: "sound_plan s acts"
  shows "sound_plan s bs"
  unfolding sound_plan_def
proof (intro allI impI)
  fix k assume k: "k < length bs"
  have len: "length acts = length bs" using eq map_eq_imp_length_eq by blast
  have "map shape (take k acts) = map shape (take k bs)" using eq by (metis take_map)
  moreover have "shape (acts ! k) = shape (bs ! k)" using eq k len by (metis nth_map)
  ultimately show "sound_next s (take k bs) (bs ! k)"
    using sound_next_shape ok k len by (auto simp: sound_plan_def)
qed

section \<open>More actions only add to what is known and drained\<close>

lemma known_append [simp]: "known s acts d \<Longrightarrow> known s (acts @ bs) d"
  by (auto simp: known_def)

lemma known_last [simp]: "known s (acts @ [a]) (ac_id a)"
  by (auto simp: known_def)

lemma drain_in_append: "drain_in acts node inst d \<Longrightarrow> drain_in (acts @ bs) node inst d"
  unfolding drain_in_def set_append by blast

lemma after_drain_append: "after_drain acts node inst deps \<Longrightarrow> after_drain (acts @ bs) node inst deps"
  unfolding after_drain_def set_append using drain_in_append [of acts node inst] by blast

lemma after_drain_deps: "after_drain acts node inst deps \<Longrightarrow> set deps \<subseteq> set deps' \<Longrightarrow> after_drain acts node inst deps'"
  unfolding after_drain_def by blast

lemma foldl_invariant:
  "P a \<Longrightarrow> (\<And>acc x. x \<in> set xs \<Longrightarrow> P acc \<Longrightarrow> P (f acc x)) \<Longrightarrow> P (foldl f a xs)"
  by (induction xs arbitrary: a) auto

lemma find_in: "find P xs = Some x \<Longrightarrow> x \<in> set xs \<and> P x"
  by (induction xs) (auto split: if_splits)

lemma foldl_prefix_invariant:
  "P [] a \<Longrightarrow> (\<And>ys x acc. x \<in> set xs \<Longrightarrow> P ys acc \<Longrightarrow> P (ys @ [x]) (f acc x)) \<Longrightarrow> P xs (foldl f a xs)"
  by (induction xs rule: rev_induct) auto

section \<open>The action that add appends\<close>

lemma prerequisite_fields [simp]:
  "ac_id (prerequisite_step a old) = ac_id a" "ac_kind (prerequisite_step a old) = ac_kind a"
  "ac_node (prerequisite_step a old) = ac_node a" "ac_instance (prerequisite_step a old) = ac_instance a"
  "ac_from (prerequisite_step a old) = ac_from a" "ac_to (prerequisite_step a old) = ac_to a"
  "ac_status (prerequisite_step a old) = ac_status a"
  by (simp_all add: prerequisite_step_def)

lemma prerequisites_fields [simp]:
  "ac_id (foldl prerequisite_step a olds) = ac_id a" "ac_kind (foldl prerequisite_step a olds) = ac_kind a"
  "ac_node (foldl prerequisite_step a olds) = ac_node a" "ac_instance (foldl prerequisite_step a olds) = ac_instance a"
  "ac_from (foldl prerequisite_step a olds) = ac_from a" "ac_to (foldl prerequisite_step a olds) = ac_to a"
  "ac_status (foldl prerequisite_step a olds) = ac_status a"
  by (induction olds arbitrary: a) simp_all

lemma prerequisites_keep: "set (ac_dependsOn a) \<subseteq> set (ac_dependsOn (foldl prerequisite_step a olds))"
proof (induction olds arbitrary: a)
  case (Cons x olds)
  have "set (ac_dependsOn a) \<subseteq> set (ac_dependsOn (prerequisite_step a x))"
    by (auto simp: prerequisite_step_def)
  with Cons.IH show ?case by fastforce
qed simp

lemma prerequisites_running:
  "d \<in> set (ac_dependsOn (foldl prerequisite_step a olds)) \<Longrightarrow>
     d \<in> set (ac_dependsOn a) \<or> (\<exists>x \<in> set olds. ac_status x = phaseRunning \<and> ac_id x = d)"
proof (induction olds arbitrary: a)
  case (Cons x olds)
  from Cons.IH [of "prerequisite_step a x"] Cons.prems
  show ?case by (auto simp: prerequisite_step_def split: if_splits)
qed simp

lemma waiting_fields [simp]:
  "ac_kind (waiting_action p kind node inst from to deps) = kind"
  "ac_node (waiting_action p kind node inst from to deps) = node"
  "ac_instance (waiting_action p kind node inst from to deps) = inst"
  "ac_from (waiting_action p kind node inst from to deps) = from"
  "ac_to (waiting_action p kind node inst from to deps) = to"
  by (simp_all add: waiting_action_def addRunningPrerequisites_def new_action_def Let_def)

lemma built_fields [simp]:
  "ac_kind (built_action p kind node inst from to deps) = kind"
  "ac_node (built_action p kind node inst from to deps) = node"
  "ac_instance (built_action p kind node inst from to deps) = inst"
  "ac_from (built_action p kind node inst from to deps) = from"
  "ac_to (built_action p kind node inst from to deps) = to"
  "ac_dependsOn (built_action p kind node inst from to deps) = ac_dependsOn (waiting_action p kind node inst from to deps)"
  by (simp_all add: built_action_def reuse_def Let_def split: option.splits)

lemma built_deps_keep: "set deps \<subseteq> set (ac_dependsOn (waiting_action p kind node inst from to deps))"
  unfolding waiting_action_def addRunningPrerequisites_def Let_def
  by (rule subset_trans [OF _ prerequisites_keep]) (simp add: new_action_def)

lemma built_deps_only:
  assumes "d \<in> set (ac_dependsOn (waiting_action p kind node inst from to deps))"
  shows "d \<in> set deps \<or> d = pn_nodeTail p (nr_uid node) \<and> d \<noteq> []
    \<or> (\<exists>x \<in> set (ss_actions (pn_snap p)). ac_status x = phaseRunning \<and> ac_id x = d)"
  using prerequisites_running [OF assms [unfolded waiting_action_def addRunningPrerequisites_def Let_def]]
  by (auto simp: new_action_def split: if_splits)

lemma plan_add_actions:
  "pn_actions (fst (plan_add p kind node inst from to deps)) = pn_actions p @ [built_action p kind node inst from to deps]"
  "snd (plan_add p kind node inst from to deps) = ac_id (built_action p kind node inst from to deps)"
  by (simp_all add: plan_add_def Let_def)

lemma plan_add_other [simp]:
  "pn_snap (fst (plan_add p kind node inst from to deps)) = pn_snap p"
  "pn_prepares (fst (plan_add p kind node inst from to deps)) = pn_prepares p"
  "pn_stops (fst (plan_add p kind node inst from to deps)) = pn_stops p"
  "pn_reasons (fst (plan_add p kind node inst from to deps)) = pn_reasons p"
  "pn_target (fst (plan_add p kind node inst from to deps)) = pn_target p"
  "pn_settings (fst (plan_add p kind node inst from to deps)) = pn_settings p"
  by (simp_all add: plan_add_def Let_def)

section \<open>The invariant of a plan under construction\<close>

definition plan_inv :: "SchedulerSnapshot \<Rightarrow> schedulerPlanState \<Rightarrow> bool" where
  "plan_inv s p \<longleftrightarrow> pn_snap p = s \<and> sound_plan s (pn_actions p)
     \<and> (\<forall>uid. pn_nodeTail p uid \<noteq> [] \<longrightarrow> known s (pn_actions p) (pn_nodeTail p uid))
     \<and> (\<forall>d \<in> set (pn_prepares p). known s (pn_actions p) d)"

lemma plan_inv_snap: "plan_inv s p \<Longrightarrow> pn_snap p = s"
  by (simp add: plan_inv_def)

lemma plan_inv_update [simp]:
  "plan_inv s (p\<lparr>pn_stops := x\<rparr>) = plan_inv s p"
  "plan_inv s (p\<lparr>pn_reasons := r\<rparr>) = plan_inv s p"
  "plan_inv s (add_reason reason node p) = plan_inv s p"
  by (simp_all add: plan_inv_def add_reason_def)

text \<open>A removal that the construction may add.\<close>

definition removal_ok :: "SchedulerSnapshot \<Rightarrow> Action list \<Rightarrow> string \<Rightarrow> NodeReference \<Rightarrow> string \<Rightarrow> string \<Rightarrow> string
    \<Rightarrow> string list \<Rightarrow> bool" where
  "removal_ok s acts kind node inst from to deps \<longleftrightarrow> kind = schedulerActionRemove
     \<longrightarrow> after_drain acts node inst deps
       \<or> (\<exists>old \<in> set (ss_actions s). ac_status old = phaseRunning \<and> ac_kind old = kind \<and> ac_node old = node
            \<and> ac_instance old = inst \<and> ac_from old = from \<and> ac_to old = to)"

lemma plan_add_inv:
  assumes inv: "plan_inv s p" and deps: "\<forall>d \<in> set deps. known s (pn_actions p) d"
    and scope: "kind = schedulerActionRoute \<or> may_change s node"
    and removal: "removal_ok s (pn_actions p) kind node inst from to deps"
  shows "plan_inv s (fst (plan_add p kind node inst from to deps))"
proof -
  let ?a = "built_action p kind node inst from to deps"
  have snap: "pn_snap p = s" using inv by (rule plan_inv_snap)
  have "known s (pn_actions p) d" if "d \<in> set (ac_dependsOn ?a)" for d
    using built_deps_only [OF that [unfolded built_fields]] deps inv unfolding plan_inv_def known_def by auto
  moreover have "in_scope s ?a" using scope by (simp add: in_scope_def)
  moreover have "drained_first s (pn_actions p) ?a"
    using removal after_drain_deps [OF _ built_deps_keep]
    unfolding drained_first_def removal_ok_def same_operation_def built_fields by blast
  ultimately have "sound_next s (pn_actions p) ?a" by (simp add: sound_next_def)
  with inv show ?thesis
    by (auto simp: plan_inv_def plan_add_actions sound_plan_snoc plan_add_def Let_def)
qed

lemma plan_add_known: "known s (pn_actions (fst (plan_add p kind node inst from to deps))) (snd (plan_add p kind node inst from to deps))"
  by (simp add: plan_add_actions)

text \<open>\<open>q\<close> is a plan that has what \<open>p\<close> has, and more.\<close>

definition grows :: "schedulerPlanState \<Rightarrow> schedulerPlanState \<Rightarrow> bool" where
  "grows p q \<longleftrightarrow> (\<exists>new. map shape (pn_actions q) = map shape (pn_actions p) @ map shape new)"

lemma grows_refl [simp]: "grows p p"
  unfolding grows_def by (intro exI [of _ "[]"]) simp

lemma grows_trans: "grows p q \<Longrightarrow> grows q r \<Longrightarrow> grows p r"
  unfolding grows_def by (metis append.assoc map_append)

lemma grows_same: "map shape (pn_actions q) = map shape (pn_actions p) \<Longrightarrow> grows p q"
  unfolding grows_def by (intro exI [of _ "[]"]) simp

lemma grows_add [simp]: "grows p (fst (plan_add p kind node inst from to deps))"
  unfolding grows_def plan_add_actions by (intro exI [of _ "[built_action p kind node inst from to deps]"]) simp

lemma grows_known: "grows p q \<Longrightarrow> known s (pn_actions p) d \<Longrightarrow> known s (pn_actions q) d"
  unfolding grows_def using known_append known_shape by (metis map_append)

lemma grows_drain: "grows p q \<Longrightarrow> drain_in (pn_actions p) node inst d \<Longrightarrow> drain_in (pn_actions q) node inst d"
  unfolding grows_def using drain_in_append drain_in_shape by (metis map_append)

lemma grows_after_drain:
  "grows p q \<Longrightarrow> after_drain (pn_actions p) node inst deps \<Longrightarrow> after_drain (pn_actions q) node inst deps"
  unfolding grows_def using after_drain_append after_drain_shape by (metis map_append)

lemma set_last_shape:
  assumes "pn_actions p \<noteq> []" and "shape (f (last (pn_actions p))) = shape (last (pn_actions p))"
  shows "map shape (pn_actions (set_last f p)) = map shape (pn_actions p)"
proof -
  have "map shape (butlast (pn_actions p) @ [f (last (pn_actions p))])
      = map shape (butlast (pn_actions p) @ [last (pn_actions p)])" using assms(2) by simp
  then show ?thesis using assms(1) by (simp add: set_last_def)
qed

lemma set_last_inv:
  assumes inv: "plan_inv s p" and ne: "pn_actions p \<noteq> []"
    and same: "shape (f (last (pn_actions p))) = shape (last (pn_actions p))"
  shows "plan_inv s (set_last f p)"
proof -
  have eq: "map shape (pn_actions p) = map shape (pn_actions (set_last f p))"
    using set_last_shape [where f = f, OF ne same] by simp
  then show ?thesis
    using inv sound_plan_shape [OF eq] known_shape [OF eq]
    by (auto simp: plan_inv_def) (auto simp: set_last_def)
qed

lemma set_last_other [simp]:
  "pn_snap (set_last f p) = pn_snap p" "pn_nodeTail (set_last f p) = pn_nodeTail p"
  "pn_prepares (set_last f p) = pn_prepares p" "pn_reasons (set_last f p) = pn_reasons p"
  "pn_target (set_last f p) = pn_target p" "pn_settings (set_last f p) = pn_settings p"
  "pn_stops (set_last f p) = pn_stops p"
  by (simp_all add: set_last_def)

lemma add_prepare_inv:
  "plan_inv s p \<Longrightarrow> known s (pn_actions p) d \<Longrightarrow> plan_inv s (add_prepare p d)"
  by (auto simp: plan_inv_def add_prepare_def)

section \<open>Stop, drain, remove\<close>

lemma stop_and_drain_inv:
  assumes inv: "plan_inv s p" and ok: "may_change s (si_node i)" and deps: "\<forall>d \<in> set deps. known s (pn_actions p) d"
    and run: "stop_and_drain p i deps = (q, st, dr)"
  shows "plan_inv s q \<and> grows p q \<and> drain_in (pn_actions q) (si_node i) (si_id i) dr
    \<and> known s (pn_actions q) dr \<and> pn_snap q = pn_snap p"
proof -
  define p1 where "p1 = fst (plan_add p schedulerActionStop (si_node i) (si_id i) [] [] deps)"
  define x where "x = built_action p schedulerActionStop (si_node i) (si_id i) [] [] deps"
  define y where "y = built_action p1 schedulerActionDrain (si_node i) (si_id i) [] [] [ac_id x]"
  have q: "q = fst (plan_add p1 schedulerActionDrain (si_node i) (si_id i) [] [] [ac_id x])" and dr: "dr = ac_id y"
    using run by (auto simp: stop_and_drain_def p1_def x_def y_def plan_add_actions split: prod.splits)
      (metis plan_add_actions(2) fst_conv snd_conv)+
  have inv1: "plan_inv s p1"
    unfolding p1_def by (rule plan_add_inv [OF inv deps]) (use ok in \<open>simp_all add: removal_ok_def\<close>)
  have acts1: "pn_actions p1 = pn_actions p @ [x]" by (simp add: p1_def x_def plan_add_actions)
  have acts: "pn_actions q = pn_actions p @ [x, y]" by (simp add: q y_def plan_add_actions acts1)
  have inv2: "plan_inv s q"
    unfolding q by (rule plan_add_inv [OF inv1]) (use ok in \<open>simp_all add: removal_ok_def acts1\<close>)
  have "of_instance schedulerActionStop (si_node i) (si_id i) x" "of_instance schedulerActionDrain (si_node i) (si_id i) y"
    by (simp_all add: of_instance_def x_def y_def)
  moreover have "ac_id x \<in> set (ac_dependsOn y)"
    using built_deps_keep [of "[ac_id x]" p1 schedulerActionDrain "si_node i" "si_id i" "[]" "[]"] by (simp add: y_def)
  ultimately have "drain_in (pn_actions q) (si_node i) (si_id i) dr"
    unfolding drain_in_def acts dr by (intro bexI [of _ y] bexI [of _ x]) simp_all
  moreover have "grows p q" unfolding grows_def acts by (intro exI [of _ "[x, y]"]) simp
  moreover have "known s (pn_actions q) dr" unfolding known_def acts dr by simp
  moreover have "pn_snap q = pn_snap p" by (simp add: q p1_def)
  ultimately show ?thesis using inv2 by blast
qed

lemma retire_inv:
  assumes inv: "plan_inv s p" and ok: "may_change s (si_node i)" and deps: "\<forall>d \<in> set deps. known s (pn_actions p) d"
  shows "plan_inv s (fst (retire p i deps)) \<and> grows p (fst (retire p i deps)) \<and> pn_snap (fst (retire p i deps)) = pn_snap p"
proof -
  obtain q st dr where run: "stop_and_drain p i deps = (q, st, dr)" by (cases "stop_and_drain p i deps")
  note sd = stop_and_drain_inv [OF inv ok deps run]
  have r: "fst (retire p i deps) = fst (plan_add q schedulerActionRemove (si_node i) (si_id i) (schedulerState i) ''unloaded'' [dr])"
    by (simp add: retire_def run)
  have "after_drain (pn_actions q) (si_node i) (si_id i) [dr]" using sd by (auto simp: after_drain_def)
  then have "plan_inv s (fst (retire p i deps))"
    unfolding r by (intro plan_add_inv) (use sd ok in \<open>auto simp: removal_ok_def\<close>)
  with sd show ?thesis unfolding r using grows_trans [OF _ grows_add] by auto
qed

lemma removeNodeInstances_inv:
  assumes inv: "plan_inv s p" and ok: "may_change s node" and deps: "\<forall>d \<in> set deps. known s (pn_actions p) d"
    and drained: "\<forall>i \<in> set (ss_instances s). si_node i = node \<longrightarrow> after_drain (pn_actions p) node (si_id i) deps"
  shows "plan_inv s (removeNodeInstances p node deps) \<and> grows p (removeNodeInstances p node deps)"
proof -
  have "plan_inv s (foldl (remove_step node deps) p (ss_instances s)) \<and> grows p (foldl (remove_step node deps) p (ss_instances s))"
  proof (rule foldl_invariant [where P = "\<lambda>q. plan_inv s q \<and> grows p q"])
    show "plan_inv s p \<and> grows p p" using inv by simp
    fix q i assume i: "i \<in> set (ss_instances s)" and q: "plan_inv s q \<and> grows p q"
    show "plan_inv s (remove_step node deps q i) \<and> grows p (remove_step node deps q i)"
    proof (cases "si_node i = node")
      case True
      have "plan_inv s (fst (plan_add q schedulerActionRemove node (si_id i) (schedulerState i) ''unloaded'' deps))"
        using True i q ok deps drained grows_known grows_after_drain
        by (intro plan_add_inv) (auto simp: removal_ok_def)
      with True q show ?thesis by (auto simp: remove_step_def intro: grows_trans)
    qed (use q in \<open>simp add: remove_step_def\<close>)
  qed
  then show ?thesis using plan_inv_snap [OF inv] by (simp add: removeNodeInstances_def)
qed

section \<open>Power changes\<close>

text \<open>Every instance of the node has a drain among the listed ones.\<close>

definition drains_all :: "schedulerPlanState \<Rightarrow> NodeReference \<Rightarrow> SchedulerInstance list \<Rightarrow> string list \<Rightarrow> bool" where
  "drains_all p node instances ds \<longleftrightarrow> (\<forall>d \<in> set ds. known (pn_snap p) (pn_actions p) d)
     \<and> (\<forall>i \<in> set instances. si_node i = node \<longrightarrow> (\<exists>d \<in> set ds. drain_in (pn_actions p) node (si_id i) d))"

lemma drains_all_grows:
  assumes "drains_all p node is ds" "grows p q" "pn_snap q = pn_snap p" shows "drains_all q node is ds"
  using assms grows_known [OF assms(2)] grows_drain [OF assms(2)] unfolding drains_all_def by metis

lemma drain_steps_inv:
  assumes inv: "plan_inv s p" and ok: "may_change s node"
  shows "plan_inv s (fst (foldl (drain_step node) (p, []) is)) \<and> grows p (fst (foldl (drain_step node) (p, []) is))
    \<and> drains_all (fst (foldl (drain_step node) (p, []) is)) node is (snd (foldl (drain_step node) (p, []) is))"
proof (rule foldl_prefix_invariant [where P = "\<lambda>ys acc. plan_inv s (fst acc) \<and> grows p (fst acc)
      \<and> drains_all (fst acc) node ys (snd acc)"])
  show "plan_inv s (fst (p, [])) \<and> grows p (fst (p, [])) \<and> drains_all (fst (p, [])) node [] (snd (p, []))"
    using inv by (simp add: drains_all_def)
  fix ys i and acc :: "schedulerPlanState \<times> string list"
  assume acc: "plan_inv s (fst acc) \<and> grows p (fst acc) \<and> drains_all (fst acc) node ys (snd acc)"
  show "plan_inv s (fst (drain_step node acc i)) \<and> grows p (fst (drain_step node acc i))
    \<and> drains_all (fst (drain_step node acc i)) node (ys @ [i]) (snd (drain_step node acc i))"
  proof (cases "si_node i = node")
    case True
    obtain q st dr where run: "stop_and_drain (fst acc) i [] = (q, st, dr)" by (cases "stop_and_drain (fst acc) i []")
    have sd: "plan_inv s q" "grows (fst acc) q" "drain_in (pn_actions q) node (si_id i) dr"
      "known s (pn_actions q) dr" "pn_snap q = pn_snap (fst acc)"
      using stop_and_drain_inv [OF _ _ _ run, of s] acc ok True by auto
    define q' where "q' = q\<lparr>pn_stops := (pn_stops q)(si_id i := st)\<rparr>"
    have step: "drain_step node acc i = (q', snd acc @ [dr])" using True by (simp add: drain_step_def run q'_def)
    have q': "pn_actions q' = pn_actions q" "pn_snap q' = s" "plan_inv s q'"
      using sd acc by (simp_all add: q'_def plan_inv_snap)
    have "drains_all q node ys (snd acc)" using drains_all_grows sd acc by blast
    then have "drains_all q' node (ys @ [i]) (snd acc @ [dr])"
      using sd(3,4,5) plan_inv_snap [of s "fst acc"] acc unfolding drains_all_def q' by auto
    moreover have "grows p q'" using acc sd(2) grows_trans grows_same [of q' q] q'(1) by metis
    ultimately show ?thesis using q'(3) by (simp add: step)
  next
    case False
    with acc show ?thesis by (auto simp: drain_step_def drains_all_def)
  qed
qed

lemma drains_all_after_drain:
  "drains_all p node is ds \<Longrightarrow> i \<in> set is \<Longrightarrow> si_node i = node \<Longrightarrow> after_drain (pn_actions p) node (si_id i) ds"
  unfolding drains_all_def after_drain_def by blast

text \<open>The power action of a node whose instances are drained.\<close>

lemma add_power_inv:
  assumes inv: "plan_inv s p" and ok: "may_change s (sn_node n)" and ds: "drains_all p (sn_node n) is ds"
    and run: "add_power p n from saving ds = (q, deps)"
  shows "plan_inv s q \<and> grows p q \<and> (\<forall>d \<in> set deps. known s (pn_actions q) d)
    \<and> (\<forall>i \<in> set is. si_node i = sn_node n \<longrightarrow> after_drain (pn_actions q) (sn_node n) (si_id i) deps)"
proof (cases "sn_powerMode n = from")
  case True
  then have "q = p" "deps = ds" using run by (simp_all add: add_power_def)
  with ds plan_inv_snap [OF inv] drains_all_after_drain [OF ds] inv show ?thesis by (simp add: drains_all_def)
next
  case False
  let ?f = "\<lambda>x. x\<lparr>ac_fixed := saving\<rparr>"
  define r where "r = fst (plan_add p schedulerActionPower (sn_node n) [] from (sn_powerMode n) ds)"
  define b where "b = built_action p schedulerActionPower (sn_node n) [] from (sn_powerMode n) ds"
  have acts: "pn_actions r = pn_actions p @ [b]" by (simp add: r_def b_def plan_add_actions)
  have add: "plan_add p schedulerActionPower (sn_node n) [] from (sn_powerMode n) ds = (r, ac_id b)"
    by (simp add: r_def b_def prod_eq_iff plan_add_actions)
  have q: "q = set_last ?f r" and deps: "deps = [ac_id b]" using run False by (simp_all add: add_power_def add)
  have r: "plan_inv s r"
    unfolding r_def using inv ok ds plan_inv_snap [OF inv]
    by (intro plan_add_inv) (auto simp: removal_ok_def drains_all_def)
  have same: "shape (?f (last (pn_actions r))) = shape (last (pn_actions r))" by (simp add: shape_def)
  have ne: "pn_actions r \<noteq> []" by (simp add: acts)
  have eq: "map shape (pn_actions r) = map shape (pn_actions q)"
    unfolding q by (rule set_last_shape [where f = ?f, OF ne same, symmetric])
  have "plan_inv s q" unfolding q by (rule set_last_inv [where f = ?f, OF r ne same])
  moreover have "grows p q"
    by (rule grows_trans [of p r q]) (simp_all add: r_def grows_same eq [unfolded r_def])
  moreover have "\<forall>d \<in> set deps. known s (pn_actions q) d"
    using known_shape [OF eq] by (simp add: acts deps)
  moreover have "after_drain (pn_actions q) (sn_node n) (si_id i) deps"
    if i: "i \<in> set is" "si_node i = sn_node n" for i
  proof (rule after_drain_shape [OF eq])
    obtain d where d: "d \<in> set ds" "drain_in (pn_actions p) (sn_node n) (si_id i) d"
      using ds i unfolding drains_all_def by blast
    have "d \<in> set (ac_dependsOn b)" using d(1) built_deps_keep unfolding b_def built_fields by blast
    moreover have "drain_in (pn_actions r) (sn_node n) (si_id i) d" unfolding acts using d(2) by (rule drain_in_append)
    moreover have "ac_kind b = schedulerActionPower" "ac_node b = sn_node n" by (simp_all add: b_def)
    ultimately show "after_drain (pn_actions r) (sn_node n) (si_id i) deps"
      unfolding after_drain_def deps acts by (intro bexI [of _ "ac_id b"] disjI2 bexI [of _ b]) auto
  qed
  ultimately show ?thesis by blast
qed

lemma await_node_inv:
  assumes "plan_inv s p" shows "plan_inv s (await_node p c node drains) \<and> grows p (await_node p c node drains)"
proof -
  have "plan_inv s (add_prepare p (pn_nodeTail p (nr_uid node)))" if "pn_nodeTail p (nr_uid node) \<noteq> []"
    using assms that by (intro add_prepare_inv) (auto simp: plan_inv_def)
  moreover have "grows p (add_prepare p (pn_nodeTail p (nr_uid node)))" by (rule grows_same) (simp add: add_prepare_def)
  ultimately show ?thesis using assms by (simp add: await_node_def Let_def)
qed

lemma switch_power_inv:
  assumes inv: "plan_inv s p" and ok: "may_change s (sn_node n)"
  shows "plan_inv s (switch_power p c n old from)"
proof -
  let ?node = "sn_node n" and ?is = "ss_instances s"
  define reboot where "reboot = list_ex (\<lambda>f. rb_from f = from \<and> rb_to f = sn_powerMode n) (sn_reboots old)"
  define dr where "dr = foldl (drain_step ?node) (p, []) ?is"
  define p3 where "p3 = (if reboot then removeNodeInstances (fst dr) ?node (snd dr) else fst dr)"
  define powered where "powered = add_power p3 n from (empty_saving p c n old) (snd dr)"
  define p5 where "p5 = (if reboot then fst powered else removeNodeInstances (fst powered) ?node (snd powered))"
  have 1: "plan_inv s (fst dr)" "drains_all (fst dr) ?node ?is (snd dr)"
    using drain_steps_inv [OF inv ok] by (auto simp: dr_def)
  have known1: "\<forall>d \<in> set (snd dr). known s (pn_actions (fst dr)) d"
    using 1(2) plan_inv_snap [OF 1(1)] by (simp add: drains_all_def)
  have "plan_inv s (removeNodeInstances (fst dr) ?node (snd dr))
      \<and> grows (fst dr) (removeNodeInstances (fst dr) ?node (snd dr))"
    using removeNodeInstances_inv [OF 1(1) ok known1] drains_all_after_drain [OF 1(2)] by blast
  then have 3: "plan_inv s p3" "grows (fst dr) p3" using 1(1) by (simp_all add: p3_def)
  have ds3: "drains_all p3 ?node ?is (snd dr)"
    using drains_all_grows [OF 1(2) 3(2)] plan_inv_snap 1(1) 3(1) by simp
  obtain q deps where pw: "powered = (q, deps)" by (cases powered)
  note 4 = add_power_inv [OF 3(1) ok ds3 pw [unfolded powered_def]]
  have "plan_inv s p5"
    using removeNodeInstances_inv [of s q ?node deps] ok 4 by (simp add: p5_def pw)
  moreover have "switch_power p c n old from = await_node p5 c ?node (snd dr)"
    unfolding switch_power_def Let_def plan_inv_snap [OF inv] p5_def powered_def p3_def dr_def reboot_def ..
  ultimately show ?thesis using await_node_inv by simp
qed

lemma keep_lowering_inv:
  assumes inv: "plan_inv s p" and ok: "may_change s (sn_node old)"
  shows "plan_inv s (fst (keep_lowering p old))"
proof (cases "authorized_lowering (pn_snap p) (sn_node old)")
  case (Some a)
  let ?f = "\<lambda>x. x\<lparr>ac_fixed := True\<rparr>"
  define r where "r = fst (plan_add p schedulerActionPower (sn_node old) [] (ac_from a) (ac_to a) [])"
  have "plan_inv s r" unfolding r_def using inv ok by (intro plan_add_inv) (simp_all add: removal_ok_def)
  moreover have "pn_actions r \<noteq> []" by (simp add: r_def plan_add_actions)
  moreover have "shape (?f (last (pn_actions r))) = shape (last (pn_actions r))" by (simp add: shape_def)
  ultimately have "plan_inv s (set_last ?f r)" by (rule set_last_inv [where f = ?f])
  with Some show ?thesis by (simp add: keep_lowering_def r_def)
qed (use inv in \<open>simp add: keep_lowering_def\<close>)

lemma change_node_inv:
  assumes inv: "plan_inv s p" and free: "\<not> schedulerReservedNode s (sn_node n)"
  shows "plan_inv s (change_node c n p old)"
proof (cases "sn_node n \<noteq> sn_node old \<or> sn_powerMode n = sn_powerMode old
    \<or> schedulerPhysicalChangeReason s (sn_node n) \<noteq> []")
  case True
  with inv plan_inv_snap [OF inv] show ?thesis by (auto simp: change_node_def Let_def)
next
  case False
  then have ok: "may_change s (sn_node n)" using free by (simp add: may_change_def)
  obtain p1 m where k: "keep_lowering p old = (p1, m)" by (cases "keep_lowering p old")
  have p1: "plan_inv s p1" using keep_lowering_inv [OF inv, of old] ok False k by simp
  then show ?thesis
    using False switch_power_inv [OF p1 ok] plan_inv_snap [OF inv] by (simp add: change_node_def Let_def k)
qed

lemma changeNodes_inv:
  assumes "plan_inv s p" shows "plan_inv s (changeNodes c p)"
  unfolding changeNodes_def
proof (rule foldl_invariant [where P = "plan_inv s"])
  fix q n assume q: "plan_inv s q"
  have "plan_inv s (foldl (change_node c n) q (ss_nodes (pn_snap q)))" if "\<not> schedulerReservedNode s (sn_node n)"
    by (rule foldl_invariant [where P = "plan_inv s"]) (simp_all add: q change_node_inv that)
  then show "plan_inv s (if schedulerReservedNode (pn_snap q) (sn_node n) then q
      else foldl (change_node c n) q (ss_nodes (pn_snap q)))"
    using q plan_inv_snap [OF q] by simp
qed (rule assms)

section \<open>Preparations, the route and retirement\<close>

lemma retirePreparationBlocker_inv:
  assumes inv: "plan_inv s p" and free: "\<not> schedulerReservedNode s (si_node i)"
  shows "plan_inv s (retirePreparationBlocker p i)"
proof (cases "schedulerPhysicalChangeReason s (si_node i) \<noteq> []")
  case False
  then have ok: "may_change s (si_node i)" using free by (simp add: may_change_def)
  have snap: "pn_snap p = s" using inv by (rule plan_inv_snap)
  show ?thesis
  proof (cases "find (running_removal i) (ss_actions s)")
    case None
    then show ?thesis
      using retire_inv [OF inv ok, of "[]"] False by (simp add: retirePreparationBlocker_def snap case_prod_beta)
  next
    case (Some old)
    then have old: "old \<in> set (ss_actions s)" "ac_kind old = schedulerActionRemove" "ac_node old = si_node i"
      "ac_status old = phaseRunning"
      using find_in [OF Some] by (simp_all add: running_removal_def)
    let ?p = "p\<lparr>pn_stops := (pn_stops p)(si_id i := ac_id old)\<rparr>"
    have "plan_inv s (fst (plan_add ?p (ac_kind old) (ac_node old) (ac_instance old) (ac_from old) (ac_to old) (ac_dependsOn old)))"
    proof (rule plan_add_inv)
      show "plan_inv s ?p" using inv by simp
      show "\<forall>d \<in> set (ac_dependsOn old). known s (pn_actions ?p) d" using old by (auto simp: known_def)
      show "ac_kind old = schedulerActionRoute \<or> may_change s (ac_node old)" using ok old by simp
      show "removal_ok s (pn_actions ?p) (ac_kind old) (ac_node old) (ac_instance old) (ac_from old) (ac_to old) (ac_dependsOn old)"
        using old(1,4) unfolding removal_ok_def by blast
    qed
    with Some False show ?thesis by (simp add: retirePreparationBlocker_def snap)
  qed
qed (use inv plan_inv_snap [OF inv] in \<open>simp add: retirePreparationBlocker_def\<close>)

lemma free_loop_inv:
  "plan_inv s p \<Longrightarrow> \<not> schedulerReservedNode s (si_node wanted) \<Longrightarrow> plan_inv s (free_loop p wanted blockers)"
proof (induction p wanted blockers rule: free_loop.induct)
  case (2 p wanted pr rest)
  obtain second i where pr: "pr = (second, i)" by (cases pr)
  have "plan_inv s (retirePreparationBlocker p i)" if "\<not> not_a_blocker p wanted pr"
    using 2(3,4) that by (intro retirePreparationBlocker_inv) (auto simp: not_a_blocker_def pr)
  with 2 show ?case by (simp add: Let_def pr)
qed simp

lemma prepare_target_inv:
  assumes inv: "plan_inv s p" shows "plan_inv s (prepare_target p wanted)"
proof -
  have snap: "pn_snap p = s" using inv by (rule plan_inv_snap)
  have running: "plan_inv s (add_prepare p (runningPreparation p wanted))" if some: "runningPreparation p wanted \<noteq> []"
  proof -
    obtain a where "find (preparation_of s wanted) (ss_actions s) = Some a" "runningPreparation p wanted = ac_id a"
      using some by (auto simp: runningPreparation_def snap split: option.splits)
    with find_in [of "preparation_of s wanted" "ss_actions s" a] have "known s (pn_actions p) (runningPreparation p wanted)"
      unfolding known_def preparation_of_def by auto
    then show ?thesis by (rule add_prepare_inv [OF inv])
  qed
  let ?q = "freePreparationResources p wanted"
  have "plan_inv s ?q" if "\<not> schedulerReservedNode s (si_node wanted)"
    using inv free_loop_inv [OF inv that] by (simp add: freePreparationResources_def)
  then have "plan_inv s (add_prepare (fst (plan_add ?q schedulerActionPrepare (si_node wanted) (si_id wanted) ''unloaded''
        (schedulerState wanted) [])) (snd (plan_add ?q schedulerActionPrepare (si_node wanted) (si_id wanted) ''unloaded''
        (schedulerState wanted) [])))"
    if "may_change s (si_node wanted)"
    using that by (intro add_prepare_inv plan_add_inv plan_add_known) (auto simp: may_change_def removal_ok_def)
  with running inv show ?thesis
    by (simp add: prepare_target_def Let_def snap case_prod_beta may_change_def)
qed

lemma prepareTargets_inv: "plan_inv s p \<Longrightarrow> plan_inv s (prepareTargets c p)"
  unfolding prepareTargets_def by (rule foldl_invariant [where P = "plan_inv s"]) (simp_all add: prepare_target_inv)

lemma retireOld_inv:
  assumes inv: "plan_inv s p" and route: "known s (pn_actions p) r"
  shows "plan_inv s (retireOld c r p)"
proof -
  have "plan_inv s (foldl (retire_step c r) p (ss_instances (pn_snap p)))
      \<and> grows p (foldl (retire_step c r) p (ss_instances (pn_snap p)))"
  proof (rule foldl_invariant [where P = "\<lambda>q. plan_inv s q \<and> grows p q"])
    fix q :: schedulerPlanState and i :: SchedulerInstance assume q: "plan_inv s q \<and> grows p q"
    let ?deps = "if schedulerInstanceRouted (ss_routing s) (si_id i) then [r] else []"
    have deps: "\<forall>d \<in> set ?deps. known s (pn_actions q) d" using grows_known [OF _ route] q by simp
    have "plan_inv s (fst (retire q i ?deps)) \<and> grows p (fst (retire q i ?deps))" if "may_change s (si_node i)"
      using retire_inv [OF _ that deps] q grows_trans by blast
    then show "plan_inv s (retire_step c r q i) \<and> grows p (retire_step c r q i)"
      using q plan_inv_snap [of s q] by (simp add: retire_step_def may_change_def)
  qed (use inv in simp)
  then show ?thesis by (simp add: retireOld_def)
qed

lemma new_plan_inv: "plan_inv s (new_plan st s c [])"
  by (simp add: plan_inv_def new_plan_def)

lemma plan_to_route_inv:
  assumes run: "plan_to_route st s c = (q, r)"
  shows "plan_inv s q \<and> known s (pn_actions q) r"
proof -
  define p where "p = prepareTargets c (changeNodes c (new_plan st s (Some c) []))"
  define a where "a = plan_add p schedulerActionRoute zero_node [] [] (schedulerConfigKey c) (pn_prepares p)"
  let ?f = "explain_route (pn_reasons (fst a))"
  have q: "q = set_last ?f (fst a)" and r: "r = snd a"
    using run by (simp_all add: plan_to_route_def Let_def p_def a_def case_prod_beta)
  have p: "plan_inv s p" unfolding p_def by (intro prepareTargets_inv changeNodes_inv new_plan_inv)
  then have a: "plan_inv s (fst a)"
    unfolding a_def by (intro plan_add_inv) (auto simp: plan_inv_def removal_ok_def)
  have ne: "pn_actions (fst a) \<noteq> []" by (simp add: a_def plan_add_actions)
  have same: "shape (?f (last (pn_actions (fst a)))) = shape (last (pn_actions (fst a)))"
    by (simp add: explain_route_def shape_def)
  have "known s (pn_actions (fst a)) r" unfolding r a_def by (rule plan_add_known)
  then have "known s (pn_actions q) r"
    using known_shape set_last_shape [where f = ?f, OF ne same, symmetric] unfolding q by blast
  with set_last_inv [where f = ?f, OF a ne same] show ?thesis unfolding q by blast
qed

lemma plan_state_inv: "plan_inv s (plan_state st s c)"
proof -
  obtain q r where run: "plan_to_route st s c = (q, r)" by (cases "plan_to_route st s c")
  from plan_to_route_inv [OF run] retireOld_inv show ?thesis by (simp add: plan_state_def run)
qed

section \<open>Costs change no shape\<close>

lemma clear_cost_shape [simp]: "shape (clear_cost a) = shape a"
  by (simp add: clear_cost_def shape_def)

lemma take_cost_shape [simp]: "shape (take_cost sel a) = shape a"
  by (cases sel) (auto simp: take_cost_def shape_def)

lemma expect_cost_shape [simp]: "shape (expect_cost st costs a) = shape a"
  unfolding expect_cost_def Let_def
  by (cases "schedulerCost costs (ac_costID a)"; cases "capacityOperationCost (schedulerCost costs (ac_costID a))")
    (auto simp: shape_def)

lemma cost_action_shape [simp]: "shape (cost_action p idn cls c a) = shape a"
  by (simp add: cost_action_def Let_def)

lemma cost_loop_shape: "map shape (cost_loop p idn cls c as) = map shape as"
  by (induction p idn cls c as rule: cost_loop.induct) simp_all

lemma selectCosts_shape: "map shape (pn_actions (selectCosts p)) = map shape (pn_actions p)"
  by (simp add: selectCosts_def Let_def cost_loop_shape)

lemma schedulerPlan_sound: "sound_plan s (schedulerPlan st s c)"
proof -
  have "sound_plan s (pn_actions (plan_state st s c))" using plan_state_inv by (simp add: plan_inv_def)
  then show ?thesis
    unfolding schedulerPlan_def by (rule sound_plan_shape [OF selectCosts_shape [symmetric]])
qed

section \<open>The properties\<close>

text \<open>
  C21: a plan can be executed in its order: every action waits only for actions before it in the
  plan, or for what the snapshot shows as already running (the action itself or, for a running
  removal that the plan takes over, what that removal already waits for). With nothing running
  the dependencies are acyclic and all of them are in the plan.
\<close>

theorem plan_dependencies:
  assumes "k < length (schedulerPlan st s c)"
    and "d \<in> set (ac_dependsOn (schedulerPlan st s c ! k))"
  shows "(\<exists>j < k. ac_id (schedulerPlan st s c ! j) = d)
    \<or> (\<exists>a \<in> set (ss_actions s). ac_status a = phaseRunning
         \<and> (ac_id a = d \<or> ac_kind a = schedulerActionRemove \<and> d \<in> set (ac_dependsOn a)))"
proof -
  have "sound_next s (take k (schedulerPlan st s c)) (schedulerPlan st s c ! k)"
    using schedulerPlan_sound assms(1) by (simp add: sound_plan_def)
  then have "known s (take k (schedulerPlan st s c)) d" using assms(2) by (simp add: sound_next_def)
  then show ?thesis using assms(1) by (fastforce simp: known_def in_set_conv_nth)
qed

text \<open>
  C22: a plan changes only what the scheduler may change. The node of every action but the route
  is in the pool, observed ready, without the reason InstanceUnavailable and without an instance
  that is neither ready nor terminated, and no reservation holds it.
\<close>

theorem plan_stays_in_scope:
  assumes "a \<in> set (schedulerPlan st s c)" and "ac_kind a \<noteq> schedulerActionRoute"
  shows "(\<exists>n \<in> set (ss_nodes s). sn_node n = ac_node a \<and> sn_ready n
      \<and> NodeInstanceUnavailable \<notin> set (sn_reasons n))
    \<and> (\<forall>i \<in> set (ss_instances s). si_node i = ac_node a \<longrightarrow> si_ready i \<or> si_terminated i)
    \<and> (\<forall>r \<in> set (ss_reservations s). ac_node a \<notin> set (rv_nodes r))"
proof -
  obtain k where k: "k < length (schedulerPlan st s c)" "schedulerPlan st s c ! k = a"
    using assms(1) by (auto simp: in_set_conv_nth)
  then have "in_scope s a" using schedulerPlan_sound [of s st c] by (auto simp: sound_plan_def sound_next_def)
  then have ok: "schedulerPhysicalChangeReason s (ac_node a) = []" "\<not> schedulerReservedNode s (ac_node a)"
    using assms(2) by (simp_all add: in_scope_def may_change_def)
  from ok(1) obtain n where n: "find (\<lambda>n. sn_node n = ac_node a) (ss_nodes s) = Some n" "sn_ready n"
      "NodeInstanceUnavailable \<notin> set (sn_reasons n)"
      "\<not> list_ex (\<lambda>i. si_node i = ac_node a \<and> \<not> si_terminated i \<and> \<not> si_ready i) (ss_instances s)"
    by (auto simp: schedulerPhysicalChangeReason_def split: option.splits if_splits)
  from find_in [OF n(1)] n(2-4) ok(2) show ?thesis
    by (auto simp: schedulerReservedNode_def list_ex_iff)
qed

text \<open>
  C8: an instance is removed only after it is stopped and drained. Before a removal the plan
  stops the instance, drains it after that stop, and the removal waits for the drain, directly or
  through a power change of its node that waits for it; the one exception is a removal that is
  already running and that the plan takes over.
\<close>

theorem removal_after_drain:
  assumes "k < length (schedulerPlan st s c)" and "a = schedulerPlan st s c ! k"
    and "ac_kind a = schedulerActionRemove"
    and "\<not> (\<exists>old \<in> set (ss_actions s). ac_status old = phaseRunning \<and> same_operation old a)"
  shows "\<exists>x \<in> set (take k (schedulerPlan st s c)). \<exists>y \<in> set (take k (schedulerPlan st s c)).
     ac_kind x = schedulerActionStop \<and> ac_node x = ac_node a \<and> ac_instance x = ac_instance a
     \<and> ac_kind y = schedulerActionDrain \<and> ac_node y = ac_node a \<and> ac_instance y = ac_instance a
     \<and> ac_id x \<in> set (ac_dependsOn y)
     \<and> (ac_id y \<in> set (ac_dependsOn a)
        \<or> (\<exists>p \<in> set (take k (schedulerPlan st s c)). ac_kind p = schedulerActionPower \<and> ac_node p = ac_node a
             \<and> ac_id y \<in> set (ac_dependsOn p) \<and> ac_id p \<in> set (ac_dependsOn a)))"
proof -
  let ?acts = "take k (schedulerPlan st s c)"
  have "sound_next s ?acts a" using schedulerPlan_sound assms(1,2) by (simp add: sound_plan_def)
  then have "after_drain ?acts (ac_node a) (ac_instance a) (ac_dependsOn a)"
    using assms(3,4) by (auto simp: sound_next_def drained_first_def)
  then obtain d e where d: "d \<in> set (ac_dependsOn a)" and e: "drain_in ?acts (ac_node a) (ac_instance a) e"
    and way: "e = d \<or> (\<exists>p \<in> set ?acts. ac_id p = d \<and> ac_kind p = schedulerActionPower
        \<and> ac_node p = ac_node a \<and> e \<in> set (ac_dependsOn p))"
    unfolding after_drain_def by blast
  from e obtain y x where "y \<in> set ?acts" "ac_id y = e" "of_instance schedulerActionDrain (ac_node a) (ac_instance a) y"
    "x \<in> set ?acts" "of_instance schedulerActionStop (ac_node a) (ac_instance a) x" "ac_id x \<in> set (ac_dependsOn y)"
    unfolding drain_in_def by blast
  with d way show ?thesis
    unfolding of_instance_def by (intro bexI [of _ x] bexI [of _ y]) auto
qed

text \<open>The properties on the sample.\<close>

theorem plan_dependencies_witness:
  "\<exists>j < 3. ac_id (schedulerPlan sample_settings sample_snapshot sample_candidate ! j) = ''remove-u-old-9-2''"
  using plan_dependencies [of 3 sample_settings sample_snapshot sample_candidate "''remove-u-old-9-2''"]
    sample_nth [of 3] by (simp add: sample_length sample_no_actions)

theorem plan_stays_in_scope_witness:
  "\<exists>n \<in> set (ss_nodes sample_snapshot).
     sn_node n = ac_node (schedulerPlan sample_settings sample_snapshot sample_candidate ! 0) \<and> sn_ready n"
  using plan_stays_in_scope [of "schedulerPlan sample_settings sample_snapshot sample_candidate ! 0"
      sample_settings sample_snapshot sample_candidate] sample_nth [of 0] nth_mem sample_length by auto

theorem removal_after_drain_witness:
  "\<exists>x \<in> set (take 2 (schedulerPlan sample_settings sample_snapshot sample_candidate)). ac_kind x = schedulerActionStop"
  using removal_after_drain [of 2 sample_settings sample_snapshot sample_candidate, OF _ refl]
    sample_nth [of 2] by (auto simp: sample_length sample_no_actions)

end
