(* ===== verification/PlanComplete.thy ===== *)
theory PlanComplete
  imports PlanSafety
begin

text \<open>
  What a plan achieves. When nothing stands in its way, a plan prepares every instance of the
  candidate that is not there yet, before the route, and removes every instance the candidate no
  longer has. The construction only ever adds actions, prerequisites of the route and reasons,
  and an instance it has stopped it also removes.
\<close>

section \<open>Plans only grow\<close>

definition extends :: "schedulerPlanState \<Rightarrow> schedulerPlanState \<Rightarrow> bool" where
  "extends p q \<longleftrightarrow> grows p q \<and> pn_snap q = pn_snap p \<and> set (pn_prepares p) \<subseteq> set (pn_prepares q)
     \<and> (pn_reasons q = [] \<longrightarrow> pn_reasons p = [])"

lemma extends_refl [simp]: "extends p p"
  by (simp add: extends_def)

lemma extends_trans [trans]: "extends p q \<Longrightarrow> extends q r \<Longrightarrow> extends p r"
  unfolding extends_def using grows_trans [of p q r] by auto

lemma extends_add [simp]: "extends p (fst (plan_add p kind node inst from to deps))"
  by (simp add: extends_def)

lemma extends_stops [simp]: "extends p (q\<lparr>pn_stops := x\<rparr>) = extends p q"
  by (simp add: extends_def grows_def)

lemma extends_add_prepare [simp]: "extends p (add_prepare p d)"
  by (auto simp: extends_def add_prepare_def intro: grows_same)

lemma appendUnique_Nil: "appendUnique xs ys = [] \<longleftrightarrow> xs = [] \<and> ys = []"
proof (induction ys arbitrary: xs)
  case (Cons y ys)
  have "(if y \<in> set xs then xs else xs @ [y]) \<noteq> []" by auto
  with Cons.IH [of "if y \<in> set xs then xs else xs @ [y]"] show ?case
    by (simp add: appendUnique_def del: if_split)
qed (simp add: appendUnique_def)

lemma extends_reasons [simp]: "extends p (p\<lparr>pn_reasons := appendUnique (pn_reasons p) rs\<rparr>)"
  by (auto simp: extends_def appendUnique_Nil intro: grows_same)

lemma extends_add_reason [simp]: "extends p (add_reason reason node p)"
  by (simp add: add_reason_def)

lemma extends_set_last:
  assumes "pn_actions p \<noteq> []" and "shape (f (last (pn_actions p))) = shape (last (pn_actions p))"
  shows "extends p (set_last f p)"
  using set_last_shape [where f = f, OF assms] by (simp add: extends_def grows_same)

lemma extends_set_fixed:
  "extends p (set_last (\<lambda>x. x\<lparr>ac_fixed := b\<rparr>) (fst (plan_add p kind node inst from to deps)))"
  by (rule extends_trans [OF extends_add extends_set_last]) (simp_all add: plan_add_actions shape_def)

lemma extends_foldl: "(\<And>q x. extends q (f q x)) \<Longrightarrow> extends p (foldl f p xs)"
  by (rule foldl_invariant [where P = "extends p"]) (simp, rule extends_trans)

lemma extends_stop_and_drain: "extends p (fst (stop_and_drain p i deps))"
  by (auto simp: stop_and_drain_def case_prod_beta intro: extends_trans [OF extends_add extends_add])

lemma extends_retire: "extends p (fst (retire p i deps))"
  by (auto simp: retire_def case_prod_beta intro: extends_trans [OF extends_stop_and_drain extends_add])

lemma extends_removeNodeInstances: "extends p (removeNodeInstances p node deps)"
  unfolding removeNodeInstances_def by (rule extends_foldl) (simp add: remove_step_def)

lemma extends_drain_step: "extends p (fst acc) \<Longrightarrow> extends p (fst (drain_step node acc i))"
  by (auto simp: drain_step_def case_prod_beta intro: extends_trans [OF _ extends_stop_and_drain])

lemma extends_drains: "extends p (fst (foldl (drain_step node) (p, []) is))"
  by (rule foldl_invariant [where P = "\<lambda>acc. extends p (fst acc)"]) (simp_all add: extends_drain_step)

lemma extends_add_power: "extends p (fst (add_power p n from saving deps))"
  using extends_set_fixed [of p] by (simp add: add_power_def case_prod_beta)

lemma extends_await_node: "extends p (await_node p c node drains)"
  by (simp add: await_node_def Let_def)

lemma extends_switch_power: "extends p (switch_power p c n old from)"
proof -
  let ?dr = "foldl (drain_step (sn_node n)) (p, []) (ss_instances (pn_snap p))"
  have 1: "extends p (if b then removeNodeInstances (fst ?dr) (sn_node n) ds else fst ?dr)" for b ds
    using extends_trans [OF extends_drains extends_removeNodeInstances] extends_drains by simp
  have 2: "extends p (if b then fst pw else removeNodeInstances (fst pw) (sn_node n) (snd pw))"
    if "extends p (fst pw)" for b pw
    using extends_trans [OF that extends_removeNodeInstances] that by simp
  show ?thesis
    unfolding switch_power_def Let_def
    by (rule extends_trans [OF 2 [OF extends_trans [OF 1 extends_add_power]] extends_await_node])
qed

lemma extends_keep_lowering: "extends p (fst (keep_lowering p old))"
  using extends_set_fixed [of p] by (simp add: keep_lowering_def split: option.split)

lemma extends_change_node: "extends p (change_node c n p old)"
proof -
  obtain p1 m where k: "keep_lowering p old = (p1, m)" by (cases "keep_lowering p old")
  have 1: "extends p p1" using extends_keep_lowering [of p old] k by simp
  show ?thesis
    using 1 extends_trans [OF 1 extends_switch_power] extends_trans [OF 1 extends_reasons]
    by (simp add: change_node_def Let_def k)
qed

lemma extends_changeNodes: "extends p (changeNodes c p)"
  unfolding changeNodes_def by (rule extends_foldl) (simp add: extends_foldl extends_change_node)

lemma extends_blocker: "extends p (retirePreparationBlocker p i)"
proof -
  have "extends p (fst (plan_add (p\<lparr>pn_stops := x\<rparr>) kind node inst from to deps))" for x kind node inst "from" to deps
    by (rule extends_trans [OF _ extends_add]) simp
  then show ?thesis
    using extends_retire by (simp add: retirePreparationBlocker_def case_prod_beta split: option.split)
qed

lemma extends_free_loop: "extends p (free_loop p wanted blockers)"
proof (induction p wanted blockers rule: free_loop.induct)
  case (2 p wanted pr rest)
  let ?q = "retirePreparationBlocker p (snd pr)"
  have "extends p (free_loop ?q wanted rest)" if "\<not> not_a_blocker p wanted pr" "\<not> preparationFits ?q wanted"
    by (rule extends_trans [OF extends_blocker 2(2) [OF that(1) refl that(2)]])
  then show ?case using 2(1) extends_blocker by (simp add: Let_def)
qed simp

lemma extends_free: "extends p (freePreparationResources p wanted)"
  by (simp add: freePreparationResources_def extends_free_loop)

lemma extends_prepare_target: "extends p (prepare_target p wanted)"
proof -
  let ?a = "plan_add (freePreparationResources p wanted) schedulerActionPrepare (si_node wanted) (si_id wanted)
      ''unloaded'' (schedulerState wanted) []"
  have "extends p (add_prepare (fst ?a) (snd ?a))"
    by (rule extends_trans [OF extends_trans [OF extends_free extends_add] extends_add_prepare])
  then show ?thesis by (simp add: prepare_target_def Let_def case_prod_beta)
qed

lemma extends_retire_step: "extends p (retire_step c r p i)"
  by (simp add: retire_step_def extends_retire)

section \<open>Preparations\<close>

lemma grows_action:
  assumes "grows p q" "a \<in> set (pn_actions p)"
  obtains b where "b \<in> set (pn_actions q)" "shape b = shape a"
proof -
  obtain new where eq: "map shape (pn_actions p @ new) = map shape (pn_actions q)"
    using assms(1) by (auto simp: grows_def)
  show ?thesis by (rule shapes_in [OF eq]) (use assms(2) that in auto)
qed

definition prepared :: "schedulerPlanState \<Rightarrow> SchedulerInstance \<Rightarrow> bool" where
  "prepared p w \<longleftrightarrow> (\<exists>a \<in> set (pn_actions p). of_instance schedulerActionPrepare (si_node w) (si_id w) a
     \<and> ac_to a = schedulerState w \<and> ac_id a \<in> set (pn_prepares p))"

definition being_prepared :: "schedulerPlanState \<Rightarrow> SchedulerInstance \<Rightarrow> bool" where
  "being_prepared p w \<longleftrightarrow> (\<exists>a \<in> set (ss_actions (pn_snap p)). preparation_of (pn_snap p) w a
     \<and> ac_id a \<in> set (pn_prepares p))"

definition covered :: "schedulerPlanState \<Rightarrow> SchedulerInstance \<Rightarrow> bool" where
  "covered p w \<longleftrightarrow> si_terminated w \<or> schedulerReservedNode (pn_snap p) (si_node w)
     \<or> list_ex (\<lambda>i. schedulerSamePhysicalTarget i w) (ss_instances (pn_snap p))
     \<or> being_prepared p w \<or> prepared p w \<or> pn_reasons p \<noteq> []"

lemma prepared_extends:
  assumes "extends p q" "prepared p w" shows "prepared q w"
proof -
  obtain a where a: "a \<in> set (pn_actions p)" "of_instance schedulerActionPrepare (si_node w) (si_id w) a"
    "ac_to a = schedulerState w" "ac_id a \<in> set (pn_prepares p)"
    using assms(2) by (auto simp: prepared_def)
  have "grows p q" using assms(1) by (simp add: extends_def)
  then obtain b where b: "b \<in> set (pn_actions q)" "shape b = shape a" using a(1) by (rule grows_action)
  have "of_instance schedulerActionPrepare (si_node w) (si_id w) b \<and> ac_to b = schedulerState w
      \<and> ac_id b \<in> set (pn_prepares q)"
    using a b(2) assms(1) by (auto simp: shape_eq of_instance_def extends_def)
  with b(1) show ?thesis unfolding prepared_def by blast
qed

lemma covered_extends: "extends p q \<Longrightarrow> covered p w \<Longrightarrow> covered q w"
  using prepared_extends [of p q w] by (auto simp: covered_def extends_def being_prepared_def)

lemma prepare_target_covered: "covered (prepare_target p w) w"
proof -
  let ?a = "plan_add (freePreparationResources p w) schedulerActionPrepare (si_node w) (si_id w) ''unloaded''
      (schedulerState w) []"
  have "covered (add_prepare p (runningPreparation p w)) w" if "runningPreparation p w \<noteq> []"
  proof -
    obtain a where f: "find (preparation_of (pn_snap p) w) (ss_actions (pn_snap p)) = Some a"
      using \<open>runningPreparation p w \<noteq> []\<close> by (auto simp: runningPreparation_def split: option.splits)
    from find_in [OF f] have "being_prepared (add_prepare p (ac_id a)) w"
      unfolding being_prepared_def by (intro bexI [of _ a]) (simp_all add: add_prepare_def)
    with f show ?thesis by (simp add: covered_def runningPreparation_def)
  qed
  moreover have "prepared (add_prepare (fst ?a) (snd ?a)) w"
    unfolding prepared_def
    by (intro bexI [of _ "last (pn_actions (fst ?a))"]) (simp_all add: add_prepare_def plan_add_actions of_instance_def)
  then have "covered (add_prepare (fst ?a) (snd ?a)) w" by (simp add: covered_def)
  moreover have "covered (add_reason r n p) w" for r n
    by (simp add: covered_def add_reason_def appendUnique_Nil)
  ultimately show ?thesis
    by (simp add: prepare_target_def Let_def case_prod_beta) (simp add: covered_def)
qed

lemma prepareTargets_covered: "extends p (prepareTargets c p) \<and> (\<forall>w \<in> set (sc_instances c). covered (prepareTargets c p) w)"
  unfolding prepareTargets_def
proof (rule foldl_prefix_invariant [where P = "\<lambda>ys q. extends p q \<and> (\<forall>w \<in> set ys. covered q w)"])
  fix ys w q assume q: "extends p q \<and> (\<forall>w \<in> set ys. covered q w)"
  show "extends p (prepare_target q w) \<and> (\<forall>v \<in> set (ys @ [w]). covered (prepare_target q w) v)"
    using q extends_trans [OF _ extends_prepare_target] covered_extends [OF extends_prepare_target] prepare_target_covered
    by auto
qed simp

section \<open>What is stopped is removed\<close>

definition removed :: "schedulerPlanState \<Rightarrow> SchedulerInstance \<Rightarrow> bool" where
  "removed p i \<longleftrightarrow> (\<exists>a \<in> set (pn_actions p). of_instance schedulerActionRemove (si_node i) (si_id i) a)"

lemma removed_extends:
  assumes "extends p q" "removed p i" shows "removed q i"
proof -
  obtain a where a: "a \<in> set (pn_actions p)" "of_instance schedulerActionRemove (si_node i) (si_id i) a"
    using assms(2) by (auto simp: removed_def)
  have "grows p q" using assms(1) by (simp add: extends_def)
  then obtain b where b: "b \<in> set (pn_actions q)" "shape b = shape a" using a(1) by (rule grows_action)
  with a(2) show ?thesis unfolding removed_def by (intro bexI [of _ b]) (simp_all add: shape_eq of_instance_def)
qed

lemma removed_add: "removed (fst (plan_add p schedulerActionRemove (si_node i) (si_id i) from to deps)) i"
  unfolding removed_def plan_add_actions
  by (intro bexI [of _ "built_action p schedulerActionRemove (si_node i) (si_id i) from to deps"])
    (simp_all add: of_instance_def)

text \<open>Except on a node that is being emptied, every stopped instance has its removal.\<close>

definition stops_removed :: "NodeReference option \<Rightarrow> schedulerPlanState \<Rightarrow> bool" where
  "stops_removed node p \<longleftrightarrow> (\<forall>i \<in> set (ss_instances (pn_snap p)). pn_stops p (si_id i) \<noteq> []
     \<longrightarrow> removed p i \<or> Some (si_node i) = node)"

lemma stops_removed_extends:
  "extends p q \<Longrightarrow> pn_stops q = pn_stops p \<Longrightarrow> stops_removed node p \<Longrightarrow> stops_removed node q"
  using removed_extends [of p q] by (auto simp: stops_removed_def extends_def)

lemma stop_and_drain_stops: "pn_stops (fst (stop_and_drain p i deps)) = pn_stops p"
  by (simp add: stop_and_drain_def case_prod_beta)

lemma retire_stops: "pn_stops (fst (retire p i deps)) = pn_stops p"
proof -
  obtain q st dr where "stop_and_drain p i deps = (q, st, dr)" by (cases "stop_and_drain p i deps")
  then show ?thesis using stop_and_drain_stops [of p i deps] by (simp add: retire_def)
qed

lemma retire_removes: "removed (fst (retire p i deps)) i"
  by (simp add: retire_def case_prod_beta removed_add)

definition distinct_ids :: "SchedulerSnapshot \<Rightarrow> bool" where
  "distinct_ids s \<longleftrightarrow> distinct (map si_id (ss_instances s))"

lemma same_id:
  "distinct_ids s \<Longrightarrow> i \<in> set (ss_instances s) \<Longrightarrow> j \<in> set (ss_instances s) \<Longrightarrow> si_id i = si_id j \<Longrightarrow> i = j"
  unfolding distinct_ids_def distinct_map inj_on_def by blast

lemma drain_step_stops:
  assumes d: "distinct_ids (pn_snap (fst acc))" and i: "i \<in> set (ss_instances (pn_snap (fst acc)))"
    and ok: "stops_removed (Some node) (fst acc)"
  shows "stops_removed (Some node) (fst (drain_step node acc i))"
proof (cases "si_node i = node")
  case True
  obtain q st dr where run: "stop_and_drain (fst acc) i [] = (q, st, dr)" by (cases "stop_and_drain (fst acc) i []")
  have q: "extends (fst acc) q" "pn_stops q = pn_stops (fst acc)" "pn_snap q = pn_snap (fst acc)"
    using extends_stop_and_drain [of "fst acc" i "[]"] stop_and_drain_stops [of "fst acc" i "[]"] run
    by (simp_all add: extends_def)
  have "stops_removed (Some node) q" using stops_removed_extends q(1,2) ok by blast
  moreover have "j = i" if "j \<in> set (ss_instances (pn_snap q))" "si_id j = si_id i" for j
    using same_id [OF d _ i] that q(3) by simp
  ultimately have "stops_removed (Some node) (q\<lparr>pn_stops := (pn_stops q)(si_id i := st)\<rparr>)"
    using True unfolding stops_removed_def removed_def by auto
  then show ?thesis by (simp add: drain_step_def True run)
qed (use ok in \<open>simp add: drain_step_def\<close>)

lemma removeNodeInstances_removes:
  "\<forall>i \<in> set (ss_instances (pn_snap p)). si_node i = node \<longrightarrow> removed (removeNodeInstances p node deps) i"
proof -
  have "extends p (foldl (remove_step node deps) p is)
      \<and> (\<forall>i \<in> set is. si_node i = node \<longrightarrow> removed (foldl (remove_step node deps) p is) i)" for "is"
  proof (rule foldl_prefix_invariant [where P = "\<lambda>ys q. extends p q \<and> (\<forall>i \<in> set ys. si_node i = node \<longrightarrow> removed q i)"])
    fix ys i q assume q: "extends p q \<and> (\<forall>i \<in> set ys. si_node i = node \<longrightarrow> removed q i)"
    have e: "extends q (remove_step node deps q i)" by (simp add: remove_step_def)
    have "removed (remove_step node deps q i) i" if "si_node i = node"
      using that removed_add [of q i] by (simp add: remove_step_def)
    then show "extends p (remove_step node deps q i)
        \<and> (\<forall>j \<in> set (ys @ [i]). si_node j = node \<longrightarrow> removed (remove_step node deps q i) j)"
      using q extends_trans [OF _ e] removed_extends [OF e] by auto
  qed simp
  then show ?thesis by (simp add: removeNodeInstances_def)
qed

lemma removeNodeInstances_stops: "pn_stops (removeNodeInstances p node deps) = pn_stops p"
  unfolding removeNodeInstances_def
  by (rule foldl_invariant [where P = "\<lambda>q. pn_stops q = pn_stops p"]) (simp_all add: remove_step_def)

lemma emptied:
  assumes "stops_removed (Some node) p" shows "stops_removed None (removeNodeInstances p node deps)"
  using stops_removed_extends [OF extends_removeNodeInstances [of p node deps] removeNodeInstances_stops assms]
    removeNodeInstances_removes [of p node deps] extends_removeNodeInstances [of p node deps]
  unfolding stops_removed_def extends_def by auto

lemma add_power_stops: "pn_stops (fst (add_power p n from saving deps)) = pn_stops p"
  by (simp add: add_power_def case_prod_beta)

lemma await_node_stops: "pn_stops (await_node p c node drains) = pn_stops p"
  by (simp add: await_node_def add_prepare_def Let_def)

lemma switch_power_stops:
  assumes ids: "distinct_ids (pn_snap p)" and ok: "stops_removed None p"
  shows "stops_removed None (switch_power p c n old from)"
proof -
  let ?node = "sn_node n"
  define dr where "dr = foldl (drain_step ?node) (p, []) (ss_instances (pn_snap p))"
  have start: "stops_removed (Some ?node) p" using ok by (simp add: stops_removed_def)
  have "pn_snap (fst dr) = pn_snap p \<and> stops_removed (Some ?node) (fst dr)"
    unfolding dr_def
  proof (rule foldl_invariant [where P = "\<lambda>acc. pn_snap (fst acc) = pn_snap p \<and> stops_removed (Some ?node) (fst acc)"])
    fix acc :: "schedulerPlanState \<times> string list" and i
    assume i: "i \<in> set (ss_instances (pn_snap p))"
      and acc: "pn_snap (fst acc) = pn_snap p \<and> stops_removed (Some ?node) (fst acc)"
    show "pn_snap (fst (drain_step ?node acc i)) = pn_snap p \<and> stops_removed (Some ?node) (fst (drain_step ?node acc i))"
      using drain_step_stops [of acc i ?node] extends_drain_step [OF extends_refl, of acc ?node i] ids i acc
      by (simp add: extends_def)
  qed (use start in simp)
  then have dr: "stops_removed (Some ?node) (fst dr)" ..
  define reboot where "reboot = list_ex (\<lambda>f. rb_from f = from \<and> rb_to f = sn_powerMode n) (sn_reboots old)"
  define p3 where "p3 = (if reboot then removeNodeInstances (fst dr) ?node (snd dr) else fst dr)"
  define powered where "powered = add_power p3 n from (empty_saving p c n old) (snd dr)"
  have 3: "stops_removed (if reboot then None else Some ?node) p3" using dr emptied by (simp add: p3_def)
  have 4: "stops_removed (if reboot then None else Some ?node) (fst powered)"
    unfolding powered_def by (rule stops_removed_extends [OF extends_add_power add_power_stops 3])
  have 5: "stops_removed None (if reboot then fst powered else removeNodeInstances (fst powered) ?node (snd powered))"
    using 4 emptied by (cases reboot) simp_all
  have "switch_power p c n old from = await_node
      (if reboot then fst powered else removeNodeInstances (fst powered) ?node (snd powered)) c ?node (snd dr)"
    unfolding switch_power_def Let_def powered_def p3_def dr_def reboot_def ..
  then show ?thesis using stops_removed_extends [OF extends_await_node await_node_stops 5] by simp
qed

lemma keep_lowering_stops: "pn_stops (fst (keep_lowering p old)) = pn_stops p"
  by (simp add: keep_lowering_def split: option.split)

lemma change_node_stops:
  assumes ids: "distinct_ids (pn_snap p)" and ok: "stops_removed None p"
  shows "stops_removed None (change_node c n p old)"
proof -
  obtain p1 m where k: "keep_lowering p old = (p1, m)" by (cases "keep_lowering p old")
  have 1: "extends p p1" "pn_stops p1 = pn_stops p"
    using extends_keep_lowering [of p old] keep_lowering_stops [of p old] k by simp_all
  have 2: "stops_removed None p1" using stops_removed_extends 1 ok by blast
  have ids1: "distinct_ids (pn_snap p1)" using 1(1) ids by (simp add: extends_def)
  have r: "stops_removed None (p1\<lparr>pn_reasons := rs\<rparr>)" "stops_removed None (add_reason x y p)" for rs x y
    using 2 ok by (simp_all add: stops_removed_def removed_def add_reason_def)
  show ?thesis using ok r switch_power_stops [OF ids1 2] by (simp add: change_node_def Let_def k)
qed

definition steady :: "SchedulerSnapshot \<Rightarrow> schedulerPlanState \<Rightarrow> bool" where
  "steady s p \<longleftrightarrow> pn_snap p = s \<and> stops_removed None p"

lemma changeNodes_steady:
  assumes ids: "distinct_ids s" and p: "steady s p" shows "steady s (changeNodes c p)"
  unfolding changeNodes_def
proof (rule foldl_invariant [where P = "steady s"])
  fix q n assume q: "steady s q"
  have "steady s (change_node c n r old)" if "steady s r" for r old
    using change_node_stops [of r c n old] ids that extends_change_node [of r c n old]
    by (simp add: steady_def extends_def)
  then have "steady s (foldl (change_node c n) q (ss_nodes (pn_snap q)))"
    using q by (intro foldl_invariant [where P = "steady s"])
  then show "steady s (if schedulerReservedNode (pn_snap q) (sn_node n) then q
      else foldl (change_node c n) q (ss_nodes (pn_snap q)))" using q by simp
qed (rule p)

lemma mark_stopped:
  assumes ids: "distinct_ids s" and i: "i \<in> set (ss_instances s)" and q: "steady s q" "removed q i"
  shows "steady s (q\<lparr>pn_stops := (pn_stops q)(si_id i := st)\<rparr>)"
  using q same_id [OF ids _ i] unfolding steady_def stops_removed_def removed_def by auto

lemma steady_extends: "extends p q \<Longrightarrow> pn_stops q = pn_stops p \<Longrightarrow> steady s p \<Longrightarrow> steady s q"
  using stops_removed_extends [of p q] by (auto simp: steady_def extends_def)

lemma blocker_steady:
  assumes ids: "distinct_ids s" and i: "i \<in> set (ss_instances s)" and p: "steady s p"
  shows "steady s (retirePreparationBlocker p i)"
proof (cases "schedulerPhysicalChangeReason (pn_snap p) (si_node i) \<noteq> []")
  case False
  show ?thesis
  proof (cases "find (running_removal i) (ss_actions (pn_snap p))")
    case None
    obtain q st where r: "retire p i [] = (q, st)" by (cases "retire p i []")
    have "steady s q" using steady_extends extends_retire [of p i "[]"] retire_stops [of p i "[]"] p r by fastforce
    moreover have "removed q i" using retire_removes [of p i "[]"] r by simp
    ultimately show ?thesis
      using mark_stopped [OF ids i] False None r by (simp add: retirePreparationBlocker_def)
  next
    case (Some old)
    have old: "ac_kind old = schedulerActionRemove" "ac_node old = si_node i" "ac_instance old = si_id i"
      using find_in [OF Some] by (simp_all add: running_removal_def)
    let ?p = "p\<lparr>pn_stops := (pn_stops p)(si_id i := ac_id old)\<rparr>"
    define q where "q = fst (plan_add ?p schedulerActionRemove (si_node i) (si_id i) (ac_from old) (ac_to old) (ac_dependsOn old))"
    have "extends p q" unfolding q_def by (rule extends_trans [OF _ extends_add]) simp
    moreover have "removed q i" unfolding q_def by (rule removed_add)
    moreover have "pn_stops q = (pn_stops p)(si_id i := ac_id old)" by (simp add: q_def)
    ultimately have "steady s q"
      using p same_id [OF ids _ i] removed_extends [of p q] unfolding steady_def stops_removed_def extends_def
      by (auto split: if_splits)
    then have "steady s (fst (plan_add ?p schedulerActionRemove (si_node i) (si_id i) (ac_from old) (ac_to old) (ac_dependsOn old)))"
      by (simp add: q_def)
    with Some False old show ?thesis by (simp add: retirePreparationBlocker_def)
  qed
qed (use p in \<open>simp add: retirePreparationBlocker_def\<close>)

lemma free_loop_steady:
  "distinct_ids s \<Longrightarrow> snd ` set blockers \<subseteq> set (ss_instances s) \<Longrightarrow> steady s p \<Longrightarrow> steady s (free_loop p wanted blockers)"
proof (induction p wanted blockers rule: free_loop.induct)
  case (2 p wanted pr rest)
  then have "steady s (retirePreparationBlocker p (snd pr))" by (intro blocker_steady) auto
  with 2 show ?case by (simp add: Let_def)
qed simp

lemma prepare_target_steady:
  assumes ids: "distinct_ids s" and p: "steady s p" shows "steady s (prepare_target p w)"
proof -
  have "snd ` set (map (Pair False) (ss_instances s) @ map (Pair True) (ss_instances s)) \<subseteq> set (ss_instances s)" by auto
  from free_loop_steady [OF ids this p] p
  have free: "steady s (freePreparationResources p w)" by (simp add: freePreparationResources_def steady_def)
  let ?a = "fst (plan_add (freePreparationResources p w) schedulerActionPrepare (si_node w) (si_id w) ''unloaded''
      (schedulerState w) [])"
  have "steady s ?a" by (rule steady_extends [OF extends_add _ free]) simp
  moreover have "steady s (add_prepare q d)" if "steady s q" for q d
    by (rule steady_extends [OF extends_add_prepare _ that]) (simp add: add_prepare_def)
  moreover have "steady s (add_reason r n p)" for r n
    by (rule steady_extends [OF extends_add_reason _ p]) (simp add: add_reason_def)
  ultimately show ?thesis using p by (simp add: prepare_target_def Let_def case_prod_beta)
qed

lemma plan_to_route_steady:
  assumes ids: "distinct_ids s" and run: "plan_to_route st s c = (q, route)"
  shows "steady s q \<and> (\<forall>w \<in> set (sc_instances c). covered q w)
    \<and> (\<exists>r \<in> set (pn_actions q). ac_kind r = schedulerActionRoute \<and> set (pn_prepares q) \<subseteq> set (ac_dependsOn r))"
proof -
  define p where "p = prepareTargets c (changeNodes c (new_plan st s (Some c) []))"
  define a where "a = built_action p schedulerActionRoute zero_node [] [] (schedulerConfigKey c) (pn_prepares p)"
  define r where "r = fst (plan_add p schedulerActionRoute zero_node [] [] (schedulerConfigKey c) (pn_prepares p))"
  let ?f = "explain_route (pn_reasons r)"
  have q: "q = set_last ?f r"
    using run by (simp add: plan_to_route_def p_def r_def case_prod_beta Let_def)
  have "steady s (new_plan st s (Some c) [])" by (simp add: steady_def stops_removed_def new_plan_def)
  then have "steady s (changeNodes c (new_plan st s (Some c) []))" by (rule changeNodes_steady [OF ids])
  then have p: "steady s p"
    unfolding p_def prepareTargets_def by (rule foldl_invariant [where P = "steady s"]) (rule prepare_target_steady [OF ids])
  have acts: "pn_actions r = pn_actions p @ [a]" by (simp add: r_def a_def plan_add_actions)
  have e: "extends p q"
    unfolding q by (rule extends_trans [OF _ extends_set_last])
      (simp_all add: r_def plan_add_actions shape_def explain_route_def)
  have "steady s q" by (rule steady_extends [OF e _ p]) (simp add: q r_def)
  moreover have "covered q w" if "w \<in> set (sc_instances c)" for w
    using covered_extends [OF e] prepareTargets_covered that unfolding p_def by blast
  moreover have "\<exists>r \<in> set (pn_actions q). ac_kind r = schedulerActionRoute \<and> set (pn_prepares q) \<subseteq> set (ac_dependsOn r)"
  proof (rule bexI [of _ "?f a"])
    show "?f a \<in> set (pn_actions q)" by (simp add: q set_last_def acts)
    have "ac_kind (?f a) = schedulerActionRoute" "ac_dependsOn (?f a) = ac_dependsOn a"
      by (simp_all add: explain_route_def a_def)
    moreover have "pn_prepares q = pn_prepares p" by (simp add: q r_def)
    ultimately show "ac_kind (?f a) = schedulerActionRoute \<and> set (pn_prepares q) \<subseteq> set (ac_dependsOn (?f a))"
      using built_deps_keep [of "pn_prepares p" p schedulerActionRoute zero_node "[]" "[]" "schedulerConfigKey c"]
      by (simp add: a_def)
  qed
  ultimately show ?thesis by blast
qed

lemma retireOld_removes:
  assumes p: "steady s p"
  shows "extends p (retireOld c r p) \<and> (\<forall>i \<in> set (ss_instances s). may_change s (si_node i)
    \<and> \<not> list_ex (schedulerSamePhysicalTarget i) (sc_instances c) \<longrightarrow> removed (retireOld c r p) i)"
proof -
  have snap: "pn_snap p = s" using p by (simp add: steady_def)
  have "extends p (foldl (retire_step c r) p (ss_instances s)) \<and> steady s (foldl (retire_step c r) p (ss_instances s))
    \<and> (\<forall>i \<in> set (ss_instances s). may_change s (si_node i) \<and> \<not> list_ex (schedulerSamePhysicalTarget i) (sc_instances c)
        \<longrightarrow> removed (foldl (retire_step c r) p (ss_instances s)) i)"
  proof (rule foldl_prefix_invariant [where P = "\<lambda>ys q. extends p q \<and> steady s q \<and> (\<forall>i \<in> set ys. may_change s (si_node i)
      \<and> \<not> list_ex (schedulerSamePhysicalTarget i) (sc_instances c) \<longrightarrow> removed q i)"])
    fix ys i q
    assume i: "i \<in> set (ss_instances s)"
      and q: "extends p q \<and> steady s q \<and> (\<forall>i \<in> set ys. may_change s (si_node i)
        \<and> \<not> list_ex (schedulerSamePhysicalTarget i) (sc_instances c) \<longrightarrow> removed q i)"
    let ?q = "retire_step c r q i"
    have e: "extends q ?q" by (rule extends_retire_step)
    have "steady s ?q" using steady_extends [OF e] q retire_stops by (simp add: retire_step_def)
    moreover have "removed ?q i" if "may_change s (si_node i)" "\<not> list_ex (schedulerSamePhysicalTarget i) (sc_instances c)"
    proof (cases "pn_stops q (si_id i) = []")
      case True
      with that q show ?thesis by (simp add: retire_step_def may_change_def steady_def retire_removes)
    next
      case False
      then have "removed q i" using q i unfolding steady_def stops_removed_def by auto
      then show ?thesis by (rule removed_extends [OF e])
    qed
    ultimately show "extends p ?q \<and> steady s ?q \<and> (\<forall>j \<in> set (ys @ [i]). may_change s (si_node j)
        \<and> \<not> list_ex (schedulerSamePhysicalTarget j) (sc_instances c) \<longrightarrow> removed ?q j)"
      using q extends_trans [OF _ e] removed_extends [OF e] by auto
  qed (use p in simp)
  then show ?thesis by (simp add: retireOld_def snap)
qed

section \<open>The property\<close>

text \<open>
  C10: a plan without reasons against it is complete. Its route waits for the preparation of every
  instance of the candidate: one that is not terminated, not on a reserved node and not yet in the
  pool is prepared by the plan, or is already being prepared, and the route depends on that action.
  And every instance in the pool that no instance of the candidate stands for is removed, unless
  its node is reserved or its executors are unconfirmed. Instances have distinct IDs.
\<close>

theorem plan_complete:
  assumes "distinct (map si_id (ss_instances s))"
    and "pn_reasons (fst (plan_to_route st s c)) = []"
  shows "(\<exists>r \<in> set (schedulerPlan st s c). ac_kind r = schedulerActionRoute
      \<and> (\<forall>w \<in> set (sc_instances c).
           \<not> si_terminated w \<and> \<not> schedulerReservedNode s (si_node w)
           \<and> \<not> list_ex (\<lambda>i. schedulerSamePhysicalTarget i w) (ss_instances s)
         \<longrightarrow> (\<exists>a \<in> set (schedulerPlan st s c). ac_kind a = schedulerActionPrepare \<and> ac_node a = si_node w
               \<and> ac_instance a = si_id w \<and> ac_to a = schedulerState w \<and> ac_id a \<in> set (ac_dependsOn r))
           \<or> (\<exists>a \<in> set (ss_actions s). preparation_of s w a \<and> ac_id a \<in> set (ac_dependsOn r))))
    \<and> (\<forall>i \<in> set (ss_instances s).
         \<not> schedulerReservedNode s (si_node i) \<and> schedulerPhysicalChangeReason s (si_node i) = []
         \<and> \<not> list_ex (schedulerSamePhysicalTarget i) (sc_instances c)
       \<longrightarrow> (\<exists>a \<in> set (schedulerPlan st s c). ac_kind a = schedulerActionRemove \<and> ac_node a = si_node i
             \<and> ac_instance a = si_id i))"
proof -
  obtain q route where run: "plan_to_route st s c = (q, route)" by (cases "plan_to_route st s c")
  have ids: "distinct_ids s" using assms(1) by (simp add: distinct_ids_def)
  note pr = plan_to_route_steady [OF ids run]
  define p where "p = retireOld c route q"
  have rs: "pn_reasons q = []" and snap: "pn_snap q = s" using assms(2) run pr by (simp_all add: steady_def)
  have ro: "extends q p" "\<forall>i \<in> set (ss_instances s). may_change s (si_node i)
      \<and> \<not> list_ex (schedulerSamePhysicalTarget i) (sc_instances c) \<longrightarrow> removed p i"
    using retireOld_removes pr unfolding p_def by blast+
  define f where "f = selectCosts p"
  have eq: "map shape (pn_actions p) = map shape (pn_actions f)" unfolding f_def by (rule selectCosts_shape [symmetric])
  have fin: "schedulerPlan st s c = pn_actions f" by (simp add: schedulerPlan_def plan_state_def run rs f_def p_def)
  have grows: "grows q f" "grows p f"
    using ro(1) grows_trans [of q p f] grows_same [of f p] eq by (auto simp: extends_def)
  obtain r0 where r0: "r0 \<in> set (pn_actions q)" "ac_kind r0 = schedulerActionRoute"
    "set (pn_prepares q) \<subseteq> set (ac_dependsOn r0)" using pr by blast
  obtain r where r: "r \<in> set (pn_actions f)" "shape r = shape r0" using grows_action [OF grows(1) r0(1)] .
  then have r': "ac_kind r = schedulerActionRoute" "set (pn_prepares q) \<subseteq> set (ac_dependsOn r)"
    using r0 by (simp_all add: shape_eq)
  have A: "(\<exists>a \<in> set (pn_actions f). ac_kind a = schedulerActionPrepare \<and> ac_node a = si_node w
               \<and> ac_instance a = si_id w \<and> ac_to a = schedulerState w \<and> ac_id a \<in> set (ac_dependsOn r))
           \<or> (\<exists>a \<in> set (ss_actions s). preparation_of s w a \<and> ac_id a \<in> set (ac_dependsOn r))"
    if w: "w \<in> set (sc_instances c)" "\<not> si_terminated w \<and> \<not> schedulerReservedNode s (si_node w)
           \<and> \<not> list_ex (\<lambda>i. schedulerSamePhysicalTarget i w) (ss_instances s)" for w
  proof -
    have "covered q w" using pr w(1) by blast
    then consider "being_prepared q w" | "prepared q w" using w(2) rs by (auto simp: covered_def snap)
    then show ?thesis
    proof cases
      case 1
      then show ?thesis using r'(2) unfolding being_prepared_def snap by blast
    next
      case 2
      then obtain a where a: "a \<in> set (pn_actions q)" "of_instance schedulerActionPrepare (si_node w) (si_id w) a"
        "ac_to a = schedulerState w" "ac_id a \<in> set (pn_prepares q)" by (auto simp: prepared_def)
      obtain b where b: "b \<in> set (pn_actions f)" "shape b = shape a" using grows_action [OF grows(1) a(1)] .
      with a r'(2) show ?thesis by (intro disjI1 bexI [of _ b]) (auto simp: shape_eq of_instance_def)
    qed
  qed
  have B: "\<exists>a \<in> set (pn_actions f). ac_kind a = schedulerActionRemove \<and> ac_node a = si_node i \<and> ac_instance a = si_id i"
    if i: "i \<in> set (ss_instances s)" "\<not> schedulerReservedNode s (si_node i) \<and> schedulerPhysicalChangeReason s (si_node i) = []
         \<and> \<not> list_ex (schedulerSamePhysicalTarget i) (sc_instances c)" for i
  proof -
    have "removed p i" using ro(2) i by (auto simp: may_change_def)
    then obtain a where a: "a \<in> set (pn_actions p)" "of_instance schedulerActionRemove (si_node i) (si_id i) a"
      by (auto simp: removed_def)
    obtain b where "b \<in> set (pn_actions f)" "shape b = shape a" using grows_action [OF grows(2) a(1)] .
    with a(2) show ?thesis by (intro bexI [of _ b]) (simp_all add: shape_eq of_instance_def)
  qed
  show ?thesis
    unfolding fin using A B r(1) r'(1) by (intro conjI [OF bexI [of _ r]]) simp_all
qed

theorem plan_complete_witness:
  "(\<exists>a \<in> set (schedulerPlan sample_settings sample_snapshot sample_candidate).
      ac_kind a = schedulerActionRemove \<and> ac_instance a = ''old'')"
proof -
  have "distinct (map si_id (ss_instances sample_snapshot))" "sample_instance ''old'' ''p1'' \<in> set (ss_instances sample_snapshot)"
    by (simp_all add: sample_snapshot_def)
  moreover have "pn_reasons (fst (plan_to_route sample_settings sample_snapshot sample_candidate)) = []" by code_simp
  moreover have "\<not> schedulerReservedNode sample_snapshot (si_node (sample_instance ''old'' ''p1''))
      \<and> schedulerPhysicalChangeReason sample_snapshot (si_node (sample_instance ''old'' ''p1'')) = []
      \<and> \<not> list_ex (schedulerSamePhysicalTarget (sample_instance ''old'' ''p1'')) (sc_instances sample_candidate)" by code_simp
  moreover have "si_id (sample_instance ''old'' ''p1'') = ''old''" by (simp add: sample_instance_def)
  ultimately show ?thesis
    using plan_complete [of sample_snapshot sample_settings sample_candidate] by metis
qed

end
