(* ===== verification/NodeBudget.thy ===== *)
theory NodeBudget
  imports SchedSamples
begin

text \<open>
  What the validation of resources guarantees (\<open>ValidateNodeBudget\<close> and
  \<open>schedulerValidateResources\<close> of \<open>scheduler_validate.go\<close>): reasons are only added, so no reason
  means that every check passed for every node and instance.
\<close>

section \<open>Reasons only accumulate\<close>

lemma appendUnique_nonempty [simp]: "appendUnique xs [r] \<noteq> []"
  by (auto simp: appendUnique_def)

lemma remark_Nil [simp]: "remark wrong r rs = [] \<longleftrightarrow> rs = [] \<and> \<not> wrong"
  by (simp add: remark_def)

lemma foldl_reasons:
  assumes "\<And>rs x. x \<in> set xs \<Longrightarrow> f rs x = [] \<longleftrightarrow> rs = [] \<and> P x"
  shows "foldl f rs xs = [] \<longleftrightarrow> rs = [] \<and> (\<forall>x \<in> set xs. P x)"
  using assms by (induction xs arbitrary: rs) auto

section \<open>The budget of a node\<close>

definition used_memory :: "SchedulerAllocation list \<Rightarrow> nat" where
  "used_memory as = sum_list (map (\<lambda>a. unat (al_memoryBytes a)) as)"

definition used_gpus :: "SchedulerAllocation list \<Rightarrow> string list" where
  "used_gpus as = filter (\<lambda>g. g \<noteq> []) (map al_gpuUUID as)"

lemma used_append [simp]:
  "used_memory (as @ bs) = used_memory as + used_memory bs" "used_gpus (as @ bs) = used_gpus as @ used_gpus bs"
  by (simp_all add: used_memory_def used_gpus_def)

text \<open>Nothing is added to the memory exactly when the sum leaves 64 bits.\<close>

lemma overflow_iff: "(- 1 - m < (a :: uint64)) \<longleftrightarrow> 18446744073709551616 \<le> unat m + unat a"
proof -
  have "unat (- 1 - m) = 18446744073709551615 - unat m"
    using unat_sub [of m "- 1"] by (simp add: unsigned_minus_1_eq_mask mask_eq_exp_minus_1)
  moreover have "unat m \<le> 18446744073709551615" using unsigned_less [of m, where 'a = nat] by simp
  ultimately show ?thesis by (auto simp: word_less_nat_alt)
qed

lemma no_overflow: "unat m + unat (a :: uint64) < 18446744073709551616 \<Longrightarrow> unat (m + a) = unat m + unat a"
  by (simp add: unat_add_lem [THEN iffD1])

definition budget_sound :: "SchedulerNode \<Rightarrow> SchedulerAllocation list \<Rightarrow> budget \<Rightarrow> bool" where
  "budget_sound n as b \<longleftrightarrow> set (bu_gpus b) = set (used_gpus as)
     \<and> (used_memory as < 18446744073709551616 \<longrightarrow> unat (bu_memory b) = used_memory as)
     \<and> (bu_reasons b = [] \<longleftrightarrow> used_memory as < 18446744073709551616 \<and> distinct (used_gpus as)
          \<and> set (used_gpus as) \<subseteq> set (sn_gpuUUIDs n))"

lemma budget_step_sound:
  assumes "budget_sound n as b" shows "budget_sound n (as @ [a]) (budget_step n b a)"
proof -
  let ?m = "al_memoryBytes a" and ?g = "al_gpuUUID a"
  have mem: "used_memory (as @ [a]) = used_memory as + unat ?m" by (simp add: used_memory_def)
  have gpus: "used_gpus (as @ [a]) = (if ?g = [] then used_gpus as else used_gpus as @ [?g])"
    by (simp add: used_gpus_def)
  show ?thesis
  proof (cases "used_memory as < 18446744073709551616")
    case False
    then have "bu_reasons b \<noteq> []" using assms by (simp add: budget_sound_def)
    then have "bu_reasons (budget_step n b a) \<noteq> []" by (simp add: budget_step_def Let_def)
    with False assms show ?thesis
      unfolding budget_sound_def mem gpus by (auto simp: budget_step_def Let_def)
  next
    case True
    then have m: "unat (bu_memory b) = used_memory as" using assms by (simp add: budget_sound_def)
    note over = overflow_iff [of "bu_memory b" ?m] and fits = no_overflow [of "bu_memory b" ?m]
    show ?thesis
    proof (cases "- 1 - bu_memory b < ?m")
      case True
      then have "\<not> used_memory as + unat ?m < 18446744073709551616" using over m by simp
      with True assms show ?thesis
        unfolding budget_sound_def mem gpus by (auto simp: budget_step_def Let_def)
    next
      case False
      then have "used_memory as + unat ?m < 18446744073709551616" using over m by simp
      with False True fits m assms show ?thesis
        unfolding budget_sound_def mem gpus by (auto simp: budget_step_def Let_def)
    qed
  qed
qed

lemma budget_exact:
  "ValidateNodeBudget n as [] = []
    \<longleftrightarrow> used_memory as \<le> unat (sn_memoryBytes n) \<and> distinct (used_gpus as) \<and> set (used_gpus as) \<subseteq> set (sn_gpuUUIDs n)"
proof -
  define b where "b = foldl (budget_step n) \<lparr>bu_gpus = [], bu_memory = 0, bu_reasons = []\<rparr> as"
  have "budget_sound n ys (foldl (budget_step n) \<lparr>bu_gpus = [], bu_memory = 0, bu_reasons = []\<rparr> ys)" for ys
  proof (induction ys rule: rev_induct)
    case Nil
    show ?case by (simp add: budget_sound_def used_memory_def used_gpus_def)
  qed (simp add: budget_step_sound)
  then have b: "budget_sound n as b" by (simp add: b_def)
  have v: "ValidateNodeBudget n as [] = [] \<longleftrightarrow> bu_reasons b = [] \<and> \<not> sn_memoryBytes n < bu_memory b"
    by (simp add: ValidateNodeBudget_def Let_def b_def)
  have "unat (sn_memoryBytes n) < 18446744073709551616" using unsigned_less [of "sn_memoryBytes n", where 'a = nat] by simp
  then show ?thesis
    using b unfolding v budget_sound_def word_less_nat_alt by auto
qed

lemma ValidateNodeBudget_Nil: "ValidateNodeBudget n as rs = [] \<longleftrightarrow> rs = [] \<and> ValidateNodeBudget n as [] = []"
proof (cases "rs = []")
  case False
  have "bu_reasons (foldl (budget_step n) b as) \<noteq> []" if "bu_reasons b \<noteq> []" for b
    using that by (induction as arbitrary: b) (simp_all add: budget_step_def Let_def)
  with False show ?thesis by (simp add: ValidateNodeBudget_def Let_def)
qed simp

section \<open>One instance\<close>

definition evidence_ok :: "ServingBatchProfile \<Rightarrow> bool" where
  "evidence_ok b \<longleftrightarrow> sb_serviceSamples b \<noteq> [] \<and> sb_serviceDistribution b \<noteq> None
     \<and> schedulerFinite (sb_energyPerInputJoules b) \<and> \<not> f_less (sb_energyPerInputJoules b) f_zero
     \<and> (\<forall>x \<in> set (sb_serviceSamples b). 0 < ss_serviceDurationNanos x
          \<and> (\<forall>g. ss_precedingIdleNanos x = Some g \<longrightarrow> 0 \<le> g))"

definition planned_batches :: "SchedulerInstance \<Rightarrow> Profile \<Rightarrow> ServingBatchProfile set" where
  "planned_batches i p = {b \<in> set (pl_batches p). sb_batch b \<le> si_maxBatch i}"

text \<open>An instance the scheduler can plan with, on the node it runs on.\<close>

definition instance_ok :: "SchedulerSettings \<Rightarrow> SchedulerNode \<Rightarrow> SchedulerInstance \<Rightarrow> Profile \<Rightarrow> bool" where
  "instance_ok st n i p \<longleftrightarrow> sn_ready n \<and> cd_nodeUID (pl_condition p) = nr_uid (sn_node n)
     \<and> cd_powerMode (pl_condition p) = sn_powerMode n
     \<and> 1 \<le> si_capacity i \<and> 0 \<le> si_weight i \<and> 0 \<le> si_maxWait i \<and> pl_id p \<noteq> []
     \<and> (\<exists>b \<in> planned_batches i p. sb_batch b = 1)
     \<and> (\<forall>b \<in> planned_batches i p. evidence_ok b
          \<and> unat (sb_memoryBytes b) + unat (st_servingMemoryBytes st) \<le> unat (al_memoryBytes (si_allocation i)))"

lemma samples_reasons:
  "foldl (\<lambda>r x. remark (ss_serviceDurationNanos x \<le> 0 \<or> (case ss_precedingIdleNanos x of None \<Rightarrow> False | Some g \<Rightarrow> g < 0)) m r) rs xs = []
   \<longleftrightarrow> rs = [] \<and> (\<forall>x \<in> set xs. 0 < ss_serviceDurationNanos x \<and> (\<forall>g. ss_precedingIdleNanos x = Some g \<longrightarrow> 0 \<le> g))"
  by (subst foldl_reasons [where P = "\<lambda>x. 0 < ss_serviceDurationNanos x \<and> (\<forall>g. ss_precedingIdleNanos x = Some g \<longrightarrow> 0 \<le> g)"])
    (auto split: option.splits)

lemma service_steps:
  fixes bs :: "ServingBatchProfile list" and rs :: "string list"
  assumes "foldl (service_step i) (rs, 0, False) bs = (r, m, single)"
  shows "(r = [] \<longrightarrow> rs = [] \<and> (\<forall>b \<in> set bs. sb_batch b \<le> si_maxBatch i \<longrightarrow> evidence_ok b))
    \<and> (\<forall>b \<in> set bs. sb_batch b \<le> si_maxBatch i \<longrightarrow> sb_memoryBytes b \<le> m)
    \<and> (single \<longrightarrow> (\<exists>b \<in> set bs. sb_batch b \<le> si_maxBatch i \<and> sb_batch b = 1))"
  using assms
proof (induction bs arbitrary: r m single rule: rev_induct)
  case (snoc b bs)
  obtain r0 m0 s0 where run: "foldl (service_step i) (rs, 0, False) bs = (r0, m0, s0)"
    by (cases "foldl (service_step i) (rs, 0, False) bs")
  note IH = snoc.IH [OF run]
  have step: "service_step i (r0, m0, s0) b = (r, m, single)" using snoc.prems run by simp
  show ?case
  proof (cases "si_maxBatch i < sb_batch b")
    case True
    then have "r = r0" "m = m0" "single = s0" using step by (simp_all add: service_step_def)
    with IH True show ?thesis by auto
  next
    case False
    then have r: "r = [] \<longrightarrow> r0 = [] \<and> evidence_ok b"
      using step by (auto simp: service_step_def Let_def samples_reasons evidence_ok_def)
    have m: "m = max m0 (sb_memoryBytes b)" and s: "single = (s0 \<or> sb_batch b = 1)"
      using step False by (auto simp: service_step_def Let_def)
    from IH r False show ?thesis
      unfolding m s by (auto simp: le_max_iff_disj)
  qed
qed simp

lemma instance_reasons:
  assumes "schedulerValidateInstance st n i p rs = []" shows "rs = [] \<and> instance_ok st n i p"
proof -
  let ?al = "al_memoryBytes (si_allocation i)"
  obtain r4 where v: "schedulerValidateInstance st n i p rs = (case schedulerValidateService i p r4 of (r5, m) \<Rightarrow>
      remark (m = 0 \<or> ?al < m \<or> ?al - m < st_servingMemoryBytes st) (''MeasuredMemoryInfeasible:'' @ si_id i) r5)"
    and r4: "r4 = [] \<longrightarrow> rs = [] \<and> sn_ready n \<and> cd_nodeUID (pl_condition p) = nr_uid (sn_node n)
      \<and> cd_powerMode (pl_condition p) = sn_powerMode n \<and> 1 \<le> si_capacity i \<and> 0 \<le> si_weight i \<and> 0 \<le> si_maxWait i
      \<and> pl_id p \<noteq> []"
    unfolding schedulerValidateInstance_def Let_def by (simp add: not_less)
  obtain r m single where run: "foldl (service_step i) (r4, 0, False) (pl_batches p) = (r, m, single)"
    by (cases "foldl (service_step i) (r4, 0, False) (pl_batches p)")
  have "r = []" "single" "\<not> ?al < m" "\<not> ?al - m < st_servingMemoryBytes st"
    using assms by (simp_all add: v schedulerValidateService_def run)
  note sv = service_steps [OF run] and mem = this
  have "unat (sb_memoryBytes b) + unat (st_servingMemoryBytes st) \<le> unat ?al" if "b \<in> planned_batches i p" for b
  proof -
    have "unat (sb_memoryBytes b) \<le> unat m" using sv that by (simp add: planned_batches_def word_le_nat_alt)
    moreover have "unat m \<le> unat ?al" using mem(3) by (simp add: word_less_nat_alt)
    moreover have "unat (st_servingMemoryBytes st) \<le> unat ?al - unat m"
      using mem(3,4) by (simp add: word_less_nat_alt not_less unat_sub word_le_nat_alt)
    ultimately show ?thesis by linarith
  qed
  then show ?thesis
    using sv r4 mem(1,2) unfolding instance_ok_def by (auto simp: planned_batches_def)
qed

section \<open>One node\<close>

definition retained :: "SchedulerNode \<Rightarrow> SchedulerInstance \<Rightarrow> bool" where
  "retained n i \<longleftrightarrow> si_terminated i \<or> \<not> si_ready i \<and> NodeInstanceUnavailable \<in> set (sn_reasons n)"

definition on_node :: "SchedulerNode \<Rightarrow> SchedulerInstance list \<Rightarrow> SchedulerInstance list" where
  "on_node n is = filter (\<lambda>i. si_node i = sn_node n) is"

definition accepted :: "SchedulerSettings \<Rightarrow> SchedulerNode \<Rightarrow> SchedulerInstance \<Rightarrow> bool" where
  "accepted st n i \<longleftrightarrow> retained n i \<or> (\<exists>p. si_profile i = Some p \<and> instance_ok st n i p)"

lemma resource_steps:
  assumes "foldl (resource_step st n) (rs, al, False) is = (r, as, hosted)"
  shows "hosted = (on_node n is \<noteq> [])
    \<and> (r = [] \<longrightarrow> rs = [] \<and> (\<forall>i \<in> set (on_node n is). accepted st n i) \<and> as = al @ map si_allocation (on_node n is))"
  using assms
proof (induction "is" arbitrary: r as hosted rule: rev_induct)
  case (snoc i xs)
  obtain r0 as0 h0 where run: "foldl (resource_step st n) (rs, al, False) xs = (r0, as0, h0)"
    by (cases "foldl (resource_step st n) (rs, al, False) xs")
  note IH = snoc.IH [OF run]
  have step: "resource_step st n (r0, as0, h0) i = (r, as, hosted)" using snoc.prems run by simp
  show ?case
  proof (cases "si_node i = sn_node n \<and> \<not> retained n i")
    case False
    then show ?thesis
      using step IH by (auto simp: resource_step_def on_node_def retained_def accepted_def split: if_splits)
  next
    case True
    then have keep: "\<not> (si_terminated i \<or> \<not> si_ready i \<and> NodeInstanceUnavailable \<in> set (sn_reasons n))"
      by (simp add: retained_def)
    show ?thesis
    proof (cases "si_profile i")
      case None
      then show ?thesis using step True keep IH by (auto simp: resource_step_def on_node_def)
    next
      case (Some p)
      then have "r = schedulerValidateInstance st n i p r0" "as = as0 @ [si_allocation i]" "hosted"
        using step True keep by (auto simp: resource_step_def)
      then show ?thesis
        using True Some IH instance_reasons [of st n i p r0] by (auto simp: on_node_def accepted_def)
    qed
  qed
qed (simp add: on_node_def)

definition node_allocations :: "SchedulerNode \<Rightarrow> SchedulerInstance list \<Rightarrow> SchedulerAllocation list" where
  "node_allocations n is = sn_reserved n # sn_nonServing n @ map si_allocation (on_node n is)"

lemma node_resources_sound:
  assumes "node_resources st is (rs, seen) n = (r, seen')"
  shows "seen' = nr_uid (sn_node n) # seen
    \<and> (r = [] \<longrightarrow> rs = [] \<and> nr_uid (sn_node n) \<notin> set seen \<and> (\<forall>i \<in> set (on_node n is). accepted st n i)
        \<and> (on_node n is \<noteq> [] \<longrightarrow> ValidateNodeBudget n (node_allocations n is) [] = []))"
proof -
  let ?r0 = "remark (nr_uid (sn_node n) \<in> set seen) (''DuplicateNode:'' @ nr_uid (sn_node n)) rs"
  obtain r1 as hosted where run: "foldl (resource_step st n) (?r0, sn_reserved n # sn_nonServing n, False) is = (r1, as, hosted)"
    by (cases "foldl (resource_step st n) (?r0, sn_reserved n # sn_nonServing n, False) is")
  have r: "r = (if hosted then ValidateNodeBudget n as r1 else r1)" and seen: "seen' = nr_uid (sn_node n) # seen"
    using assms unfolding node_resources_def Let_def case_prod_conv run by simp_all
  note st = resource_steps [OF run]
  show ?thesis
  proof (intro conjI impI)
    assume "r = []"
    then have r1: "r1 = []" and budget: "hosted \<longrightarrow> ValidateNodeBudget n as [] = []"
      using ValidateNodeBudget_Nil [of n as r1] by (auto simp: r split: if_splits)
    from st r1 show "rs = []" "nr_uid (sn_node n) \<notin> set seen" by simp_all
    from st r1 show "\<forall>i \<in> set (on_node n is). accepted st n i" by blast
    show "ValidateNodeBudget n (node_allocations n is) [] = []" if "on_node n is \<noteq> []"
      using st r1 budget that by (simp add: node_allocations_def)
  qed (rule seen)
qed

lemma nodes_resources:
  assumes "foldl (node_resources st is) ([], []) nodes = (r, seen)"
  shows "seen = rev (map (\<lambda>n. nr_uid (sn_node n)) nodes)
    \<and> (r = [] \<longrightarrow> distinct (map (\<lambda>n. nr_uid (sn_node n)) nodes)
        \<and> (\<forall>n \<in> set nodes. (\<forall>i \<in> set (on_node n is). accepted st n i)
             \<and> (on_node n is \<noteq> [] \<longrightarrow> ValidateNodeBudget n (node_allocations n is) [] = [])))"
  using assms
proof (induction nodes arbitrary: r seen rule: rev_induct)
  case (snoc n nodes)
  obtain r0 s0 where run: "foldl (node_resources st is) ([], []) nodes = (r0, s0)"
    by (cases "foldl (node_resources st is) ([], []) nodes")
  have "node_resources st is (r0, s0) n = (r, seen)" using snoc.prems run by simp
  from node_resources_sound [OF this] snoc.IH [OF run] show ?case by auto
qed simp

section \<open>The property\<close>

text \<open>
  C12: resources without a reason against them are sound. Nodes are distinct, every instance is on
  one of them, and on every node that hosts instances the reserved, non-serving and serving
  allocations together fit its memory, computed without overflow, and use GPUs of the node, each at
  most once. Every instance that is not merely retained runs on a ready node in the node and power
  mode it was measured in, with a queue, a batch of one and service evidence for every batch it may
  form, and its allocation holds the largest measured memory plus the serving memory.
\<close>

theorem valid_resources:
  assumes "schedulerValidateResources st nodes instances = []"
  shows "distinct (map (\<lambda>n. nr_uid (sn_node n)) nodes)
    \<and> (\<forall>i \<in> set instances. \<exists>n \<in> set nodes. nr_uid (sn_node n) = nr_uid (si_node i))
    \<and> (\<forall>n \<in> set nodes. on_node n instances \<noteq> []
        \<longrightarrow> used_memory (node_allocations n instances) \<le> unat (sn_memoryBytes n)
          \<and> distinct (used_gpus (node_allocations n instances))
          \<and> set (used_gpus (node_allocations n instances)) \<subseteq> set (sn_gpuUUIDs n))
    \<and> (\<forall>n \<in> set nodes. \<forall>i \<in> set instances. si_node i = sn_node n \<and> \<not> retained n i
        \<longrightarrow> (\<exists>p. si_profile i = Some p \<and> instance_ok st n i p))"
proof -
  obtain r seen where run: "foldl (node_resources st instances) ([], []) nodes = (r, seen)"
    by (cases "foldl (node_resources st instances) ([], []) nodes")
  have "r = [] \<and> (\<forall>i \<in> set instances. nr_uid (si_node i) \<in> set seen)"
    using assms foldl_reasons [of instances "\<lambda>r i. remark (nr_uid (si_node i) \<notin> set seen) (''UnknownPlacementNode:'' @ si_id i) r"
        "\<lambda>i. nr_uid (si_node i) \<in> set seen" r]
    by (simp add: schedulerValidateResources_def run)
  with nodes_resources [OF run]
  have *: "seen = rev (map (\<lambda>n. nr_uid (sn_node n)) nodes)" "\<forall>i \<in> set instances. nr_uid (si_node i) \<in> set seen"
    "distinct (map (\<lambda>n. nr_uid (sn_node n)) nodes)" "\<forall>n \<in> set nodes. \<forall>i \<in> set (on_node n instances). accepted st n i"
    "\<forall>n \<in> set nodes. on_node n instances \<noteq> [] \<longrightarrow> ValidateNodeBudget n (node_allocations n instances) [] = []"
    by blast+
  show ?thesis
  proof (intro conjI)
    show "distinct (map (\<lambda>n. nr_uid (sn_node n)) nodes)" by (rule *(3))
    show "\<forall>i \<in> set instances. \<exists>n \<in> set nodes. nr_uid (sn_node n) = nr_uid (si_node i)"
    proof
      fix i assume "i \<in> set instances"
      then have "nr_uid (si_node i) \<in> (\<lambda>n. nr_uid (sn_node n)) ` set nodes" using *(2) unfolding *(1) by simp
      then obtain n where "nr_uid (si_node i) = nr_uid (sn_node n)" "n \<in> set nodes" by (rule imageE)
      then show "\<exists>n \<in> set nodes. nr_uid (sn_node n) = nr_uid (si_node i)" by (intro bexI [of _ n]) simp_all
    qed
    show "\<forall>n \<in> set nodes. on_node n instances \<noteq> []
        \<longrightarrow> used_memory (node_allocations n instances) \<le> unat (sn_memoryBytes n)
          \<and> distinct (used_gpus (node_allocations n instances))
          \<and> set (used_gpus (node_allocations n instances)) \<subseteq> set (sn_gpuUUIDs n)"
      using *(5) unfolding budget_exact .
    show "\<forall>n \<in> set nodes. \<forall>i \<in> set instances. si_node i = sn_node n \<and> \<not> retained n i
        \<longrightarrow> (\<exists>p. si_profile i = Some p \<and> instance_ok st n i p)"
      using *(4) by (auto simp: on_node_def accepted_def)
  qed
qed

text \<open>A pool with one instance that passes.\<close>

definition served_batch :: ServingBatchProfile where
  "served_batch = \<lparr>sb_batch = 1, sb_serviceSamples = [\<lparr>ss_serviceDurationNanos = 5, ss_precedingIdleNanos = None,
     ss_trialID = ''t''\<rparr>], sb_serviceDistribution = Some \<lparr>sd_trials = [], sd_services = []\<rparr>,
     sb_energyPerInputJoules = f_of_int 1, sb_memoryBytes = 50\<rparr>"

definition served_instance :: SchedulerInstance where
  "served_instance = (sample_instance ''i'' ''p'')
     \<lparr>si_profile := Some ((sample_profile ''p'')\<lparr>pl_batches := [served_batch]\<rparr>)\<rparr>"

theorem valid_resources_witness:
  "distinct (map (\<lambda>n. nr_uid (sn_node n)) [sample_pool_node])
   \<and> used_memory (node_allocations sample_pool_node [served_instance]) \<le> unat (sn_memoryBytes sample_pool_node)"
proof -
  have "schedulerValidateResources sample_settings [sample_pool_node] [served_instance] = []" by code_simp
  moreover have "on_node sample_pool_node [served_instance] \<noteq> []"
    by (simp add: on_node_def sample_pool_node_def served_instance_def sample_instance_def)
  ultimately show ?thesis
    using valid_resources [of sample_settings "[sample_pool_node]" "[served_instance]"] by simp
qed

end
