(* ===== verification/CostChoice.thy ===== *)
theory CostChoice
  imports SchedSamples
begin

text \<open>
  Which measurement the scheduler uses: the cost of an action (\<open>selectCosts\<close>, reached through
  \<open>EstimateAction\<close>) and the lowest power mode of a node (\<open>SchedulerLowestModeMatching\<close>). Both
  keep the best candidate seen so far, so they are optimal for the order they compare with.
\<close>

section \<open>The cost of an action\<close>

lemma find_unique:
  "distinct (map f xs) \<Longrightarrow> x \<in> set xs \<Longrightarrow> find (\<lambda>y. f y = f x) xs = Some x"
  by (induction xs) (auto simp: image_iff)

lemma cost_candidates_in:
  assumes "(rank, cost) \<in> set (cost_candidates c idn cls a costs)"
  shows "cost \<in> set costs" "rank < 3" "oc_kind cost = ac_kind a" "capacityOperationCost (Some cost) \<noteq> None"
    "ObjectIdentity_valid (oc_reference cost)" "rank = cost_rank c idn cls a cost"
  using assms by (auto simp: cost_candidates_def)

text \<open>The measurements of the snapshot that may stand for an action it has planned.\<close>

definition usable_costs :: "SchedulerSnapshot \<Rightarrow> Action \<Rightarrow> (nat \<times> OperationCost) list" where
  "usable_costs s a = cost_candidates (cost_start s)
     (schedulerMeasurementIdentities (ss_costs s) (ss_baselines s) (ss_instances s) (ss_options s) [])
     (measurementDeviceClasses (ss_options s) (ss_instances s) []) a (ss_costs s)"

lemma EstimateAction_unfold:
  "physical_kind (ac_kind a) \<Longrightarrow> EstimateAction st s a
     = expect_cost st (ss_costs s) (take_cost (scan_best cost_preferred None (usable_costs s a)) (clear_cost a))"
  by (simp add: EstimateAction_def selectCosts_def new_plan_def target_instances_def cost_action_def usable_costs_def Let_def)

text \<open>
  C13: the cost of a planned operation is the best measurement there is. Without a usable
  measurement it is the configured default of its kind. Otherwise it is a measurement of that kind
  with valid trials and reference on this node or on a node of the same device class, which no other
  usable one beats: not by rank (exact cell, then node, then device class), not by being later, not
  by ID; the expected seconds are its mean, and the provenance names it and its rank. Measurements
  have distinct, nonempty IDs.
\<close>

theorem cost_is_best_measurement:
  assumes "fresh a" and "physical_kind (ac_kind a)"
    and "distinct (map oc_id (ss_costs s))" and "[] \<notin> set (map oc_id (ss_costs s))"
  shows "if usable_costs s a = []
    then ac_costID (EstimateAction st s a) = []
      \<and> ac_expectedSeconds (EstimateAction st s a) = Some (ov_seconds (default_value st (ac_kind a)))
      \<and> ac_costProvenance (EstimateAction st s a) = Some \<lparr>op_source = operationSourceDefault, op_costRef = [],
          op_value = Some (default_value st (ac_kind a))\<rparr>
    else (\<exists>rank cost mean longest joules. (rank, cost) \<in> set (usable_costs s a)
      \<and> (\<forall>x \<in> set (usable_costs s a). \<not> cost_preferred x (rank, cost))
      \<and> capacityOperationCost (Some cost) = Some (mean, longest, joules)
      \<and> ac_costID (EstimateAction st s a) = oc_id cost
      \<and> ac_expectedSeconds (EstimateAction st s a) = Some mean
      \<and> ac_costProvenance (EstimateAction st s a) = Some \<lparr>op_source = measurementSource rank,
          op_costRef = oc_id cost, op_value = None\<rparr>)"
proof (cases "usable_costs s a = []")
  case True
  have "schedulerCost (ss_costs s) [] = None"
    using assms(4) unfolding schedulerCost_def find_None_iff by (auto simp: image_iff)
  then have e: "EstimateAction st s a = (clear_cost a)\<lparr>ac_expectedSource := None, ac_costID := [],
      ac_expectedSeconds := Some (ov_seconds (default_value st (ac_kind a))),
      ac_costProvenance := Some \<lparr>op_source = operationSourceDefault, op_costRef = [],
        op_value = Some (default_value st (ac_kind a))\<rparr>\<rparr>"
    using assms(1) by (simp add: EstimateAction_unfold [OF assms(2)] True take_cost_def expect_cost_def clear_cost_def
        fresh_def Let_def)
  show ?thesis unfolding e by (simp add: True)
next
  case False
  then obtain y where run: "scan_best cost_preferred None (usable_costs s a) = Some y"
    by (cases "scan_best cost_preferred None (usable_costs s a)") auto
  obtain rank cost where y: "y = (rank, cost)" by (cases y)
  have best: "(rank, cost) \<in> set (usable_costs s a)" "\<forall>x \<in> set (usable_costs s a). \<not> cost_preferred x (rank, cost)"
    using cost_order.scan_optimal [OF _ run] unfolding y by blast+
  note inn = cost_candidates_in [OF best(1) [unfolded usable_costs_def]]
  obtain mean longest joules where val: "capacityOperationCost (Some cost) = Some (mean, longest, joules)"
    using inn(4) by auto
  have "schedulerCost (ss_costs s) (oc_id cost) = Some cost"
    unfolding schedulerCost_def by (rule find_unique [OF assms(3) inn(1)])
  then have e: "EstimateAction st s a = (clear_cost a)\<lparr>ac_costID := oc_id cost, ac_expectedSeconds := Some mean,
      ac_expectedSource := Some \<lparr>ae_costID = oc_id cost, ae_reference = oc_reference cost, ae_statistic = ''mean'',
        ae_trialCount = length (oc_trials cost)\<rparr>,
      ac_costProvenance := Some \<lparr>op_source = measurementSource rank, op_costRef = oc_id cost, op_value = None\<rparr>\<rparr>"
    using assms(1) by (simp add: EstimateAction_unfold [OF assms(2)] run y take_cost_def expect_cost_def clear_cost_def
        fresh_def val Let_def)
  show ?thesis using False best val unfolding e by auto
qed

section \<open>The lowest power mode\<close>

text \<open>The baselines kept per mode: the latest one of every mode seen.\<close>

definition latest_in :: "NodeBaseline list \<Rightarrow> NodeBaseline \<Rightarrow> bool" where
  "latest_in bs b \<longleftrightarrow> b \<in> set bs \<and> (\<forall>x \<in> set bs. nb_powerMode x = nb_powerMode b \<longrightarrow> nb_measuredAt x \<le> nb_measuredAt b)"

definition modes_sound :: "NodeBaseline list \<Rightarrow> (string \<times> NodeBaseline) list \<Rightarrow> bool" where
  "modes_sound bs latest \<longleftrightarrow> distinct (map fst latest) \<and> fst ` set latest = nb_powerMode ` set bs
     \<and> (\<forall>(m, b) \<in> set latest. nb_powerMode b = m \<and> latest_in bs b)"

lemma keep_latest_set:
  assumes "distinct (map fst latest)"
  shows "set (keep_latest b latest) = {(m, c) \<in> set latest. m \<noteq> nb_powerMode b}
    \<union> {(nb_powerMode b, case map_of latest (nb_powerMode b) of
          None \<Rightarrow> b | Some c \<Rightarrow> if nb_measuredAt c < nb_measuredAt b then b else c)}"
  using assms by (induction b latest rule: keep_latest.induct) (auto simp: image_iff split: option.splits)

lemma keep_latest_distinct: "distinct (map fst latest) \<Longrightarrow> distinct (map fst (keep_latest b latest))"
  and keep_latest_fst: "fst ` set (keep_latest b latest) = insert (nb_powerMode b) (fst ` set latest)"
  by (induction b latest rule: keep_latest.induct) auto

lemma latest_in_append:
  "latest_in bs c \<Longrightarrow> nb_powerMode b \<noteq> nb_powerMode c \<or> nb_measuredAt b \<le> nb_measuredAt c \<Longrightarrow> latest_in (bs @ [b]) c"
  by (auto simp: latest_in_def)

lemma keep_latest_sound:
  assumes "modes_sound bs latest" shows "modes_sound (bs @ [b]) (keep_latest b latest)"
proof -
  have d: "distinct (map fst latest)" and modes: "fst ` set latest = nb_powerMode ` set bs"
    and all: "\<And>m c. (m, c) \<in> set latest \<Longrightarrow> nb_powerMode c = m \<and> latest_in bs c"
    using assms by (auto simp: modes_sound_def)
  have "nb_powerMode c = m \<and> latest_in (bs @ [b]) c" if mc: "(m, c) \<in> set (keep_latest b latest)" for m c
  proof (cases "(m, c) \<in> set latest \<and> m \<noteq> nb_powerMode b")
    case True
    with all [of m c] show ?thesis by (auto intro: latest_in_append)
  next
    case False
    then have m: "m = nb_powerMode b" and c: "c = (case map_of latest (nb_powerMode b) of
        None \<Rightarrow> b | Some c \<Rightarrow> if nb_measuredAt c < nb_measuredAt b then b else c)"
      using mc unfolding keep_latest_set [OF d] by auto
    show ?thesis
    proof (cases "map_of latest m")
      case None
      then have "m \<notin> nb_powerMode ` set bs" using modes by (simp add: map_of_eq_None_iff)
      then show ?thesis using None c m by (auto simp: latest_in_def image_iff)
    next
      case (Some old)
      then have "nb_powerMode old = m \<and> latest_in bs old" using all map_of_SomeD by metis
      then show ?thesis using Some c m by (auto simp: latest_in_def split: if_splits)
    qed
  qed
  then show ?thesis
    unfolding modes_sound_def using d modes keep_latest_distinct [of latest b] keep_latest_fst [of b latest] by auto
qed

definition lower :: "string \<times> NodeBaseline \<Rightarrow> string \<times> NodeBaseline \<Rightarrow> bool" where
  "lower x y \<longleftrightarrow> f_less (nb_watts (snd x)) (nb_watts (snd y))
     \<or> f_eq (nb_watts (snd x)) (nb_watts (snd y)) \<and> string_lt (fst x) (fst y)"

interpretation lower_order: selection "\<lambda>x. \<not> is_nan (nb_watts (snd x))" lower
proof unfold_locales
  fix x y z :: "string \<times> NodeBaseline"
  assume n: "\<not> is_nan (nb_watts (snd x))" "\<not> is_nan (nb_watts (snd y))"
  show "lower x y \<Longrightarrow> \<not> lower y x"
    unfolding lower_def f_less_def f_eq_def using string_lt_asym [of "fst x" "fst y"] by linarith
  assume "\<not> is_nan (nb_watts (snd z))" "\<not> lower x y" "\<not> lower y z"
  then show "\<not> lower x z"
    using n string_order.neg_trans [of "fst x" "fst y" "fst z"]
    unfolding lower_def f_less_def f_eq_def by auto
qed

definition mode_of :: "(string \<times> NodeBaseline) option \<Rightarrow> string" where
  "mode_of x = (case x of None \<Rightarrow> [] | Some (m, b) \<Rightarrow> m)"

lemma lower_mode_scan:
  assumes "distinct (map fst latest)" "[] \<notin> fst ` set latest" "set xs \<subseteq> set latest" "set_option x \<subseteq> set latest"
  shows "foldl (lower_mode latest) (mode_of x) xs = mode_of (scan_best lower x xs)"
  using assms(3,4)
proof (induction xs arbitrary: x)
  case (Cons y xs)
  have none: "map_of latest [] = None" using assms(2) by (simp add: map_of_eq_None_iff)
  have some: "map_of latest m = Some b" if "(m, b) \<in> set latest" for m b
    using that assms(1) by (rule map_of_is_SomeI [rotated])
  have "lower_mode latest (mode_of x) y = mode_of (keep_best lower x y)"
    using Cons.prems assms(2) none some
    by (cases x; cases y) (auto simp: lower_mode_def mode_of_def lower_def image_iff split: if_splits)
  moreover have "set_option (keep_best lower x y) \<subseteq> set latest"
    using Cons.prems by (cases x) auto
  ultimately show ?case using Cons.IH Cons.prems by simp
qed simp

text \<open>
  C35: the lowest power mode is the one whose latest unloaded baseline draws least. Among the valid
  baselines of the node in an accepted mode, the result is the mode of a baseline that is the latest
  of its mode and whose watts are at most those of a latest baseline of every other mode; without a
  valid baseline it is empty. Valid baselines name their mode.
\<close>

theorem lowest_mode_draws_least:
  assumes "\<forall>b \<in> set bs. mode_valid node accepts b \<longrightarrow> nb_powerMode b \<noteq> []"
  shows "if filter (mode_valid node accepts) bs = [] then SchedulerLowestModeMatching bs node accepts = []
    else (\<exists>b. latest_in (filter (mode_valid node accepts) bs) b
      \<and> nb_powerMode b = SchedulerLowestModeMatching bs node accepts
      \<and> (\<forall>x \<in> set (filter (mode_valid node accepts) bs). \<exists>y. latest_in (filter (mode_valid node accepts) bs) y
           \<and> nb_powerMode y = nb_powerMode x \<and> f_leq (nb_watts b) (nb_watts y)))"
proof -
  define V where "V = filter (mode_valid node accepts) bs"
  define latest where "latest = foldl (\<lambda>m b. if mode_valid node accepts b then keep_latest b m else m) [] bs"
  have "modes_sound (filter (mode_valid node accepts) ys)
      (foldl (\<lambda>m b. if mode_valid node accepts b then keep_latest b m else m) [] ys)" for ys
    by (induction ys rule: rev_induct) (auto simp: keep_latest_sound, simp add: modes_sound_def)
  then have ms: "modes_sound V latest" by (simp add: V_def latest_def)
  then have d: "distinct (map fst latest)" and modes: "fst ` set latest = nb_powerMode ` set V"
    and all: "\<And>m c. (m, c) \<in> set latest \<Longrightarrow> nb_powerMode c = m \<and> latest_in V c"
    by (auto simp: modes_sound_def)
  have ne: "[] \<notin> fst ` set latest" unfolding modes using assms by (auto simp: V_def)
  have res: "SchedulerLowestModeMatching bs node accepts = mode_of (scan_best lower None latest)"
    using lower_mode_scan [OF d ne, of latest None]
    by (simp add: SchedulerLowestModeMatching_def Let_def latest_def mode_of_def)
  show ?thesis
  proof (cases "V = []")
    case True
    then have "latest = []" using modes by simp
    with True res show ?thesis by (simp add: V_def mode_of_def)
  next
    case False
    then have "latest \<noteq> []" using modes by auto
    then obtain m b where run: "scan_best lower None latest = Some (m, b)"
      by (cases "scan_best lower None latest") auto
    have fin: "\<forall>x \<in> set latest. \<not> is_nan (nb_watts (snd x))"
      using all by (fastforce simp: latest_in_def V_def mode_valid_def schedulerFinite_def elim: is_fin.elims)
    note best = lower_order.scan_optimal [OF fin run]
    have "\<exists>y. latest_in V y \<and> nb_powerMode y = nb_powerMode x \<and> f_leq (nb_watts b) (nb_watts y)"
      if "x \<in> set V" for x
    proof -
      have "nb_powerMode x \<in> fst ` set latest" using that modes by simp
      then obtain y where y: "(nb_powerMode x, y) \<in> set latest" by force
      have "\<not> f_less (nb_watts y) (nb_watts b)" using best(2) [OF y] by (simp add: lower_def)
      then have "f_leq (nb_watts b) (nb_watts y)" using fin best(1) y f_not_less by fastforce
      with all [OF y] show ?thesis by blast
    qed
    with False all [OF best(1)] res run show ?thesis unfolding V_def [symmetric] mode_of_def by auto
  qed
qed

section \<open>The properties on samples\<close>

definition sample_cost :: "string \<Rightarrow> instant \<Rightarrow> OperationCost" where
  "sample_cost idn t = \<lparr>oc_id = idn, oc_node = sample_node, oc_deviceClass = [], oc_kind = schedulerActionPrepare,
     oc_from = ''unloaded'', oc_to = ''p2::60'',
     oc_trials = [\<lparr>ot_duration = 2000000000, ot_joules = f_of_int 9, ot_energyUncertaintyJoules = f_zero\<rparr>],
     oc_energyScope = schedulerWholeWall, oc_subtractedWatts = None, oc_meter = ''w'', oc_scope = schedulerNodeWallScope,
     oc_reference = \<lparr>oi_store = ''s'', oi_key = ''k'', oi_size = 1\<rparr>, oc_powerMode = ''low'', oc_beforeState = [],
     oc_targetState = [], oc_measuredAt = t, oc_stateIdentities = []\<rparr>"

definition costed_snapshot :: SchedulerSnapshot where
  "costed_snapshot = sample_snapshot\<lparr>ss_costs := [sample_cost ''a'' 3, sample_cost ''b'' 4]\<rparr>"

definition sample_action :: Action where
  "sample_action = new_action ''x'' schedulerActionPrepare sample_node ''new'' ''unloaded'' ''p2::60'' []"

theorem cost_is_best_measurement_witness:
  "\<exists>rank cost. (rank, cost) \<in> set (usable_costs costed_snapshot sample_action)
     \<and> ac_costID (EstimateAction sample_settings costed_snapshot sample_action) = oc_id cost"
proof -
  have "fresh sample_action" "physical_kind (ac_kind sample_action)"
    by (simp_all add: fresh_def physical_kind_def sample_action_def new_action_def)
  moreover have "distinct (map oc_id (ss_costs costed_snapshot))" "[] \<notin> set (map oc_id (ss_costs costed_snapshot))"
    by (simp_all add: costed_snapshot_def sample_cost_def)
  moreover have "usable_costs costed_snapshot sample_action \<noteq> []" by code_simp
  ultimately show ?thesis
    using cost_is_best_measurement [of sample_action costed_snapshot sample_settings] by auto
qed

definition sample_baseline :: "string \<Rightarrow> int \<Rightarrow> instant \<Rightarrow> NodeBaseline" where
  "sample_baseline mode watts t = \<lparr>nb_id = ''b'', nb_node = sample_node, nb_deviceClass = [], nb_powerMode = mode,
     nb_state = [], nb_stateIdentities = [], nb_watts = f_of_int watts, nb_wattsUncertainty = f_zero, nb_meter = ''w'',
     nb_scope = schedulerNodeWallScope, nb_measuredAt = t, nb_reference = \<lparr>oi_store = ''s'', oi_key = ''k'', oi_size = 1\<rparr>\<rparr>"

definition sample_baselines :: "NodeBaseline list" where
  "sample_baselines = [sample_baseline ''high'' 9 1, sample_baseline ''low'' 3 1, sample_baseline ''high'' 8 2]"

theorem lowest_mode_draws_least_witness:
  "SchedulerLowestModeMatching sample_baselines sample_node (\<lambda>_. True) = ''low''
   \<and> (\<exists>b. latest_in (filter (mode_valid sample_node (\<lambda>_. True)) sample_baselines) b \<and> nb_powerMode b = ''low'')"
proof -
  have low: "SchedulerLowestModeMatching sample_baselines sample_node (\<lambda>_. True) = ''low''" by code_simp
  have "\<forall>b \<in> set sample_baselines. mode_valid sample_node (\<lambda>_. True) b \<longrightarrow> nb_powerMode b \<noteq> []"
    by (simp add: sample_baselines_def sample_baseline_def)
  moreover have ne: "filter (mode_valid sample_node (\<lambda>_. True)) sample_baselines \<noteq> []" by code_simp
  ultimately show ?thesis
    using lowest_mode_draws_least [of sample_baselines sample_node "\<lambda>_. True"]
    unfolding low if_not_P [OF ne] by blast
qed

end
