(* ===== verification/DemandProps.thy ===== *)
theory DemandProps
  imports SchedSamples
begin

text \<open>
  What the scheduler remembers: the demand window keeps exactly the samples of the window and
  reports their maximum (\<open>scheduler_tempo.go\<close>), a failed preparation is promoted by independent
  repetition only (\<open>scheduler_preparation.go\<close>), and the occupancy of a cell follows the order
  measured, DOM, default (\<open>ResolveDispatchOccupancy\<close> of \<open>scheduler.go\<close>).
\<close>

section \<open>The demand window\<close>

definition to_sample :: "instant \<times> f64 \<Rightarrow> schedulerDemandSample" where
  "to_sample x = \<lparr>dm_at = fst x, dm_rate = snd x\<rparr>"

lemma to_sample_simps [simp]: "dm_at (to_sample x) = fst x" "dm_rate (to_sample x) = snd x"
  by (simp_all add: to_sample_def)

definition observe_all :: "duration \<Rightarrow> schedulerDemandWindow \<Rightarrow> (instant \<times> f64) list \<Rightarrow> schedulerDemandWindow" where
  "observe_all dur w obs = foldl (\<lambda>w x. fst (observe w (fst x) (snd x) dur)) w obs"

definition within_window :: "duration \<Rightarrow> instant \<Rightarrow> (instant \<times> f64) list \<Rightarrow> (instant \<times> f64) list" where
  "within_window dur now obs = filter (\<lambda>x. now - dur < fst x) obs"

lemma dropWhile_sorted:
  "sorted (map f xs) \<Longrightarrow> dropWhile (\<lambda>x. \<not> c < f x) xs = filter (\<lambda>x. c < (f x :: int)) xs"
proof (induction xs)
  case (Cons x xs)
  show ?case
  proof (cases "c < f x")
    case True
    then have "\<forall>y \<in> set xs. c < f y" using Cons.prems by force
    then have "filter (\<lambda>x. c < f x) xs = xs" by (simp add: filter_id_conv)
    with True show ?thesis by simp
  qed (use Cons in simp)
qed simp

lemma observe_samples:
  "dw_samples (fst (observe w t r dur)) = dropWhile (\<lambda>x. \<not> t - dur < dm_at x) (dw_samples w) @ [to_sample (t, r)]"
  "dw_since (fst (observe w t r dur)) = dw_since w"
  by (simp_all add: observe_def to_sample_def Let_def)

lemma observe_all_samples:
  assumes "sorted (map fst (obs @ [(t, r)]))" "0 \<le> dur" "dw_samples w = []"
  shows "dw_samples (observe_all dur w (obs @ [(t, r)])) = map to_sample (within_window dur t obs @ [(t, r)])
    \<and> dw_since (observe_all dur w (obs @ [(t, r)])) = dw_since w"
  using assms(1)
proof (induction obs arbitrary: t r rule: rev_induct)
  case Nil
  then show ?case using assms(3) by (simp add: observe_all_def observe_samples within_window_def)
next
  case (snoc x obs)
  obtain u q where x: "x = (u, q)" by (cases x)
  have srt: "sorted (map fst (obs @ [(u, q)]))" and le: "u \<le> t"
    using snoc.prems unfolding x by (auto simp: sorted_append)
  let ?w = "observe_all dur w (obs @ [(u, q)])"
  have w: "dw_samples ?w = map to_sample (within_window dur u obs @ [(u, q)])" and since: "dw_since ?w = dw_since w"
    using snoc.IH [OF srt] by simp_all
  have step: "observe_all dur w ((obs @ [x]) @ [(t, r)]) = fst (observe ?w t r dur)"
    by (simp add: observe_all_def x)
  have "sorted (map dm_at (dw_samples ?w))"
  proof -
    have "map dm_at (dw_samples ?w) = map fst (within_window dur u obs @ [(u, q)])" unfolding w by simp
    moreover have "sorted (map fst (within_window dur u obs @ [(u, q)]))"
      using srt by (auto simp: within_window_def sorted_append intro: sorted_filter)
    ultimately show ?thesis by simp
  qed
  then have "dropWhile (\<lambda>x. \<not> t - dur < dm_at x) (dw_samples ?w) = filter (\<lambda>x. t - dur < dm_at x) (dw_samples ?w)"
    by (rule dropWhile_sorted)
  also have "\<dots> = map to_sample (within_window dur t (within_window dur u obs @ [(u, q)]))"
    unfolding w within_window_def by (simp add: filter_map o_def)
  also have "within_window dur t (within_window dur u obs @ [(u, q)]) = within_window dur t (obs @ [x])"
    using le unfolding within_window_def x by (auto intro: filter_cong)
  finally show ?case unfolding step observe_samples since by simp
qed

lemma f_max_upper:
  "\<not> is_nan a \<Longrightarrow> \<not> is_nan b \<Longrightarrow> (f_max a b = a \<or> f_max a b = b) \<and> f_leq a (f_max a b) \<and> f_leq b (f_max a b)"
  unfolding f_max_def using f_less_total [of a b]
  by (auto simp: f_leq_def f_eq_refl intro: f_eq_sym)

lemma f_max_fold:
  assumes "\<not> is_nan m" "\<forall>x \<in> set xs. \<not> is_nan (g x)"
  shows "(foldl (\<lambda>m x. f_max m (g x)) m xs = m \<or> foldl (\<lambda>m x. f_max m (g x)) m xs \<in> g ` set xs)
    \<and> f_leq m (foldl (\<lambda>m x. f_max m (g x)) m xs) \<and> (\<forall>x \<in> set xs. f_leq (g x) (foldl (\<lambda>m x. f_max m (g x)) m xs))"
  using assms
proof (induction xs arbitrary: m)
  case Nil
  then show ?case by (simp add: f_leq_refl)
next
  case (Cons x xs)
  let ?m = "f_max m (g x)"
  have m: "?m = m \<or> ?m = g x" "f_leq m ?m" "f_leq (g x) ?m" using f_max_upper [of m "g x"] Cons.prems by auto
  have "\<not> is_nan ?m" using m(2) by (auto dest: f_leq_not_nan)
  from Cons.IH [OF this] Cons.prems m show ?case by (auto intro: f_leq_trans)
qed

text \<open>
  C30: the demand window reports the maximum of the window. After observations at nondecreasing
  times from an empty window, it holds exactly those that are later than the window before the last
  one, and the last one itself; the reported maximum is one of their rates and none of them is
  larger; and the observation is complete exactly when the window began at least its duration ago.
\<close>

theorem window_maximum:
  assumes "sorted (map fst (obs @ [(t, r)]))" and "0 \<le> dur" and "dw_samples w = []"
    and "\<forall>x \<in> set (obs @ [(t, r)]). \<not> is_nan (snd x)"
  shows "case observe (observe_all dur w obs) t r dur of (w', maximum, full) \<Rightarrow>
    dw_samples w' = map to_sample (within_window dur t obs @ [(t, r)])
    \<and> maximum \<in> snd ` set (within_window dur t obs @ [(t, r)])
    \<and> (\<forall>x \<in> set (within_window dur t obs @ [(t, r)]). f_leq (snd x) maximum)
    \<and> full = (dur \<le> time_sub t (dw_since w))"
proof -
  let ?o = "observe (observe_all dur w obs) t r dur"
  let ?in = "within_window dur t obs @ [(t, r)]"
  have "observe_all dur w (obs @ [(t, r)]) = fst ?o" by (simp add: observe_all_def)
  with observe_all_samples [OF assms(1-3)] have samples: "dw_samples (fst ?o) = map to_sample ?in" by simp
  have "dw_since (observe_all dur w obs) = dw_since w"
    unfolding observe_all_def
    by (induction obs arbitrary: w) (simp_all add: observe_samples)
  then have full: "snd (snd ?o) = (dur \<le> time_sub t (dw_since w))" by (simp add: observe_def Let_def)
  have "fst (snd ?o) = foldl (\<lambda>m x. f_max m (dm_rate x)) r (dw_samples (fst ?o))" by (simp add: observe_def Let_def)
  then have mx: "fst (snd ?o) = foldl (\<lambda>m x. f_max m (snd x)) r ?in"
    unfolding samples by (simp add: foldl_map)
  have nan: "\<not> is_nan r" "\<forall>x \<in> set ?in. \<not> is_nan (snd x)" using assms(4) by (auto simp: within_window_def)
  from f_max_fold [OF nan]
  have "fst (snd ?o) \<in> snd ` set ?in \<and> (\<forall>x \<in> set ?in. f_leq (snd x) (fst (snd ?o)))"
    unfolding mx by force
  with samples full show ?thesis by (simp add: case_prod_beta)
qed

text \<open>Three observations in a window of two: the first one has left it.\<close>

theorem window_maximum_witness:
  "let w = \<lparr>dw_since = 0, dw_samples = []\<rparr>; obs = [(0, f_of_int 9), (1, f_of_int 2)] in
   within_window 2 2 obs @ [(2, f_of_int 1)] = [(1, f_of_int 2), (2, f_of_int 1)]
   \<and> (case observe (observe_all 2 w obs) 2 (f_of_int 1) 2 of (w', maximum, full) \<Rightarrow>
        dw_samples w' = map to_sample (within_window 2 2 obs @ [(2, f_of_int 1)]) \<and> full)"
proof -
  let ?obs = "[(0, f_of_int 9), (1, f_of_int 2)] :: (instant \<times> f64) list"
  have "\<forall>x \<in> set (?obs @ [(2, f_of_int 1)]). \<not> is_nan (snd x)" by code_simp
  moreover have "within_window 2 2 ?obs @ [(2, f_of_int 1)] = [(1, f_of_int 2), (2, f_of_int 1)]"
    by (simp add: within_window_def)
  moreover have "2 \<le> time_sub 2 0" by code_simp
  ultimately show ?thesis
    using window_maximum [of ?obs 2 "f_of_int 1" 2 "\<lparr>dw_since = 0, dw_samples = []\<rparr>"]
    by (simp add: Let_def case_prod_beta)
qed

section \<open>Repeated failures\<close>

text \<open>What a preparation attempted: the inputs that decide whether it starts.\<close>

definition attempt_inputs :: "Action \<Rightarrow> PreparationFailure
    \<Rightarrow> NodeReference \<times> string \<times> string \<times> SchedulerAllocation \<times> uint64 \<times> string \<times> string list" where
  "attempt_inputs a f = (ac_node a, po_reasonKey (fl_observation f), fl_profileID f, fl_allocation f,
     fl_profileMemoryBytes f, fl_runtimeImage f, fl_runnerCommand f)"

type_synonym inputs = "NodeReference \<times> string \<times> string \<times> SchedulerAllocation \<times> uint64 \<times> string \<times> string list"

definition failed_attempt :: "string \<Rightarrow> inputs \<Rightarrow> uint64 \<Rightarrow> Action \<Rightarrow> bool" where
  "failed_attempt class k n a \<longleftrightarrow> (\<exists>f. ac_preparationFailure a = Some f \<and> po_classification (fl_observation f) = class
     \<and> attempt_inputs a f = k \<and> fl_repeatCount f = n)"

definition pod_of :: "Action \<Rightarrow> string" where
  "pod_of a = (case ac_preparationFailure a of None \<Rightarrow> [] | Some f \<Rightarrow> fl_podUID f)"

definition previous_pod_of :: "Action \<Rightarrow> string" where
  "previous_pod_of a = (case ac_preparationFailure a of None \<Rightarrow> [] | Some f \<Rightarrow> fl_previousPodUID f)"

text \<open>Attempts that each differ from the one before in action and pod.\<close>

fun independent :: "string \<Rightarrow> inputs \<Rightarrow> Action \<Rightarrow> Action list \<Rightarrow> bool" where
  "independent class k prev [] = True"
| "independent class k prev (x # xs) \<longleftrightarrow> failed_attempt class k 0 x \<and> pod_of x \<noteq> pod_of prev \<and> ac_id x \<noteq> ac_id prev
     \<and> independent class k x xs"

text \<open>Only the immediately preceding attempt is kept.\<close>

definition observe_attempts :: "Action \<Rightarrow> Action list \<Rightarrow> Action" where
  "observe_attempts a as = foldl (\<lambda>prev cur. ObserveRepeatedPreparationFailure cur prev) a as"

definition after_repeat :: "string \<Rightarrow> string" where
  "after_repeat class = (if class = PreparationUnknownTransient then PreparationPromoted else class)"

lemma observe_repeated:
  assumes "failed_attempt class k 0 a" "failed_attempt class' k n old" "class' = class \<or> class' = after_repeat class"
    and "class \<noteq> PreparationDeterministic" "ac_id a \<noteq> ac_id old" "pod_of a \<noteq> pod_of old"
  shows "failed_attempt (after_repeat class) k (n + 1) (ObserveRepeatedPreparationFailure a old)
    \<and> ac_id (ObserveRepeatedPreparationFailure a old) = ac_id a
    \<and> pod_of (ObserveRepeatedPreparationFailure a old) = pod_of a
    \<and> previous_pod_of (ObserveRepeatedPreparationFailure a old) = pod_of old"
proof -
  obtain f g where f: "ac_preparationFailure a = Some f" "po_classification (fl_observation f) = class"
      "attempt_inputs a f = k" "fl_repeatCount f = 0"
    and g: "ac_preparationFailure old = Some g" "po_classification (fl_observation g) = class'"
      "attempt_inputs old g = k" "fl_repeatCount g = n"
    using assms(1,2) unfolding failed_attempt_def by blast
  have same: "attempt_inputs a f = attempt_inputs old g" using f(3) g(3) by simp
  have pods: "fl_podUID f \<noteq> fl_podUID g" using assms(6) f(1) g(1) by (simp add: pod_of_def)
  have classes: "class = class' \<or> class = PreparationUnknownTransient \<and> class' = PreparationPromoted"
    using assms(3) by (auto simp: after_repeat_def split: if_splits)
  have keys: "ac_node a = ac_node old \<and> po_reasonKey (fl_observation f) = po_reasonKey (fl_observation g)
      \<and> fl_profileID f = fl_profileID g \<and> fl_allocation f = fl_allocation g
      \<and> fl_profileMemoryBytes f = fl_profileMemoryBytes g
      \<and> fl_runtimeImage f = fl_runtimeImage g \<and> fl_runnerCommand f = fl_runnerCommand g"
    using same by (simp add: attempt_inputs_def)
  have rep: "PreparationFailureReproduces a old"
    unfolding PreparationFailureReproduces_def f(1,2) g(1,2) Let_def prod.case option.case
    using assms(4,5) keys pods classes by blast
  show ?thesis
    using f g by (simp add: ObserveRepeatedPreparationFailure_def rep failed_attempt_def attempt_inputs_def after_repeat_def
        pod_of_def previous_pod_of_def Let_def)
qed

lemma observe_independent:
  assumes "class \<noteq> PreparationDeterministic" "failed_attempt class' k n old" "class' = class \<or> class' = after_repeat class"
    and "ac_id old = ac_id prev" "pod_of old = pod_of prev" "independent class k prev as"
  shows "failed_attempt (if as = [] then class' else after_repeat class) k (n + of_nat (length as)) (observe_attempts old as)
    \<and> (as \<noteq> [] \<longrightarrow> previous_pod_of (observe_attempts old as) = pod_of (last (prev # butlast as)))"
  using assms(2-6)
proof (induction as arbitrary: class' n old prev)
  case Nil
  then show ?case by (simp add: observe_attempts_def)
next
  case (Cons x xs)
  let ?o = "ObserveRepeatedPreparationFailure x old"
  have "failed_attempt class k 0 x" "ac_id x \<noteq> ac_id old" "pod_of x \<noteq> pod_of old"
    using Cons.prems by simp_all
  note ob = observe_repeated [OF this(1) Cons.prems(1,2) assms(1) this(2,3)]
  have "failed_attempt (if xs = [] then after_repeat class else after_repeat class) k (n + 1 + of_nat (length xs)) (observe_attempts ?o xs)
      \<and> (xs \<noteq> [] \<longrightarrow> previous_pod_of (observe_attempts ?o xs) = pod_of (last (x # butlast xs)))"
    using ob Cons.prems(5) by (intro Cons.IH) simp_all
  moreover have "observe_attempts old (x # xs) = observe_attempts ?o xs" by (simp add: observe_attempts_def)
  moreover have "previous_pod_of (observe_attempts ?o xs) = pod_of prev" if "xs = []"
    using ob Cons.prems(4) that by (simp add: observe_attempts_def)
  ultimately show ?case by (cases "xs = []") (simp_all add: algebra_simps)
qed

text \<open>
  A failed preparation is promoted by independent repetition only. After a first attempt and
  further ones that each differ from the one before in action and pod, with the same inputs and the
  same classification, not deterministic: the last attempt has counted the repetitions (modulo 2 ^ 64)
  and knows the pod before it; an unknown transient failure is promoted as soon as it repeats, and any
  other classification, such as a known environmental one, stays what it is however often it repeats.
\<close>

lemma promotion_by_repetition:
  assumes "class \<noteq> PreparationDeterministic" and "failed_attempt class k 0 a" and "independent class k a as"
  shows "failed_attempt (if as = [] then class else after_repeat class) k (of_nat (length as)) (observe_attempts a as)
    \<and> (as \<noteq> [] \<longrightarrow> previous_pod_of (observe_attempts a as) = pod_of (last (a # butlast as)))"
  using observe_independent [OF assms(1,2) disjI1 refl refl assms(3)] by simp

definition sample_attempt :: "string \<Rightarrow> string \<Rightarrow> Action" where
  "sample_attempt idn pod = (new_action idn schedulerActionPrepare sample_node ''new'' ''unloaded'' ''p2::60'' [])
     \<lparr>ac_preparationFailure := Some \<lparr>fl_profileID = ''p2'', fl_runtimeImage = ''r'', fl_runnerCommand = [],
        fl_allocation = \<lparr>al_gpuUUID = [], al_memoryBytes = 60\<rparr>, fl_profileMemoryBytes = 50, fl_podUID = pod,
        fl_observation = \<lparr>po_classification = PreparationUnknownTransient, po_reasonKey = ''key'', po_reason = ''text''\<rparr>,
        fl_repeatCount = 0, fl_previousPodUID = []\<rparr>\<rparr>"

lemma promotion_by_repetition_witness:
  "\<exists>k. failed_attempt PreparationPromoted k 2
       (observe_attempts (sample_attempt ''a'' ''1'') [sample_attempt ''b'' ''2'', sample_attempt ''c'' ''3''])
     \<and> previous_pod_of (observe_attempts (sample_attempt ''a'' ''1'') [sample_attempt ''b'' ''2'', sample_attempt ''c'' ''3'']) = ''2''"
proof -
  define k :: inputs where "k = (sample_node, ''key'', ''p2'', \<lparr>al_gpuUUID = [], al_memoryBytes = 60\<rparr>, 50, ''r'', [])"
  have "failed_attempt PreparationUnknownTransient k 0 (sample_attempt idn pod)" for idn pod
    by (simp add: failed_attempt_def sample_attempt_def attempt_inputs_def new_action_def k_def)
  moreover have "pod_of (sample_attempt idn pod) = pod" "ac_id (sample_attempt idn pod) = idn" for idn pod
    by (simp_all add: pod_of_def sample_attempt_def new_action_def)
  moreover have "PreparationUnknownTransient \<noteq> PreparationDeterministic" by simp
  ultimately show ?thesis
    using promotion_by_repetition [of PreparationUnknownTransient k "sample_attempt ''a'' ''1''"
        "[sample_attempt ''b'' ''2'', sample_attempt ''c'' ''3'']"]
    by (intro exI [of _ k]) (auto simp: after_repeat_def)
qed

section \<open>Dispatch occupancy\<close>

lemma find_some: "find P xs = Some x \<Longrightarrow> P x"
  by (induction xs) (auto split: if_splits)

definition measured_for :: "SchedulerInstance \<Rightarrow> Profile \<Rightarrow> DispatchOccupancy \<Rightarrow> bool" where
  "measured_for i p d \<longleftrightarrow> same_scope i p d \<and> occupancy_source d = Some occupancySourceMeasured \<and> exact_cell i p d"

definition legacy_for :: "SchedulerInstance \<Rightarrow> Profile \<Rightarrow> DispatchOccupancy \<Rightarrow> bool" where
  "legacy_for i p d \<longleftrightarrow> same_scope i p d \<and> (occupancy_source d = None \<or> occupancy_source d = Some occupancySourceDOM)
     \<and> wildcard_cell i p d"

definition default_for :: "SchedulerInstance \<Rightarrow> Profile \<Rightarrow> DispatchOccupancy \<Rightarrow> bool" where
  "default_for i p d \<longleftrightarrow> same_scope i p d \<and> occupancy_source d = Some operationSourceDefault \<and> exact_cell i p d"

definition first_of :: "'a option \<Rightarrow> 'a option \<Rightarrow> 'a option" where
  "first_of x y = (if x = None then y else x)"

lemma first_of_simps [simp]: "first_of None = (\<lambda>y. y)" "first_of (Some a) y = Some a" "first_of x None = x"
  by (simp_all add: first_of_def fun_eq_iff)

lemma occupancy_scan_priority:
  "occupancy_scan i p legacy fallback ds = first_of (find (measured_for i p) ds)
     (first_of (first_of legacy (find (legacy_for i p) ds)) (first_of fallback (find (default_for i p) ds)))"
proof (induction i p legacy fallback ds rule: occupancy_scan.induct)
  case (2 i p legacy fallback d ds)
  show ?case
  proof (cases "same_scope i p d")
    case False
    then show ?thesis using 2 by (simp add: measured_for_def legacy_for_def default_for_def)
  next
    case True
    then show ?thesis
      using 2 by (cases legacy; cases fallback)
        (auto simp: measured_for_def legacy_for_def default_for_def)
  qed
qed (simp add: first_of_def)

text \<open>
  C36: the occupancy of a cell follows a fixed priority. It is the first measured record that matches
  the cell exactly; without one, the first legacy (DOM) record that does not contradict the cell;
  without one, the first configured default recorded for the exact cell; and otherwise the default of
  the settings. Whatever it is, the time per request is not negative, and it is recorded as the value.
\<close>

theorem occupancy_priority:
  assumes "si_profile i = Some p"
  shows "\<exists>d v. ResolveDispatchOccupancy st occupancy i = Some d \<and> do_provenance d = Some v
    \<and> do_perRequest d = max 0 (case first_of (find (measured_for i p) occupancy)
          (first_of (find (legacy_for i p) occupancy) (find (default_for i p) occupancy)) of
        None \<Rightarrow> st_defaultDispatchOccupancyNanos st | Some x \<Rightarrow> do_perRequest x)
    \<and> dp_value v = do_perRequest d \<and> 0 \<le> do_perRequest d
    \<and> dp_source v = (if find (measured_for i p) occupancy \<noteq> None then occupancySourceMeasured
        else if find (legacy_for i p) occupancy \<noteq> None then occupancySourceDOM else operationSourceDefault)
    \<and> do_node d = si_node i \<and> do_batch d = si_maxBatch i \<and> do_profileID d = pl_id p"
proof -
  have scan: "occupancy_scan i p None None occupancy = first_of (find (measured_for i p) occupancy)
      (first_of (find (legacy_for i p) occupancy) (find (default_for i p) occupancy))"
    by (simp add: occupancy_scan_priority)
  have src: "occupancy_source x = Some occupancySourceMeasured" if "find (measured_for i p) occupancy = Some x" for x
    using find_some [OF that] by (simp add: measured_for_def)
  have leg: "occupancy_source x = None \<or> occupancy_source x = Some occupancySourceDOM" if "find (legacy_for i p) occupancy = Some x" for x
    using find_some [OF that] by (simp add: legacy_for_def)
  have dfl: "occupancy_source x = Some operationSourceDefault" if "find (default_for i p) occupancy = Some x" for x
    using find_some [OF that] by (simp add: default_for_def)
  show ?thesis
    unfolding ResolveDispatchOccupancy_def assms scan Let_def option.case
    using src leg dfl
    by (cases "find (measured_for i p) occupancy"; cases "find (legacy_for i p) occupancy"; cases "find (default_for i p) occupancy")
      (auto simp: occupancy_source_def split: option.splits)
qed

definition sample_occupancy :: "string option \<Rightarrow> string \<Rightarrow> int \<Rightarrow> DispatchOccupancy" where
  "sample_occupancy source prof per = \<lparr>do_node = sample_node, do_powerMode = ''low'', do_runtimeImage = ''r'', do_model = ''m'',
     do_profileID = prof, do_executionPath = (if prof = [] then [] else ''e''), do_batch = (if prof = [] then 0 else 1),
     do_perRequest = per, do_source = [],
     do_provenance = map_option (\<lambda>x. \<lparr>dp_source = x, dp_pairs = 0, dp_updatedAt = 0, dp_value = 0\<rparr>) source\<rparr>"

text \<open>A legacy record precedes a measured one of another profile and a default of the exact cell.\<close>

theorem occupancy_priority_witness:
  "\<exists>d v. ResolveDispatchOccupancy sample_settings
        [sample_occupancy (Some operationSourceDefault) ''p1'' 5, sample_occupancy (Some occupancySourceMeasured) ''p2'' 6,
         sample_occupancy None [] 7] (sample_instance ''old'' ''p1'') = Some d
     \<and> do_provenance d = Some v \<and> do_perRequest d = 7 \<and> dp_source v = occupancySourceDOM"
proof -
  let ?ds = "[sample_occupancy (Some operationSourceDefault) ''p1'' 5, sample_occupancy (Some occupancySourceMeasured) ''p2'' 6,
         sample_occupancy None [] 7]"
  let ?i = "sample_instance ''old'' ''p1''" and ?p = "sample_profile ''p1''"
  have "si_profile ?i = Some ?p" by (simp add: sample_instance_def)
  moreover have "find (measured_for ?i ?p) ?ds = None" by code_simp
  moreover have "map_option do_perRequest (find (legacy_for ?i ?p) ?ds) = Some 7" by code_simp
  then obtain d where "find (legacy_for ?i ?p) ?ds = Some d" "do_perRequest d = 7" by auto
  ultimately show ?thesis
    using occupancy_priority [of ?i ?p sample_settings ?ds] by auto
qed

end
