(* ===== verification/CapacityRows.thy ===== *)
theory CapacityRows
  imports SchedPlan
begin

text \<open>
  The capacity of one option for one workload (\<open>internal/serving/capacity.go\<close>): the input that
  names a row, the rates a row is judged at and the search for the largest one that meets the SLO.
  \<open>capacityBuilder\<close> has the replay of one window as a function field, so the replay is an argument
  here too; it returns a latency and a verdict, or an error. The context is never cancelled.
\<close>

section \<open>Floats\<close>

text \<open>\<open>math.Floor\<close> and \<open>math.Ceil\<close>; both keep the sign of zero.\<close>

fun f_floor :: "f64 \<Rightarrow> f64" where
  "f_floor (Fin s m) = Fin s (of_int (if s then \<lceil>m\<rceil> else \<lfloor>m\<rfloor>))"
| "f_floor x = x"

fun f_ceil :: "f64 \<Rightarrow> f64" where
  "f_ceil (Fin s m) = Fin s (of_int (if s then \<lfloor>m\<rfloor> else \<lceil>m\<rceil>))"
| "f_ceil x = x"

text \<open>Go's built-in \<open>min\<close>: NaN if either is, and -0 under 0.\<close>

definition f_bmin :: "f64 \<Rightarrow> f64 \<Rightarrow> f64" where
  "f_bmin a b =
     (if is_nan a \<or> is_nan b then NaN
      else if f_eq a f_zero \<and> f_eq a b then (if neg a then a else b)
      else if f_less b a then b else a)"

fun f_abs :: "f64 \<Rightarrow> f64" where
  "f_abs (Fin s m) = Fin False m"
| "f_abs (Inf s) = Inf False"
| "f_abs NaN = NaN"

abbreviation f_one :: f64 where "f_one \<equiv> f_of_int 1"
abbreviation f_two :: f64 where "f_two \<equiv> f_of_int 2"

section \<open>Maps\<close>

text \<open>Assignment to a map and deletion of a key.\<close>

definition put :: "string \<Rightarrow> 'v \<Rightarrow> (string \<times> 'v) list \<Rightarrow> (string \<times> 'v) list" where
  "put k v m = (k, v) # filter (\<lambda>x. fst x \<noteq> k) m"

definition drop_key :: "string \<Rightarrow> (string \<times> 'v) list \<Rightarrow> (string \<times> 'v) list" where
  "drop_key k m = filter (\<lambda>x. fst x \<noteq> k) m"

section \<open>Rows\<close>

abbreviation CapacityBuilt :: string where "CapacityBuilt \<equiv> ''Built''"
abbreviation CapacityPending :: string where "CapacityPending \<equiv> ''CapacityPending''"
abbreviation CapacityRejected :: string where "CapacityRejected \<equiv> ''CapacityRejected''"
abbreviation CapacityNonMonotone :: string where "CapacityNonMonotone \<equiv> ''NonMonotone''"
abbreviation CapacityServiceExceedsSLO :: string where "CapacityServiceExceedsSLO \<equiv> ''BatchServiceExceedsSLO''"

record CapacityInput =
  ci_workloadUID :: string
  ci_slo :: DefinitionSLO
  ci_node :: NodeReference
  ci_powerMode :: string
  ci_profileID :: string
  ci_allocation :: SchedulerAllocation
  ci_maxBatch :: int
  ci_completionMarginMS :: f64
  ci_window :: duration
  ci_windows :: int
  ci_passingWindows :: int
  ci_minimumRequests :: int
  ci_gridSteps :: int
  ci_bisectionWidth :: f64
  ci_tailSamples :: int
  ci_dispatchOccupancy :: "DispatchOccupancy option"

record CapacityJudgment =
  cj_rate :: f64
  cj_requests :: int
  cj_passed :: int
  cj_met :: bool
  cj_percentileMS :: "f64 list"

text \<open>The time spent on a row and the evidence its replay used are not read again and left out.\<close>

record CapacityRow =
  cr_key :: string
  cr_input :: CapacityInput
  cr_status :: string
  cr_reason :: string
  cr_mu :: f64
  cr_kappa :: "f64 option"
  cr_grid :: "CapacityJudgment list"
  cr_bisection :: "CapacityJudgment list"
  cr_previous :: bool

text \<open>An option without a profile has no variant, so every caller passes one with a profile.\<close>

definition NewCapacityInput :: "SchedulerSettings \<Rightarrow> DispatchOccupancy list \<Rightarrow> SchedulerOption \<Rightarrow> Definition
    \<Rightarrow> CapacityInput" where
  "NewCapacityInput st occupancy x w =
     (let i = op_instance x; p = the (si_profile i) in
      \<lparr>ci_workloadUID = df_uid w, ci_slo = df_slo w, ci_node = si_node i, ci_powerMode = cd_powerMode (pl_condition p),
       ci_profileID = pl_id p, ci_allocation = si_allocation i, ci_maxBatch = si_maxBatch i,
       ci_completionMarginMS = st_completionMarginMS st, ci_window = st_capacityWindow st,
       ci_windows = st_capacityWindows st, ci_passingWindows = st_capacityPassingWindows st,
       ci_minimumRequests = st_capacityMinimumRequests st, ci_gridSteps = st_capacityGridSteps st,
       ci_bisectionWidth = st_capacityBisectionWidth st, ci_tailSamples = st_capacityTailSamples st,
       ci_dispatchOccupancy = ResolveDispatchOccupancy st occupancy i\<rparr>)"

text \<open>
  The stable key: the image, source and provenance of the occupancy do not change it. \<open>keyOf\<close>
  is the rest of the method, the first 12 bytes of the SHA-256 of the JSON form, in hexadecimal.
\<close>

definition key_input :: "CapacityInput \<Rightarrow> CapacityInput" where
  "key_input i = i\<lparr>ci_dispatchOccupancy := map_option
     (\<lambda>d. d\<lparr>do_runtimeImage := [], do_source := [], do_provenance := None\<rparr>) (ci_dispatchOccupancy i)\<rparr>"

definition CapacityInput_Key :: "(CapacityInput \<Rightarrow> string) \<Rightarrow> CapacityInput \<Rightarrow> string" where
  "CapacityInput_Key keyOf i = ''shared-cpu/'' @ keyOf (key_input i)"

section \<open>Throughput\<close>

text \<open>The fastest measured service of a batch; None for \<open>math.MaxInt64\<close>, which no sample reached.\<close>

definition fastest_step :: "int \<Rightarrow> ServiceSample \<Rightarrow> int" where
  "fastest_step m x = (if 0 < ss_serviceDurationNanos x then min m (ss_serviceDurationNanos x) else m)"

definition fastest :: "ServingBatchProfile \<Rightarrow> int" where
  "fastest b = foldl fastest_step max_int64 (sb_serviceSamples b)"

definition throughput_step :: "int \<Rightarrow> f64 \<Rightarrow> ServingBatchProfile \<Rightarrow> f64" where
  "throughput_step limit mu b =
     (if limit < sb_batch b then mu
      else if fastest b = max_int64 then mu
      else f_max mu (f_mul (f_div (f_of_int (sb_batch b)) (f_of_int (fastest b))) (f_of_int 1000000000)))"

definition capacityThroughput :: "Profile \<Rightarrow> int \<Rightarrow> f64" where
  "capacityThroughput p limit = foldl (throughput_step limit) f_zero (pl_batches p)"

section \<open>Judging a rate\<close>

text \<open>\<open>cb_replay lambda n seed\<close> replays one window; \<open>oor\<close> is the conversion of a float outside int64.\<close>

record capacityBuilder =
  cb_settings :: SchedulerSettings
  cb_percentile :: f64
  cb_replay :: "f64 \<Rightarrow> int \<Rightarrow> int \<Rightarrow> string + (f64 \<times> bool)"

definition gridStep :: "capacityBuilder \<Rightarrow> int \<Rightarrow> f64 \<Rightarrow> f64" where
  "gridStep b k mu = f_mul (f_div (f_of_int k) (f_of_int (st_capacityGridSteps (cb_settings b)))) mu"

definition window_requests :: "(f64 \<Rightarrow> int) \<Rightarrow> capacityBuilder \<Rightarrow> f64 \<Rightarrow> int" where
  "window_requests oor b lam =
     (let st = cb_settings b;
          n = max (st_capacityMinimumRequests st)
            (f_to_int64 oor (f_ceil (f_mul lam (Duration_Seconds (st_capacityWindow st)))))
      in if f_less (cb_percentile b) (f_of_int 100)
         then max n (f_to_int64 oor (f_ceil (f_div (f_of_int (st_capacityTailSamples st))
                (f_sub f_one (f_div (cb_percentile b) (f_of_int 100))))))
         else n)"

text \<open>One window; an error ends the row.\<close>

definition judge_window :: "capacityBuilder \<Rightarrow> CapacityJudgment \<Rightarrow> int \<Rightarrow> CapacityJudgment \<times> string option" where
  "judge_window b j seed =
     (case cb_replay b (cj_rate j) (cj_requests j) seed of
        Inl e \<Rightarrow> (j, Some e)
      | Inr (latency, ok) \<Rightarrow>
          (j\<lparr>cj_percentileMS := cj_percentileMS j @ [latency],
             cj_passed := (if ok then cj_passed j + 1 else cj_passed j)\<rparr>, None))"

fun judge_loop :: "capacityBuilder \<Rightarrow> CapacityJudgment \<Rightarrow> int list \<Rightarrow> CapacityJudgment \<times> string option" where
  "judge_loop b j [] = (j, None)"
| "judge_loop b j (seed # seeds) =
     (let st = cb_settings b; passing = st_capacityPassingWindows st in
      if cj_passed j < passing \<and> passing \<le> cj_passed j + st_capacityWindows st - seed + 1
      then (case judge_window b j seed of
          (j', Some e) \<Rightarrow> (j', Some e)
        | (j', None) \<Rightarrow> judge_loop b j' seeds)
      else (j, None))"

definition judge :: "(f64 \<Rightarrow> int) \<Rightarrow> capacityBuilder \<Rightarrow> f64 \<Rightarrow> CapacityJudgment \<times> string option" where
  "judge oor b lam =
     (let st = cb_settings b;
          j0 = \<lparr>cj_rate = lam, cj_requests = window_requests oor b lam, cj_passed = 0, cj_met = False, cj_percentileMS = []\<rparr>
      in case judge_loop b j0 [1..st_capacityWindows st] of
           (j, Some e) \<Rightarrow> (j, Some e)
         | (j, None) \<Rightarrow> (j\<lparr>cj_met := st_capacityPassingWindows st \<le> cj_passed j\<rparr>, None))"

section \<open>Searching the capacity\<close>

text \<open>The grid: the row so far and the number of grid rates met without a gap.\<close>

fun grid_loop :: "(f64 \<Rightarrow> int) \<Rightarrow> capacityBuilder \<Rightarrow> CapacityRow \<Rightarrow> int \<Rightarrow> int list
    \<Rightarrow> (CapacityRow \<times> int) \<times> string option" where
  "grid_loop oor b row met [] = ((row, met), None)"
| "grid_loop oor b row met (k # ks) =
     (case judge oor b (gridStep b k (cr_mu row)) of
        (j, Some e) \<Rightarrow> ((row, met), Some e)
      | (j, None) \<Rightarrow>
          (let row1 = row\<lparr>cr_grid := cr_grid row @ [j]\<rparr> in
           if cj_met j \<and> met = k - 1 then grid_loop oor b row1 k ks
           else if cj_met j
           then grid_loop oor b (row1\<lparr>cr_status := CapacityRejected, cr_reason := CapacityNonMonotone\<rparr>) met ks
           else grid_loop oor b row1 met ks))"

text \<open>The bisection of the last passing interval; that it ends is a theorem about it.\<close>

partial_function (option) bisect :: "(f64 \<Rightarrow> int) \<Rightarrow> capacityBuilder \<Rightarrow> CapacityRow \<Rightarrow> f64 \<Rightarrow> f64
    \<Rightarrow> (CapacityRow \<times> f64 \<times> f64 \<times> string option) option" where
  [code]: "bisect oor b row kappa hi =
     (if \<not> f_less (f_mul (st_capacityBisectionWidth (cb_settings b)) (cr_mu row)) (f_sub hi kappa)
      then Some (row, kappa, hi, None)
      else
        (let mid = f_div (f_add kappa hi) f_two in
         if f_eq mid kappa \<or> f_eq mid hi then Some (row, kappa, hi, None)
         else
           (case judge oor b mid of
              (j, Some e) \<Rightarrow> Some (row, kappa, hi, Some e)
            | (j, None) \<Rightarrow>
                (let row1 = row\<lparr>cr_bisection := cr_bisection row @ [j]\<rparr> in
                 if cj_met j then bisect oor b row1 mid hi else bisect oor b row1 kappa mid))))"

definition finish_row :: "(CapacityRow \<times> f64 \<times> f64 \<times> string option) option \<Rightarrow> (CapacityRow \<times> string option) option" where
  "finish_row r = map_option (\<lambda>(row, kappa, hi, e).
     (if e = None then row\<lparr>cr_status := CapacityBuilt, cr_kappa := Some kappa\<rparr> else row, e)) r"

definition build_row :: "(f64 \<Rightarrow> int) \<Rightarrow> capacityBuilder \<Rightarrow> CapacityRow \<Rightarrow> (CapacityRow \<times> string option) option" where
  "build_row oor b row =
     (let steps = st_capacityGridSteps (cb_settings b) in
      case grid_loop oor b row 0 [1..steps] of
        ((r, met), Some e) \<Rightarrow> Some (r, Some e)
      | ((r, met), None) \<Rightarrow>
          if cr_status r \<noteq> [] then Some (r, None)
          else
            (let kappa = gridStep b met (cr_mu r) in
             if 0 < met \<and> met < steps
             then finish_row (bisect oor b r kappa (gridStep b (met + 1) (cr_mu r)))
             else Some (r\<lparr>cr_status := CapacityBuilt, cr_kappa := Some kappa\<rparr>, None)))"

text \<open>
  \<open>BuildCapacityRow\<close> up to the replay: a row whose fastest service cannot meet the SLO has no
  capacity. \<open>replay\<close> is the replay of a window of this row (\<open>capacityReplay.window\<close>).
\<close>

definition fastest_allowed :: "int \<Rightarrow> f64 \<Rightarrow> ServingBatchProfile \<Rightarrow> f64" where
  "fastest_allowed limit m b =
     (if sb_batch b \<le> limit
      then foldl (\<lambda>m x. if 0 < ss_serviceDurationNanos x then f_bmin m (f_of_int (ss_serviceDurationNanos x)) else m)
             m (sb_serviceSamples b)
      else m)"

definition start_row :: "(CapacityInput \<Rightarrow> string) \<Rightarrow> SchedulerSettings \<Rightarrow> DispatchOccupancy list \<Rightarrow> SchedulerOption
    \<Rightarrow> Definition \<Rightarrow> CapacityRow" where
  "start_row keyOf st occupancy x w =
     (let i = NewCapacityInput st occupancy x w in
      \<lparr>cr_key = CapacityInput_Key keyOf i, cr_input = i, cr_status = [], cr_reason = [],
       cr_mu = capacityThroughput (the (si_profile (op_instance x))) (si_maxBatch (op_instance x)),
       cr_kappa = None, cr_grid = [], cr_bisection = [], cr_previous = False\<rparr>)"

definition BuildCapacityRow :: "(f64 \<Rightarrow> int) \<Rightarrow> (CapacityInput \<Rightarrow> string) \<Rightarrow> SchedulerSettings \<Rightarrow> DispatchOccupancy list
    \<Rightarrow> SchedulerOption \<Rightarrow> Definition \<Rightarrow> (f64 \<Rightarrow> int \<Rightarrow> int \<Rightarrow> string + (f64 \<times> bool))
    \<Rightarrow> (CapacityRow \<times> string option) option" where
  "BuildCapacityRow oor keyOf st occupancy x w replay =
     (let row = start_row keyOf st occupancy x w;
          p = the (si_profile (op_instance x));
          fastest = foldl (fastest_allowed (si_maxBatch (op_instance x))) f_inf (pl_batches p)
      in if fastest \<noteq> f_inf \<and> f_less (f_of_int (sl_targetLatency (df_slo w)))
             (f_add fastest (f_mul (st_completionMarginMS st) (f_of_int 1000000)))
         then Some (row\<lparr>cr_status := CapacityBuilt, cr_reason := CapacityServiceExceedsSLO, cr_kappa := Some f_zero\<rparr>, None)
         else build_row oor \<lparr>cb_settings = st, cb_percentile = sl_percentile (df_slo w), cb_replay = replay\<rparr> row)"

end
