(* ===== verification/CapacityTable.thy ===== *)
theory CapacityTable
  imports CapacityRows
begin

text \<open>
  The table of capacity rows (\<open>CapacityTable\<close> of \<open>internal/serving/capacity.go\<close>): what one
  decision wants, what is being built and what is built, as a state machine. \<open>Ensure\<close> runs under the
  lock; the tasks it starts and the load it asks for report later, each under the lock too, so every
  interleaving is a sequence of these operations. A task is the pointer the code compares: a
  serial number. The semaphore and the round-robin order only decide when a task reports.
\<close>

section \<open>State\<close>

record capacityTask =
  tk_id :: nat
  tk_option :: SchedulerOption
  tk_workload :: Definition
  tk_key :: string

text \<open>\<open>tb_next\<close> numbers the tasks, \<open>tb_cancelled\<close> holds the tasks whose cancel was called by Ensure.\<close>

record CapacityTable =
  tb_rows :: "(string \<times> CapacityRow) list"
  tb_running :: "(string \<times> capacityTask) list"
  tb_previous :: "(string \<times> CapacityRow) list"
  tb_asked :: "string list"
  tb_wanted :: "CapacityInput list"
  tb_next :: nat
  tb_cancelled :: "nat list"

definition NewCapacityTable :: CapacityTable where
  "NewCapacityTable = \<lparr>tb_rows = [], tb_running = [], tb_previous = [], tb_asked = [], tb_wanted = [], tb_next = 0,
     tb_cancelled = []\<rparr>"

section \<open>Ensure\<close>

text \<open>The rows a snapshot asks for, in order: autonomous workloads, then variants they can use.\<close>

definition wanted_pairs :: "SchedulerSettings \<Rightarrow> SchedulerSnapshot \<Rightarrow> (Definition \<times> SchedulerOption) list" where
  "wanted_pairs st s =
     concat (map (\<lambda>w. map (Pair w) (filter (\<lambda>x. df_uid w \<in> set (op_compatibleUIDs x))
         (concat (map CapacityVariants (ss_options s)))))
       (filter (\<lambda>w. df_uid w \<in> set (st_autonomousWorkloads st)) (List.map_filter id (ss_workloads s))))"

definition wanted_input :: "SchedulerSettings \<Rightarrow> SchedulerSnapshot \<Rightarrow> Definition \<times> SchedulerOption \<Rightarrow> CapacityInput" where
  "wanted_input st s wx = NewCapacityInput st (ss_dispatchOccupancy s) (snd wx) (fst wx)"

definition start_task :: "(CapacityInput \<Rightarrow> string) \<Rightarrow> SchedulerSettings \<Rightarrow> SchedulerSnapshot \<Rightarrow> CapacityTable
    \<Rightarrow> Definition \<times> SchedulerOption \<Rightarrow> CapacityTable" where
  "start_task keyOf st s t wx =
     (let key = CapacityInput_Key keyOf (wanted_input st s wx) in
      if map_of (tb_rows t) key \<noteq> None \<or> map_of (tb_running t) key \<noteq> None then t
      else t\<lparr>tb_running := put key \<lparr>tk_id = tb_next t, tk_option = snd wx, tk_workload = fst wx, tk_key = key\<rparr> (tb_running t),
        tb_next := Suc (tb_next t)\<rparr>)"

text \<open>What is no longer wanted is cancelled and forgotten.\<close>

definition cancel_unwanted :: "string list \<Rightarrow> CapacityTable \<Rightarrow> CapacityTable" where
  "cancel_unwanted keys t =
     t\<lparr>tb_running := filter (\<lambda>x. fst x \<in> set keys) (tb_running t),
       tb_cancelled := tb_cancelled t @ map (\<lambda>x. tk_id (snd x)) (filter (\<lambda>x. fst x \<notin> set keys) (tb_running t))\<rparr>"

text \<open>The keys of \<open>missing\<close>, which Ensure passes to the load function, and the table that remembers them.\<close>

definition ask_step :: "CapacityTable \<times> string list \<Rightarrow> string \<Rightarrow> CapacityTable \<times> string list" where
  "ask_step acc key =
     (if map_of (tb_running (fst acc)) key \<noteq> None \<and> key \<notin> set (tb_asked (fst acc))
      then ((fst acc)\<lparr>tb_asked := tb_asked (fst acc) @ [key]\<rparr>, snd acc @ [key]) else acc)"

definition Ensure :: "(CapacityInput \<Rightarrow> string) \<Rightarrow> SchedulerSettings \<Rightarrow> SchedulerSnapshot \<Rightarrow> CapacityTable
    \<Rightarrow> CapacityTable \<times> string list" where
  "Ensure keyOf st s t =
     (let pairs = wanted_pairs st s;
          wanted = map (wanted_input st s) pairs;
          keys = map (CapacityInput_Key keyOf) wanted;
          t1 = foldl (start_task keyOf st s) t pairs;
          t2 = cancel_unwanted keys (t1\<lparr>tb_wanted := wanted\<rparr>)
      in foldl ask_step (t2, []) keys)"

section \<open>Reports\<close>

text \<open>
  The end of the load: a failed one reports nothing. Then the end of a task: a task that no longer
  is the running one of its key, or whose context is done, changes no row; an error becomes a
  rejected row, so a row is never tried twice.
\<close>

definition load_done :: "(string \<times> CapacityRow) list option \<Rightarrow> CapacityTable \<Rightarrow> CapacityTable" where
  "load_done rows t =
     (case rows of
        None \<Rightarrow> t
      | Some rs \<Rightarrow> t\<lparr>tb_previous := foldl (\<lambda>m (k, r). put k (r\<lparr>cr_previous := True\<rparr>) m) (tb_previous t) rs\<rparr>)"

definition task_done :: "capacityTask \<Rightarrow> bool \<Rightarrow> CapacityRow \<Rightarrow> string option \<Rightarrow> CapacityTable \<Rightarrow> CapacityTable" where
  "task_done task ctx_done row err t =
     (if map_option tk_id (map_of (tb_running t) (tk_key task)) \<noteq> Some (tk_id task) then t
      else
        (let t1 = t\<lparr>tb_running := drop_key (tk_key task) (tb_running t)\<rparr> in
         if ctx_done then t1
         else t1\<lparr>tb_rows := put (tk_key task)
           (case err of None \<Rightarrow> row
            | Some e \<Rightarrow> row\<lparr>cr_status := CapacityRejected, cr_reason := e, cr_kappa := None\<rparr>) (tb_rows t1)\<rparr>))"

text \<open>A queued task whose context is done before it starts.\<close>

definition task_dropped :: "capacityTask \<Rightarrow> CapacityTable \<Rightarrow> CapacityTable" where
  "task_dropped task t =
     (if map_option tk_id (map_of (tb_running t) (tk_key task)) \<noteq> Some (tk_id task) then t
      else t\<lparr>tb_running := drop_key (tk_key task) (tb_running t)\<rparr>)"

section \<open>Rows\<close>

definition row_of :: "(CapacityInput \<Rightarrow> string) \<Rightarrow> CapacityTable \<Rightarrow> CapacityInput \<Rightarrow> CapacityRow" where
  "row_of keyOf t i =
     (let key = CapacityInput_Key keyOf i;
          row = (case map_of (tb_rows t) key of
              Some r \<Rightarrow> r
            | None \<Rightarrow> (case map_of (tb_previous t) key of
                Some r \<Rightarrow> r
              | None \<Rightarrow> \<lparr>cr_key = key, cr_input = i, cr_status = CapacityPending, cr_reason = [], cr_mu = f_zero,
                  cr_kappa = None, cr_grid = [], cr_bisection = [], cr_previous = False\<rparr>))
      in row\<lparr>cr_input := i\<rparr>)"

definition Rows :: "(CapacityInput \<Rightarrow> string) \<Rightarrow> CapacityTable \<Rightarrow> CapacityRow list" where
  "Rows keyOf t = map (row_of keyOf t) (tb_wanted t)"

end
