(* ===== verification/CapacityRoute.thy ===== *)
theory CapacityRoute
  imports CapacityRows
begin

text \<open>
  The arithmetic of the capacity planner (\<open>internal/serving/scheduler_capacity_evaluate.go\<close> and
  \<open>scheduler_capacity_nodes.go\<close>): the judgment of a workload under sums of capacities, the integer
  weights of its route, and the order of evaluated plan sets.
\<close>

section \<open>Workloads and items\<close>

record capacityWorkload =
  cw_d :: Definition
  cw_rate :: f64
  cw_minRate :: f64
  cw_queued :: nat
  cw_current :: nat
  cw_slack :: f64
  cw_growing :: bool

record capacityItem =
  ct_id :: string
  ct_kappa :: f64
  ct_e :: f64
  ct_weight :: int
  ct_row :: string
  ct_prepare :: bool

text \<open>\<open>cmp.Compare\<close> of floats: NaN is below every number and equal to itself.\<close>

definition f_cmp_less :: "f64 \<Rightarrow> f64 \<Rightarrow> bool" where
  "f_cmp_less a b \<longleftrightarrow> is_nan a \<and> \<not> is_nan b \<or> f_less a b"

definition item_less :: "capacityItem \<Rightarrow> capacityItem \<Rightarrow> bool" where
  "item_less a b \<longleftrightarrow> f_cmp_less (ct_e a) (ct_e b)
     \<or> \<not> f_cmp_less (ct_e b) (ct_e a) \<and> string_lt (ct_id a) (ct_id b)"

section \<open>The judgment of a workload\<close>

record capacityJudgment =
  jd_backlog :: f64
  jd_wait :: "f64 option"
  jd_drain :: "f64 option"
  jd_final :: "f64 option"
  jd_transition :: "f64 option"
  jd_satisfied :: bool

definition capacityJudge :: "capacityWorkload \<Rightarrow> f64 \<Rightarrow> f64 \<Rightarrow> bool \<Rightarrow> f64 \<Rightarrow> capacityJudgment" where
  "capacityJudge w knew kret present r =
     (let backlog = f_add (f_of_int (int (cw_queued w))) (f_mul (f_max f_zero (f_sub (cw_rate w) kret)) r);
          final = (if \<not> present then None
            else if f_less f_zero knew then Some (f_sub (f_div (cw_rate w) knew) f_one)
            else if f_eq (cw_rate w) f_zero then Some f_zero else None);
          wait = (if f_less f_zero knew then Some (f_div backlog knew) else None);
          drain = (if f_less f_zero knew \<and> f_less (cw_rate w) knew
            then Some (f_div backlog (f_sub knew (cw_rate w))) else None);
          transition = (if f_eq backlog f_zero then Some f_zero
            else (case wait of None \<Rightarrow> None
              | Some x \<Rightarrow> if f_less f_zero (cw_slack w) then Some (f_sub (f_div x (cw_slack w)) f_one) else None))
      in \<lparr>jd_backlog = backlog, jd_wait = wait, jd_drain = drain, jd_final = final, jd_transition = transition,
          jd_satisfied = (case (final, transition) of
             (Some x, Some y) \<Rightarrow> f_leq x f_zero \<and> f_leq y f_zero | _ \<Rightarrow> False)\<rparr>)"

text \<open>The loop returns +Inf at the first unbounded judgment.\<close>

definition judgment_worst :: "capacityJudgment \<Rightarrow> f64" where
  "judgment_worst j =
     (case (jd_final j, jd_transition j) of
        (Some x, Some y) \<Rightarrow> f_max (f_max (Inf True) x) y
      | _ \<Rightarrow> f_inf)"

section \<open>Weights\<close>

abbreviation units :: f64 where "units \<equiv> f_of_int schedulerRouteUnits"

text \<open>\<open>1 + 1e-12\<close>, a constant the compiler computes exactly and rounds.\<close>

definition tolerance :: f64 where
  "tolerance = round_f64 False (1000000000001 / 1000000000000)"

definition within_kappa :: "f64 \<Rightarrow> capacityItem \<Rightarrow> bool" where
  "within_kappa y item \<longleftrightarrow> f_leq y (f_mul (ct_kappa item) tolerance)"

definition capacityFixedWeights :: "f64 \<Rightarrow> capacityItem list \<Rightarrow> int list \<times> f64 list \<times> bool" where
  "capacityFixedWeights rate items =
     (let tot = foldl (\<lambda>t x. f_add t (f_of_int (ct_weight x))) f_zero items;
          ys = map (\<lambda>x. if f_less f_zero tot then f_div (f_mul rate (f_of_int (ct_weight x))) tot else f_zero) items
      in (map ct_weight items, ys,
          (items = [] \<or> f_less f_zero tot) \<and> list_all2 within_kappa ys items))"

text \<open>\<open>int32(x)\<close> of a float is the parameter's value where it does not fit.\<close>

definition f_to_int32 :: "(f64 \<Rightarrow> int) \<Rightarrow> f64 \<Rightarrow> int" where
  "f_to_int32 oor x =
     (case x of
        Fin s m \<Rightarrow> (let n = (if s then - \<lfloor>m\<rfloor> else \<lfloor>m\<rfloor>) in if - 2147483648 \<le> n \<and> n \<le> max_int32 then n else oor x)
      | _ \<Rightarrow> oor x)"

definition kappa_sum :: "capacityItem list \<Rightarrow> f64" where
  "kappa_sum items = foldl (\<lambda>t x. f_add t (ct_kappa x)) f_zero items"

definition floor_weight :: "(f64 \<Rightarrow> int) \<Rightarrow> f64 \<Rightarrow> nat \<Rightarrow> capacityItem \<Rightarrow> int" where
  "floor_weight oor tot n item =
     f_to_int32 oor (f_floor (f_mul
       (if f_less f_zero tot then f_div (ct_kappa item) tot else f_div f_one (f_of_int (int n))) units))"

text \<open>
  The index with the smallest next ratio of weight to capacity; the first one on ties. \<open>None\<close> is -1,
  on which the code panics.
\<close>

definition unit_kappa :: "f64 \<Rightarrow> capacityItem \<Rightarrow> f64" where
  "unit_kappa tot item = (if f_eq tot f_zero then f_one else ct_kappa item)"

definition next_ratio :: "f64 \<Rightarrow> int \<Rightarrow> capacityItem \<Rightarrow> f64" where
  "next_ratio tot w item = f_div (f_of_int (wrap32 (w + 1))) (unit_kappa tot item)"

definition ratio_step :: "f64 \<Rightarrow> int list \<Rightarrow> capacityItem list \<Rightarrow> (nat \<times> f64) option \<Rightarrow> nat \<Rightarrow> (nat \<times> f64) option" where
  "ratio_step tot weights items best k =
     (if f_leq (unit_kappa tot (items ! k)) f_zero then best
      else
        (let ratio = next_ratio tot (weights ! k) (items ! k) in
         case best of None \<Rightarrow> Some (k, ratio)
         | Some (j, least) \<Rightarrow> if f_less ratio least then Some (k, ratio) else best))"

definition least_ratio :: "f64 \<Rightarrow> int list \<Rightarrow> capacityItem list \<Rightarrow> (nat \<times> f64) option" where
  "least_ratio tot weights items = foldl (ratio_step tot weights items) None [0..<length items]"

text \<open>Handing out the units that are left, one at a time.\<close>

fun hand_out :: "nat \<Rightarrow> f64 \<Rightarrow> capacityItem list \<Rightarrow> int list \<Rightarrow> int list option" where
  "hand_out 0 tot items weights = Some weights"
| "hand_out (Suc n) tot items weights =
     (case least_ratio tot weights items of
        None \<Rightarrow> None
      | Some (k, _) \<Rightarrow> hand_out n tot items (weights[k := wrap32 (weights ! k + 1)]))"

definition floor_weights :: "(f64 \<Rightarrow> int) \<Rightarrow> capacityItem list \<Rightarrow> int list" where
  "floor_weights oor items = map (floor_weight oor (kappa_sum items) (length items)) items"

definition left_over :: "int list \<Rightarrow> nat" where
  "left_over weights = nat (schedulerRouteUnits - foldl (\<lambda>t w. wrap32 (t + w)) 0 weights)"

definition capacityWeights :: "(f64 \<Rightarrow> int) \<Rightarrow> f64 \<Rightarrow> capacityItem list \<Rightarrow> (int list \<times> f64 list \<times> bool) option" where
  "capacityWeights oor rate items =
     (if items = [] then Some ([], [], True)
      else
        (let weights = floor_weights oor items in
         case hand_out (left_over weights) (kappa_sum items) items weights of
           None \<Rightarrow> None
         | Some ws \<Rightarrow>
             (let ys = map (\<lambda>w. f_div (f_mul rate (f_of_int w)) units) ws
              in Some (ws, ys, list_all2 within_kappa ys items))))"

section \<open>Supply of a route\<close>

text \<open>The capacity behind positive weights, and whether the protected demand fits every one of them.\<close>

definition supply_step :: "f64 \<Rightarrow> f64 \<Rightarrow> int \<Rightarrow> f64 \<times> bool \<Rightarrow> capacityItem \<times> int \<Rightarrow> f64 \<times> bool" where
  "supply_step protected demand tot acc iw =
     (case (acc, iw) of ((kappa, allowed), (item, w)) \<Rightarrow>
        if w \<le> 0 then acc
        else (f_add kappa (ct_kappa item),
          allowed \<and> \<not> (f_less demand protected
            \<and> (tot = 0 \<or> f_less (f_mul (ct_kappa item) tolerance)
                 (f_div (f_mul (f_of_int w) protected) (f_of_int tot))))))"

definition capacityPositiveSupply :: "capacityItem list \<Rightarrow> int list \<Rightarrow> f64 \<Rightarrow> f64 \<Rightarrow> f64 \<times> bool" where
  "capacityPositiveSupply items weights protected demand =
     foldl (supply_step protected demand (foldl (\<lambda>t w. wrap32 (t + w)) 0 weights)) (f_zero, True) (zip items weights)"

text \<open>Protection demand is kept out of the energy of actual requests.\<close>

definition capacityEnergyLoad :: "f64 list \<Rightarrow> f64 \<Rightarrow> f64 \<Rightarrow> f64 list" where
  "capacityEnergyLoad load actual demand =
     (if f_leq demand actual then load else map (\<lambda>y. f_mul y (f_div actual demand)) load)"

end
