(* ===== verification/CapacityPlanner.thy ===== *)
theory CapacityPlanner
  imports CapacityRoute
begin

text \<open>
  The state of the capacity planner (\<open>capacityPlanner\<close> of \<open>internal/serving/scheduler_capacity.go\<close>)
  and its construction: the options of a snapshot, the workloads under control with their demand,
  and the capacity of every option and of every current instance.
\<close>

section \<open>Options\<close>

text \<open>\<open>fmt.Sprint\<close> of the values that make up a key.\<close>

definition sprint_bool :: "bool \<Rightarrow> string" where
  "sprint_bool b = (if b then ''true'' else ''false'')"

definition braces :: "string list \<Rightarrow> string" where
  "braces xs = ''{'' @ join '' '' xs @ ''}''"

definition sprint_ref :: "NodeReference \<Rightarrow> string" where
  "sprint_ref n = braces [nr_name n, nr_uid n]"

definition sprint_allocation :: "SchedulerAllocation \<Rightarrow> string" where
  "sprint_allocation a = braces [al_gpuUUID a, digits (unat (al_memoryBytes a))]"

definition sprint_artifact :: "ArtifactContract \<Rightarrow> string" where
  "sprint_artifact a = braces [at_executionPath a, at_name a, sprint_list (at_files a), at_image a]"

definition sprint_preprocessor :: "PreprocessorContract \<Rightarrow> string" where
  "sprint_preprocessor p = braces [pc_name p, pc_image p, pc_architecture p, pc_path p, Itoa (pc_maxNewTokens p),
     sprint_list (pc_inputs p), sprint_list (pc_outputs p)]"

text \<open>A pointer to a structure prints with an ampersand, a nil one as \<open><nil>\<close>.\<close>

definition sprint_pointer :: "('a \<Rightarrow> string) \<Rightarrow> 'a option \<Rightarrow> string" where
  "sprint_pointer f x = (case x of None \<Rightarrow> ''<nil>'' | Some v \<Rightarrow> ''&'' @ f v)"

definition sprint_dataset :: "DatasetReference \<Rightarrow> string" where
  "sprint_dataset d = braces [ds_name d, ds_uid d]"

definition sprint_firstfloor :: "FirstfloorSettings \<Rightarrow> string" where
  "sprint_firstfloor f = braces [Itoa (fs_maxBatchSize f), Itoa (fs_maxQueueSize f), fs_deadlinePolicy f]"

definition sprint_access :: "RuntimeAccess \<Rightarrow> string" where
  "sprint_access a = braces [sprint_bool (ra_privileged a), sprint_list (map Itoa (ra_supplementalGroups a)),
     ''map'' @ sprint_list (map (\<lambda>(k, v). k @ '':'' @ v) (sort_by (\<lambda>x y. string_lt (fst x) (fst y)) (ra_resources a))),
     ra_gpuUUID a]"

text \<open>
  \<open>fmt.Sprint\<close> puts a space between operands when neither is a string. An option of
  \<open>CapacityVariants\<close> has a profile; one without has the empty condition.
\<close>

definition schedulerOptionCondition :: "SchedulerOption \<Rightarrow> string" where
  "schedulerOptionCondition x =
     (let i = op_instance x in
      case si_profile i of
        None \<Rightarrow> []
      | Some p \<Rightarrow>
          (let c = pl_condition p in
           sprint_ref (si_node i) @ '' '' @ sprint_artifact (cd_artifact c) @ cd_runtimeFamily c @ cd_backend c
           @ sprint_preprocessor (cd_preprocessor c) @ '' '' @ sprint_pointer sprint_dataset (cd_dataset c)
           @ cd_powerMode c @ sprint_pointer sprint_firstfloor (cd_firstfloor c) @ '' ''
           @ sprint_pointer sprint_access (cd_runtimeAccess c) @ '' '' @ sprint_list (map Itoa (cd_plannedBatchSizes c))
           @ '' '' @ sprint_allocation (si_allocation i) @ '' '' @ Itoa (si_maxBatch i) @ '' ''
           @ Duration_String (si_maxWait i)))"

definition schedulerOptionKey :: "SchedulerOption \<Rightarrow> string" where
  "schedulerOptionKey x =
     (let i = op_instance x in
      nr_uid (si_node i) @ ''/'' @ schedulerState i @ Itoa (si_maxBatch i) @ '' '' @ Duration_String (si_maxWait i)
      @ '' '' @ sprint_list (op_compatibleUIDs x))"

definition schedulerOptionLess :: "SchedulerOption \<Rightarrow> SchedulerOption \<Rightarrow> bool" where
  "schedulerOptionLess a b \<longleftrightarrow> string_lt (schedulerOptionKey a) (schedulerOptionKey b)
     \<or> schedulerOptionKey a = schedulerOptionKey b \<and> string_lt (schedulerOptionCondition a) (schedulerOptionCondition b)"

text \<open>The latest profile of each condition, with the workloads of all of them; \<open>latest\<close> is the map of the code.\<close>

fun latest_step :: "(string \<times> SchedulerOption) list \<Rightarrow> SchedulerOption \<Rightarrow> (string \<times> SchedulerOption) list" where
  "latest_step [] x = [(schedulerOptionCondition x,
     x\<lparr>op_compatibleUIDs := sort_by string_lt (appendUnique [] (op_compatibleUIDs x))\<rparr>)]"
| "latest_step ((k, prev) # rest) x =
     (if k \<noteq> schedulerOptionCondition x then (k, prev) # latest_step rest x
      else
        (let uids = sort_by string_lt (appendUnique (op_compatibleUIDs prev) (op_compatibleUIDs x));
             measured = (\<lambda>y. case si_profile (op_instance y) of None \<Rightarrow> 0 | Some p \<Rightarrow> pl_measuredAt p)
         in (k, if measured prev < measured x then x\<lparr>op_compatibleUIDs := uids\<rparr>
                else prev\<lparr>op_compatibleUIDs := uids\<rparr>) # rest))"

definition schedulerMeasuredOptions :: "SchedulerSnapshot \<Rightarrow> SchedulerOption list" where
  "schedulerMeasuredOptions s =
     (let options = sort_by schedulerOptionLess (concat (map CapacityVariants (ss_options s)));
          measured = filter (\<lambda>x. si_profile (op_instance x) \<noteq> None) options
      in sort_by schedulerOptionLess (map snd (foldl latest_step [] measured)))"

section \<open>Plans of a node\<close>

text \<open>A source of uncertainty: the evidence, and the trial (-1 for a baseline).\<close>

type_synonym bound_source = "ObjectIdentity \<times> int"
type_synonym schedulerEnergyBounds = "(bound_source \<times> f64) list"

record schedulerBaselineBound =
  bb_reference :: ObjectIdentity
  bb_watts :: f64

record SchedulerActionCost =
  ak_action :: string
  ak_kind :: string
  ak_provenance :: "OperationCostProvenance option"

record SchedulerNodePlan =
  np_node :: NodeReference
  np_key :: string
  np_eligible :: bool
  np_reason :: string
  np_preparationFailure :: "PreparationFailure option"
  np_requiresBridge :: "string list"
  np_requiresRecovery :: "string list"
  np_tempo :: string
  np_kappa :: "(string \<times> f64) list"
  np_kappaRetained :: "(string \<times> f64) list"
  np_pre :: duration
  np_post :: duration
  np_joules :: f64
  np_energyUncertaintyJoules :: f64
  np_actionCosts :: "SchedulerActionCost list"
  np_idleCosts :: "(string \<times> IdlePowerProvenance) list"

record capacityPlan =
  pa_record :: SchedulerNodePlan
  pa_mode :: string
  pa_keep :: bool
  pa_instances :: "SchedulerInstance list"
  pa_items :: "capacityItem list list"
  pa_retained :: "capacityItem list list"
  pa_others :: nat
  pa_pendingReplicas :: "nat list"
  pa_preMean :: f64
  pa_preMax :: f64
  pa_postMean :: f64
  pa_postMax :: f64
  pa_preJ :: f64
  pa_postJ :: f64
  pa_before :: f64
  pa_mid :: f64
  pa_after :: f64
  pa_operationBounds :: schedulerEnergyBounds
  pa_beforeBound :: schedulerBaselineBound
  pa_midBound :: schedulerBaselineBound
  pa_afterBound :: schedulerBaselineBound
  pa_replaces :: bool
  pa_retires :: bool

definition no_bound :: schedulerBaselineBound where
  "no_bound = \<lparr>bb_reference = \<lparr>oi_store = [], oi_key = [], oi_size = 0\<rparr>, bb_watts = f_zero\<rparr>"

definition new_node_plan :: "NodeReference \<Rightarrow> SchedulerNodePlan" where
  "new_node_plan node = \<lparr>np_node = node, np_key = [], np_eligible = False, np_reason = [], np_preparationFailure = None,
     np_requiresBridge = [], np_requiresRecovery = [], np_tempo = [], np_kappa = [], np_kappaRetained = [], np_pre = 0,
     np_post = 0, np_joules = f_zero, np_energyUncertaintyJoules = f_zero, np_actionCosts = [], np_idleCosts = []\<rparr>"

definition new_capacity_plan :: "SchedulerNodePlan \<Rightarrow> string \<Rightarrow> capacityPlan" where
  "new_capacity_plan rc mode = \<lparr>pa_record = rc, pa_mode = mode, pa_keep = False, pa_instances = [], pa_items = [],
     pa_retained = [], pa_others = 0, pa_pendingReplicas = [], pa_preMean = f_zero, pa_preMax = f_zero,
     pa_postMean = f_zero, pa_postMax = f_zero, pa_preJ = f_zero, pa_postJ = f_zero, pa_before = f_zero,
     pa_mid = f_zero, pa_after = f_zero, pa_operationBounds = [], pa_beforeBound = no_bound, pa_midBound = no_bound,
     pa_afterBound = no_bound, pa_replaces = False, pa_retires = False\<rparr>"

record capacityChoice =
  cc_option :: SchedulerOption
  cc_w :: nat
  cc_kappa :: f64
  cc_row :: string
  cc_reason :: string

section \<open>The planner\<close>

record SchedulerTransitionReserve =
  tr_uid :: string
  tr_fraction :: f64
  tr_demand :: f64
  tr_required :: f64
  tr_beforeRoute :: f64
  tr_afterRoute :: f64
  tr_allowed :: bool
  tr_reason :: string
  tr_candidateKey :: string

record SchedulerPlanSearchStep =
  pt_start :: string
  pt_k :: nat
  pt_changedNodes :: "NodeReference list"
  pt_joules :: f64
  pt_feasible :: bool
  pt_final :: bool
  pt_keepJoules :: f64
  pt_evaluated :: nat
  pt_budgetCut :: bool

text \<open>The wall-clock boundaries of a search are left out.\<close>

record SchedulerPlanSearch =
  ps_neighborhood :: nat
  ps_evaluated :: nat
  ps_budgetCut :: bool
  ps_excluded :: "(string \<times> nat) list"
  ps_reserveRejections :: "(string \<times> SchedulerTransitionReserve) list"
  ps_steps :: "SchedulerPlanSearchStep list"
  ps_trailingEvaluated :: nat
  ps_terminationReason :: string

text \<open>
  The instance fields that decide its capacity. The code compares the pointer to the profile; the
  catalog hands out one pointer per profile.
\<close>

type_synonym capacityInstanceKey = "Profile option \<times> NodeReference \<times> string \<times> int \<times> bool"

definition currentCapacityKey :: "SchedulerInstance \<Rightarrow> capacityInstanceKey" where
  "currentCapacityKey i = (si_profile i, si_node i, si_workloadUID i, si_maxBatch i, si_terminated i)"

text \<open>
  The first three fields are parameters: the conversion of a float outside its integer type, the
  hash of a capacity input, and the hash that names a plan.
\<close>

record capacityPlanner =
  cp_oor :: "f64 \<Rightarrow> int"
  cp_keyOf :: "CapacityInput \<Rightarrow> string"
  cp_digest :: "string \<Rightarrow> string"
  cp_settings :: SchedulerSettings
  cp_snapshot :: SchedulerSnapshot
  cp_keep :: SchedulerCandidate
  cp_rows :: "(string \<times> CapacityRow) list"
  cp_options :: "SchedulerOption list"
  cp_pending :: "SchedulerInstance list"
  cp_ws :: "capacityWorkload list"
  cp_index :: "(string \<times> nat) list"
  cp_plans :: "capacityPlan list list"
  cp_compared :: "bool list"
  cp_period :: f64
  cp_keepWatts :: f64
  cp_keepFeasible :: bool
  cp_examined :: nat
  cp_searched :: SchedulerPlanSearch
  cp_variants :: "(string \<times> SchedulerOption) list"
  cp_optionCapacity :: "capacityChoice list list"
  cp_currentCapacity :: "(capacityInstanceKey \<times> capacityItem) list"
  cp_partial :: bool

definition index_of :: "capacityPlanner \<Rightarrow> string \<Rightarrow> nat option" where
  "index_of p uid = map_of (cp_index p) uid"

definition workload_uid :: "capacityPlanner \<Rightarrow> nat \<Rightarrow> string" where
  "workload_uid p w = df_uid (cw_d (cp_ws p ! w))"

text \<open>A missing entry of a map of floats reads as 0.\<close>

definition lookup_f :: "(string \<times> f64) list \<Rightarrow> string \<Rightarrow> f64" where
  "lookup_f m k = (case map_of m k of None \<Rightarrow> f_zero | Some v \<Rightarrow> v)"

definition lookup_route :: "routing \<Rightarrow> string \<Rightarrow> route" where
  "lookup_route m uid = (case map_of m uid of None \<Rightarrow> [] | Some r \<Rightarrow> r)"

section \<open>Demand\<close>

text \<open>The least rate of the control intervals that tile the observed window.\<close>

definition bucket_of :: "instant \<Rightarrow> duration \<Rightarrow> int \<Rightarrow> SchedulerArrival \<Rightarrow> nat" where
  "bucket_of start width buckets a = nat (min (buckets - 1) (time_sub (av_at a) start div width))"

definition counted_arrival :: "instant \<Rightarrow> instant \<Rightarrow> string \<Rightarrow> SchedulerArrival \<Rightarrow> bool" where
  "counted_arrival start stop uid a \<longleftrightarrow>
     (case av_definition a of None \<Rightarrow> False
      | Some d \<Rightarrow> (av_compute a \<or> av_accepted a) \<and> df_uid d = uid \<and> \<not> av_at a < start \<and> av_at a < stop)"

definition capacityMinimumRate :: "SchedulerSettings \<Rightarrow> SchedulerSearch \<Rightarrow> SchedulerArrival list \<Rightarrow> string \<Rightarrow> f64" where
  "capacityMinimumRate st se arrivals uid =
     (let covered = time_sub (se_windowEnd se) (se_windowStart se);
          buckets = max 1 (covered div st_controlInterval st);
          width = covered div buckets;
          start = se_windowEnd se - buckets * width;
          counts = foldl (\<lambda>c a. let k = bucket_of start width buckets a in c[k := c ! k + 1])
            (replicate (nat buckets) 0) (filter (counted_arrival start (se_windowEnd se) uid) arrivals)
      in f_div (f_of_int (foldl min (hd counts) counts)) (Duration_Seconds width))"

definition queued_request :: "string \<Rightarrow> SchedulerRequest \<Rightarrow> bool" where
  "queued_request uid r \<longleftrightarrow>
     (case sr_definition r of None \<Rightarrow> False | Some d \<Rightarrow> df_uid d = uid)
     \<and> sr_phase r \<in> {phasePending, phaseAssigned, phaseQueued, phaseDeferred}
     \<and> (case sr_remainingLifetime r of None \<Rightarrow> True | Some l \<Rightarrow> 0 < l)"

definition rate_step :: "string \<Rightarrow> f64 \<times> bool \<Rightarrow> SchedulerLoad \<Rightarrow> f64 \<times> bool" where
  "rate_step uid acc l =
     (if ld_uid l = uid
      then (f_max (ld_inputsPerSecond l) (ld_recentInputsPerSecond l), f_less (ld_inputsPerSecond l) (ld_recentInputsPerSecond l))
      else acc)"

text \<open>One controlled workload; the state names a workload of the snapshot, the last one with its UID.\<close>

definition capacity_workload :: "SchedulerSettings \<Rightarrow> SchedulerSnapshot \<Rightarrow> SchedulerSearch \<Rightarrow> string \<Rightarrow> capacityWorkload" where
  "capacity_workload st s se uid =
     (let d = the (find (\<lambda>d. df_uid d = uid) (rev (List.map_filter id (ss_workloads s))));
          (rate, growing) = foldl (rate_step uid) (f_zero, False) (se_loads se);
          queued = length (filter (queued_request uid) (ss_outstanding s));
          covered = time_sub (se_windowEnd se) (se_windowStart se);
          least = lookup_f (st_minimumDemand st) uid;
          rate1 = (if 0 < covered then f_add rate (f_div (f_of_int (int queued)) (Duration_Seconds covered)) else rate)
      in \<lparr>cw_d = d, cw_rate = f_max rate1 least,
          cw_minRate = f_max (capacityMinimumRate st se (ss_arrivals s) uid) least, cw_queued = queued,
          cw_current = length (filter (\<lambda>i. si_workloadUID i = uid \<or> si_ownerWorkloadUID i = uid) (ss_instances s)),
          cw_slack = f_sub (Duration_Seconds (sl_targetLatency (df_slo d)))
            (f_div (st_completionMarginMS st) (f_of_int 1000)),
          cw_growing = growing\<rparr>)"

text \<open>Targets of reservations that do not exist yet.\<close>

definition created :: "SchedulerSnapshot \<Rightarrow> NodeReference \<Rightarrow> SchedulerInstance \<Rightarrow> bool" where
  "created s node wanted \<longleftrightarrow> list_ex (\<lambda>actual. si_node actual = node
     \<and> (si_id actual = si_id wanted \<or> si_targetID actual \<noteq> [] \<and> si_targetID actual = si_id wanted
        \<or> si_podUID wanted \<noteq> [] \<and> si_podUID actual = si_podUID wanted)) (ss_instances s)"

definition schedulerUncreatedReservations :: "SchedulerSnapshot \<Rightarrow> NodeReference \<Rightarrow> SchedulerInstance list" where
  "schedulerUncreatedReservations s node =
     foldl (\<lambda>pending wanted.
         if si_node wanted \<noteq> node \<or> si_id wanted \<in> si_id ` set pending \<or> created s node wanted then pending
         else pending @ [wanted]) []
       (concat (map (\<lambda>r. case rv_target r of None \<Rightarrow> [] | Some c \<Rightarrow> if node \<in> set (rv_nodes r) then sc_instances c else [])
         (ss_reservations s)))"

section \<open>Capacities\<close>

text \<open>Capacity, row and reason of an option for the workload with index \<open>w\<close>.\<close>

definition planner_kappa :: "capacityPlanner \<Rightarrow> SchedulerOption \<Rightarrow> nat \<Rightarrow> f64 \<times> string \<times> string" where
  "planner_kappa p x w =
     (let key = CapacityInput_Key (cp_keyOf p)
            (NewCapacityInput (cp_settings p) (ss_dispatchOccupancy (cp_snapshot p)) x (cw_d (cp_ws p ! w))) in
      case map_of (cp_rows p) key of
        None \<Rightarrow> (f_zero, key, CapacityPending)
      | Some row \<Rightarrow>
          if cr_status row = CapacityPending then (f_zero, key, CapacityPending)
          else (case cr_kappa row of None \<Rightarrow> (f_zero, key, CapacityRejected) | Some k \<Rightarrow> (k, key, [])))"

definition same_cell :: "capacityPlanner \<Rightarrow> SchedulerInstance \<Rightarrow> SchedulerOption \<Rightarrow> bool" where
  "same_cell p i x \<longleftrightarrow>
     (let j = op_instance x in
      case si_profile j of
        None \<Rightarrow> False
      | Some q \<Rightarrow> nr_uid (si_node j) = nr_uid (si_node i) \<and> si_maxBatch j = si_maxBatch i
          \<and> cd_powerMode (pl_condition q) = schedulerNodeMode (ss_nodes (cp_snapshot p)) (si_node i)
          \<and> MeasurementProfileIdentity (Some q) = MeasurementProfileIdentity (si_profile i))"

definition variant_key :: "Profile \<Rightarrow> int \<Rightarrow> string" where
  "variant_key q batch = pl_id q @ ''/'' @ Itoa batch"

definition resolveCurrentKappa :: "capacityPlanner \<Rightarrow> SchedulerInstance \<Rightarrow> f64 \<times> string" where
  "resolveCurrentKappa p i =
     (case (index_of p (si_workloadUID i), si_profile i) of
        (Some w, Some q) \<Rightarrow>
          if si_terminated i then (f_zero, [])
          else (case (case map_of (cp_variants p) (variant_key q (si_maxBatch i)) of
                  Some v \<Rightarrow> Some v | None \<Rightarrow> find (same_cell p i) (cp_options p)) of
              None \<Rightarrow> (f_zero, [])
            | Some v \<Rightarrow> (case planner_kappa p v w of (k, row, _) \<Rightarrow> (k, row)))
      | _ \<Rightarrow> (f_zero, []))"

definition kappa_item :: "f64 \<times> string \<Rightarrow> capacityItem" where
  "kappa_item kr = \<lparr>ct_id = [], ct_kappa = fst kr, ct_e = f_zero, ct_weight = 0, ct_row = snd kr, ct_prepare = False\<rparr>"

definition resolve_instance :: "capacityPlanner \<Rightarrow> SchedulerInstance \<Rightarrow> capacityPlanner" where
  "resolve_instance p i =
     (let key = currentCapacityKey i in
      if map_of (cp_currentCapacity p) key \<noteq> None then p
      else p\<lparr>cp_currentCapacity := (key, kappa_item (resolveCurrentKappa p i)) # cp_currentCapacity p\<rparr>)"

definition option_choice :: "capacityPlanner \<Rightarrow> SchedulerOption \<Rightarrow> nat \<Rightarrow> capacityChoice" where
  "option_choice p x w =
     (case planner_kappa p x w of (k, row, reason) \<Rightarrow>
        \<lparr>cc_option = x, cc_w = w, cc_kappa = k, cc_row = row, cc_reason = reason\<rparr>)"

definition resolveCapacity :: "capacityPlanner \<Rightarrow> capacityPlanner" where
  "resolveCapacity p =
     (let p1 = p\<lparr>cp_optionCapacity := map (\<lambda>x. map (option_choice p x) [0..<length (cp_ws p)]) (cp_options p),
            cp_currentCapacity := []\<rparr>;
          p2 = foldl resolve_instance p1
            (concat (map (\<lambda>x. map (\<lambda>w. (op_instance x)\<lparr>si_workloadUID := df_uid (cw_d w)\<rparr>) (cp_ws p)) (cp_options p)))
      in foldl resolve_instance p2 (ss_instances (cp_snapshot p)))"

definition currentKappa :: "capacityPlanner \<Rightarrow> SchedulerInstance \<Rightarrow> f64 \<times> string" where
  "currentKappa p i =
     (case map_of (cp_currentCapacity p) (currentCapacityKey i) of
        None \<Rightarrow> (f_zero, []) | Some item \<Rightarrow> (ct_kappa item, ct_row item))"

section \<open>Construction\<close>

definition no_search :: SchedulerPlanSearch where
  "no_search = \<lparr>ps_neighborhood = 0, ps_evaluated = 0, ps_budgetCut = False, ps_excluded = [], ps_reserveRejections = [],
     ps_steps = [], ps_trailingEvaluated = 0, ps_terminationReason = []\<rparr>"

text \<open>The first variant of a profile and batch limit.\<close>

definition add_variant :: "(string \<times> SchedulerOption) list \<Rightarrow> SchedulerOption \<Rightarrow> (string \<times> SchedulerOption) list" where
  "add_variant m v =
     (case si_profile (op_instance v) of
        None \<Rightarrow> m
      | Some q \<Rightarrow> (let key = variant_key q (si_maxBatch (op_instance v)) in
          if map_of m key \<noteq> None then m else m @ [(key, v)]))"

definition count_pending :: "capacityPlanner \<Rightarrow> SchedulerInstance \<Rightarrow> capacityPlanner" where
  "count_pending p i =
     (let p1 = p\<lparr>cp_pending := cp_pending p @ [i]\<rparr> in
      case index_of p (si_workloadUID i) of
        None \<Rightarrow> p1
      | Some w \<Rightarrow> p1\<lparr>cp_ws := (cp_ws p)[w := (cp_ws p ! w)\<lparr>cw_current := Suc (cw_current (cp_ws p ! w))\<rparr>]\<rparr>)"

definition newCapacityPlanner :: "(f64 \<Rightarrow> int) \<Rightarrow> (CapacityInput \<Rightarrow> string) \<Rightarrow> (string \<Rightarrow> string) \<Rightarrow> SchedulerSettings
    \<Rightarrow> SchedulerSnapshot \<Rightarrow> SchedulerCandidate \<Rightarrow> CapacityRow list \<Rightarrow> SchedulerWorkloadState list \<Rightarrow> SchedulerSearch
    \<Rightarrow> capacityPlanner" where
  "newCapacityPlanner oor keyOf digest st s keep rows states se =
     (let uids = map ws_uid (filter (\<lambda>x. ws_state x = ''Controlled'') states);
          p0 = \<lparr>cp_oor = oor, cp_keyOf = keyOf, cp_digest = digest, cp_settings = st, cp_snapshot = s, cp_keep = keep,
            cp_rows = rev (map (\<lambda>r. (cr_key r, r)) rows), cp_options = schedulerMeasuredOptions s, cp_pending = [],
            cp_ws = map (capacity_workload st s se) uids,
            cp_index = rev (map (\<lambda>k. (uids ! k, k)) [0..<length uids]), cp_plans = [], cp_compared = [],
            cp_period = f_zero, cp_keepWatts = f_zero, cp_keepFeasible = False, cp_examined = 0, cp_searched = no_search,
            cp_variants = foldl add_variant [] (concat (map CapacityVariants (ss_options s))), cp_optionCapacity = [],
            cp_currentCapacity = [], cp_partial = False\<rparr>
      in resolveCapacity (foldl count_pending p0
           (concat (map (\<lambda>n. schedulerUncreatedReservations s (sn_node n)) (ss_nodes s)))))"

end
