(* ===== verification/CapacityNodes.thy ===== *)
theory CapacityNodes
  imports CapacityPlanner
begin

text \<open>
  The plans of a node (\<open>internal/serving/scheduler_capacity_nodes.go\<close>, with the action chain and
  the energy bounds of \<open>scheduler_capacity_cost.go\<close>): keep, empty, or one option for one workload,
  each with the instances it leaves, what they serve, what its actions cost, and why it may not
  be chosen.
\<close>

abbreviation NodePlacementInventoryMissing :: string where "NodePlacementInventoryMissing \<equiv> ''PlacementInventoryMissing''"
abbreviation NodePlacementBudgetUnavailable :: string where "NodePlacementBudgetUnavailable \<equiv> ''PlacementBudgetUnavailable''"
abbreviation schedulerActionCancel :: string where "schedulerActionCancel \<equiv> ''cancel''"
abbreviation schedulerPlanFixedWorkload :: string where "schedulerPlanFixedWorkload \<equiv> ''FixedWorkload''"
abbreviation schedulerPlanInfeasibleResources :: string where "schedulerPlanInfeasibleResources \<equiv> ''InfeasibleResources''"
abbreviation schedulerPlanPreparationFailed :: string where "schedulerPlanPreparationFailed \<equiv> ''PreparationFailed''"
abbreviation schedulerPlanHeld :: string where "schedulerPlanHeld \<equiv> ''HeldAfterOverload''"
abbreviation schedulerPartialObservation :: string where "schedulerPartialObservation \<equiv> ''PartialObservationWindow''"
abbreviation schedulerTempoFast :: string where "schedulerTempoFast \<equiv> ''fast''"
abbreviation schedulerTempoSlow :: string where "schedulerTempoSlow \<equiv> ''slow''"

section \<open>Items of a plan\<close>

definition capacityInputEnergy :: "SchedulerInstance \<Rightarrow> f64" where
  "capacityInputEnergy i =
     (case si_profile i of
        None \<Rightarrow> f_zero
      | Some p \<Rightarrow> (case find (\<lambda>b. sb_batch b = 1) (pl_batches p) of None \<Rightarrow> f_zero | Some b \<Rightarrow> sb_energyPerInputJoules b))"

definition bump :: "nat \<Rightarrow> nat list \<Rightarrow> nat list" where
  "bump w xs = xs[w := Suc (xs ! w)]"

definition append_at :: "nat \<Rightarrow> 'a \<Rightarrow> 'a list list \<Rightarrow> 'a list list" where
  "append_at w x xss = xss[w := xss ! w @ [x]]"

text \<open>The item of an instance: its weight is the one of the route, an option's for a new instance.\<close>

definition plan_item :: "capacityPlanner \<Rightarrow> bool \<Rightarrow> (string \<times> capacityItem) list \<Rightarrow> SchedulerInstance \<Rightarrow> capacityItem" where
  "plan_item p keep chosen i =
     (let item = (case map_of chosen (si_id i) of None \<Rightarrow> kappa_item (f_zero, []) | Some x \<Rightarrow> x);
          existing = list_ex (\<lambda>c. si_id c = si_id i) (ss_instances (cp_snapshot p));
          routed = map_of (lookup_route (sc_routing (cp_keep p)) (si_workloadUID i)) (si_id i);
          weight = (case routed of Some w \<Rightarrow> w | None \<Rightarrow> if existing then 0 else si_weight i);
          item1 = item\<lparr>ct_id := si_id i, ct_e := capacityInputEnergy i, ct_weight := weight, ct_prepare := \<not> existing\<rparr>
      in if keep \<and> si_ready i
         then (case currentKappa p i of (k, row) \<Rightarrow> item1\<lparr>ct_kappa := k, ct_row := row\<rparr>)
         else item1)"

definition annotate_step :: "capacityPlanner \<Rightarrow> (string \<times> capacityItem) list \<Rightarrow> capacityPlan \<Rightarrow> SchedulerInstance \<Rightarrow> capacityPlan" where
  "annotate_step p chosen plan i =
     (let w = index_of p (si_workloadUID i);
          plan1 = (case index_of p (si_ownerWorkloadUID i) of
              None \<Rightarrow> plan
            | Some owner \<Rightarrow> if w = Some owner then plan
                else plan\<lparr>pa_pendingReplicas := bump owner (pa_pendingReplicas plan)\<rparr>)
      in case w of
           None \<Rightarrow> plan1\<lparr>pa_others := Suc (pa_others plan1)\<rparr>
         | Some k \<Rightarrow>
             if si_terminated i \<or> pa_keep plan \<and> (\<not> si_ready i \<or> si_stopped i)
             then plan1\<lparr>pa_others := Suc (pa_others plan1), pa_pendingReplicas := bump k (pa_pendingReplicas plan1)\<rparr>
             else
               (let item = plan_item p (pa_keep plan) chosen i;
                    plan2 = (if pa_keep plan \<and> 0 < ct_weight item \<and> si_ready i
                      then plan1\<lparr>pa_retained := append_at k item (pa_retained plan1)\<rparr> else plan1)
                in plan2\<lparr>pa_items := append_at k item (pa_items plan2)\<rparr>))"

definition annotate :: "capacityPlanner \<Rightarrow> (string \<times> capacityItem) list \<Rightarrow> capacityPlan \<Rightarrow> capacityPlan" where
  "annotate p chosen plan =
     (let k = length (cp_ws p);
          plan1 = foldl (annotate_step p chosen)
            (plan\<lparr>pa_items := replicate k [], pa_retained := replicate k [], pa_pendingReplicas := replicate k 0\<rparr>)
            (pa_instances plan)
      in plan1\<lparr>pa_items := map (sort_by item_less) (pa_items plan1)\<rparr>)"

definition workload_sums :: "capacityPlanner \<Rightarrow> capacityItem list list \<Rightarrow> (string \<times> f64) list" where
  "workload_sums p items = map (\<lambda>w. (workload_uid p w, kappa_sum (items ! w))) [0..<length (cp_ws p)]"

text \<open>Assigned in order, so the last workload of a UID wins.\<close>

definition sum_plan :: "capacityPlanner \<Rightarrow> capacityPlan \<Rightarrow> capacityPlan" where
  "sum_plan p plan = plan\<lparr>pa_record := (pa_record plan)\<lparr>np_kappa := rev (workload_sums p (pa_items plan)),
     np_kappaRetained := rev (workload_sums p (pa_retained plan))\<rparr>\<rparr>"

section \<open>Energy bounds\<close>

fun add_bound :: "bound_source \<Rightarrow> f64 \<Rightarrow> schedulerEnergyBounds \<Rightarrow> schedulerEnergyBounds" where
  "add_bound src x [] = [(src, f_add f_zero x)]"
| "add_bound src x ((k, v) # rest) = (if k = src then (k, f_add v x) # rest else (k, v) # add_bound src x rest)"

definition halfWidth :: "schedulerEnergyBounds \<Rightarrow> f64" where
  "halfWidth bounds = foldl (\<lambda>t kv. f_add t (f_abs (snd kv))) f_zero bounds"

definition schedulerBaselineUncertainty :: "NodeBaseline list \<Rightarrow> IdlePowerProvenance \<Rightarrow> nat \<Rightarrow> schedulerBaselineBound" where
  "schedulerBaselineUncertainty baselines prov instances =
     (case iv_references prov of
        [] \<Rightarrow> no_bound
      | r # _ \<Rightarrow>
          (case find (\<lambda>b. nb_id b = r) baselines of
             None \<Rightarrow> no_bound
           | Some b \<Rightarrow>
               (let coefficient = (if iv_reconstructed prov then f_sub f_one (f_of_int (int instances)) else f_one)
                in \<lparr>bb_reference = nb_reference b, bb_watts = f_mul coefficient (nb_wattsUncertainty b)\<rparr>)))"

definition add_baseline :: "f64 \<Rightarrow> schedulerBaselineBound \<Rightarrow> f64 \<Rightarrow> schedulerEnergyBounds \<Rightarrow> schedulerEnergyBounds" where
  "add_baseline sign b seconds bounds =
     (if f_eq (bb_watts b) f_zero then bounds
      else add_bound (bb_reference b, - 1) (f_mul (f_mul sign seconds) (bb_watts b)) bounds)"

text \<open>Go's built-in \<open>max\<close> and \<open>min\<close> with a constant zero.\<close>

definition addBounds :: "capacityPlan \<Rightarrow> f64 \<Rightarrow> f64 \<Rightarrow> f64 \<Rightarrow> schedulerEnergyBounds \<Rightarrow> schedulerEnergyBounds" where
  "addBounds plan r t sign bounds =
     (if pa_keep plan then add_baseline sign (pa_beforeBound plan) t bounds
      else
        (let b1 = foldl (\<lambda>m kv. add_bound (fst kv) (f_mul sign (snd kv)) m) bounds (pa_operationBounds plan);
             b2 = add_baseline sign (pa_midBound plan) (f_max f_zero (f_sub (f_bmin r t) (pa_preMean plan))) b1
         in add_baseline sign (pa_afterBound plan) (f_max f_zero (f_sub (f_sub t r) (pa_postMean plan))) b2))"

definition plan_energy :: "capacityPlan \<Rightarrow> f64 \<Rightarrow> f64 \<Rightarrow> f64" where
  "plan_energy plan r t =
     (if pa_keep plan then f_mul (pa_before plan) t
      else f_add (f_add (f_add (pa_preJ plan) (f_mul (pa_mid plan) (f_max f_zero (f_sub (f_bmin r t) (pa_preMean plan)))))
        (pa_postJ plan)) (f_mul (pa_after plan) (f_max f_zero (f_sub (f_sub t r) (pa_postMean plan)))))"

section \<open>The chain of a plan\<close>

text \<open>
  The IDs that an action waits for, directly or not: a depth-first search that marks each ID when
  it first meets it, so its depth is bounded by the number of IDs that are waited for.
\<close>

fun visit :: "nat \<Rightarrow> (string \<Rightarrow> string list) \<Rightarrow> string list \<Rightarrow> string \<Rightarrow> string list" where
  "visit 0 deps before idn = before"
| "visit (Suc fuel) deps before idn =
     foldl (\<lambda>b d. if d \<in> set b then b else visit fuel deps (d # b) d) before (deps idn)"

definition depends_on :: "Action list \<Rightarrow> string \<Rightarrow> string list" where
  "depends_on actions idn = (case find (\<lambda>a. ac_id a = idn) (rev actions) of None \<Rightarrow> [] | Some a \<Rightarrow> ac_dependsOn a)"

definition waited_for :: "Action list \<Rightarrow> string list" where
  "waited_for actions = concat (map ac_dependsOn actions)"

definition route_id :: "Action list \<Rightarrow> string" where
  "route_id actions =
     (case find (\<lambda>a. ac_kind a = schedulerActionRoute) (rev actions) of None \<Rightarrow> [] | Some a \<Rightarrow> ac_id a)"

definition before_route :: "Action list \<Rightarrow> string list" where
  "before_route actions = visit (Suc (length (waited_for actions))) (depends_on actions) [] (route_id actions)"

definition chain_candidate :: "capacityPlanner \<Rightarrow> nat \<Rightarrow> capacityPlan \<Rightarrow> SchedulerCandidate" where
  "chain_candidate p n plan =
     (let node = sn_node (ss_nodes (cp_snapshot p) ! n); nodes = sc_nodes (cp_keep p) in
      \<lparr>sc_id = [], sc_keep = False, sc_nodes = nodes[n := (nodes ! n)\<lparr>sn_powerMode := pa_mode plan\<rparr>],
       sc_instances = filter (\<lambda>i. si_node i \<noteq> node) (ss_instances (cp_snapshot p)) @ pa_instances plan,
       sc_routing = sc_routing (cp_keep p), sc_actions = [], sc_status = [], sc_reasons = []\<rparr>)"

text \<open>The energy uncertainty of each measured trial, shared over the trials of its cost.\<close>

definition trial_bounds :: "OperationCost \<Rightarrow> schedulerEnergyBounds \<Rightarrow> schedulerEnergyBounds" where
  "trial_bounds cost bounds =
     foldl (\<lambda>m k. let u = ot_energyUncertaintyJoules (oc_trials cost ! k) in
         if f_eq u f_zero then m
         else add_bound (oc_reference cost, int k) (f_div u (f_of_int (int (length (oc_trials cost))))) m)
       bounds [0..<length (oc_trials cost)]"

definition charge :: "capacityPlanner \<Rightarrow> bool \<Rightarrow> Action \<Rightarrow> capacityPlan \<Rightarrow> capacityPlan" where
  "charge p before a plan =
     (let costs = ss_costs (cp_snapshot p);
          rc = pa_record plan;
          plan1 = plan\<lparr>pa_record := rc\<lparr>np_actionCosts := np_actionCosts rc @
              [\<lparr>ak_action = ac_id a, ak_kind = ac_kind a, ak_provenance = ac_costProvenance a\<rparr>]\<rparr>,
            pa_operationBounds := (case schedulerCost costs (ac_costID a) of
              None \<Rightarrow> pa_operationBounds plan | Some cost \<Rightarrow> trial_bounds cost (pa_operationBounds plan))\<rparr>
      in case actionOperationCost (cp_oor p) (cp_settings p) costs a of
           (mean, longest, joules) \<Rightarrow>
             if before
             then plan1\<lparr>pa_preMean := f_add (pa_preMean plan) mean, pa_preMax := f_add (pa_preMax plan) longest,
               pa_preJ := f_add (pa_preJ plan) joules\<rparr>
             else plan1\<lparr>pa_postMean := f_add (pa_postMean plan) mean, pa_postMax := f_add (pa_postMax plan) longest,
               pa_postJ := f_add (pa_postJ plan) joules\<rparr>)"

text \<open>The plan so far, the instances stopped before the route and those removed before it.\<close>

definition chain_step :: "capacityPlanner \<Rightarrow> NodeReference \<Rightarrow> string list
    \<Rightarrow> capacityPlan \<times> string list \<times> (string \<times> bool) list \<Rightarrow> Action
    \<Rightarrow> capacityPlan \<times> string list \<times> (string \<times> bool) list" where
  "chain_step p node before acc a =
     (case acc of (plan, stopped, removed) \<Rightarrow>
        if ac_node a \<noteq> node \<or> ac_status a = schedulerActionComplete \<or> ac_status a = schedulerActionCancel then acc
        else
          (let early = ac_id a \<in> set before in
           if ac_kind a = schedulerActionStop
           then (plan, if early then ac_instance a # stopped else stopped, removed)
           else if ac_kind a = schedulerActionRemove
           then (charge p early a plan, stopped, put (ac_instance a) early removed)
           else if ac_kind a = schedulerActionPrepare \<or> ac_kind a = schedulerActionPower
           then (charge p early a plan, stopped, removed)
           else acc))"

definition chain :: "capacityPlanner \<Rightarrow> nat \<Rightarrow> capacityPlan \<Rightarrow> capacityPlan \<times> string list \<times> string list" where
  "chain p n plan =
     (let actions = schedulerPlan (cp_settings p) (cp_snapshot p) (chain_candidate p n plan)
      in case foldl (chain_step p (sn_node (ss_nodes (cp_snapshot p) ! n)) (before_route actions)) (plan, [], []) actions of
           (plan1, stopped, removed) \<Rightarrow>
             (plan1\<lparr>pa_record := (pa_record plan1)\<lparr>
                np_pre := f_to_int64 (cp_oor p) (f_mul (pa_preMax plan1) (f_of_int 1000000000)),
                np_post := f_to_int64 (cp_oor p) (f_mul (pa_postMax plan1) (f_of_int 1000000000)),
                np_joules := f_add (pa_preJ plan1) (pa_postJ plan1),
                np_energyUncertaintyJoules := halfWidth (pa_operationBounds plan1)\<rparr>\<rparr>,
              stopped, map fst (filter snd removed)))"

section \<open>Control\<close>

definition held :: "capacityPlanner \<Rightarrow> SchedulerInstance \<Rightarrow> bool" where
  "held p i \<longleftrightarrow> \<not> si_terminated i
     \<and> (case si_heldUntil i of None \<Rightarrow> False | Some t \<Rightarrow> ss_at (cp_snapshot p) < t)"

definition fixed_instance :: "capacityPlanner \<Rightarrow> SchedulerInstance \<Rightarrow> bool" where
  "fixed_instance p i \<longleftrightarrow>
     (let current = (\<lambda>uid. list_ex (\<lambda>d. case d of None \<Rightarrow> False | Some x \<Rightarrow> df_uid x = uid) (ss_workloads (cp_snapshot p)))
      in 0 < si_fixedBatchSize i
         \<or> index_of p (si_ownerWorkloadUID i) = None \<and> current (si_ownerWorkloadUID i)
         \<or> index_of p (si_workloadUID i) = None \<and> current (si_workloadUID i))"

definition controlAllows :: "capacityPlanner \<Rightarrow> nat \<Rightarrow> SchedulerInstance \<Rightarrow> SchedulerInstance list \<Rightarrow> bool" where
  "controlAllows p w i current \<longleftrightarrow>
     (let k = st_controls (cp_settings p); uid = workload_uid p w in
      (sk_membership k \<or> list_ex (\<lambda>c. si_ownerWorkloadUID c = uid \<or> si_workloadUID c = uid) current)
      \<and> (sk_placement k \<and> sk_resources k \<and> sk_batching k
         \<or> list_ex (\<lambda>old. si_workloadUID old = uid \<and> (sk_placement k \<or> si_node old = si_node i)
              \<and> (sk_resources k \<or> schedulerSameResourceChoice old i)
              \<and> (sk_batching k \<or> si_maxBatch old = si_maxBatch i \<and> si_maxWait old = si_maxWait i))
            (ss_instances (cp_snapshot p))))"

text \<open>A set of instances named by option, batch and workload.\<close>

definition planKey :: "SchedulerInstance list \<Rightarrow> string" where
  "planKey instances = join ''+'' (sort_by string_lt (map (\<lambda>i.
     (case si_profile i of None \<Rightarrow> si_profileID i | Some q \<Rightarrow> pl_id q)
     @ ''/b'' @ Itoa (si_maxBatch i) @ ''/'' @ si_workloadUID i) instances))"

section \<open>One plan\<close>

text \<open>Baseline watts and where they come from; valid settings have a default, without which the code panics.\<close>

definition node_baseline :: "capacityPlanner \<Rightarrow> SchedulerNode \<Rightarrow> SchedulerInstance list \<Rightarrow> f64 \<times> IdlePowerProvenance" where
  "node_baseline p n instances =
     (case schedulerBaseline (cp_settings p) (ss_baselines (cp_snapshot p)) n instances (ss_options (cp_snapshot p)) of
        Some (watts, _, prov, _) \<Rightarrow> (watts, prov)
      | None \<Rightarrow> (f_zero, \<lparr>iv_source = [], iv_watts = f_zero, iv_references = [], iv_reconstructed = False\<rparr>))"

definition baseline_bound :: "capacityPlanner \<Rightarrow> IdlePowerProvenance \<Rightarrow> nat \<Rightarrow> schedulerBaselineBound" where
  "baseline_bound p prov k = schedulerBaselineUncertainty (ss_baselines (cp_snapshot p)) prov k"

record planBuild =
  pb_instances :: "SchedulerInstance list"
  pb_used :: "string list"
  pb_changed :: "(string \<times> bool) list"
  pb_added :: bool
  pb_items :: "(string \<times> capacityItem) list"
  pb_reason :: string

text \<open>The current executor that already is what the choice wants.\<close>

definition reusable_instance :: "capacityPlanner \<Rightarrow> SchedulerNode \<Rightarrow> string \<Rightarrow> string \<Rightarrow> string list \<Rightarrow> SchedulerInstance
    \<Rightarrow> SchedulerInstance \<Rightarrow> bool" where
  "reusable_instance p node mode uid used i old \<longleftrightarrow>
     si_id old \<notin> set used \<and> \<not> si_terminated old \<and> mode = sn_powerMode node \<and> si_fixedBatchSize old = 0
     \<and> schedulerState old = schedulerState i \<and> si_capacity old = si_capacity i
     \<and> schedulerOwnerAllows (si_ownerWorkloadUID old) uid
     \<and> (si_workloadUID old = uid
        \<or> si_workloadUID old = [] \<and> si_ready old \<and> \<not> si_stopped old
          \<and> (si_targetID old \<noteq> [] \<or> si_ownerWorkloadUID old = uid))"

definition target_instance :: "string \<Rightarrow> SchedulerInstance \<Rightarrow> SchedulerInstance" where
  "target_instance uid i = i\<lparr>si_id := ''target-'' @ uid @ ''-'' @ pl_id (the (si_profile i)) @ ''-'' @ Itoa (si_maxBatch i),
     si_workloadUID := uid, si_ready := True, si_targetID := [], si_ownerWorkloadUID := []\<rparr>"

definition choose_step :: "capacityPlanner \<Rightarrow> SchedulerNode \<Rightarrow> string \<Rightarrow> SchedulerInstance list \<Rightarrow> planBuild \<Rightarrow> capacityChoice
    \<Rightarrow> planBuild" where
  "choose_step p node mode current b c =
     (let uid = workload_uid p (cc_w c);
          i = target_instance uid (op_instance (cc_option c));
          (b1, j) = (case find (reusable_instance p node mode uid (pb_used b) i) current of
              None \<Rightarrow> (b, i)
            | Some old \<Rightarrow>
                (b\<lparr>pb_used := si_id old # pb_used b,
                   pb_changed := put (si_id old) (si_maxBatch old \<noteq> si_maxBatch i \<or> si_maxWait old \<noteq> si_maxWait i) (pb_changed b)\<rparr>,
                 old\<lparr>si_workloadUID := uid, si_maxBatch := si_maxBatch i, si_maxWait := si_maxWait i\<rparr>))
      in b1\<lparr>pb_added := pb_added b \<or> si_id j \<notin> set (pb_used b1), pb_instances := pb_instances b @ [j],
          pb_items := put (si_id j) (kappa_item (cc_kappa c, cc_row c)) (pb_items b),
          pb_reason := (if pb_reason b = [] then cc_reason c else pb_reason b)\<rparr>)"

definition unused :: "planBuild \<Rightarrow> SchedulerInstance \<Rightarrow> bool" where
  "unused b old \<longleftrightarrow> si_id old \<notin> set (pb_used b)"

definition changed_policy :: "planBuild \<Rightarrow> SchedulerInstance \<Rightarrow> bool" where
  "changed_policy b old \<longleftrightarrow> map_of (pb_changed b) (si_id old) = Some True"

text \<open>The mode of the plan; None when an empty plan would change nothing.\<close>

definition plan_mode :: "capacityPlanner \<Rightarrow> SchedulerNode \<Rightarrow> string \<Rightarrow> SchedulerInstance list \<Rightarrow> capacityChoice list \<Rightarrow> string option" where
  "plan_mode p node m0 current chosen =
     (case chosen of
        c # _ \<Rightarrow> Some (cd_powerMode (pl_condition (the (si_profile (op_instance (cc_option c))))))
      | [] \<Rightarrow>
          if current \<noteq> [] then Some m0
          else
            (let mode = SchedulerLowestMode (ss_baselines (cp_snapshot p)) (sn_node node) in
             if \<not> sk_power (st_controls (cp_settings p)) \<or> \<not> schedulerAvailable (cp_snapshot p) node \<or> mode = [] \<or> mode = m0
             then None else Some mode))"

text \<open>What is known before the chain: the key, what it replaces or retires, and a first reason.\<close>

definition start_plan :: "capacityPlanner \<Rightarrow> SchedulerNode \<Rightarrow> string \<Rightarrow> SchedulerInstance list \<Rightarrow> planBuild \<Rightarrow> capacityPlan" where
  "start_plan p node mode current b =
     (let removed = list_ex (unused b) current;
          reason = (if pb_reason b = [] \<and> list_ex (\<lambda>old. held p old \<and> (unused b old \<or> changed_policy b old)) current
            then schedulerPlanHeld else pb_reason b);
          reason1 = (if reason = [] \<and> cp_partial p \<and> removed then schedulerPartialObservation else reason)
      in (new_capacity_plan ((new_node_plan (sn_node node))\<lparr>np_key := planKey (pb_instances b), np_reason := reason1\<rparr>) mode)
           \<lparr>pa_instances := pb_instances b,
            pa_replaces := removed \<and> pb_added b \<or> list_ex snd (pb_changed b),
            pa_retires := \<not> pb_added b \<and> list_ex (\<lambda>old. \<not> si_terminated old \<and> unused b old) current\<rparr>)"

text \<open>A failed preparation of the same kind: remembered, and final when it is deterministic or promoted.\<close>

definition final_failure :: "PreparationFailure \<Rightarrow> bool" where
  "final_failure f \<longleftrightarrow> po_classification (fl_observation f) = PreparationDeterministic
     \<or> po_classification (fl_observation f) = PreparationPromoted"

fun failure_scan :: "SchedulerNode \<Rightarrow> SchedulerInstance \<Rightarrow> capacityPlan \<Rightarrow> Action list \<Rightarrow> capacityPlan" where
  "failure_scan node i plan [] = plan"
| "failure_scan node i plan (a # as) =
     (case ac_preparationFailure a of
        Some f \<Rightarrow>
          if ac_kind a = schedulerActionPrepare \<and> ac_node a = sn_node node \<and> Matches f node i
          then
            (let rc = pa_record plan;
                 stronger = (case np_preparationFailure rc of None \<Rightarrow> True | Some g \<Rightarrow> fl_repeatCount g < fl_repeatCount f) \<or> final_failure f;
                 rc1 = (if stronger then rc\<lparr>np_preparationFailure := Some f\<rparr> else rc)
             in if final_failure f then plan\<lparr>pa_record := rc1\<lparr>np_reason := schedulerPlanPreparationFailed\<rparr>\<rparr>
                else failure_scan node i (plan\<lparr>pa_record := rc1\<rparr>) as)
          else failure_scan node i plan as
      | None \<Rightarrow> failure_scan node i plan as)"

fun validate_plan :: "capacityPlanner \<Rightarrow> SchedulerNode \<Rightarrow> string \<Rightarrow> SchedulerInstance list \<Rightarrow> capacityPlan
    \<Rightarrow> SchedulerInstance list \<Rightarrow> capacityPlan" where
  "validate_plan p node mode current plan [] = plan"
| "validate_plan p node mode current plan (i # is) =
     (if schedulerValidateInstance (cp_settings p) (node\<lparr>sn_powerMode := mode\<rparr>) i (the (si_profile i)) [] \<noteq> []
      then plan\<lparr>pa_record := (pa_record plan)\<lparr>np_reason := schedulerPlanInfeasibleResources\<rparr>\<rparr>
      else if list_ex (\<lambda>old. si_id old = si_id i) current then validate_plan p node mode current plan is
      else
        (let plan1 = failure_scan node i plan (ss_actions (cp_snapshot p)) in
         if np_reason (pa_record plan1) \<noteq> [] then plan1 else validate_plan p node mode current plan1 is))"

text \<open>The current instances that serve until the route.\<close>

definition retain_step :: "capacityPlanner \<Rightarrow> string list \<Rightarrow> capacityPlan \<Rightarrow> SchedulerInstance \<Rightarrow> capacityPlan" where
  "retain_step p stopped plan i =
     (let weight = route_weight (lookup_route (sc_routing (cp_keep p)) (si_workloadUID i)) (si_id i) in
      case index_of p (si_workloadUID i) of
        None \<Rightarrow> plan
      | Some w \<Rightarrow>
          if si_id i \<in> set stopped \<or> \<not> si_ready i \<or> si_stopped i \<or> weight \<le> 0 then plan
          else (case currentKappa p i of (k, row) \<Rightarrow>
            plan\<lparr>pa_retained := append_at w \<lparr>ct_id = si_id i, ct_kappa = k, ct_e = capacityInputEnergy i,
              ct_weight = weight, ct_row = row, ct_prepare = False\<rparr> (pa_retained plan)\<rparr>))"

text \<open>A routed instance that a plan in the same mode stops before the route needs a bridge.\<close>

definition bridged :: "capacityPlanner \<Rightarrow> SchedulerNode \<Rightarrow> string \<Rightarrow> string list \<Rightarrow> SchedulerInstance \<Rightarrow> bool" where
  "bridged p node mode stopped i \<longleftrightarrow> mode = sn_powerMode node \<and> si_id i \<in> set stopped \<and> \<not> si_stopped i
     \<and> schedulerInstanceRouted (sc_routing (cp_keep p)) (si_id i)"

definition of_workload :: "string \<Rightarrow> SchedulerInstance \<Rightarrow> bool" where
  "of_workload uid old \<longleftrightarrow> si_workloadUID old = uid \<or> si_ownerWorkloadUID old = uid"

definition slows :: "capacityPlanner \<Rightarrow> SchedulerNode \<Rightarrow> string \<Rightarrow> SchedulerInstance list \<Rightarrow> planBuild \<Rightarrow> capacityPlan
    \<Rightarrow> capacityWorkload \<Rightarrow> bool" where
  "slows p node mode current b plan ws =
     (let uid = df_uid (cw_d ws);
          mine = filter (of_workload uid) current;
          oldKappa = foldl (\<lambda>t old. f_add t (fst (currentKappa p old))) f_zero mine;
          affected = list_ex (\<lambda>old. unused b old \<or> mode \<noteq> sn_powerMode node) mine;
          policy = list_ex (changed_policy b) mine
      in list_ex (\<lambda>old. \<not> si_terminated old) mine
         \<and> (affected \<or> policy \<and> f_leq (lookup_f (np_kappa (pa_record plan)) uid) oldKappa))"

definition down_allowed :: "SchedulerSnapshot \<Rightarrow> string \<Rightarrow> bool" where
  "down_allowed s uid \<longleftrightarrow>
     (case ss_scaleDown s of None \<Rightarrow> False
      | Some m \<Rightarrow> (case map_of m uid of None \<Rightarrow> False | Some d \<Rightarrow> ds_allowed d))"

text \<open>A plan that slows a workload is slow; while arrivals are partly observed it is not eligible at all.\<close>

fun tempo_loop :: "capacityPlanner \<Rightarrow> SchedulerNode \<Rightarrow> string \<Rightarrow> SchedulerInstance list \<Rightarrow> planBuild \<Rightarrow> capacityPlan
    \<Rightarrow> capacityWorkload list \<Rightarrow> capacityPlan" where
  "tempo_loop p node mode current b plan [] = plan"
| "tempo_loop p node mode current b plan (w # ws) =
     (if \<not> slows p node mode current b plan w then tempo_loop p node mode current b plan ws
      else
        (let rc = (pa_record plan)\<lparr>np_tempo := schedulerTempoSlow\<rparr>; uid = df_uid (cw_d w) in
         if cp_partial p then plan\<lparr>pa_record := rc\<lparr>np_reason := schedulerPartialObservation\<rparr>\<rparr>
         else
           (let rc1 = (if cw_growing w \<or> \<not> down_allowed (cp_snapshot p) uid
               then rc\<lparr>np_requiresRecovery := np_requiresRecovery rc @ [uid]\<rparr> else rc)
            in tempo_loop p node mode current b (plan\<lparr>pa_record := rc1\<rparr>) ws)))"

definition empties :: "SchedulerNode \<Rightarrow> string \<Rightarrow> SchedulerInstance list \<Rightarrow> capacityChoice list \<Rightarrow> planBuild \<Rightarrow> bool" where
  "empties node mode current chosen b \<longleftrightarrow> current = [] \<and> chosen = []
     \<or> list_ex (\<lambda>old. si_workloadUID old = [] \<and> si_ownerWorkloadUID old = []
          \<and> (unused b old \<or> mode \<noteq> sn_powerMode node)) current"

definition price_plan :: "capacityPlanner \<Rightarrow> SchedulerNode \<Rightarrow> string \<Rightarrow> SchedulerInstance list \<Rightarrow> string list \<Rightarrow> capacityPlan
    \<Rightarrow> capacityPlan" where
  "price_plan p node mode current removedPre plan =
     (let new = filter (\<lambda>i. \<not> list_ex (\<lambda>old. si_id old = si_id i) current) (pa_instances plan);
          mid = filter (\<lambda>i. si_id i \<notin> set removedPre) current @ new;
          here = node\<lparr>sn_powerMode := mode\<rparr>
      in case (node_baseline p here mid, node_baseline p here (pa_instances plan)) of
           ((midWatts, midProv), (afterWatts, afterProv)) \<Rightarrow>
             plan\<lparr>pa_mid := midWatts, pa_after := afterWatts, pa_midBound := baseline_bound p midProv (length mid),
               pa_afterBound := baseline_bound p afterProv (length (pa_instances plan)),
               pa_record := (pa_record plan)\<lparr>np_idleCosts := [(''mid'', midProv), (''after'', afterProv)], np_eligible := True\<rparr>\<rparr>)"

definition finish_plan :: "capacityPlanner \<Rightarrow> nat \<Rightarrow> string \<Rightarrow> SchedulerInstance list \<Rightarrow> capacityChoice list \<Rightarrow> planBuild
    \<Rightarrow> capacityPlan \<Rightarrow> capacityPlan" where
  "finish_plan p n mode current chosen b plan =
     (let node = ss_nodes (cp_snapshot p) ! n in
      case chain p n plan of
        (plan1, stopped, removedPre) \<Rightarrow>
          (let plan2 = plan1\<lparr>pa_record := (pa_record plan1)\<lparr>np_requiresBridge :=
                 map si_id (filter (bridged p node mode stopped) current)\<rparr>\<rparr>;
               plan3 = sum_plan p (foldl (retain_step p stopped) (annotate p (pb_items b) plan2) current);
               slow = empties node mode current chosen b;
               plan4 = plan3\<lparr>pa_record := (pa_record plan3)\<lparr>np_tempo := if slow then schedulerTempoSlow else schedulerTempoFast\<rparr>\<rparr>
           in if slow \<and> \<not> ss_emptyNodeScaleDownAllowed (cp_snapshot p)
              then plan4\<lparr>pa_record := (pa_record plan4)\<lparr>np_reason := schedulerScaleDownStabilizing\<rparr>\<rparr>
              else
                (let plan5 = tempo_loop p node mode current b plan4 (cp_ws p) in
                 if np_reason (pa_record plan5) \<noteq> [] then plan5
                 else price_plan p node mode current removedPre plan5)))"

definition make_plan :: "capacityPlanner \<Rightarrow> nat \<Rightarrow> string \<Rightarrow> SchedulerInstance list \<Rightarrow> capacityChoice list
    \<Rightarrow> capacityPlan option" where
  "make_plan p n m0 current chosen =
     (let node = ss_nodes (cp_snapshot p) ! n in
      case plan_mode p node m0 current chosen of
        None \<Rightarrow> None
      | Some mode \<Rightarrow>
          (let b = foldl (choose_step p node mode current)
                 \<lparr>pb_instances = [], pb_used = [], pb_changed = [], pb_added = False, pb_items = [], pb_reason = []\<rparr> chosen;
               plan = start_plan p node mode current b
           in if np_reason (pa_record plan) \<noteq> [] then Some plan
              else
                (let plan1 = validate_plan p node mode current plan (pa_instances plan) in
                 if np_reason (pa_record plan1) \<noteq> [] then Some plan1
                 else Some (finish_plan p n mode current chosen b plan1))))"

section \<open>All plans of a node\<close>

text \<open>Why a node may not change, empty if it may; the order is the one of the switch.\<close>

definition node_reason :: "capacityPlanner \<Rightarrow> SchedulerNode \<Rightarrow> SchedulerNode \<Rightarrow> SchedulerInstance list \<Rightarrow> string" where
  "node_reason p node common current =
     (let s = cp_snapshot p; physical = schedulerPhysicalChangeReason s (sn_node node) in
      if NodePlacementInventoryMissing \<in> set (sn_reasons common) then NodePlacementInventoryMissing
      else if schedulerReservedNode s (sn_node node) then ''ReservedNode''
      else if physical = schedulerNodeUnavailable then schedulerNodeUnavailable
      else if sn_measurement node then ''MeasurementNode''
      else if NodeExcluded \<in> set (sn_reasons node) then NodeExcluded
      else if physical \<noteq> [] then physical
      else if NodePlacementBudgetUnavailable \<in> set (sn_reasons node) then NodePlacementBudgetUnavailable
      else if list_ex (fixed_instance p) current then schedulerPlanFixedWorkload else [])"

definition option_name :: "SchedulerInstance \<Rightarrow> string" where
  "option_name i = pl_id (the (si_profile i)) @ sprint_allocation (si_allocation i) @ '' '' @ Duration_String (si_maxWait i)"

definition option_here :: "capacityPlanner \<Rightarrow> SchedulerNode \<Rightarrow> SchedulerInstance \<Rightarrow> bool" where
  "option_here p node i \<longleftrightarrow>
     (case si_profile i of
        None \<Rightarrow> False
      | Some q \<Rightarrow> si_node i = sn_node node \<and> cd_nodeUID (pl_condition q) = nr_uid (sn_node node)
          \<and> (sn_powerMode node = cd_powerMode (pl_condition q)
             \<or> sk_power (st_controls (cp_settings p)) \<and> NodePowerModeUnavailable \<notin> set (sn_reasons node)))"

definition usable_choice :: "capacityPlanner \<Rightarrow> SchedulerInstance list \<Rightarrow> SchedulerOption \<Rightarrow> nat \<Rightarrow> bool" where
  "usable_choice p current x w \<longleftrightarrow> workload_uid p w \<in> set (op_compatibleUIDs x)
     \<and> schedulerProfileMatches (Some (cw_d (cp_ws p ! w))) (si_profile (op_instance x))
     \<and> controlAllows p w (op_instance x) current"

fun add_group :: "string \<Rightarrow> capacityChoice \<Rightarrow> (string \<times> capacityChoice list) list \<Rightarrow> (string \<times> capacityChoice list) list" where
  "add_group name c [] = [(name, [c])]"
| "add_group name c ((k, cs) # rest) = (if k = name then (k, cs @ [c]) # rest else (k, cs) # add_group name c rest)"

definition plan_groups :: "capacityPlanner \<Rightarrow> SchedulerNode \<Rightarrow> SchedulerInstance list \<Rightarrow> (string \<times> capacityChoice list) list" where
  "plan_groups p node current =
     foldl (\<lambda>g c. add_group (option_name (op_instance (cc_option c))) c g) []
       (concat (map (\<lambda>k. let x = cp_options p ! k in
           if \<not> option_here p node (op_instance x) then []
           else map (\<lambda>w. cp_optionCapacity p ! k ! w) (filter (usable_choice p current x) [0..<length (cp_ws p)]))
         [0..<length (cp_options p)]))"

text \<open>The plan of a choice, unless it is the one that is there.\<close>

definition chosen_plan :: "capacityPlanner \<Rightarrow> nat \<Rightarrow> string \<Rightarrow> SchedulerInstance list \<Rightarrow> capacityPlan \<Rightarrow> capacityChoice list
    \<Rightarrow> capacityPlan list" where
  "chosen_plan p n m0 current keep chosen =
     (case make_plan p n m0 current chosen of
        None \<Rightarrow> []
      | Some plan \<Rightarrow>
          if np_key (pa_record plan) \<noteq> planKey current \<or> pa_mode plan \<noteq> m0 \<or> list_ex si_terminated current
          then (let rc = pa_record plan in
            [plan\<lparr>pa_before := pa_before keep, pa_beforeBound := pa_beforeBound keep,
               pa_record := rc\<lparr>np_idleCosts := np_idleCosts rc @ filter (\<lambda>x. fst x = ''before'') (np_idleCosts (pa_record keep))\<rparr>\<rparr>])
          else [])"

fun walk_plans :: "capacityPlanner \<Rightarrow> nat \<Rightarrow> string \<Rightarrow> SchedulerInstance list \<Rightarrow> capacityPlan
    \<Rightarrow> (string \<times> capacityChoice list) list \<Rightarrow> capacityChoice list \<Rightarrow> capacityPlan list" where
  "walk_plans p n m0 current keep [] chosen = chosen_plan p n m0 current keep chosen"
| "walk_plans p n m0 current keep ((name, choices) # names) chosen =
     walk_plans p n m0 current keep names chosen
     @ (if chosen \<noteq> [] then []
        else concat (map (\<lambda>c.
          (let node = ss_nodes (cp_snapshot p) ! n; next = chosen @ [c];
               wanted = [sn_reserved node] @ sn_nonServing node @ map (\<lambda>x. si_allocation (op_instance (cc_option x))) next
           in if ValidateNodeBudget node wanted [] \<noteq> []
              then [new_capacity_plan ((new_node_plan (sn_node node))\<lparr>np_key := planKey (map (\<lambda>x.
                  (op_instance (cc_option x))\<lparr>si_workloadUID := workload_uid p (cc_w x)\<rparr>) next),
                np_reason := schedulerPlanInfeasibleResources\<rparr>) []]
              else walk_plans p n m0 current keep names next)) choices))"

definition keep_plan :: "capacityPlanner \<Rightarrow> SchedulerNode \<Rightarrow> SchedulerNode \<Rightarrow> SchedulerInstance list \<Rightarrow> capacityPlan" where
  "keep_plan p node common current =
     (let rc = (new_node_plan (sn_node node))\<lparr>np_key := ''keep'', np_eligible := True\<rparr>;
          plan = sum_plan p (annotate p [] ((new_capacity_plan rc (sn_powerMode common))
            \<lparr>pa_keep := True, pa_instances := current\<rparr>));
          waiting = filter (\<lambda>i. si_node i = sn_node node) (cp_pending p)
      in case node_baseline p common current of
           (watts, prov) \<Rightarrow>
             plan\<lparr>pa_before := watts, pa_beforeBound := baseline_bound p prov (length current),
               pa_record := (pa_record plan)\<lparr>np_idleCosts := [(''before'', prov)]\<rparr>,
               pa_others := pa_others plan + length waiting,
               pa_pendingReplicas := foldl (\<lambda>r i. case index_of p (si_workloadUID i) of None \<Rightarrow> r | Some w \<Rightarrow> bump w r)
                 (pa_pendingReplicas plan) waiting\<rparr>)"

definition nodePlans :: "capacityPlanner \<Rightarrow> nat \<Rightarrow> SchedulerNode list \<Rightarrow> capacityPlan list" where
  "nodePlans p n common =
     (let node = ss_nodes (cp_snapshot p) ! n;
          current = filter (\<lambda>i. si_node i = sn_node node) (ss_instances (cp_snapshot p));
          keep = keep_plan p node (common ! n) current;
          reason = node_reason p node (common ! n) current;
          names = plan_groups p node current
      in if names = [] \<and> current \<noteq> [] \<and> reason \<noteq> NodeExcluded then [keep]
         else if reason \<noteq> []
         then [keep, new_capacity_plan ((new_node_plan (sn_node node))\<lparr>np_key := ''*'', np_reason := reason\<rparr>) []]
         else keep # walk_plans p n (sn_powerMode (common ! n)) current keep names [])"

end
