(* ===== verification/CapacityDemand.thy ===== *)
theory CapacityDemand
  imports CapacityNodes
begin

text \<open>
  What a plan set may rely on (\<open>internal/serving/scheduler_idle_gate.go\<close>, \<open>scheduler_reserve.go\<close> and
  the \<open>bounded\<close> test of \<open>scheduler_capacity_evaluate.go\<close>): the demand that protects a reduction, the
  timing of a change, the supply that survives a transition and the limits on replicas. A plan set
  is a list with one plan index per node.
\<close>

section \<open>Plan sets\<close>

definition plan_at :: "capacityPlanner \<Rightarrow> nat list \<Rightarrow> nat \<Rightarrow> capacityPlan" where
  "plan_at p choice n = cp_plans p ! n ! (choice ! n)"

definition node_at :: "capacityPlanner \<Rightarrow> nat \<Rightarrow> SchedulerNode" where
  "node_at p n = ss_nodes (cp_snapshot p) ! n"

definition nodes_of :: "nat list \<Rightarrow> nat list" where
  "nodes_of choice = [0..<length choice]"

definition keep_choice :: "capacityPlanner \<Rightarrow> nat list" where
  "keep_choice p = replicate (length (cp_plans p)) 0"

text \<open>Replicas of each workload and instances in total.\<close>

definition replica_count :: "capacityPlanner \<Rightarrow> nat list \<Rightarrow> nat \<Rightarrow> nat" where
  "replica_count p choice w =
     sum_list (map (\<lambda>n. pa_pendingReplicas (plan_at p choice n) ! w + length (pa_items (plan_at p choice n) ! w)) (nodes_of choice))"

definition instance_count :: "capacityPlanner \<Rightarrow> nat list \<Rightarrow> nat" where
  "instance_count p choice =
     sum_list (map (\<lambda>n. pa_others (plan_at p choice n)
       + sum_list (map (\<lambda>w. length (pa_items (plan_at p choice n) ! w)) [0..<length (cp_ws p)])) (nodes_of choice))"

definition bounded :: "capacityPlanner \<Rightarrow> nat list \<Rightarrow> bool" where
  "bounded p choice \<longleftrightarrow>
     list_all (\<lambda>w. int (replica_count p choice w) \<le> st_maxReplicas (cp_settings p)
        \<and> (sk_replicas (st_controls (cp_settings p)) \<or> replica_count p choice w = cw_current (cp_ws p ! w)))
       [0..<length (cp_ws p)]
     \<and> int (instance_count p choice) \<le> st_maxInstances (cp_settings p)"

section \<open>Demand of a reduction\<close>

definition reduction_node :: "capacityPlanner \<Rightarrow> capacityWorkload \<Rightarrow> nat list \<Rightarrow> nat \<Rightarrow> bool" where
  "reduction_node p w choice n \<longleftrightarrow>
     (let plan = plan_at p choice n; uid = df_uid (cw_d w);
          olds = filter (\<lambda>old. si_node old = sn_node (node_at p n) \<and> of_workload uid old) (ss_instances (cp_snapshot p));
          kept = (\<lambda>old. if pa_mode plan \<noteq> sn_powerMode (node_at p n) then None
            else find (\<lambda>i. si_id i = si_id old) (pa_instances plan));
          oldKappa = foldl (\<lambda>t old. f_add t (fst (currentKappa p old))) f_zero olds;
          policy = list_ex (\<lambda>old. case kept old of None \<Rightarrow> False
            | Some i \<Rightarrow> si_maxBatch i \<noteq> si_maxBatch old \<or> si_maxWait i \<noteq> si_maxWait old) olds
      in \<not> pa_keep plan \<and> np_tempo (pa_record plan) = schedulerTempoSlow
         \<and> (list_ex (\<lambda>old. kept old = None) olds
            \<or> policy \<and> f_leq (lookup_f (np_kappa (pa_record plan)) uid) oldKappa))"

definition down_state :: "SchedulerSnapshot \<Rightarrow> string \<Rightarrow> SchedulerDownState" where
  "down_state s uid =
     (case (case ss_scaleDown s of None \<Rightarrow> None | Some m \<Rightarrow> map_of m uid) of
        Some d \<Rightarrow> d
      | None \<Rightarrow> \<lparr>ds_rate = f_zero, ds_windowMax = f_zero, ds_windowNanos = 0, ds_supply = f_zero, ds_allowed = False,
          ds_reason = [], ds_resetReason = []\<rparr>)"

definition reductionDemand :: "capacityPlanner \<Rightarrow> capacityWorkload \<Rightarrow> nat list \<Rightarrow> capacityWorkload \<times> bool" where
  "reductionDemand p w choice =
     (let slow = list_ex (reduction_node p w choice) (nodes_of choice)
      in (if slow then w\<lparr>cw_rate := f_max (cw_rate w) (ds_windowMax (down_state (cp_snapshot p) (df_uid (cw_d w))))\<rparr> else w,
          slow))"

definition keepInsufficient :: "capacityPlanner \<Rightarrow> capacityWorkload \<Rightarrow> bool" where
  "keepInsufficient p w \<longleftrightarrow>
     (let kappa = ds_supply (down_state (cp_snapshot p) (df_uid (cw_d w)))
      in \<not> jd_satisfied (capacityJudge w kappa kappa (f_less f_zero kappa) f_zero))"

text \<open>A power change of a node that serves the workload is no recovery unless enough supply survives it.\<close>

definition outage_node :: "capacityPlanner \<Rightarrow> capacityWorkload \<Rightarrow> nat list \<Rightarrow> f64 \<Rightarrow> nat \<Rightarrow> bool" where
  "outage_node p w choice retained n \<longleftrightarrow> f_less retained (cw_rate w)
     \<and> pa_mode (plan_at p choice n) \<noteq> sn_powerMode (node_at p n)
     \<and> list_ex (\<lambda>i. si_node i = sn_node (node_at p n) \<and> si_workloadUID i = df_uid (cw_d w)
          \<and> schedulerInstanceRouted (sc_routing (cp_keep p)) (si_id i)) (ss_instances (cp_snapshot p))"

text \<open>The demand to judge, whether the change is slow, whether it recovers, and the protected rate.\<close>

definition admissionDemand :: "capacityPlanner \<Rightarrow> capacityWorkload \<Rightarrow> nat list \<Rightarrow> f64
    \<Rightarrow> capacityWorkload \<times> bool \<times> bool \<times> f64" where
  "admissionDemand p w choice retained =
     (case reductionDemand p w choice of
        (reduced, slow) \<Rightarrow>
          (let recovery = slow \<and> keepInsufficient p w \<and> \<not> list_ex (outage_node p w choice retained) (nodes_of choice);
               demand = (if recovery then w else reduced);
               protected = (if slow \<and> \<not> recovery
                 then f_mul (cw_rate demand) (f_add f_one (st_scaleDownHeadroomFraction (cp_settings p)))
                 else cw_rate demand)
           in (demand, slow, recovery, protected)))"

definition unroutes_growing :: "capacityPlanner \<Rightarrow> string \<Rightarrow> route \<Rightarrow> bool" where
  "unroutes_growing p uid routes \<longleftrightarrow>
     list_ex (\<lambda>(d, weight). 0 < weight \<and> route_weight routes d \<le> 0
        \<and> \<not> list_ex (\<lambda>i. si_id i = d \<and> si_terminated i) (ss_instances (cp_snapshot p)))
       (lookup_route (sc_routing (cp_keep p)) uid)"

definition schedulerWindowCapacityInsufficient :: string where
  "schedulerWindowCapacityInsufficient = ''ScaleDownWindowCapacityInsufficient''"
definition schedulerDemandIncreasing :: string where "schedulerDemandIncreasing = ''DemandIncreasing''"

definition timingReason :: "capacityPlanner \<Rightarrow> capacityWorkload \<Rightarrow> bool \<Rightarrow> bool \<Rightarrow> bool \<Rightarrow> route \<Rightarrow> string" where
  "timingReason p w slow recovered satisfied routes =
     (let uid = df_uid (cw_d w) in
      if slow \<and> \<not> satisfied then schedulerWindowCapacityInsufficient
      else if recovered then []
      else if cw_growing w \<and> (slow \<or> unroutes_growing p uid routes) then schedulerDemandIncreasing
      else if slow \<and> \<not> ds_allowed (down_state (cp_snapshot p) uid) then schedulerScaleDownStabilizing
      else [])"

section \<open>The reserve of a transition\<close>

definition reserved_instance :: "string \<Rightarrow> string \<Rightarrow> SchedulerInstance \<Rightarrow> SchedulerReservation \<Rightarrow> bool" where
  "reserved_instance idn uid i r \<longleftrightarrow> idn \<in> set (rv_instances r)
     \<or> si_podUID i \<noteq> [] \<and> si_podUID i \<in> set (rv_podUIDs r) \<or> uid \<in> set (rv_workloadUIDs r)"

definition reserveAvailable :: "capacityPlanner \<Rightarrow> string \<Rightarrow> string \<Rightarrow> bool" where
  "reserveAvailable p idn uid \<longleftrightarrow>
     (let s = cp_snapshot p in
      list_ex (\<lambda>i. si_id i = idn \<and> si_ready i \<and> \<not> si_stopped i \<and> si_workloadUID i = uid
        \<and> uid \<in> set (si_routable i) \<and> \<not> schedulerReservedNode s (si_node i)
        \<and> \<not> list_ex (reserved_instance idn uid i) (ss_reservations s)) (ss_instances s))"

definition affects :: "capacityPlanner \<Rightarrow> string \<Rightarrow> nat list \<Rightarrow> nat \<Rightarrow> bool" where
  "affects p uid choice n \<longleftrightarrow>
     (let plan = plan_at p choice n in
      \<not> pa_keep plan
      \<and> list_ex (\<lambda>old. si_node old = sn_node (node_at p n) \<and> si_workloadUID old = uid
          \<and> (pa_mode plan \<noteq> sn_powerMode (node_at p n)
             \<or> \<not> list_ex (\<lambda>i. si_id i = si_id old \<and> si_maxBatch i = si_maxBatch old \<and> si_maxWait i = si_maxWait old)
                  (pa_instances plan))) (ss_instances (cp_snapshot p)))"

definition reserve_items :: "capacityPlanner \<Rightarrow> nat list \<Rightarrow> (capacityPlan \<Rightarrow> nat \<Rightarrow> capacityItem list) \<Rightarrow> f64" where
  "reserve_items p choice items =
     kappa_sum (concat (map (\<lambda>n. if schedulerReservedNode (cp_snapshot p) (sn_node (node_at p n)) then []
       else items (plan_at p choice n) n) (nodes_of choice)))"

definition schedulerTransitionReserveInsufficient :: string where
  "schedulerTransitionReserveInsufficient = ''TransitionReserveInsufficient''"

definition reserve_record :: "capacityPlanner \<Rightarrow> nat list \<Rightarrow> nat \<Rightarrow> SchedulerTransitionReserve" where
  "reserve_record p choice w =
     (let f = st_transitionReserveFraction (cp_settings p); uid = workload_uid p w;
          demand = cw_rate (fst (reductionDemand p (cp_ws p ! w) choice));
          required = f_mul demand (f_add f_one f);
          before = reserve_items p choice (\<lambda>plan n. filter (\<lambda>x. reserveAvailable p (ct_id x) uid) (pa_retained plan ! w));
          after = reserve_items p choice (\<lambda>plan n. if pa_mode plan = sn_powerMode (node_at p n)
            then filter (\<lambda>x. \<not> ct_prepare x \<and> reserveAvailable p (ct_id x) uid) (pa_items plan ! w) else []);
          allowed = f_leq required before \<and> f_leq required after
      in \<lparr>tr_uid = uid, tr_fraction = f, tr_demand = demand, tr_required = required, tr_beforeRoute = before,
          tr_afterRoute = after, tr_allowed = allowed,
          tr_reason = (if allowed then [] else schedulerTransitionReserveInsufficient), tr_candidateKey = []\<rparr>)"

definition transitionReserve :: "capacityPlanner \<Rightarrow> nat list \<Rightarrow> SchedulerTransitionReserve list" where
  "transitionReserve p choice =
     (if f_eq (st_transitionReserveFraction (cp_settings p)) f_zero then []
      else map (reserve_record p choice)
        (filter (\<lambda>w. list_ex (affects p (workload_uid p w) choice) (nodes_of choice)) [0..<length (cp_ws p)]))"

definition transitionConstraints :: "capacityPlanner \<Rightarrow> nat list \<Rightarrow> string \<times> SchedulerTransitionReserve list" where
  "transitionConstraints p choice =
     (let records = transitionReserve p choice
      in (if list_all tr_allowed records then [] else schedulerTransitionReserveInsufficient, records))"

text \<open>One rejected candidate per workload, the one with the least key.\<close>

definition reject_step :: "string \<Rightarrow> (string \<times> SchedulerTransitionReserve) list \<Rightarrow> SchedulerTransitionReserve
    \<Rightarrow> (string \<times> SchedulerTransitionReserve) list" where
  "reject_step key dst r =
     (let r1 = (if key \<noteq> [] then r\<lparr>tr_candidateKey := key\<rparr> else r) in
      if tr_allowed r then dst
      else (case map_of dst (tr_uid r) of
          Some old \<Rightarrow> if string_lt (tr_candidateKey r1) (tr_candidateKey old) then put (tr_uid r) r1 dst else dst
        | None \<Rightarrow> put (tr_uid r) r1 dst))"

definition reserveRejections :: "(string \<times> SchedulerTransitionReserve) list \<Rightarrow> SchedulerTransitionReserve list \<Rightarrow> string
    \<Rightarrow> (string \<times> SchedulerTransitionReserve) list" where
  "reserveRejections dst records key = foldl (reject_step key) dst records"

end
