(* ===== verification/CapacityBridge.thy ===== *)
theory CapacityBridge
  imports CapacityDemand
begin

text \<open>
  Handoffs before the final route (\<open>internal/serving/scheduler_bridge.go\<close>). A plan set that would stop
  a routed instance before its route is compiled into a schedule: intermediate routes that move
  a workload to what is ready, each with the stops that wait for it. The schedule is the action
  graph of the goal with those routes inserted. Maps are association lists in some iteration order.
\<close>

definition schedulerRoutedStopsFirst :: string where "schedulerRoutedStopsFirst = ''RoutedInstanceStopsBeforeRoute''"
definition schedulerBridgeRoute :: string where "schedulerBridgeRoute = ''handoff-bridge''"

section \<open>The schedule and its compiler\<close>

record SchedulerBridgeStage =
  bg_action :: string
  bg_uid :: string
  bg_at :: duration
  bg_demand :: f64
  bg_backlog :: f64
  bg_predictedKappa :: f64
  bg_waitSeconds :: f64
  bg_reserve :: f64

record schedulerBridgeSchedule =
  bs_actions :: "Action list"
  bs_instances :: "(string \<times> SchedulerInstance) list"
  bs_stages :: "SchedulerBridgeStage list"
  bs_delays :: "f64 list"
  bs_route :: f64

text \<open>\<open>bc_blocked\<close> maps a stop to the workload whose handoff it waits for.\<close>

record schedulerBridgeCompiler =
  bk_goal :: SchedulerCandidate
  bk_out :: schedulerBridgeSchedule
  bk_before :: "string list"
  bk_ends :: "(string \<times> f64) list"
  bk_blocked :: "(string \<times> string) list"
  bk_retiring :: "string list"
  bk_unavailable :: "string list"
  bk_prepares :: "(string \<times> string) list"
  bk_routing :: routing
  bk_previous :: string

definition schedule_instance :: "schedulerBridgeSchedule \<Rightarrow> string \<Rightarrow> SchedulerInstance option" where
  "schedule_instance o1 idn = map_of (bs_instances o1) idn"

definition add_instance :: "(string \<times> SchedulerInstance) list \<Rightarrow> SchedulerInstance \<Rightarrow> (string \<times> SchedulerInstance) list" where
  "add_instance m i = (if map_of m (si_id i) = None then m @ [(si_id i, i)] else m)"

text \<open>The instances of the snapshot, a later one of an ID over an earlier one, then new ones of the goal.\<close>

definition bridge_instances :: "capacityPlanner \<Rightarrow> nat list \<Rightarrow> (string \<times> SchedulerInstance) list" where
  "bridge_instances p choice =
     foldl add_instance (foldl (\<lambda>m i. put (si_id i) i m) [] (ss_instances (cp_snapshot p)))
       (concat (map (\<lambda>n. pa_instances (plan_at p choice n)) (nodes_of choice)))"

definition bridge_goal :: "capacityPlanner \<Rightarrow> nat list \<Rightarrow> SchedulerCandidate" where
  "bridge_goal p choice =
     \<lparr>sc_id = [], sc_keep = False,
      sc_nodes = map (\<lambda>n. if n < length choice then (sc_nodes (cp_keep p) ! n)\<lparr>sn_powerMode := pa_mode (plan_at p choice n)\<rparr>
          else sc_nodes (cp_keep p) ! n) [0..<length (sc_nodes (cp_keep p))],
      sc_instances = concat (map (\<lambda>n. pa_instances (plan_at p choice n)) (nodes_of choice)),
      sc_routing = sc_routing (cp_keep p), sc_actions = [], sc_status = [], sc_reasons = []\<rparr>"

text \<open>\<open>byID[id]\<close> is 0 for an unknown ID, so such a prerequisite leads to the first action.\<close>

definition depends_at :: "Action list \<Rightarrow> string \<Rightarrow> string list" where
  "depends_at actions idn =
     (case find (\<lambda>a. ac_id a = idn) (rev actions) of Some a \<Rightarrow> ac_dependsOn a
      | None \<Rightarrow> (case actions of [] \<Rightarrow> [] | a # _ \<Rightarrow> ac_dependsOn a))"

definition routes_other :: "capacityPlanner \<Rightarrow> string \<Rightarrow> string \<Rightarrow> bool" where
  "routes_other p uid inst \<longleftrightarrow> list_ex (\<lambda>(other, weights). other \<noteq> uid \<and> 0 < route_weight weights inst) (sc_routing (cp_keep p))"

text \<open>A stop of the graph: what it retires, and what has to be handed over before it.\<close>

definition block_step :: "capacityPlanner \<Rightarrow> schedulerBridgeCompiler option \<Rightarrow> Action \<Rightarrow> schedulerBridgeCompiler option" where
  "block_step p acc a =
     (case acc of
        None \<Rightarrow> None
      | Some b \<Rightarrow>
          (let routed = schedulerInstanceRouted (ss_routing (cp_snapshot p)) (ac_instance a);
               source = schedule_instance (bk_out b) (ac_instance a);
               stopped = (case source of None \<Rightarrow> False | Some i \<Rightarrow> si_stopped i);
               uid = (case source of None \<Rightarrow> [] | Some i \<Rightarrow> si_workloadUID i)
           in if ac_kind a \<noteq> schedulerActionStop \<or> ac_id a \<notin> set (bk_before b) \<and> routed then Some b
              else
                (let b1 = b\<lparr>bk_retiring := ac_instance a # bk_retiring b\<rparr> in
                 if stopped \<or> \<not> routed then Some b1
                 else if index_of p uid = None \<or> routes_other p uid (ac_instance a) then None
                 else Some (b1\<lparr>bk_blocked := put (ac_id a) uid (bk_blocked b)\<rparr>))))"

text \<open>The compiler and the final route; None for a reason not to bridge.\<close>

definition bridge_start :: "capacityPlanner \<Rightarrow> nat list \<Rightarrow> schedulerBridgeCompiler" where
  "bridge_start p choice =
     (let goal = bridge_goal p choice; actions = schedulerPlan (cp_settings p) (cp_snapshot p) goal in
      \<lparr>bk_goal = goal,
       bk_out = \<lparr>bs_actions = actions, bs_instances = bridge_instances p choice, bs_stages = [],
         bs_delays = replicate (length choice) f_zero, bs_route = f_zero\<rparr>,
       bk_before = visit (Suc (length (waited_for actions))) (depends_at actions) [] (route_id actions),
       bk_ends = [], bk_blocked = [], bk_retiring = [], bk_unavailable = [],
       bk_prepares = foldl (\<lambda>m a. if ac_kind a = schedulerActionPrepare then put (ac_instance a) (ac_id a) m else m) [] actions,
       bk_routing = sc_routing (cp_keep p), bk_previous = []\<rparr>)"

definition initialize :: "capacityPlanner \<Rightarrow> nat list \<Rightarrow> (schedulerBridgeCompiler \<times> string) option" where
  "initialize p choice =
     (let b = bridge_start p choice; final = route_id (bs_actions (bk_out b)) in
      if final = [] then None
      else map_option (\<lambda>b1. (b1, final)) (foldl (block_step p) (Some b) (bs_actions (bk_out b))))"

definition budget_uid :: "SchedulerInstance \<Rightarrow> string" where
  "budget_uid i = (if si_workloadUID i = [] then si_ownerWorkloadUID i else si_workloadUID i)"

definition physicalBudget :: "capacityPlanner \<Rightarrow> schedulerBridgeCompiler \<Rightarrow> string" where
  "physicalBudget p b =
     (let wanted = map (\<lambda>x. case schedule_instance (bk_out b) (fst x) of None \<Rightarrow> [] | Some i \<Rightarrow> si_workloadUID i) (bk_prepares b);
          uids = map budget_uid (ss_instances (cp_snapshot p)) @ wanted @ map si_workloadUID (cp_pending p)
      in if st_maxInstances (cp_settings p) < int (length uids) then schedulerPlanInfeasibleResources
         else if list_ex (\<lambda>uid. index_of p uid \<noteq> None
             \<and> st_maxReplicas (cp_settings p) < int (length (filter (\<lambda>u. u = uid) uids))) uids
         then schedulerPlanInfeasibleResources else [])"

section \<open>The frontier\<close>

text \<open>One action: scheduled when everything it waits for is, and no handoff holds it.\<close>

definition end_of :: "schedulerBridgeCompiler \<Rightarrow> string \<Rightarrow> f64" where
  "end_of b d = lookup_f (bk_ends b) d"

definition ready_at :: "schedulerBridgeCompiler \<Rightarrow> string list \<Rightarrow> f64" where
  "ready_at b deps = foldl (\<lambda>t d. f_max t (end_of b d)) f_zero deps"

definition schedulable :: "schedulerBridgeCompiler \<Rightarrow> Action \<Rightarrow> bool" where
  "schedulable b a \<longleftrightarrow> ac_id a \<in> set (bk_before b) \<and> map_of (bk_blocked b) (ac_id a) = None
     \<and> map_of (bk_ends b) (ac_id a) = None \<and> list_all (\<lambda>d. map_of (bk_ends b) d \<noteq> None) (ac_dependsOn a)"

definition resolve_step :: "capacityPlanner \<Rightarrow> schedulerBridgeCompiler \<times> bool \<Rightarrow> Action \<Rightarrow> schedulerBridgeCompiler \<times> bool" where
  "resolve_step p acc a =
     (let b = fst acc in
      if \<not> schedulable b a then acc
      else
        (let start = ready_at b (ac_dependsOn a);
             longest = (if ac_status a \<noteq> schedulerActionComplete \<and> physical_kind (ac_kind a)
               then (case actionOperationCost (cp_oor p) (cp_settings p) (ss_costs (cp_snapshot p)) a of (_, l, _) \<Rightarrow> f_add start l)
               else start);
             b1 = b\<lparr>bk_ends := put (ac_id a) longest (bk_ends b)\<rparr>
         in (if ac_kind a = schedulerActionStop \<or> ac_kind a = schedulerActionRemove
             then b1\<lparr>bk_unavailable := ac_instance a # bk_unavailable b\<rparr> else b1, True)))"

text \<open>Every pass that makes progress schedules an action, so as many passes as actions and one suffice.\<close>

fun resolve :: "nat \<Rightarrow> capacityPlanner \<Rightarrow> schedulerBridgeCompiler \<Rightarrow> schedulerBridgeCompiler" where
  "resolve 0 p b = b"
| "resolve (Suc fuel) p b =
     (case foldl (resolve_step p) (b, False) (bs_actions (bk_out b)) of
        (b1, progress) \<Rightarrow> if progress then resolve fuel p b1 else b1)"

definition resolve_all :: "capacityPlanner \<Rightarrow> schedulerBridgeCompiler \<Rightarrow> schedulerBridgeCompiler" where
  "resolve_all p b = resolve (Suc (length (bs_actions (bk_out b)))) p b"

section \<open>A handoff\<close>

text \<open>What can serve the workload now: ready, not made unavailable, and the goal's prepared instances.\<close>

definition bridge_available :: "capacityPlanner \<Rightarrow> schedulerBridgeCompiler \<Rightarrow> (string \<times> SchedulerInstance) list" where
  "bridge_available p b =
     foldl (\<lambda>m i. put (si_id i) i m) []
       (filter (\<lambda>i. si_ready i \<and> \<not> si_stopped i \<and> \<not> si_terminated i \<and> si_id i \<notin> set (bk_unavailable b))
          (ss_instances (cp_snapshot p))
        @ filter (\<lambda>i. case map_of (bk_prepares b) (si_id i) of None \<Rightarrow> False
            | Some prepare \<Rightarrow> prepare \<noteq> [] \<and> map_of (bk_ends b) prepare \<noteq> None) (sc_instances (bk_goal b)))"

definition serves_other :: "schedulerBridgeCompiler \<Rightarrow> string \<Rightarrow> NodeReference \<Rightarrow> bool" where
  "serves_other b uid node \<longleftrightarrow>
     list_ex (\<lambda>(other, weights). other \<noteq> uid \<and> list_ex (\<lambda>(d, weight). 0 < weight
        \<and> (case schedule_instance (bk_out b) d of None \<Rightarrow> zero_node | Some i \<Rightarrow> si_node i) = node) weights) (bk_routing b)"

definition compatible_peer :: "capacityPlanner \<Rightarrow> schedulerBridgeCompiler \<Rightarrow> string \<Rightarrow> SchedulerInstance \<Rightarrow> bool" where
  "compatible_peer p b uid i \<longleftrightarrow> si_workloadUID i = uid \<and> si_id i \<notin> set (bk_retiring b)
     \<and> \<not> schedulerReservedNode (cp_snapshot p) (si_node i) \<and> \<not> serves_other b uid (si_node i)
     \<and> \<not> list_ex (\<lambda>r. sr_phase r = phasePending
          \<and> (case sr_definition r of None \<Rightarrow> False
             | Some d \<Rightarrow> df_uid d = uid \<and> \<not> schedulerProfileMatches (Some d) (si_profile i))) (ss_outstanding (cp_snapshot p))"

fun put_node :: "NodeReference \<Rightarrow> 'v \<Rightarrow> (NodeReference \<times> 'v) list \<Rightarrow> (NodeReference \<times> 'v) list" where
  "put_node k v [] = [(k, v)]"
| "put_node k v ((l, w) # rest) = (if l = k then (l, v) # rest else (l, w) # put_node k v rest)"

text \<open>One peer per node, a goal instance before one that retires.\<close>

definition goal_peer :: "capacityPlanner \<Rightarrow> schedulerBridgeCompiler \<Rightarrow> string \<Rightarrow> (string \<times> SchedulerInstance) list
    \<Rightarrow> (NodeReference \<times> SchedulerInstance) list \<Rightarrow> SchedulerInstance \<Rightarrow> (NodeReference \<times> SchedulerInstance) list" where
  "goal_peer p b uid available m i =
     (case map_of available (si_id i) of
        None \<Rightarrow> m
      | Some actual \<Rightarrow> if compatible_peer p b uid actual then put_node (si_node i) actual m else m)"

definition current_peer :: "capacityPlanner \<Rightarrow> schedulerBridgeCompiler \<Rightarrow> string \<Rightarrow> (string \<times> SchedulerInstance) list
    \<Rightarrow> (NodeReference \<times> SchedulerInstance) list \<Rightarrow> SchedulerInstance \<Rightarrow> (NodeReference \<times> SchedulerInstance) list" where
  "current_peer p b uid available m i =
     (if map_of available (si_id i) \<noteq> None
         \<and> (case map_of m (si_node i) of None \<Rightarrow> True | Some j \<Rightarrow> si_id j = [])
         \<and> compatible_peer p b uid i
      then put_node (si_node i) i m else m)"

definition bridge_peers :: "capacityPlanner \<Rightarrow> schedulerBridgeCompiler \<Rightarrow> string
    \<Rightarrow> (string \<times> SchedulerInstance) list \<times> capacityItem list" where
  "bridge_peers p b uid =
     (let available = bridge_available p b;
          peers = foldl (current_peer p b uid available)
            (foldl (goal_peer p b uid available) [] (sc_instances (bk_goal b))) (ss_instances (cp_snapshot p));
          items = concat (map (\<lambda>(_, i). case currentKappa p i of (k, row) \<Rightarrow>
            if f_less f_zero k then [\<lparr>ct_id = si_id i, ct_kappa = k, ct_e = capacityInputEnergy i, ct_weight = 0, ct_row = row,
              ct_prepare = False\<rparr>] else []) peers)
      in (available, sort_by (\<lambda>x y. string_lt (ct_id x) (ct_id y)) items))"

text \<open>Capacity behind a route and what it serves of a rate.\<close>

definition route_units :: "route \<Rightarrow> f64" where
  "route_units weights = foldl (\<lambda>t x. f_add t (f_of_int (max 0 (snd x)))) f_zero weights"

definition flow_step :: "capacityPlanner \<Rightarrow> string \<Rightarrow> f64 \<Rightarrow> f64 \<Rightarrow> (string \<times> SchedulerInstance) list \<Rightarrow> f64 \<times> f64
    \<Rightarrow> string \<times> int \<Rightarrow> f64 \<times> f64" where
  "flow_step p uid rate tot instances acc dw =
     (case map_of instances (fst dw) of
        None \<Rightarrow> acc
      | Some i \<Rightarrow>
          if snd dw \<le> 0 \<or> si_workloadUID i \<noteq> uid then acc
          else (let k = fst (currentKappa p i)
                in (f_add (fst acc) k, f_add (snd acc) (f_bmin k (f_div (f_mul rate (f_of_int (snd dw))) tot)))))"

definition bridgeFlow :: "capacityPlanner \<Rightarrow> string \<Rightarrow> f64 \<Rightarrow> route \<Rightarrow> (string \<times> SchedulerInstance) list \<Rightarrow> f64 \<times> f64" where
  "bridgeFlow p uid rate weights instances =
     (if f_eq (route_units weights) f_zero then (f_zero, f_zero)
      else foldl (flow_step p uid rate (route_units weights) instances) (f_zero, f_zero) weights)"

text \<open>When a handoff to these items may happen, and what it waits for.\<close>

definition handoff_start :: "schedulerBridgeCompiler \<Rightarrow> capacityItem list \<Rightarrow> f64 \<times> string list" where
  "handoff_start b items =
     foldl (\<lambda>(t, deps) item. case map_of (bk_prepares b) (ct_id item) of
         None \<Rightarrow> (t, deps)
       | Some prepare \<Rightarrow> if prepare = [] then (t, deps) else (f_max t (end_of b prepare), appendUnique deps [prepare]))
       (if bk_previous b \<noteq> [] then (end_of b (bk_previous b), [bk_previous b]) else (f_zero, [])) items"

definition handoff_safe :: "SchedulerSettings \<Rightarrow> capacityWorkload \<Rightarrow> f64 \<Rightarrow> f64 \<Rightarrow> f64 \<Rightarrow> bool" where
  "handoff_safe st demand kappa before backlog \<longleftrightarrow>
     (let f = st_transitionReserveFraction st; required = f_mul (cw_rate demand) (f_add f_one f) in
      \<not> (f_leq (cw_slack demand) f_zero \<or> f_less kappa (cw_rate demand) \<or> f_less (cw_slack demand) (f_div backlog kappa)
         \<or> f_less f_zero f \<and> (f_less before required \<or> f_less kappa required)))"

definition handoff_route :: "capacityItem list \<Rightarrow> int list \<Rightarrow> route" where
  "handoff_route items weights =
     List.map_filter (\<lambda>(item, w). if 0 < w then Some (ct_id item, w) else None) (zip items weights)"

definition handoff_stage :: "capacityPlanner \<Rightarrow> schedulerBridgeCompiler \<Rightarrow> string \<Rightarrow> (string \<times> SchedulerInstance) list \<Rightarrow> route
    \<Rightarrow> SchedulerCandidate" where
  "handoff_stage p b uid available rt =
     \<lparr>sc_id = [], sc_keep = False, sc_nodes = sc_nodes (bk_goal b),
      sc_instances = sort_by (\<lambda>x y. string_lt (si_id x) (si_id y)) (map snd available),
      sc_routing = put uid rt (bk_routing b), sc_actions = [], sc_status = [], sc_reasons = []\<rparr>"

definition bridge_action :: "capacityPlanner \<Rightarrow> SchedulerCandidate \<Rightarrow> string list \<Rightarrow> Action" where
  "bridge_action p stage deps =
     (let idn = ''bridge-'' @ cp_digest p (schedulerConfigKey stage) in
      \<lparr>ac_id = idn, ac_kind = schedulerActionRoute, ac_node = zero_node, ac_instance = [], ac_from = schedulerBridgeRoute,
       ac_to = schedulerConfigKey stage, ac_dependsOn = sort_by string_lt deps, ac_costID = [], ac_costProvenance = None,
       ac_expectedSeconds = None, ac_expectedSource = None,
       ac_routeTarget = Some \<lparr>rt_id = idn, rt_nodes = sc_nodes stage, rt_instances = sc_instances stage, rt_routing = sc_routing stage\<rparr>,
       ac_fixed = False, ac_status = schedulerActionPlanned, ac_elapsed = 0, ac_cancelable = False, ac_reason = [],
       ac_preparationFailure = None\<rparr>)"

text \<open>The stops of the workload wait for the route, which goes before the final one.\<close>

definition final_index :: "Action list \<Rightarrow> nat" where
  "final_index actions =
     (case find_index (\<lambda>a. ac_kind a = schedulerActionRoute \<and> ac_routeTarget a = None) actions of
        None \<Rightarrow> 0 | Some k \<Rightarrow> k)"

definition attach_stop :: "(string \<times> string) list \<Rightarrow> string \<Rightarrow> string \<Rightarrow> Action \<Rightarrow> Action" where
  "attach_stop blocked uid bridge a =
     (if map_of blocked (ac_id a) = Some uid then a\<lparr>ac_dependsOn := appendUnique (ac_dependsOn a) [bridge]\<rparr> else a)"

definition attach :: "schedulerBridgeCompiler \<Rightarrow> string \<Rightarrow> Action \<Rightarrow> f64 \<Rightarrow> routing \<Rightarrow> SchedulerBridgeStage \<Rightarrow> schedulerBridgeCompiler" where
  "attach b uid action start rts stage =
     (let actions = map (attach_stop (bk_blocked b) uid (ac_id action)) (bs_actions (bk_out b));
          ids = ac_id ` set (bs_actions (bk_out b))
      in b\<lparr>bk_out := (bk_out b)\<lparr>bs_actions := insert_at (final_index actions) action actions,
             bs_stages := bs_stages (bk_out b) @ [stage]\<rparr>,
           bk_blocked := filter (\<lambda>x. \<not> (fst x \<in> ids \<and> snd x = uid)) (bk_blocked b),
           bk_before := ac_id action # bk_before b, bk_ends := put (ac_id action) start (bk_ends b),
           bk_routing := rts, bk_previous := ac_id action\<rparr>)"

definition handoff :: "capacityPlanner \<Rightarrow> nat list \<Rightarrow> schedulerBridgeCompiler \<Rightarrow> capacityWorkload \<Rightarrow> schedulerBridgeCompiler option" where
  "handoff p choice b w =
     (let uid = df_uid (cw_d w); st = cp_settings p in
      case bridge_peers p b uid of
        (available, items) \<Rightarrow>
          (let kappa = kappa_sum items in
           if f_leq kappa f_zero then None
           else
             (case handoff_start b items of
                (start, deps) \<Rightarrow>
                  (let demand = fst (reductionDemand p w choice);
                       (before, served) = bridgeFlow p uid (cw_rate demand) (lookup_route (bk_routing b) uid) (bs_instances (bk_out b));
                       backlog = f_add (f_of_int (int (cw_queued w))) (f_mul (f_max f_zero (f_sub (cw_rate demand) served)) start)
                   in if \<not> handoff_safe st demand kappa before backlog then None
                      else
                        (case capacityWeights (cp_oor p) (cw_rate demand) items of
                           None \<Rightarrow> None
                         | Some (weights, _, ok) \<Rightarrow>
                             if \<not> ok then None
                             else
                               (let stage = handoff_stage p b uid available (handoff_route items weights);
                                    action = bridge_action p stage deps
                                in Some (attach b uid action start (sc_routing stage)
                                     \<lparr>bg_action = ac_id action, bg_uid = uid,
                                      bg_at = f_to_int64 (cp_oor p) (f_mul start (f_of_int 1000000000)), bg_demand = cw_rate demand,
                                      bg_backlog = backlog, bg_predictedKappa = kappa, bg_waitSeconds = f_div backlog kappa,
                                      bg_reserve = st_transitionReserveFraction st\<rparr>)))))))"

section \<open>Compilation\<close>

definition pending_handoff :: "schedulerBridgeCompiler \<Rightarrow> capacityWorkload \<Rightarrow> bool" where
  "pending_handoff b w \<longleftrightarrow> list_ex (\<lambda>x. snd x = df_uid (cw_d w)) (bk_blocked b)"

fun first_handoff :: "capacityPlanner \<Rightarrow> nat list \<Rightarrow> schedulerBridgeCompiler \<Rightarrow> capacityWorkload list \<Rightarrow> schedulerBridgeCompiler option" where
  "first_handoff p choice b [] = None"
| "first_handoff p choice b (w # ws) =
     (case (if pending_handoff b w then handoff p choice b w else None) of
        Some b1 \<Rightarrow> Some b1 | None \<Rightarrow> first_handoff p choice b ws)"

text \<open>Every handoff frees a stop, so as many rounds as blocked stops suffice.\<close>

fun compile_loop :: "nat \<Rightarrow> capacityPlanner \<Rightarrow> nat list \<Rightarrow> schedulerBridgeCompiler \<Rightarrow> schedulerBridgeCompiler option" where
  "compile_loop 0 p choice b = (if bk_blocked b = [] then Some (resolve_all p b) else None)"
| "compile_loop (Suc fuel) p choice b =
     (if bk_blocked b = [] then Some (resolve_all p b)
      else (case first_handoff p choice (resolve_all p b) (cp_ws p) of
          None \<Rightarrow> None | Some b1 \<Rightarrow> compile_loop fuel p choice b1))"

text \<open>When the node's first action before the route starts; 0 if it has none.\<close>

definition node_delay :: "capacityPlanner \<Rightarrow> schedulerBridgeCompiler \<Rightarrow> nat \<Rightarrow> f64" where
  "node_delay p b n =
     (let mine = filter (\<lambda>a. ac_id a \<in> set (bk_before b) \<and> ac_node a = sn_node (node_at p n)
            \<and> ac_status a \<noteq> schedulerActionComplete) (bs_actions (bk_out b));
          start = foldl (\<lambda>t a. f_bmin t (ready_at b (ac_dependsOn a))) f_inf mine
      in if start = f_inf then f_zero else start)"

definition compile :: "capacityPlanner \<Rightarrow> nat list \<Rightarrow> schedulerBridgeCompiler \<Rightarrow> string \<Rightarrow> schedulerBridgeSchedule option" where
  "compile p choice b0 final =
     (case compile_loop (length (bk_blocked b0)) p choice b0 of
        None \<Rightarrow> None
      | Some b \<Rightarrow>
          if list_ex (\<lambda>a. ac_id a \<in> set (bk_before b) \<and> map_of (bk_ends b) (ac_id a) = None) (bs_actions (bk_out b)) then None
          else
            (let deps = (case find (\<lambda>a. ac_id a = final) (bs_actions (bk_out b)) of None \<Rightarrow> [] | Some a \<Rightarrow> ac_dependsOn a)
             in Some ((bk_out b)\<lparr>bs_route := ready_at b deps, bs_delays := map (node_delay p b) (nodes_of choice)\<rparr>)))"

text \<open>The schedule (None when no bridge is needed) or the reason against the plan set.\<close>

definition needs_bridge :: "capacityPlanner \<Rightarrow> nat list \<Rightarrow> bool" where
  "needs_bridge p choice \<longleftrightarrow> list_ex (\<lambda>n. np_requiresBridge (pa_record (plan_at p choice n)) \<noteq> []) (nodes_of choice)"

definition short_of_window :: "capacityPlanner \<Rightarrow> nat list \<Rightarrow> capacityWorkload \<Rightarrow> bool" where
  "short_of_window p choice w \<longleftrightarrow>
     (case reductionDemand p w choice of
        (demand, slow) \<Rightarrow> slow \<and> f_less (foldl (\<lambda>t n. f_add t
            (lookup_f (np_kappa (pa_record (plan_at p choice n))) (df_uid (cw_d w)))) f_zero (nodes_of choice)) (cw_rate demand))"

definition bridgeSchedule :: "capacityPlanner \<Rightarrow> nat list \<Rightarrow> schedulerBridgeSchedule option \<times> string" where
  "bridgeSchedule p choice =
     (if \<not> needs_bridge p choice then (None, [])
      else if \<not> sk_routing (st_controls (cp_settings p)) then (None, schedulerRoutedStopsFirst)
      else if list_ex (short_of_window p choice) (cp_ws p) then (None, schedulerWindowCapacityInsufficient)
      else
        (case initialize p choice of
           None \<Rightarrow> (None, schedulerRoutedStopsFirst)
         | Some (b, final) \<Rightarrow>
             if physicalBudget p b \<noteq> [] then (None, physicalBudget p b)
             else (case compile p choice b final of
                 None \<Rightarrow> (None, schedulerRoutedStopsFirst) | Some o1 \<Rightarrow> (Some o1, []))))"

section \<open>Energy and actions of a schedule\<close>

text \<open>Request power under a route of the schedule: what it cannot serve counts at the final mean.\<close>

definition power_step :: "capacityPlanner \<Rightarrow> schedulerBridgeSchedule \<Rightarrow> f64 \<Rightarrow> f64 \<Rightarrow> f64 \<times> f64 \<Rightarrow> string \<times> int \<Rightarrow> f64 \<times> f64" where
  "power_step p o1 rate tot acc dw =
     (if snd dw \<le> 0 \<or> f_eq tot f_zero then acc
      else
        (let (k, e) = (case schedule_instance o1 (fst dw) of
               None \<Rightarrow> (f_zero, f_zero) | Some i \<Rightarrow> (fst (currentKappa p i), capacityInputEnergy i));
             flow = f_bmin k (f_div (f_mul rate (f_of_int (snd dw))) tot)
         in (f_add (fst acc) flow, f_add (snd acc) (f_mul flow e))))"

definition bridge_power :: "capacityPlanner \<Rightarrow> schedulerBridgeSchedule \<Rightarrow> f64 \<Rightarrow> f64 \<Rightarrow> route \<Rightarrow> f64" where
  "bridge_power p o1 rate mean weights =
     (case foldl (power_step p o1 rate (route_units weights)) (f_zero, f_zero) weights of
        (served, watts) \<Rightarrow> f_add watts (f_mul (f_max f_zero (f_sub rate served)) mean))"

text \<open>The route of a stage's action; the action of a stage is in the schedule with its route.\<close>

definition stage_weights :: "schedulerBridgeSchedule \<Rightarrow> SchedulerBridgeStage \<Rightarrow> route \<Rightarrow> route" where
  "stage_weights o1 g weights =
     (case find (\<lambda>a. ac_id a = bg_action g) (bs_actions o1) of
        None \<Rightarrow> weights
      | Some a \<Rightarrow> (case ac_routeTarget a of None \<Rightarrow> [] | Some t \<Rightarrow> lookup_route (rt_routing t) (bg_uid g)))"

text \<open>The loop over the stages of a workload: the time, the energy and the weights, and whether the window is over.\<close>

fun stage_loop :: "capacityPlanner \<Rightarrow> schedulerBridgeSchedule \<Rightarrow> f64 \<Rightarrow> f64 \<Rightarrow> f64 \<Rightarrow> f64 \<times> f64 \<times> route
    \<Rightarrow> SchedulerBridgeStage list \<Rightarrow> (f64 \<times> f64 \<times> route) \<times> bool" where
  "stage_loop p o1 rate mean window acc [] = (acc, False)"
| "stage_loop p o1 rate mean window (now, joules, weights) (g # gs) =
     (let until = f_bmin (Duration_Seconds (bg_at g)) window;
          joules1 = f_add joules (f_mul (bridge_power p o1 rate mean weights) (f_sub until now))
      in if f_leq window until then ((until, joules1, weights), True)
         else stage_loop p o1 rate mean window (until, joules1, stage_weights o1 g weights) gs)"

definition bridgeRequestJoules :: "capacityPlanner \<Rightarrow> schedulerBridgeSchedule \<Rightarrow> capacityWorkload \<Rightarrow> f64 \<Rightarrow> f64 \<Rightarrow> f64 \<Rightarrow> f64" where
  "bridgeRequestJoules p o1 w mean r window =
     (let uid = df_uid (cw_d w) in
      case stage_loop p o1 (cw_rate w) mean window (f_zero, f_zero, lookup_route (sc_routing (cp_keep p)) uid)
             (filter (\<lambda>g. bg_uid g = uid) (bs_stages o1)) of
        ((now, joules, weights), over) \<Rightarrow>
          if over then joules
          else f_add (f_add joules (f_mul (bridge_power p o1 (cw_rate w) mean weights) (f_max f_zero (f_sub (f_bmin r window) now))))
            (f_mul (f_mul (cw_rate w) mean) (f_max f_zero (f_sub window r))))"

text \<open>A node waits before its first action: until then it draws what it draws now.\<close>

definition nodeJoules :: "schedulerBridgeSchedule option \<Rightarrow> capacityPlan \<Rightarrow> nat \<Rightarrow> f64 \<Rightarrow> f64 \<Rightarrow> f64" where
  "nodeJoules b plan n r t =
     (case b of
        None \<Rightarrow> plan_energy plan r t
      | Some o1 \<Rightarrow>
          if pa_keep plan then plan_energy plan r t
          else
            (let delay = bs_delays o1 ! n in
             f_add (plan_energy plan r t) (f_sub (f_mul (pa_before plan) (f_bmin delay t))
               (f_mul (pa_mid plan) (f_bmin delay (f_max f_zero (f_sub (f_bmin r t) (pa_preMean plan))))))))"

definition actionsFor :: "schedulerBridgeSchedule option \<Rightarrow> SchedulerSettings \<Rightarrow> SchedulerSnapshot
    \<Rightarrow> SchedulerCandidate \<Rightarrow> Action list" where
  "actionsFor b st s target =
     (case b of
        None \<Rightarrow> schedulerPlan st s target
      | Some o1 \<Rightarrow> map (\<lambda>a. if ac_kind a = schedulerActionRoute \<and> ac_routeTarget a = None
            then a\<lparr>ac_to := schedulerConfigKey target\<rparr> else a) (bs_actions o1))"

end
