(* ===== verification/CapacityEval.thy ===== *)
theory CapacityEval
  imports CapacityBridge
begin

text \<open>
  One plan set evaluated exactly (\<open>evaluate\<close> of \<open>internal/serving/scheduler_capacity_evaluate.go\<close>): the
  judgment, the weights and the energy of every workload, what speaks against the set, and the
  order in which evaluated sets are preferred.
\<close>

section \<open>Results\<close>

record capacityResult =
  ev_choice :: "nat list"
  ev_route :: f64
  ev_keep :: bool
  ev_key :: string
  ev_joules :: f64
  ev_period :: f64
  ev_keepJoules :: f64
  ev_worst :: f64
  ev_excesses :: "f64 list"
  ev_feasible :: bool
  ev_final :: bool
  ev_weightsExceeded :: bool
  ev_unroutedPrepare :: bool
  ev_unroutes :: bool
  ev_judgments :: "capacityJudgment list"
  ev_weights :: "route list"
  ev_rows :: "string list list"
  ev_sums :: "(f64 \<times> f64) list"
  ev_unpaid :: "string list"
  ev_dwelling :: "string list"
  ev_withinUncertainty :: bool
  ev_gainUncertainty :: f64
  ev_exclusion :: string
  ev_reserves :: "SchedulerTransitionReserve list"
  ev_bridge :: "schedulerBridgeSchedule option"

definition new_result :: "nat list \<Rightarrow> f64 \<Rightarrow> schedulerBridgeSchedule option \<Rightarrow> capacityResult" where
  "new_result choice r bridge =
     \<lparr>ev_choice = choice, ev_route = r, ev_keep = False, ev_key = [], ev_joules = f_zero, ev_period = f_zero,
      ev_keepJoules = f_zero, ev_worst = f_zero, ev_excesses = [], ev_feasible = False, ev_final = False,
      ev_weightsExceeded = False, ev_unroutedPrepare = False, ev_unroutes = False, ev_judgments = [], ev_weights = [],
      ev_rows = [], ev_sums = [], ev_unpaid = [], ev_dwelling = [], ev_withinUncertainty = False,
      ev_gainUncertainty = f_zero, ev_exclusion = [], ev_reserves = [], ev_bridge = bridge\<rparr>"

text \<open>\<open>cmp.Or\<close> of two strings.\<close>

definition cmp_or :: "string \<Rightarrow> string \<Rightarrow> string" where
  "cmp_or a b = (if a \<noteq> [] then a else b)"

section \<open>One workload\<close>

text \<open>The route that the weights give; an item left at 0 that is new, or protected and routed, marks the result.\<close>

definition weight_step :: "capacityPlanner \<Rightarrow> capacityResult \<times> route \<Rightarrow> capacityItem \<times> int \<Rightarrow> capacityResult \<times> route" where
  "weight_step p acc iw =
     (case (acc, iw) of ((res, routes), (item, w)) \<Rightarrow>
        if 0 < w then (res, put (ct_id item) w routes)
        else (res\<lparr>ev_unroutedPrepare := ev_unroutedPrepare res \<or> ct_prepare item,
            ev_unroutes := ev_unroutes res \<or> cp_partial p \<and> schedulerInstanceRouted (sc_routing (cp_keep p)) (ct_id item)\<rparr>,
          routes))"

definition weightRoutes :: "capacityPlanner \<Rightarrow> capacityResult \<Rightarrow> capacityItem list \<Rightarrow> int list \<Rightarrow> capacityResult \<times> route" where
  "weightRoutes p res items weights = foldl (weight_step p) (res, []) (zip items weights)"

text \<open>
  The weights under routing control or without it. \<open>capacityWeights\<close> panics only on negative
  capacities (\<open>WeightProps\<close>), which no row has; the model then has no weights.
\<close>

definition planner_weights :: "capacityPlanner \<Rightarrow> f64 \<Rightarrow> capacityItem list \<Rightarrow> int list \<times> f64 list \<times> bool" where
  "planner_weights p rate items =
     (if sk_routing (st_controls (cp_settings p))
      then (case capacityWeights (cp_oor p) rate items of None \<Rightarrow> ([], [], False) | Some r \<Rightarrow> r)
      else capacityFixedWeights rate items)"

text \<open>A weight past its capacity fails the final judgment by that excess.\<close>

definition excess_step :: "f64 \<Rightarrow> f64 \<Rightarrow> f64 \<Rightarrow> capacityItem \<times> int \<Rightarrow> f64" where
  "excess_step rate tot worst iw =
     (case iw of (item, w) \<Rightarrow>
        if w = 0 then worst
        else f_max worst (if f_less f_zero (ct_kappa item)
          then f_sub (f_div (f_div (f_mul rate (f_of_int w)) tot) (ct_kappa item)) f_one else f_inf))"

definition weight_units :: "int list \<Rightarrow> f64" where
  "weight_units weights = foldl (\<lambda>t w. f_add t (f_of_int w)) f_zero weights"

text \<open>What the load serves and its mean energy per input.\<close>

definition served_mean :: "capacityItem list \<Rightarrow> f64 list \<Rightarrow> f64 \<times> f64" where
  "served_mean items ys =
     (case foldl (\<lambda>acc iy. (f_add (fst acc) (snd iy), f_add (snd acc) (f_mul (snd iy) (ct_e (fst iy)))))
         (f_zero, f_zero) (zip items ys) of
        (served, mean) \<Rightarrow> (served, if f_less f_zero served then f_div mean served else mean))"

definition initial_power :: "f64 \<Rightarrow> f64 \<Rightarrow> f64 \<Rightarrow> capacityItem list \<Rightarrow> f64" where
  "initial_power rate kret tot retained =
     (if f_less f_zero tot
      then foldl (\<lambda>t x. f_add t (f_mul (f_div (f_mul (f_bmin rate kret) (f_of_int (ct_weight x))) tot) (ct_e x)))
             f_zero retained
      else f_zero)"

definition request_joules :: "capacityPlanner \<Rightarrow> schedulerBridgeSchedule option \<Rightarrow> capacityWorkload \<Rightarrow> f64 \<Rightarrow> f64 \<Rightarrow> f64
    \<Rightarrow> f64 \<Rightarrow> f64 \<Rightarrow> f64 \<Rightarrow> f64" where
  "request_joules p bridge ws kret initial served mean r t =
     (case bridge of
        Some o1 \<Rightarrow> bridgeRequestJoules p o1 ws mean r t
      | None \<Rightarrow>
          (let before = f_bmin r t; rate = cw_rate ws in
           f_add (f_add (f_mul initial before) (f_mul (f_mul (f_max f_zero (f_sub rate kret)) before) mean))
             (f_mul (f_add (f_mul served mean) (f_mul (f_max f_zero (f_sub rate served)) mean)) (f_max f_zero (f_sub t r)))))"

text \<open>The items of a workload over the nodes of a plan set.\<close>

definition set_items :: "capacityPlanner \<Rightarrow> nat list \<Rightarrow> nat \<Rightarrow> capacityItem list" where
  "set_items p choice w = sort_by item_less (concat (map (\<lambda>n. pa_items (plan_at p choice n) ! w) (nodes_of choice)))"

definition set_retained :: "capacityPlanner \<Rightarrow> nat list \<Rightarrow> nat \<Rightarrow> capacityItem list" where
  "set_retained p choice w = concat (map (\<lambda>n. pa_retained (plan_at p choice n) ! w) (nodes_of choice))"

text \<open>Any order among equal items is the same list: the sort key is the energy and the ID.\<close>

definition judge_workload :: "capacityPlanner \<Rightarrow> nat list \<Rightarrow> f64 \<Rightarrow> schedulerBridgeSchedule option \<Rightarrow> f64
    \<Rightarrow> capacityResult \<Rightarrow> nat \<Rightarrow> capacityResult" where
  "judge_workload p choice r bridge t res w =
     (let ws = cp_ws p ! w;
          items = set_items p choice w;
          retained = set_retained p choice w;
          kret = kappa_sum retained;
          weightSum = weight_units (map ct_weight retained)
      in case admissionDemand p ws choice kret of (demand, slow, recovery, protected) \<Rightarrow>
         case planner_weights p protected items of (weights, ys, ok) \<Rightarrow>
         case weightRoutes p res items weights of (res1, routes) \<Rightarrow>
         case capacityPositiveSupply items weights protected (cw_rate demand) of (knew, margin) \<Rightarrow>
           (let ok1 = (ok \<and> margin);
                j = capacityJudge demand knew kret (routes \<noteq> []) r;
                worst = (if ok1 then judgment_worst j
                  else foldl (excess_step (cw_rate demand) (weight_units weights)) (judgment_worst j) (zip items weights));
                j1 = (if ok1 then j else j\<lparr>jd_satisfied := False\<rparr>);
                final = (ok1 \<and> (case jd_final j of None \<Rightarrow> False | Some x \<Rightarrow> f_leq x f_zero));
                (served, mean) = served_mean items (capacityEnergyLoad ys (cw_rate ws) protected);
                initial = initial_power (cw_rate ws) kret weightSum retained
            in res1\<lparr>ev_weightsExceeded := ev_weightsExceeded res1 \<or> \<not> ok1,
                 ev_exclusion := cmp_or (ev_exclusion res1)
                   (timingReason p ws slow (recovery \<and> jd_satisfied j1) (jd_satisfied j1) routes),
                 ev_feasible := ev_feasible res1 \<and> jd_satisfied j1,
                 ev_final := ev_final res1 \<and> final,
                 ev_worst := f_max (ev_worst res1) worst,
                 ev_excesses := ev_excesses res1 @ [worst],
                 ev_joules := f_add (ev_joules res1) (request_joules p bridge ws kret initial served mean r t),
                 ev_judgments := ev_judgments res1 @ [j1],
                 ev_weights := ev_weights res1 @ [routes],
                 ev_rows := ev_rows res1 @ [map ct_row items],
                 ev_sums := ev_sums res1 @ [(knew, kret)]\<rparr>))"

section \<open>A plan set\<close>

definition set_key :: "capacityPlanner \<Rightarrow> nat list \<Rightarrow> string" where
  "set_key p choice = join ''|'' (map (\<lambda>n. nr_uid (sn_node (node_at p n)) @ ''='' @ np_key (pa_record (plan_at p choice n)))
     (nodes_of choice))"

definition node_joules :: "capacityPlanner \<Rightarrow> nat list \<Rightarrow> schedulerBridgeSchedule option \<Rightarrow> f64 \<Rightarrow> f64 \<Rightarrow> f64" where
  "node_joules p choice bridge r t =
     foldl (\<lambda>j n. if cp_compared p ! n then f_add j (nodeJoules bridge (plan_at p choice n) n r t) else j)
       f_zero (nodes_of choice)"

definition start_result :: "capacityPlanner \<Rightarrow> nat list \<Rightarrow> f64 \<Rightarrow> schedulerBridgeSchedule option \<Rightarrow> f64 \<Rightarrow> capacityResult" where
  "start_result p choice r bridge t =
     (new_result choice r bridge)\<lparr>ev_period := t,
       ev_keep := list_all (\<lambda>n. pa_keep (plan_at p choice n)) (nodes_of choice),
       ev_joules := node_joules p choice bridge r t, ev_feasible := True, ev_final := True, ev_worst := Inf True\<rparr>"

definition evaluateAtWindow :: "capacityPlanner \<Rightarrow> nat list \<Rightarrow> f64 \<Rightarrow> schedulerBridgeSchedule option \<Rightarrow> f64 \<Rightarrow> capacityResult" where
  "evaluateAtWindow p choice r bridge t =
     (let res = foldl (judge_workload p choice r bridge t) (start_result p choice r bridge t) [0..<length (cp_ws p)] in
      case transitionConstraints p choice of
        (reason, reserves) \<Rightarrow>
          res\<lparr>ev_exclusion := cmp_or (ev_exclusion res) reason, ev_reserves := reserves,
            ev_excesses := sort_by (\<lambda>a b. f_cmp_less b a) (ev_excesses res), ev_key := set_key p choice\<rparr>)"

definition evaluateAtRoute :: "capacityPlanner \<Rightarrow> nat list \<Rightarrow> f64 \<Rightarrow> schedulerBridgeSchedule option \<Rightarrow> capacityResult" where
  "evaluateAtRoute p choice r bridge =
     (let res = evaluateAtWindow p choice r bridge (cp_period p) in
      res\<lparr>ev_keepJoules := (if ev_keep res then ev_joules res else f_mul (cp_keepWatts p) (cp_period p))\<rparr>)"

definition evaluate :: "capacityPlanner \<Rightarrow> nat list \<Rightarrow> f64 \<Rightarrow> capacityResult" where
  "evaluate p choice r =
     (case bridgeSchedule p choice of
        (bridge, reason) \<Rightarrow>
          (let r1 = (case bridge of None \<Rightarrow> r | Some o1 \<Rightarrow> bs_route o1) in
           if reason \<noteq> []
           then (new_result choice r1 bridge)\<lparr>ev_exclusion := reason, ev_worst := f_inf,
               ev_excesses := replicate (length (cp_ws p)) f_inf\<rparr>
           else evaluateAtRoute p choice r1 bridge))"

text \<open>The route time of a plan set: its longest chain before the route.\<close>

definition routeOf :: "capacityPlanner \<Rightarrow> nat list \<Rightarrow> f64" where
  "routeOf p choice =
     foldl (\<lambda>r n. if pa_keep (plan_at p choice n) then r else f_max r (pa_preMax (plan_at p choice n))) f_zero (nodes_of choice)"

section \<open>Preference\<close>

text \<open>\<open>slices.Compare\<close> of floats: the first difference by \<open>cmp.Compare\<close> decides, then the length.\<close>

definition f_cmp :: "f64 \<Rightarrow> f64 \<Rightarrow> int" where
  "f_cmp a b = (if f_cmp_less a b then - 1 else if f_cmp_less b a then 1 else 0)"

fun compare_excesses :: "f64 list \<Rightarrow> f64 list \<Rightarrow> int" where
  "compare_excesses [] ys = (if ys = [] then 0 else - 1)"
| "compare_excesses (x # xs) [] = 1"
| "compare_excesses (x # xs) (y # ys) = (if f_cmp x y \<noteq> 0 then f_cmp x y else compare_excesses xs ys)"

definition gain :: "capacityResult \<Rightarrow> f64" where
  "gain a = f_sub (ev_joules a) (ev_keepJoules a)"

definition better_result :: "capacityResult \<Rightarrow> capacityResult \<Rightarrow> bool" where
  "better_result a b =
     (if ev_feasible a \<noteq> ev_feasible b then ev_feasible a
      else if \<not> ev_feasible a \<and> ev_final a \<noteq> ev_final b then ev_final a
      else if \<not> ev_feasible a \<and> compare_excesses (ev_excesses a) (ev_excesses b) \<noteq> 0
      then compare_excesses (ev_excesses a) (ev_excesses b) < 0
      else if \<not> f_eq (gain a) (gain b) then f_less (gain a) (gain b)
      else if ev_keep a \<noteq> ev_keep b then ev_keep a
      else string_lt (ev_key a) (ev_key b))"

definition better :: "capacityResult \<Rightarrow> capacityResult option \<Rightarrow> bool" where
  "better a b = (case b of None \<Rightarrow> True | Some r \<Rightarrow> better_result a r)"

section \<open>Construction of the plans\<close>

definition schedulerTransitionHorizon :: string where
  "schedulerTransitionHorizon = ''TransitionExceedsHorizon''"

text \<open>A chain longer than the comparison period is only marked: the plan stays eligible.\<close>

definition mark_horizon :: "f64 \<Rightarrow> capacityPlan \<Rightarrow> capacityPlan" where
  "mark_horizon period plan =
     (if np_eligible (pa_record plan) \<and> f_less period (f_add (pa_preMax plan) (pa_postMax plan))
      then plan\<lparr>pa_record := (pa_record plan)\<lparr>np_reason := schedulerTransitionHorizon\<rparr>\<rparr> else plan)"

definition built_plans :: "capacityPlanner \<Rightarrow> f64 \<Rightarrow> nat \<Rightarrow> capacityPlan list" where
  "built_plans p period n =
     (case nodePlans p n (sc_nodes (cp_keep p)) of [] \<Rightarrow> [] | keep # rest \<Rightarrow> keep # map (mark_horizon period) rest)"

text \<open>Every node's plans, the nodes compared, and the energy of keep in one second. A cancelled context ends the decision without a result.\<close>

definition planner_build :: "capacityPlanner \<Rightarrow> capacityPlanner" where
  "planner_build p =
     (let period = Duration_Seconds (st_comparisonPeriod (cp_settings p));
          plans = map (built_plans p period) [0..<length (ss_nodes (cp_snapshot p))];
          p1 = p\<lparr>cp_period := period, cp_plans := plans,
            cp_compared := map (\<lambda>xs. list_ex (\<lambda>plan. np_eligible (pa_record plan)) (tl xs)) plans,
            cp_examined := cp_examined p + sum_list (map length plans)\<rparr>;
          keep = evaluateAtWindow p1 (keep_choice p1) f_zero None f_one
      in p1\<lparr>cp_keepWatts := ev_joules keep, cp_keepFeasible := ev_feasible keep\<rparr>)"

end
