(* ===== verification/CapacitySearch.thy ===== *)
theory CapacitySearch
  imports CapacityEval
begin

text \<open>
  The neighbourhood search over plan sets (\<open>internal/serving/scheduler_capacity_search.go\<close>, with the
  gain bounds of \<open>scheduler_capacity_cost.go\<close>). What the goroutines of a sweep do to each other and
  when the deadline falls is an environment: which first moves each worker took, in its order, and
  after how many visits it saw the cut. The theorems hold for every environment.
\<close>

section \<open>Admission\<close>

text \<open>The bounds of a transition against keep: signed exposures to the same evidence cancel first.\<close>

definition bridge_bounds :: "capacityPlan \<Rightarrow> f64 \<Rightarrow> f64 \<Rightarrow> f64 \<Rightarrow> schedulerEnergyBounds \<Rightarrow> schedulerEnergyBounds" where
  "bridge_bounds plan delay r t bounds =
     add_baseline f_one (pa_midBound plan) (f_bmin delay (f_max f_zero (f_sub (f_bmin r t) (pa_preMean plan))))
       (add_baseline (f_neg f_one) (pa_beforeBound plan) (f_bmin delay t) bounds)"

definition gain_step :: "capacityPlanner \<Rightarrow> capacityResult \<Rightarrow> capacityResult \<Rightarrow> schedulerEnergyBounds \<Rightarrow> nat \<Rightarrow> schedulerEnergyBounds" where
  "gain_step p keep best bounds n =
     (if \<not> cp_compared p ! n then bounds
      else
        (let plan = plan_at p (ev_choice best) n;
             b1 = addBounds (plan_at p (ev_choice keep) n) (ev_route keep) (ev_period best) f_one bounds;
             b2 = addBounds plan (ev_route best) (ev_period best) (f_neg f_one) b1
         in case ev_bridge best of
              None \<Rightarrow> b2
            | Some o1 \<Rightarrow> if pa_keep plan then b2 else bridge_bounds plan (bs_delays o1 ! n) (ev_route best) (ev_period best) b2))"

definition gainBound :: "capacityPlanner \<Rightarrow> capacityResult \<Rightarrow> capacityResult \<Rightarrow> f64" where
  "gainBound p keep best = halfWidth (foldl (gain_step p keep best) [] (nodes_of (ev_choice best)))"

text \<open>A retirement needs a feasible target, and a gain beyond its bounds unless keep is not feasible.\<close>

definition retires_some :: "capacityPlanner \<Rightarrow> nat list \<Rightarrow> bool" where
  "retires_some p choice \<longleftrightarrow> list_ex (\<lambda>n. pa_retires (plan_at p choice n)) (nodes_of choice)"

definition admits :: "capacityPlanner \<Rightarrow> capacityResult \<Rightarrow> bool" where
  "admits p res \<longleftrightarrow> ev_exclusion res = [] \<and> \<not> ev_unroutedPrepare res \<and> \<not> ev_unroutes res
     \<and> (retires_some p (ev_choice res) \<longrightarrow> ev_feasible res
        \<and> (cp_keepFeasible p \<longrightarrow> \<not> f_leq (ev_keepJoules res) (ev_joules res)
           \<and> f_less (gainBound p (new_result (keep_choice p) f_zero None) res) (f_sub (ev_keepJoules res) (ev_joules res))))"

section \<open>A sweep\<close>

text \<open>The moves: one eligible plan of one node, by node and plan.\<close>

definition node_moves :: "capacityPlanner \<Rightarrow> nat list \<Rightarrow> nat \<Rightarrow> (nat \<times> nat) list" where
  "node_moves p choice n =
     map (Pair n) (filter (\<lambda>j. j \<noteq> choice ! n \<and> np_eligible (pa_record (cp_plans p ! n ! j))) [0..<length (cp_plans p ! n)])"

definition moves :: "capacityPlanner \<Rightarrow> nat list \<Rightarrow> (nat \<times> nat) list" where
  "moves p choice = concat (map (node_moves p choice) [0..<length (cp_plans p)])"

text \<open>
  The plan sets \<open>walk\<close> visits, in its order: the set with the move, then those with a later move of
  another node, up to \<open>left\<close> moves deep.
\<close>

fun walk :: "(nat \<times> nat) list \<Rightarrow> nat \<Rightarrow> nat list \<Rightarrow> nat \<Rightarrow> nat list list" where
  "walk ms 0 c i = [c[fst (ms ! i) := snd (ms ! i)]]"
| "walk ms (Suc left) c i =
     (let c1 = c[fst (ms ! i) := snd (ms ! i)] in
      c1 # concat (map (\<lambda>i2. if fst (ms ! i2) = fst (ms ! i) then [] else walk ms left c1 i2) [Suc i..<length ms]))"

text \<open>What one worker has so far.\<close>

record sweepWorker =
  sw_best :: "capacityResult option"
  sw_count :: nat
  sw_excluded :: "(string \<times> nat) list"
  sw_rejections :: "(string \<times> SchedulerTransitionReserve) list"

definition new_worker :: sweepWorker where
  "new_worker = \<lparr>sw_best = None, sw_count = 0, sw_excluded = [], sw_rejections = []\<rparr>"

definition add_count :: "(string \<times> nat) list \<Rightarrow> string \<Rightarrow> nat \<Rightarrow> (string \<times> nat) list" where
  "add_count m k n = put k ((case map_of m k of None \<Rightarrow> 0 | Some x \<Rightarrow> x) + n) m"

definition evaluated :: "capacityPlanner \<Rightarrow> nat list \<Rightarrow> capacityResult" where
  "evaluated p c = evaluate p c (routeOf p c)"

definition keep_better :: "capacityPlanner \<Rightarrow> capacityResult option \<Rightarrow> capacityResult \<Rightarrow> capacityResult option" where
  "keep_better p b res = (if admits p res \<and> better res b then Some res else b)"

definition visit_set :: "capacityPlanner \<Rightarrow> sweepWorker \<Rightarrow> nat list \<Rightarrow> sweepWorker" where
  "visit_set p w c =
     (if \<not> bounded p c then w
      else
        (let res = evaluated p c in
         \<lparr>sw_best = keep_better p (sw_best w) res, sw_count = Suc (sw_count w),
          sw_excluded = (if ev_exclusion res \<noteq> [] then add_count (sw_excluded w) (ev_exclusion res) 1 else sw_excluded w),
          sw_rejections = reserveRejections (sw_rejections w) (ev_reserves res) (ev_key res)\<rparr>))"

text \<open>
  The environment of a sweep: for every worker the first moves it took and, if the deadline fell,
  how many plan sets it visited before it saw the cut; and whether the context was cancelled. A counter
  value past the moves is not walked.
\<close>

record sweepEnv =
  en_workers :: "(nat list \<times> nat option) list"
  en_cancelled :: bool

definition visited :: "(nat \<times> nat) list \<Rightarrow> nat \<Rightarrow> nat list \<Rightarrow> nat list \<times> nat option \<Rightarrow> nat list list" where
  "visited ms k choice tc =
     (let sets = concat (map (walk ms (k - 1) choice) (filter (\<lambda>i. i < length ms) (fst tc)))
      in case snd tc of None \<Rightarrow> sets | Some limit \<Rightarrow> take limit sets)"

definition run_worker :: "capacityPlanner \<Rightarrow> (nat \<times> nat) list \<Rightarrow> nat \<Rightarrow> nat list \<Rightarrow> nat list \<times> nat option \<Rightarrow> sweepWorker" where
  "run_worker p ms k choice tc = foldl (visit_set p) new_worker (visited ms k choice tc)"

definition env_cut :: "sweepEnv \<Rightarrow> bool" where
  "env_cut e \<longleftrightarrow> list_ex (\<lambda>tc. snd tc \<noteq> None) (en_workers e)"

text \<open>The best of the workers, in their order.\<close>

definition merge_best :: "capacityResult option \<Rightarrow> sweepWorker \<Rightarrow> capacityResult option" where
  "merge_best b w = (case sw_best w of None \<Rightarrow> b | Some r \<Rightarrow> if better r b then Some r else b)"

definition record_worker :: "SchedulerPlanSearch \<Rightarrow> sweepWorker \<Rightarrow> SchedulerPlanSearch" where
  "record_worker sd w =
     sd\<lparr>ps_evaluated := ps_evaluated sd + sw_count w,
       ps_excluded := foldl (\<lambda>m kn. add_count m (fst kn) (snd kn)) (ps_excluded sd) (sw_excluded w),
       ps_reserveRejections := foldl (\<lambda>m kr. reserveRejections m [snd kr] []) (ps_reserveRejections sd) (sw_rejections w)\<rparr>"

text \<open>None when the context was cancelled.\<close>

definition sweep :: "capacityPlanner \<Rightarrow> sweepEnv \<Rightarrow> SchedulerPlanSearch \<Rightarrow> nat list \<Rightarrow> nat
    \<Rightarrow> (SchedulerPlanSearch \<times> capacityResult option) option" where
  "sweep p e sd choice k =
     (if en_cancelled e then None
      else
        (let workers = map (run_worker p (moves p choice) k choice) (en_workers e)
         in Some ((foldl record_worker sd workers)\<lparr>ps_budgetCut := env_cut e\<rparr>, foldl merge_best None workers)))"

text \<open>The workers share the moves out between them.\<close>

definition fair_env :: "nat \<Rightarrow> sweepEnv \<Rightarrow> bool" where
  "fair_env n e \<longleftrightarrow> set (concat (map fst (en_workers e))) = {..<n} \<and> \<not> en_cancelled e \<and> \<not> env_cut e"

section \<open>The search\<close>

definition changed_nodes :: "capacityPlanner \<Rightarrow> nat list \<Rightarrow> nat list \<Rightarrow> NodeReference list" where
  "changed_nodes p c c0 = map (\<lambda>n. sn_node (node_at p n)) (filter (\<lambda>n. c ! n \<noteq> c0 ! n) (nodes_of c))"

definition step_record :: "string \<Rightarrow> nat \<Rightarrow> NodeReference list \<Rightarrow> nat \<Rightarrow> capacityResult \<Rightarrow> SchedulerPlanSearchStep" where
  "step_record start k nodes n r =
     \<lparr>pt_start = start, pt_k = k, pt_changedNodes = nodes, pt_joules = ev_joules r, pt_feasible = ev_feasible r,
      pt_final = ev_final r, pt_keepJoules = ev_keepJoules r, pt_evaluated = n, pt_budgetCut = False\<rparr>"

text \<open>
  The state of the search: the record, the end of each start and how many sweeps were made. One
  start climbs until a sweep finds nothing better or is cut. \<open>en\<close> gives the environment of each sweep, by its number.
\<close>

record searchState =
  sx_searched :: SchedulerPlanSearch
  sx_ends :: "capacityResult list"
  sx_sweeps :: nat

definition start_names :: "string list" where
  "start_names = [''keep'', ''empty'']"

definition accept_step :: "capacityPlanner \<Rightarrow> nat \<Rightarrow> nat \<Rightarrow> nat \<Rightarrow> SchedulerPlanSearch \<Rightarrow> capacityResult \<Rightarrow> searchState \<Rightarrow> searchState" where
  "accept_step p k s before sd step x =
     x\<lparr>sx_searched := sd\<lparr>ps_steps := ps_steps sd @
          [step_record (start_names ! s) k (changed_nodes p (ev_choice step) (ev_choice (sx_ends x ! s))) (ps_evaluated sd - before) step]\<rparr>,
       sx_ends := (sx_ends x)[s := step], sx_sweeps := Suc (sx_sweeps x)\<rparr>"

definition reject_sweep :: "nat \<Rightarrow> SchedulerPlanSearch \<Rightarrow> searchState \<Rightarrow> searchState" where
  "reject_sweep before sd x =
     x\<lparr>sx_searched := sd\<lparr>ps_trailingEvaluated := ps_trailingEvaluated sd + (ps_evaluated sd - before)\<rparr>,
       sx_sweeps := Suc (sx_sweeps x)\<rparr>"

text \<open>The environment of a sweep knows how many moves there are to take.\<close>

type_synonym sweepEnvs = "nat \<Rightarrow> nat \<Rightarrow> sweepEnv"

definition env_of :: "sweepEnvs \<Rightarrow> capacityPlanner \<Rightarrow> searchState \<Rightarrow> nat \<Rightarrow> sweepEnv" where
  "env_of en p x s = en (sx_sweeps x) (length (moves p (ev_choice (sx_ends x ! s))))"

text \<open>The value None of the inner option is a cancelled context; that the loop ends is a theorem.\<close>

partial_function (option) climb :: "capacityPlanner \<Rightarrow> sweepEnvs \<Rightarrow> nat \<Rightarrow> nat \<Rightarrow> searchState \<Rightarrow> searchState option option" where
  [code]: "climb p en k s x =
     (if ps_budgetCut (sx_searched x) then Some (Some x)
      else
        (let before = ps_evaluated (sx_searched x) in
         case sweep p (env_of en p x s) (sx_searched x) (ev_choice (sx_ends x ! s)) k of
           None \<Rightarrow> Some None
         | Some (sd, found) \<Rightarrow>
             (case found of
                None \<Rightarrow> Some (Some (reject_sweep before sd x))
              | Some step \<Rightarrow>
                  if \<not> better_result step (sx_ends x ! s) then Some (Some (reject_sweep before sd x))
                  else climb p en k s (accept_step p k s before sd step x))))"

text \<open>The loop over the starts for one neighbourhood, then the two neighbourhoods.\<close>

fun climb_starts :: "capacityPlanner \<Rightarrow> sweepEnvs \<Rightarrow> nat \<Rightarrow> nat list \<Rightarrow> searchState \<Rightarrow> searchState option option" where
  "climb_starts p en k [] x = Some (Some x)"
| "climb_starts p en k (s # ss) x =
     (case climb p en k s x of
        None \<Rightarrow> None
      | Some None \<Rightarrow> Some None
      | Some (Some x1) \<Rightarrow> climb_starts p en k ss x1)"

fun neighbourhoods :: "capacityPlanner \<Rightarrow> sweepEnvs \<Rightarrow> nat list \<Rightarrow> searchState \<Rightarrow> searchState option option" where
  "neighbourhoods p en [] x = Some (Some x)"
| "neighbourhoods p en (k # ks) x =
     (if ps_budgetCut (sx_searched x) then Some (Some x)
      else
        (case climb_starts p en k [0..<length (sx_ends x)] (x\<lparr>sx_searched := (sx_searched x)\<lparr>ps_neighborhood := k\<rparr>\<rparr>) of
           None \<Rightarrow> None
         | Some None \<Rightarrow> Some None
         | Some (Some x1) \<Rightarrow> neighbourhoods p en ks x1))"

text \<open>The starts: keep, and every node emptied.\<close>

definition empty_choice :: "capacityPlanner \<Rightarrow> nat list" where
  "empty_choice p = map (\<lambda>plans. case find_index (\<lambda>plan. np_eligible (pa_record plan) \<and> pa_instances plan = []) plans of
     None \<Rightarrow> 0 | Some j \<Rightarrow> j) (cp_plans p)"

definition start_record :: "string \<Rightarrow> capacityResult \<Rightarrow> SchedulerPlanSearchStep" where
  "start_record name r = step_record name 0 [] 0 r"

definition seed_planner :: "capacityPlanner \<Rightarrow> capacityPlanner" where
  "seed_planner p =
     (let keep = evaluated p (keep_choice p) in p\<lparr>cp_keepWatts := f_div (ev_joules keep) (ev_period keep)\<rparr>)"

definition search_start :: "capacityPlanner \<Rightarrow> searchState" where
  "search_start p =
     (let keep = evaluated p (keep_choice p);
          p1 = seed_planner p;
          ends = (if empty_choice p = keep_choice p then [keep] else [keep, evaluated p1 (empty_choice p)])
      in \<lparr>sx_searched = (cp_searched p)\<lparr>ps_steps := ps_steps (cp_searched p) @ map2 start_record start_names ends\<rparr>,
          sx_ends = ends, sx_sweeps = 0\<rparr>)"

definition best_end :: "capacityPlanner \<Rightarrow> capacityResult list \<Rightarrow> capacityResult" where
  "best_end p ends =
     foldl (\<lambda>best r. if bounded p (ev_choice r) \<and> admits p r \<and> better_result r best then r else best) (hd ends) (tl ends)"

fun mark_last :: "SchedulerPlanSearchStep list \<Rightarrow> SchedulerPlanSearchStep list" where
  "mark_last [] = []"
| "mark_last [x] = [x\<lparr>pt_budgetCut := True\<rparr>]"
| "mark_last (x # y # xs) = x # mark_last (y # xs)"

definition finish_search :: "SchedulerPlanSearch \<Rightarrow> SchedulerPlanSearch" where
  "finish_search sd =
     (if ps_budgetCut sd then sd\<lparr>ps_terminationReason := ''budgetCut'', ps_steps := mark_last (ps_steps sd)\<rparr>
      else sd\<lparr>ps_terminationReason := ''noImprovement''\<rparr>)"

definition search_end :: "capacityPlanner \<Rightarrow> searchState \<Rightarrow> capacityPlanner \<times> capacityResult" where
  "search_end p x = (p\<lparr>cp_searched := finish_search (sx_searched x)\<rparr>, best_end p (sx_ends x))"

text \<open>The planner with its record, and the result; the inner None is a cancelled context.\<close>

definition search :: "capacityPlanner \<Rightarrow> sweepEnvs \<Rightarrow> (capacityPlanner \<times> capacityResult) option option" where
  "search p en =
     (let p1 = seed_planner p in
      map_option (map_option (search_end p1)) (neighbourhoods p1 en [2, 3] (search_start p)))"

end
