(* ===== verification/CapacityTempo.thy ===== *)
theory CapacityTempo
  imports CapacityPlanner
begin

text \<open>
  The pace of scaling down (\<open>SchedulerTempo\<close> of \<open>internal/serving/scheduler_tempo.go\<close>): one demand
  window per controlled workload, kept by the controller from one observation to the next, and the
  states and the permission for empty nodes that it writes into the snapshot.
\<close>

section \<open>State\<close>

text \<open>\<open>te_windows\<close> is None before the first observation.\<close>

record SchedulerTempo =
  te_settings :: SchedulerSettings
  te_at :: instant
  te_windows :: "(string \<times> schedulerDemandWindow) list option"
  te_membershipSince :: instant

definition empty_candidate :: SchedulerCandidate where
  "empty_candidate = \<lparr>sc_id = [], sc_keep = False, sc_nodes = [], sc_instances = [], sc_routing = [], sc_actions = [],
     sc_status = [], sc_reasons = []\<rparr>"

definition tempoSupply :: "capacityPlanner \<Rightarrow> string \<Rightarrow> f64" where
  "tempoSupply p uid =
     foldl (\<lambda>t i. f_add t (fst (currentKappa p i))) f_zero
       (filter (\<lambda>i. si_workloadUID i = uid \<and> si_ready i \<and> \<not> si_stopped i \<and> uid \<in> set (si_routable i)
          \<and> schedulerInstanceRouted (ss_routing (cp_snapshot p)) (si_id i)) (ss_instances (cp_snapshot p)))"

section \<open>An observation\<close>

text \<open>
  What holds for all workloads of an observation: other settings than before, a gap since the last
  one, and an observation that may be sampled.
\<close>

record tempoSigns =
  tg_reset :: bool
  tg_gap :: bool
  tg_normal :: bool

definition tempo_signs :: "SchedulerTempo \<Rightarrow> SchedulerSettings \<Rightarrow> SchedulerSnapshot \<Rightarrow> SchedulerSearch \<Rightarrow> tempoSigns" where
  "tempo_signs t st s se =
     \<lparr>tg_reset = (te_windows t = None \<or> te_settings t \<noteq> st),
      tg_gap = (\<not> is_zero_time (te_at t)
        \<and> (ss_at s < te_at t \<or> st_maxObservationAge st + st_controlInterval st < time_sub (ss_at s) (te_at t))),
      tg_normal = (ss_reasons s = []
        \<and> min (st_observationWindow st) (st_controlInterval st) \<le> time_sub (se_windowEnd se) (se_windowStart se))\<rparr>"

definition tempo_windows :: "SchedulerTempo \<Rightarrow> (string \<times> schedulerDemandWindow) list" where
  "tempo_windows t = (case te_windows t of None \<Rightarrow> [] | Some m \<Rightarrow> m)"

definition same_uids :: "SchedulerTempo \<Rightarrow> string list \<Rightarrow> bool" where
  "same_uids t uids \<longleftrightarrow> length (tempo_windows t) = length uids
     \<and> list_all (\<lambda>uid. map_of (tempo_windows t) uid \<noteq> None) uids"

text \<open>The window to sample into: the old one, or a fresh one that starts now.\<close>

definition tempo_window :: "SchedulerTempo \<Rightarrow> tempoSigns \<Rightarrow> instant \<Rightarrow> string \<Rightarrow> schedulerDemandWindow" where
  "tempo_window t g now uid =
     (case map_of (tempo_windows t) uid of
        None \<Rightarrow> \<lparr>dw_since = now, dw_samples = []\<rparr>
      | Some w \<Rightarrow> if tg_reset g \<or> tg_gap g \<or> \<not> tg_normal g \<or> dw_samples w = []
          then \<lparr>dw_since = now, dw_samples = []\<rparr> else w)"

definition reset_reason :: "SchedulerTempo \<Rightarrow> tempoSigns \<Rightarrow> string \<Rightarrow> string" where
  "reset_reason t g uid =
     (if map_of (tempo_windows t) uid = None then ''FirstObservation''
      else if tg_gap g \<or> \<not> tg_normal g then ''ObservationGap''
      else if tg_reset g then ''SettingsChanged'' else [])"

text \<open>One workload: its window and its state, and whether its window is complete.\<close>

definition tempo_state :: "SchedulerTempo \<Rightarrow> tempoSigns \<Rightarrow> capacityPlanner \<Rightarrow> capacityWorkload
    \<Rightarrow> schedulerDemandWindow \<times> SchedulerDownState \<times> bool" where
  "tempo_state t g p w =
     (let uid = df_uid (cw_d w); st = cp_settings p; now = ss_at (cp_snapshot p);
          d0 = \<lparr>ds_rate = cw_rate w, ds_windowMax = f_zero, ds_windowNanos = st_scaleDownStabilization st, ds_supply = f_zero,
            ds_allowed = False, ds_reason = schedulerScaleDownStabilizing, ds_resetReason = reset_reason t g uid\<rparr>;
          w0 = tempo_window t g now uid
      in if \<not> tg_normal g then (w0, d0\<lparr>ds_reason := ''ScaleDownObservationGap''\<rparr>, False)
         else
           (case observe w0 now (cw_rate w) (st_scaleDownStabilization st) of
              (w1, highest, full) \<Rightarrow>
                (let supply = tempoSupply p uid; allowed = (full \<and> f_less highest supply) in
                 (w1, d0\<lparr>ds_windowMax := highest, ds_supply := supply, ds_allowed := allowed,
                    ds_reason := (if allowed then ''ScaleDownStabilized'' else if full then ''DemandNotBelowSupply''
                      else schedulerScaleDownStabilizing)\<rparr>, full))))"

text \<open>Empty nodes may be saved only when every workload is stable and one of them has supply to spare.\<close>

definition Observe :: "SchedulerTempo \<Rightarrow> capacityPlanner \<Rightarrow> SchedulerSearch \<Rightarrow> SchedulerTempo \<times> SchedulerSnapshot" where
  "Observe t p se =
     (let st = cp_settings p; s = cp_snapshot p;
          g = tempo_signs t st s se;
          since = (if tg_reset g \<or> tg_gap g \<or> \<not> tg_normal g \<or> \<not> same_uids t (map (\<lambda>w. df_uid (cw_d w)) (cp_ws p))
            then ss_at s else te_membershipSince t);
          xs = map (\<lambda>w. (df_uid (cw_d w), tempo_state t g p w)) (cp_ws p);
          every = tg_normal g \<and> cp_ws p \<noteq> []
            \<and> list_all (\<lambda>(_, _, d, full). full \<and> f_leq (ds_windowMax d) (ds_supply d)) xs;
          strict = list_ex (\<lambda>(_, _, d, _). tg_normal g \<and> f_less (ds_windowMax d) (ds_supply d)) xs
      in (\<lparr>te_settings = st, te_at = ss_at s, te_windows = Some (foldl (\<lambda>m (uid, w, _). put uid w m) [] xs),
           te_membershipSince = since\<rparr>,
          s\<lparr>ss_scaleDown := Some (foldl (\<lambda>m (uid, _, d, _). put uid d m) [] xs),
            ss_emptyNodeScaleDownAllowed := every \<and> strict \<and> st_scaleDownStabilization st \<le> time_sub (ss_at s) since\<rparr>))"

text \<open>The planner of an observation has an empty candidate: only its demand and capacities are read.\<close>

definition observe_snapshot :: "(f64 \<Rightarrow> int) \<Rightarrow> (CapacityInput \<Rightarrow> string) \<Rightarrow> (string \<Rightarrow> string) \<Rightarrow> SchedulerTempo
    \<Rightarrow> SchedulerSettings \<Rightarrow> SchedulerSnapshot \<Rightarrow> CapacityRow list \<Rightarrow> SchedulerTempo \<times> SchedulerSnapshot" where
  "observe_snapshot oor keyOf digest t st s rows =
     (let se = schedulerSearchPopulation st s
      in Observe t (newCapacityPlanner oor keyOf digest st s empty_candidate rows (schedulerWorkloadStates st s) se) se)"

end
