(* ===== verification/CapacityDecide.thy ===== *)
theory CapacityDecide
  imports CapacitySearch CapacityTempo
begin

text \<open>
  The decision (\<open>EvaluateScheduler\<close> of \<open>internal/serving/scheduler_capacity.go\<close>, with
  \<open>scheduler_capacity_decision.go\<close> and the payback of \<open>scheduler_capacity_cost.go\<close>): what the
  chosen plan set turns into, and the checks a snapshot passes before it is planned at all.
\<close>

abbreviation schedulerStatusPending :: string where "schedulerStatusPending \<equiv> ''Pending''"
abbreviation schedulerStatusFeasible :: string where "schedulerStatusFeasible \<equiv> ''Feasible''"
abbreviation SchedulerStatusOverload :: string where "SchedulerStatusOverload \<equiv> ''Overload''"
abbreviation schedulerStatusKeep :: string where "schedulerStatusKeep \<equiv> ''Keep''"
abbreviation WorkloadControlled :: string where "WorkloadControlled \<equiv> ''Controlled''"
abbreviation schedulerWorkloadFixed :: string where "schedulerWorkloadFixed \<equiv> ''Fixed''"

section \<open>Payback\<close>

text \<open>The energy of a plan set against keep when every workload has its least rate.\<close>

definition least_load :: "capacityPlanner \<Rightarrow> capacityPlanner" where
  "least_load p =
     (let p1 = p\<lparr>cp_ws := map (\<lambda>w. w\<lparr>cw_rate := cw_minRate w\<rparr>) (cp_ws p)\<rparr>
      in p1\<lparr>cp_keepWatts := ev_joules (evaluateAtWindow p1 (keep_choice p1) f_zero None f_one)\<rparr>)"

definition leastLoadJoules :: "capacityPlanner \<Rightarrow> nat list \<Rightarrow> f64 \<Rightarrow> f64" where
  "leastLoadJoules p choice r = gain (evaluate (least_load p) choice r)"

definition replaced_recently :: "capacityPlanner \<Rightarrow> duration \<Rightarrow> capacityPlan \<Rightarrow> SchedulerInstance \<Rightarrow> SchedulerReplacement \<Rightarrow> bool" where
  "replaced_recently p dwell plan old r \<longleftrightarrow>
     (let age = time_sub (ss_at (cp_snapshot p)) (sp_completedAt r) in
      sp_nodeUID r = nr_uid (si_node old) \<and> sp_workloadUID r = si_workloadUID old
      \<and> (case si_profile old of None \<Rightarrow> False | Some q \<Rightarrow> sp_profileID r = pl_id q)
      \<and> \<not> is_zero_time (sp_completedAt r) \<and> 0 \<le> age \<and> age < dwell
      \<and> list_ex (\<lambda>i. si_workloadUID i = si_workloadUID old) (pa_instances plan))"

definition replacementDwelling :: "capacityPlanner \<Rightarrow> nat \<Rightarrow> capacityPlan \<Rightarrow> bool" where
  "replacementDwelling p n plan \<longleftrightarrow>
     (let st = cp_settings p; dwell = (if st_replacementDwell st = 0 then st_comparisonPeriod st else st_replacementDwell st) in
      list_ex (\<lambda>old. si_profile old \<noteq> None \<and> si_ready old \<and> \<not> si_stopped old
          \<and> \<not> list_ex (\<lambda>i. si_id i = si_id old) (pa_instances plan)
          \<and> list_ex (replaced_recently p dwell plan old) (ss_replacements (cp_snapshot p)))
        (pa_instances (cp_plans p ! n ! 0)))"

definition empty_saving_plan :: "capacityPlanner \<Rightarrow> nat \<Rightarrow> capacityPlan \<Rightarrow> bool" where
  "empty_saving_plan p n plan \<longleftrightarrow> \<not> pa_keep plan \<and> pa_mode plan \<noteq> pa_mode (cp_plans p ! n ! 0)
     \<and> pa_instances (cp_plans p ! n ! 0) = [] \<and> pa_instances plan = []"

text \<open>
  The loop ranges over the choice it starts with; a node it reverts is behind it, so the plan of a
  node is the same in both.
\<close>

definition payback_step :: "capacityPlanner \<Rightarrow> capacityResult \<Rightarrow> nat \<Rightarrow> capacityResult" where
  "payback_step p best n =
     (let plan = plan_at p (ev_choice best) n;
          saving = empty_saving_plan p n plan
      in if \<not> saving \<and> (\<not> ev_feasible best \<or> \<not> pa_replaces plan) then best
         else
           (let alt = (ev_choice best)[n := 0];
                r = routeOf p alt;
                kept = evaluate p alt r;
                dwelling = (\<not> saving \<and> replacementDwelling p n plan);
                bound = (if saving then gainBound p kept best else f_zero);
                close = (saving \<and> f_leq (f_sub (gain kept) (gain best)) bound);
                paid = (f_less (leastLoadJoules p (ev_choice best) (ev_route best)) (leastLoadJoules p alt r) \<and> \<not> close);
                uid = nr_uid (sn_node (node_at p n))
            in if \<not> saving \<and> \<not> ev_feasible kept \<or> \<not> admits p kept \<or> paid \<and> \<not> dwelling then best
               else kept\<lparr>ev_unpaid := (if dwelling then ev_unpaid best else ev_unpaid best @ [uid]),
                 ev_dwelling := (if dwelling then ev_dwelling best @ [uid] else ev_dwelling best),
                 ev_withinUncertainty := ev_withinUncertainty best \<or> close,
                 ev_gainUncertainty := (if close then f_max (ev_gainUncertainty best) bound else ev_gainUncertainty best)\<rparr>))"

definition payback :: "capacityPlanner \<Rightarrow> capacityResult \<Rightarrow> capacityResult" where
  "payback p best = foldl (payback_step p) best (nodes_of (ev_choice best))"

text \<open>A gain that the evidence cannot tell from nothing is not taken.\<close>

definition keep_window :: "capacityPlanner \<Rightarrow> f64 \<Rightarrow> capacityResult" where
  "keep_window p t = evaluateAtWindow p (keep_choice p) f_zero None t"

definition minimumGain :: "capacityPlanner \<Rightarrow> capacityResult \<Rightarrow> capacityResult" where
  "minimumGain p best =
     (if \<not> ev_feasible best \<or> ev_keep best then best
      else
        (let k0 = keep_window p (ev_period best); keep = k0\<lparr>ev_keepJoules := ev_joules k0\<rparr> in
         if \<not> ev_feasible keep then best
         else
           (let bound = gainBound p keep best in
            if f_less bound (f_sub (ev_joules keep) (ev_joules best)) then best\<lparr>ev_gainUncertainty := bound\<rparr>
            else keep\<lparr>ev_withinUncertainty := True, ev_gainUncertainty := bound\<rparr>)))"

section \<open>The record of a decision\<close>

record SchedulerCapacityWorkload =
  yw_uid :: string
  yw_rate :: f64
  yw_minimumDemand :: f64
  yw_queued :: nat
  yw_kappaNew :: f64
  yw_kappaRetained :: f64
  yw_judgment :: "capacityJudgment option"
  yw_weights :: route
  yw_rows :: "string list"
  yw_scaleDown :: SchedulerDownState

record SchedulerCapacity =
  sy_period :: duration
  sy_route :: duration
  sy_search :: "SchedulerPlanSearch option"
  sy_workloads :: "SchedulerCapacityWorkload list"
  sy_plans :: "SchedulerNodePlan list"
  sy_gainUncertainty :: f64
  sy_transitionReserves :: "SchedulerTransitionReserve list"
  sy_bridgeStages :: "SchedulerBridgeStage list"

text \<open>A candidate with its estimate.\<close>

record decisionCandidate =
  dc_candidate :: SchedulerCandidate
  dc_expectedJoules :: "f64 option"
  dc_worstExceedance :: f64
  dc_assumptions :: "string list"

record SchedulerBootstrap =
  bo_startedAt :: instant
  bo_deadline :: instant
  bo_pendingRows :: "string list"
  bo_timedOut :: bool

record SchedulerDecision =
  de_at :: instant
  de_status :: string
  de_keep :: decisionCandidate
  de_target :: "decisionCandidate option"
  de_reasons :: "string list"
  de_search :: SchedulerSearch
  de_examined :: nat
  de_comparedNodes :: "NodeReference list"
  de_workloads :: "SchedulerWorkloadState list"
  de_capacity :: "SchedulerCapacity option"
  de_bootstrap :: "SchedulerBootstrap option"

definition unscored :: "SchedulerCandidate \<Rightarrow> decisionCandidate" where
  "unscored c = \<lparr>dc_candidate = c, dc_expectedJoules = None, dc_worstExceedance = f_zero, dc_assumptions = []\<rparr>"

definition with_status :: "string \<Rightarrow> decisionCandidate \<Rightarrow> decisionCandidate" where
  "with_status status x = x\<lparr>dc_candidate := (dc_candidate x)\<lparr>sc_status := status\<rparr>\<rparr>"

definition max_float :: f64 where
  "max_float = Fin False ((2 ^ 53 - 1) * 2 ^ 971)"

definition capacityWorst :: "f64 \<Rightarrow> f64" where
  "capacityWorst worst = f_bmin (f_max f_zero worst) max_float"

text \<open>For evaluation: a moderate exceedance is not compared with the largest float.\<close>

lemma capacityWorst_code [code]:
  "capacityWorst worst =
     (case f_max f_zero worst of
        Fin s m \<Rightarrow> if 0 \<le> m \<and> m \<le> 9007199254740992 then Fin s m else f_bmin (Fin s m) max_float
      | x \<Rightarrow> f_bmin x max_float)"
proof -
  have "f_less (Fin s m) max_float" if "0 \<le> m" "m \<le> 9007199254740992" for s m
    using that by (auto simp: max_float_def f_less_def)
  moreover have "f_bmin (Fin s m) max_float = Fin s m" if "f_less (Fin s m) max_float" for s m
  proof -
    from that have "\<not> f_less max_float (Fin s m)" "\<not> f_eq (Fin s m) max_float" "\<not> is_nan max_float"
      by (auto simp: f_order_defs)
    then show ?thesis by (simp add: f_bmin_def)
  qed
  ultimately show ?thesis by (auto simp: capacityWorst_def split: f64.split)
qed
text \<open>The evidence of a decision that ends before the plan search.\<close>

definition schedulerDownCapacity :: "SchedulerSettings \<Rightarrow> SchedulerSnapshot \<Rightarrow> SchedulerCapacity option" where
  "schedulerDownCapacity st s =
     (case ss_scaleDown s of
        None \<Rightarrow> None
      | Some [] \<Rightarrow> None
      | Some m \<Rightarrow> Some \<lparr>sy_period = st_comparisonPeriod st, sy_route = 0, sy_search = None,
          sy_workloads = sort_by (\<lambda>a b. string_lt (yw_uid a) (yw_uid b))
            (map (\<lambda>(uid, d). \<lparr>yw_uid = uid, yw_rate = ds_rate d, yw_minimumDemand = lookup_f (st_minimumDemand st) uid,
               yw_queued = 0, yw_kappaNew = f_zero, yw_kappaRetained = f_zero, yw_judgment = None, yw_weights = [],
               yw_rows = [], yw_scaleDown = d\<rparr>) m),
          sy_plans = [], sy_gainUncertainty = f_zero, sy_transitionReserves = [], sy_bridgeStages = []\<rparr>)"

section \<open>The chosen plan set\<close>

definition schedulerReplacementUnpaid :: string where "schedulerReplacementUnpaid = ''ReplacementUnpaid''"
definition schedulerReplacementDwell :: string where "schedulerReplacementDwell = ''ReplacementDwell''"
definition schedulerGainWithinUncertainty :: string where
  "schedulerGainWithinUncertainty = ''TransitionGainWithinUncertainty''"
definition schedulerNoPlanMeetsSLO :: string where "schedulerNoPlanMeetsSLO = ''NoPlanMeetsSLO''"
definition schedulerRouteWeightExceeds :: string where "schedulerRouteWeightExceeds = ''RouteWeightExceedsCapacity''"

text \<open>A plan that needs a recovery is eligible only in an admitted set that chose it.\<close>

definition projectPlan :: "capacityPlanner \<Rightarrow> capacityPlan \<Rightarrow> bool \<Rightarrow> SchedulerNodePlan" where
  "projectPlan p plan admitted =
     (let rc = pa_record plan in
      if np_requiresRecovery rc = [] \<or> admitted then rc
      else rc\<lparr>np_eligible := False,
        np_reason := (if list_ex (\<lambda>w. cw_growing w \<and> df_uid (cw_d w) \<in> set (np_requiresRecovery rc)) (cp_ws p)
          then schedulerDemandIncreasing else schedulerScaleDownStabilizing)\<rparr>)"

definition decision_plans :: "capacityPlanner \<Rightarrow> capacityResult \<Rightarrow> SchedulerNodePlan list" where
  "decision_plans p best =
     concat (map (\<lambda>n. map (\<lambda>j. projectPlan p (cp_plans p ! n ! j) (j = ev_choice best ! n \<and> admits p best))
       [0..<length (cp_plans p ! n)]) [0..<length (cp_plans p)])"

definition decision_workload :: "capacityPlanner \<Rightarrow> capacityResult \<Rightarrow> nat \<Rightarrow> SchedulerCapacityWorkload" where
  "decision_workload p best w =
     (let ws = cp_ws p ! w; uid = df_uid (cw_d ws) in
      \<lparr>yw_uid = uid, yw_rate = cw_rate ws, yw_minimumDemand = lookup_f (st_minimumDemand (cp_settings p)) uid,
       yw_queued = cw_queued ws, yw_kappaNew = fst (ev_sums best ! w), yw_kappaRetained = snd (ev_sums best ! w),
       yw_judgment = Some (ev_judgments best ! w), yw_weights = ev_weights best ! w, yw_rows = ev_rows best ! w,
       yw_scaleDown = down_state (cp_snapshot p) uid\<rparr>)"

definition decision_capacity :: "capacityPlanner \<Rightarrow> capacityResult \<Rightarrow> SchedulerCapacity" where
  "decision_capacity p best =
     \<lparr>sy_period = f_to_int64 (cp_oor p) (f_mul (ev_period best) (f_of_int 1000000000)),
      sy_route = f_to_int64 (cp_oor p) (f_mul (ev_route best) (f_of_int 1000000000)),
      sy_search = Some (cp_searched p),
      sy_workloads = map (decision_workload p best) [0..<length (cp_ws p)],
      sy_plans = decision_plans p best, sy_gainUncertainty = ev_gainUncertainty best,
      sy_transitionReserves = ev_reserves best, sy_bridgeStages = []\<rparr>"

definition target_routing :: "capacityPlanner \<Rightarrow> capacityResult \<Rightarrow> routing" where
  "target_routing p best =
     foldl (\<lambda>m d. put (df_uid d) (case index_of p (df_uid d) of
         Some w \<Rightarrow> ev_weights best ! w | None \<Rightarrow> lookup_route (sc_routing (cp_keep p)) (df_uid d)) m)
       [] (List.map_filter id (ss_workloads (cp_snapshot p)))"

definition target_nodes :: "capacityPlanner \<Rightarrow> nat list \<Rightarrow> SchedulerNode list" where
  "target_nodes p choice =
     map (\<lambda>n. let node = sc_nodes (cp_keep p) ! n in
         if n < length choice \<and> \<not> pa_keep (plan_at p choice n) then node\<lparr>sn_powerMode := pa_mode (plan_at p choice n)\<rparr> else node)
       [0..<length (sc_nodes (cp_keep p))]"

definition target_instances_of :: "capacityPlanner \<Rightarrow> nat list \<Rightarrow> SchedulerInstance list" where
  "target_instances_of p choice = concat (map (\<lambda>n. pa_instances (plan_at p choice n)) (nodes_of choice))"

definition decision_target :: "capacityPlanner \<Rightarrow> capacityResult \<Rightarrow> decisionCandidate" where
  "decision_target p best =
     \<lparr>dc_candidate = \<lparr>sc_id = [], sc_keep = False, sc_nodes = target_nodes p (ev_choice best),
        sc_instances = target_instances_of p (ev_choice best), sc_routing = target_routing p best, sc_actions = [],
        sc_status = (if ev_feasible best then schedulerStatusFeasible else SchedulerStatusOverload), sc_reasons = []\<rparr>,
      dc_expectedJoules = Some (ev_joules best), dc_worstExceedance = capacityWorst (ev_worst best), dc_assumptions = []\<rparr>"

definition physical_reason :: "SchedulerSnapshot \<Rightarrow> string list \<Rightarrow> SchedulerInstance \<Rightarrow> string list" where
  "physical_reason s reasons i =
     (let r = schedulerPhysicalChangeReason s (si_node i) in
      if r = [] then reasons else appendUnique reasons [r @ '':'' @ nr_name (si_node i) @ '':'' @ nr_uid (si_node i)])"

definition decision_reasons :: "capacityPlanner \<Rightarrow> capacityResult \<Rightarrow> string list \<Rightarrow> string list" where
  "decision_reasons p best reasons =
     foldl (physical_reason (cp_snapshot p)) reasons (target_instances_of p (ev_choice best))
     @ map (\<lambda>u. schedulerReplacementUnpaid @ '':'' @ u) (ev_unpaid best)
     @ map (\<lambda>u. schedulerReplacementDwell @ '':'' @ u) (ev_dwelling best)
     @ (if ev_withinUncertainty best then [schedulerGainWithinUncertainty] else [])
     @ (if ev_feasible best then []
        else schedulerNoPlanMeetsSLO # (if ev_weightsExceeded best then [schedulerRouteWeightExceeds] else []))"

text \<open>Equality of two maps.\<close>

definition maps_same :: "(string \<times> 'v) list \<Rightarrow> (string \<times> 'v) list \<Rightarrow> bool" where
  "maps_same a b \<longleftrightarrow> list_all (\<lambda>k. map_of a k = map_of b k) (map fst a @ map fst b)"

definition positive_route :: "route \<Rightarrow> route" where
  "positive_route r = filter (\<lambda>x. 0 < route_weight r (fst x)) r"

definition sameRouting :: "capacityPlanner \<Rightarrow> routing \<Rightarrow> bool" where
  "sameRouting p rts \<longleftrightarrow>
     list_all (\<lambda>w. let uid = df_uid (cw_d w) in
       maps_same (positive_route (lookup_route (sc_routing (cp_keep p)) uid)) (lookup_route rts uid)) (cp_ws p)"

text \<open>\<open>fmt.Sprint\<close> of a map prints its keys in order.\<close>

definition sprint_routing :: "routing \<Rightarrow> string" where
  "sprint_routing rts =
     ''map'' @ sprint_list (map (\<lambda>(uid, r). uid @ '':map'' @ sprint_list
         (map (\<lambda>(i, w). i @ '':'' @ Itoa w) (sort_by (\<lambda>a b. string_lt (fst a) (fst b)) r)))
       (sort_by (\<lambda>a b. string_lt (fst a) (fst b)) rts))"

definition named_target :: "capacityPlanner \<Rightarrow> capacityResult \<Rightarrow> decisionCandidate \<Rightarrow> decisionCandidate" where
  "named_target p best x =
     (let c = (dc_candidate x)\<lparr>sc_id := ''plan-'' @ cp_digest p (ev_key best @ sprint_routing (sc_routing (dc_candidate x)))\<rparr>
      in x\<lparr>dc_candidate := c\<lparr>sc_actions := actionsFor (ev_bridge best) (cp_settings p) (cp_snapshot p) c\<rparr>\<rparr>)"

definition scored_keep :: "capacityPlanner \<Rightarrow> f64 \<Rightarrow> decisionCandidate \<Rightarrow> decisionCandidate" where
  "scored_keep p t x =
     (let k = keep_window p t in
      (with_status (if ev_feasible k then schedulerStatusFeasible else SchedulerStatusOverload) x)
        \<lparr>dc_expectedJoules := Some (ev_joules k), dc_worstExceedance := capacityWorst (ev_worst k)\<rparr>)"

definition keeps_all :: "capacityPlanner \<Rightarrow> capacityResult \<Rightarrow> bool" where
  "keeps_all p best \<longleftrightarrow> ev_keep best \<and> (sameRouting p (target_routing p best) \<or> ev_unroutes best)"

definition decide :: "capacityPlanner \<Rightarrow> SchedulerDecision \<Rightarrow> capacityResult \<Rightarrow> SchedulerDecision" where
  "decide p d best =
     (let keep = scored_keep p (ev_period best) (de_keep d);
          target = decision_target p best;
          d1 = d\<lparr>de_keep := keep, de_examined := cp_examined p,
            de_comparedNodes := de_comparedNodes d @ map (\<lambda>n. sn_node (node_at p n))
              (filter (\<lambda>n. cp_compared p ! n) [0..<length (cp_compared p)]),
            de_reasons := decision_reasons p best (de_reasons d)\<rparr>;
          rc = decision_capacity p best
      in if keeps_all p best
         then d1\<lparr>de_capacity := Some rc, de_target := Some (with_status (sc_status (dc_candidate target)) keep),
           de_status := (if ev_feasible best then schedulerStatusKeep else SchedulerStatusOverload)\<rparr>
         else d1\<lparr>de_capacity := Some (rc\<lparr>sy_bridgeStages := (case ev_bridge best of None \<Rightarrow> [] | Some o1 \<Rightarrow> bs_stages o1)\<rparr>),
           de_target := Some (named_target p best target), de_status := sc_status (dc_candidate target)\<rparr>)"

section \<open>Before the plan\<close>

definition unconfirmed_reason :: "SchedulerInstance \<Rightarrow> string" where
  "unconfirmed_reason i = ''UnconfirmedInstance:'' @ si_id i
     @ (if si_reasons i = [] then [] else '':'' @ join '';'' (si_reasons i))"

definition fixed_reason :: "SchedulerSnapshot \<Rightarrow> CapacityRow list \<Rightarrow> string \<Rightarrow> string" where
  "fixed_reason s rows uid =
     (let reason = schedulerFixedReason s uid in
      if reason = [] \<and> \<not> list_ex (\<lambda>r. ci_workloadUID (cr_input r) = uid \<and> cr_kappa r \<noteq> None) rows
      then CapacityPending @ '':'' @ uid else reason)"

definition fix_state :: "SchedulerSnapshot \<Rightarrow> CapacityRow list \<Rightarrow> SchedulerWorkloadState list \<times> string list
    \<Rightarrow> SchedulerWorkloadState \<Rightarrow> SchedulerWorkloadState list \<times> string list" where
  "fix_state s rows acc x =
     (let reason = fixed_reason s rows (ws_uid x) in
      if ws_state x \<noteq> WorkloadControlled \<or> reason = [] then (fst acc @ [x], snd acc)
      else (fst acc @ [x\<lparr>ws_state := schedulerWorkloadFixed, ws_reason := reason\<rparr>], appendUnique (snd acc) [reason]))"

definition fixSchedulerWorkloads :: "SchedulerSnapshot \<Rightarrow> CapacityRow list \<Rightarrow> SchedulerDecision \<Rightarrow> SchedulerDecision" where
  "fixSchedulerWorkloads s rows d =
     (let reasons = foldl (\<lambda>rs i. if \<not> si_ready i \<and> \<not> si_stopped i \<and> \<not> si_terminated i
            then appendUnique rs [unconfirmed_reason i] else rs) (de_reasons d) (ss_instances s)
      in case foldl (fix_state s rows) ([], reasons) (de_workloads d) of
           (states, rs) \<Rightarrow> d\<lparr>de_workloads := states, de_reasons := rs\<rparr>)"

definition fixed_scope_text :: string where
  "fixed_scope_text = ''FixedScopeUnverified: overall SLO and energy are unknown; only independent changes are compared''"

definition unverified :: "decisionCandidate \<Rightarrow> decisionCandidate" where
  "unverified x = x\<lparr>dc_expectedJoules := None, dc_assumptions := appendUnique (dc_assumptions x) [fixed_scope_text]\<rparr>"

definition markFixedEstimates :: "SchedulerDecision \<Rightarrow> SchedulerDecision" where
  "markFixedEstimates d =
     (if list_ex (\<lambda>x. ws_state x = schedulerWorkloadFixed) (de_workloads d)
      then d\<lparr>de_keep := unverified (de_keep d), de_target := map_option unverified (de_target d)\<rparr> else d)"

definition schedulerInstanceRouting :: "Definition option list \<Rightarrow> SchedulerInstance list \<Rightarrow> routing" where
  "schedulerInstanceRouting workloads instances =
     foldl (\<lambda>m d. put (df_uid d) (foldl (\<lambda>r i. put (si_id i) (si_weight i) r) []
         (filter (\<lambda>i. si_workloadUID i = df_uid d \<and> 0 < si_weight i) instances)) m)
       [] (List.map_filter id workloads)"

text \<open>Sorts of the code that are not stable are modelled as stable ones.\<close>

definition workload_before :: "Definition option \<Rightarrow> Definition option \<Rightarrow> bool" where
  "workload_before a b =
     (case (a, b) of
        (None, _) \<Rightarrow> False | (Some x, None) \<Rightarrow> True | (Some x, Some y) \<Rightarrow> string_lt (df_uid x) (df_uid y))"

definition schedulerCanonical :: "SchedulerSnapshot \<Rightarrow> SchedulerSnapshot" where
  "schedulerCanonical s = s\<lparr>
     ss_nodes := sort_by (\<lambda>a b. string_lt (nr_uid (sn_node a)) (nr_uid (sn_node b))) (ss_nodes s),
     ss_instances := sort_by (\<lambda>a b. string_lt (si_id a) (si_id b)) (ss_instances s),
     ss_workloads := sort_by workload_before (ss_workloads s),
     ss_options := sort_by schedulerOptionLess (ss_options s),
     ss_costs := sort_by (\<lambda>a b. string_lt (oc_id a) (oc_id b)) (ss_costs s),
     ss_baselines := sort_by (\<lambda>a b. string_lt (nb_id a) (nb_id b)) (ss_baselines s),
     ss_actions := sort_by (\<lambda>a b. string_lt (ac_id a) (ac_id b)) (ss_actions s)\<rparr>"

section \<open>Bootstrap\<close>

text \<open>The rows of candidates that could occupy an empty pool, while they are pending.\<close>

definition bootstrap_node :: "SchedulerSettings \<Rightarrow> SchedulerNode \<Rightarrow> bool" where
  "bootstrap_node st n \<longleftrightarrow> sn_ready n \<and> \<not> sn_measurement n \<and> nr_name (sn_node n) \<notin> set (st_excludedNodes st)
     \<and> \<not> list_ex (\<lambda>r. r \<in> {NodeExcluded, NodeInstanceUnavailable, NodePlacementInventoryMissing, NodePlacementBudgetUnavailable})
           (sn_reasons n)"

definition bootstrap_option :: "SchedulerSettings \<Rightarrow> SchedulerNode \<Rightarrow> SchedulerOption \<Rightarrow> bool" where
  "bootstrap_option st n x \<longleftrightarrow>
     (let i = op_instance x in
      si_node i = sn_node n
      \<and> (case si_profile i of None \<Rightarrow> False
         | Some q \<Rightarrow> cd_nodeUID (pl_condition q) = nr_uid (sn_node n)
             \<and> (sn_powerMode n = cd_powerMode (pl_condition q)
                \<or> sk_power (st_controls st) \<and> NodePowerModeUnavailable \<notin> set (sn_reasons n)))
      \<and> ValidateNodeBudget n ([sn_reserved n] @ sn_nonServing n @ [si_allocation i]) [] = [])"

definition bootstrap_keys :: "capacityPlanner \<Rightarrow> SchedulerNode \<Rightarrow> SchedulerOption \<Rightarrow> string list" where
  "bootstrap_keys p n x =
     (if \<not> bootstrap_option (cp_settings p) n x then []
      else concat (map (\<lambda>w.
        (let d = cw_d (cp_ws p ! w);
             key = CapacityInput_Key (cp_keyOf p)
               (NewCapacityInput (cp_settings p) (ss_dispatchOccupancy (cp_snapshot p)) x d)
         in if df_uid d \<in> set (op_compatibleUIDs x) \<and> schedulerProfileMatches (Some d) (si_profile (op_instance x))
               \<and> controlAllows p w (op_instance x) []
               \<and> (case map_of (cp_rows p) key of None \<Rightarrow> True | Some row \<Rightarrow> cr_status row = CapacityPending)
            then [key] else [])) [0..<length (cp_ws p)]))"

definition restore_state :: "SchedulerWorkloadState \<Rightarrow> SchedulerWorkloadState" where
  "restore_state x = (if has_prefix (CapacityPending @ '':'') (ws_reason x)
     then x\<lparr>ws_state := WorkloadControlled, ws_reason := []\<rparr> else x)"

text \<open>The planner is built with the restored states.\<close>

definition schedulerBootstrap :: "capacityPlanner \<Rightarrow> SchedulerBootstrap option" where
  "schedulerBootstrap p =
     (let st = cp_settings p; s = cp_snapshot p in
      if st_bootstrapCapacityWait st = 0 \<or> ss_instances s \<noteq> [] \<or> ss_reservations s \<noteq> [] \<or> st_autonomousWorkloads st = []
      then None
      else
        (let started = (if is_zero_time (ss_bootstrapStartedAt s) then ss_at s else ss_bootstrapStartedAt s);
             deadline = started + st_bootstrapCapacityWait st;
             keys = concat (map (\<lambda>n. concat (map (bootstrap_keys p n) (cp_options p)))
               (filter (bootstrap_node st) (ss_nodes s)));
             pending = sort_by string_lt (appendUnique [] keys)
         in Some \<lparr>bo_startedAt = started, bo_deadline = deadline, bo_pendingRows = pending,
              bo_timedOut = (pending \<noteq> [] \<and> \<not> ss_at s < deadline)\<rparr>))"

definition bootstrap_waits :: "SchedulerBootstrap option \<Rightarrow> bool" where
  "bootstrap_waits b = (case b of None \<Rightarrow> False | Some x \<Rightarrow> bo_pendingRows x \<noteq> [] \<and> \<not> bo_timedOut x)"

section \<open>The evaluation\<close>

text \<open>What the environment and the libraries supply: see \<open>capacityPlanner\<close>; \<open>eo_error\<close> is the text of a settings error.\<close>

record evaluationEnv =
  eo_oor :: "f64 \<Rightarrow> int"
  eo_keyOf :: "CapacityInput \<Rightarrow> string"
  eo_digest :: "string \<Rightarrow> string"
  eo_error :: "settings_error \<Rightarrow> string"
  eo_sweeps :: sweepEnvs

definition canonical_snapshot :: "SchedulerSettings \<Rightarrow> SchedulerSnapshot \<Rightarrow> SchedulerSnapshot" where
  "canonical_snapshot st s0 =
     (let s = schedulerCanonical s0 in
      if 0 < st_scaleDownStabilization st \<and> ss_scaleDown s = None then s\<lparr>ss_scaleDown := Some []\<rparr> else s)"

definition keep_candidate :: "SchedulerSnapshot \<Rightarrow> SchedulerCandidate" where
  "keep_candidate s =
     \<lparr>sc_id = ''keep'', sc_keep = True, sc_nodes = ss_nodes s, sc_instances = ss_instances s,
      sc_routing = foldl (\<lambda>m (uid, r). put uid r m) (schedulerInstanceRouting (ss_workloads s) (ss_instances s)) (ss_routing s),
      sc_actions = [], sc_status = [], sc_reasons = []\<rparr>"

definition first_decision :: "SchedulerSettings \<Rightarrow> SchedulerSnapshot \<Rightarrow> CapacityRow list \<Rightarrow> SchedulerDecision" where
  "first_decision st s rows = fixSchedulerWorkloads s rows
     \<lparr>de_at = ss_at s, de_status = schedulerStatusPending, de_keep = unscored empty_candidate, de_target = None,
      de_reasons = [], de_search = schedulerSearchPopulation st s, de_examined = 0, de_comparedNodes = [],
      de_workloads = schedulerWorkloadStates st s, de_capacity = None, de_bootstrap = None\<rparr>"

text \<open>Without a tempo of the controller, a fresh one observes the snapshot.\<close>

definition observed_snapshot :: "evaluationEnv \<Rightarrow> SchedulerSettings \<Rightarrow> SchedulerSnapshot \<Rightarrow> CapacityRow list \<Rightarrow> SchedulerSnapshot" where
  "observed_snapshot e st s rows =
     (if st_scaleDownStabilization st = 0 \<and> ss_scaleDown s = None
      then snd (observe_snapshot (eo_oor e) (eo_keyOf e) (eo_digest e)
        \<lparr>te_settings = st, te_at = 0, te_windows = None, te_membershipSince = 0\<rparr> st s rows) else s)"

text \<open>Keep carries the fixed power changes under way, and only those.\<close>

definition authorized_keep :: "SchedulerSettings \<Rightarrow> SchedulerSnapshot \<Rightarrow> SchedulerCandidate \<Rightarrow> SchedulerCandidate" where
  "authorized_keep st s keep =
     (let k = keep\<lparr>sc_nodes := schedulerCommonNodes s\<rparr>
      in k\<lparr>sc_actions := pn_actions (changeNodes k (new_plan st s (Some k) [])), sc_status := schedulerStatusPending\<rparr>)"

definition snapshot_reasons :: "SchedulerSettings \<Rightarrow> SchedulerSnapshot \<Rightarrow> string list" where
  "snapshot_reasons st s = appendUnique (ss_reasons s @ schedulerValidateSnapshot st s)
     (schedulerValidateResources st (ss_nodes s) (ss_instances s))"

definition with_evidence :: "SchedulerSettings \<Rightarrow> SchedulerSnapshot \<Rightarrow> SchedulerDecision \<Rightarrow> SchedulerDecision" where
  "with_evidence st s d =
     (if de_capacity d = None \<and> \<not> is_zero_time (de_at d) then d\<lparr>de_capacity := schedulerDownCapacity st s\<rparr> else d)"

definition empty_decision :: "SchedulerDecision \<Rightarrow> SchedulerDecision" where
  "empty_decision d =
     (let keep = (with_status schedulerStatusFeasible (de_keep d))\<lparr>dc_expectedJoules := Some f_zero\<rparr>
      in markFixedEstimates (d\<lparr>de_keep := keep, de_target := Some keep, de_status := schedulerStatusKeep\<rparr>))"

text \<open>The decision for a snapshot that may be planned; the inner None is a cancelled context.\<close>

text \<open>The planner of a decision, for some workload states, and what follows the search.\<close>

definition decision_planner :: "evaluationEnv \<Rightarrow> SchedulerSettings \<Rightarrow> SchedulerSnapshot \<Rightarrow> SchedulerCandidate \<Rightarrow> CapacityRow list
    \<Rightarrow> SchedulerSearch \<Rightarrow> SchedulerWorkloadState list \<Rightarrow> capacityPlanner" where
  "decision_planner e st s keep rows se states =
     newCapacityPlanner (eo_oor e) (eo_keyOf e) (eo_digest e) st s keep rows states se"

definition conclude :: "SchedulerDecision \<Rightarrow> capacityPlanner \<times> capacityResult \<Rightarrow> SchedulerDecision" where
  "conclude d found =
     markFixedEstimates (decide (fst found) d (minimumGain (fst found) (payback (fst found) (snd found))))"

definition plan_decision :: "evaluationEnv \<Rightarrow> SchedulerDecision \<Rightarrow> capacityPlanner \<Rightarrow> SchedulerDecision option option" where
  "plan_decision e d p =
     (let st = cp_settings p; covered = time_sub (se_windowEnd (de_search d)) (se_windowStart (de_search d)) in
      if cp_ws p = [] then Some (Some (empty_decision d))
      else if covered < min (st_observationWindow st) (st_controlInterval st)
      then Some (Some (d\<lparr>de_status := schedulerStatusPending, de_reasons := [schedulerPartialObservation]\<rparr>))
      else
        map_option (map_option (conclude d))
          (search (planner_build (p\<lparr>cp_partial := covered < st_observationWindow st\<rparr>)) (eo_sweeps e)))"

definition EvaluateScheduler :: "evaluationEnv \<Rightarrow> SchedulerSettings \<Rightarrow> SchedulerSnapshot \<Rightarrow> CapacityRow list
    \<Rightarrow> SchedulerDecision option option" where
  "EvaluateScheduler e st s0 rows =
     (let s = canonical_snapshot st s0; d = first_decision st s rows; keep = keep_candidate s in
      case ValidateSettings st of
        Some err \<Rightarrow> Some (Some (with_evidence st s (d\<lparr>de_reasons := [eo_error e err], de_keep := unscored keep\<rparr>)))
      | None \<Rightarrow>
          (let s1 = observed_snapshot e st s rows;
               keep1 = authorized_keep st s1 keep;
               d1 = d\<lparr>de_keep := unscored keep1\<rparr>;
               reasons = snapshot_reasons st s1;
               planner = decision_planner e st s1 keep1 rows (de_search d)
           in if reasons \<noteq> []
              then Some (Some (with_evidence st s1
                (d1\<lparr>de_keep := unscored (keep1\<lparr>sc_reasons := reasons\<rparr>), de_reasons := reasons\<rparr>)))
              else
                (let b = schedulerBootstrap (planner (map restore_state (de_workloads d1)));
                     d2 = d1\<lparr>de_bootstrap := b\<rparr>
                 in if bootstrap_waits b
                    then Some (Some (with_evidence st s1 (d2\<lparr>de_status := CapacityPending,
                      de_reasons := [''BootstrapCapacityPending''], de_keep := unscored (keep1\<lparr>sc_actions := []\<rparr>)\<rparr>)))
                    else map_option (map_option (with_evidence st s1)) (plan_decision e d2 (planner (de_workloads d2))))))"

section \<open>Expansion by ready instances\<close>

text \<open>Every instance on a node of its own, with a capacity.\<close>

definition expansion_item :: "capacityPlanner \<Rightarrow> SchedulerInstance \<Rightarrow> capacityItem option" where
  "expansion_item p i =
     (case planner_kappa p \<lparr>op_instance = i, op_compatibleUIDs = []\<rparr> 0 of
        (k, row, reason) \<Rightarrow>
          if reason \<noteq> [] \<or> f_leq k f_zero \<or> \<not> schedulerFinite k then None
          else Some \<lparr>ct_id = si_id i, ct_kappa = k, ct_e = capacityInputEnergy i, ct_weight = 0, ct_row = row, ct_prepare = False\<rparr>)"

fun expansion_items :: "capacityPlanner \<Rightarrow> string \<Rightarrow> NodeReference list \<Rightarrow> SchedulerInstance list \<Rightarrow> capacityItem list option" where
  "expansion_items p uid nodes [] = Some []"
| "expansion_items p uid nodes (i # is) =
     (if si_terminated i \<or> si_profile i = None \<or> si_workloadUID i \<noteq> uid \<or> nr_uid (si_node i) = [] \<or> si_node i \<in> set nodes then None
      else (case expansion_item p i of
          None \<Rightarrow> None | Some x \<Rightarrow> map_option (Cons x) (expansion_items p uid (si_node i # nodes) is)))"

definition SchedulerReadyExpansion :: "evaluationEnv \<Rightarrow> SchedulerSettings \<Rightarrow> SchedulerSnapshot \<Rightarrow> CapacityRow list \<Rightarrow> string
    \<Rightarrow> SchedulerInstance list \<Rightarrow> SchedulerInstance list \<Rightarrow> route option" where
  "SchedulerReadyExpansion e st s rows uid current added =
     (if current = [] \<or> added = [] \<or> \<not> sk_routing (st_controls st) \<or> st_observationWindow st \<le> 0 \<or> st_controlInterval st \<le> 0
         \<or> schedulerValidateObservationTimes s (st_maxObservationAge st) \<noteq> []
         \<or> \<not> list_ex (\<lambda>d. case d of None \<Rightarrow> False | Some x \<Rightarrow> df_uid x = uid) (ss_workloads s)
      then None
      else
        (let p = newCapacityPlanner (eo_oor e) (eo_keyOf e) (eo_digest e) st s empty_candidate rows
               [\<lparr>ws_uid = uid, ws_state = WorkloadControlled, ws_reason = []\<rparr>] (schedulerSearchPopulation st s);
             w = cp_ws p ! 0
         in case expansion_items p uid [] (current @ added) of
              None \<Rightarrow> None
            | Some items \<Rightarrow>
                (let knew = kappa_sum items; kret = kappa_sum (take (length current) items);
                     sorted_items = sort_by item_less items
                 in if list_ex (\<lambda>i. list_ex (\<lambda>old. si_node old = si_node i \<and> schedulerInstanceRouted (ss_routing s) (si_id old))
                         (ss_instances s)) added
                      \<or> \<not> jd_satisfied (capacityJudge w knew kret True f_zero) \<or> f_less knew kret
                    then None
                    else
                      (case capacityWeights (cp_oor p) (cw_rate w) sorted_items of
                         None \<Rightarrow> None
                       | Some (weights, _, ok) \<Rightarrow>
                           if \<not> ok \<or> list_ex (\<lambda>x. x \<le> 0) weights then None
                           else Some (foldl (\<lambda>m (x, wt). put (ct_id x) wt m) [] (zip sorted_items weights))))))"

end
