(* ===== verification/DecideSamples.thy ===== *)
theory DecideSamples
  imports CapacityDecide SchedSamples
begin

text \<open>
  A pool on which whole decisions are evaluated: a node with one instance that serves the only
  workload, and an empty node in a power mode that draws 10 W where another one draws 5 W.
\<close>

definition start_time :: instant where "start_time = 62135596800000000000"

definition decide_profile :: Profile where
  "decide_profile = (sample_profile ''p'')\<lparr>pl_batches :=
     [\<lparr>sb_batch = 1, sb_serviceSamples = [\<lparr>ss_serviceDurationNanos = 1, ss_precedingIdleNanos = None, ss_trialID = []\<rparr>],
       sb_serviceDistribution = Some \<lparr>sd_trials = [], sd_services = []\<rparr>, sb_energyPerInputJoules = f_of_int 1,
       sb_memoryBytes = 10\<rparr>]\<rparr>"

definition decide_instance :: SchedulerInstance where
  "decide_instance = (sample_instance ''i'' ''p'')\<lparr>si_profile := Some decide_profile, si_routable := [''w''],
     si_observedAt := start_time\<rparr>"

definition decide_definition :: Definition where
  "decide_definition = \<lparr>df_name = ''w'', df_uid = ''w'', df_generation = 1,
     df_model = \<lparr>mo_name = ''m'', mo_uid = [], mo_generation = 0, mo_paths = []\<rparr>,
     df_preprocessor = \<lparr>pp_name = ''p'', pp_uid = [], pp_generation = 0, pp_input = [], pp_output = [], pp_maxNewTokens = 0\<rparr>,
     df_dataset = None, df_slo = \<lparr>sl_percentile = f_of_int 100, sl_targetLatency = 1000000000\<rparr>, df_requestLifetime = None\<rparr>"

definition serving_node :: SchedulerNode where
  "serving_node = sample_pool_node\<lparr>sn_observedAt := start_time\<rparr>"

definition empty_reference :: NodeReference where "empty_reference = \<lparr>nr_name = ''v'', nr_uid = ''v''\<rparr>"

definition empty_node :: SchedulerNode where
  "empty_node = serving_node\<lparr>sn_node := empty_reference, sn_powerMode := ''high''\<rparr>"

definition idle_baseline :: "string \<Rightarrow> int \<Rightarrow> NodeBaseline" where
  "idle_baseline mode watts = \<lparr>nb_id = mode, nb_node = empty_reference, nb_deviceClass = ''d'', nb_powerMode = mode,
     nb_state = [], nb_stateIdentities = [], nb_watts = f_of_int watts, nb_wattsUncertainty = f_zero, nb_meter = ''x'',
     nb_scope = schedulerNodeWallScope, nb_measuredAt = start_time, nb_reference = \<lparr>oi_store = ''s'', oi_key = mode, oi_size = 1\<rparr>\<rparr>"

definition decide_settings :: SchedulerSettings where
  "decide_settings = sample_settings\<lparr>st_observationWindow := 1000000000, st_controlInterval := 1000000000,
     st_comparisonPeriod := 8000000000, st_maxReplicas := 2, st_maxInstances := 4,
     st_autonomousWorkloads := [''w''], st_minimumDemand := [(''w'', f_of_int 1)],
     st_defaultOperationCost := map (\<lambda>k. (k, \<lparr>ov_seconds = f_of_int 1, ov_joules = f_zero\<rparr>)) operation_kinds,
     st_defaultIdlePower := Some \<lparr>ip_nodeWatts = f_of_int 8, ip_perInstanceWatts = f_zero\<rparr>\<rparr>"

definition decide_snapshot :: SchedulerSnapshot where
  "decide_snapshot = sample_snapshot\<lparr>ss_at := start_time, ss_scaleDown := Some [], ss_emptyNodeScaleDownAllowed := True,
     ss_observationEnd := start_time, ss_observedSince := start_time - 1000000000,
     ss_workloads := [Some decide_definition], ss_nodes := [serving_node, empty_node], ss_instances := [decide_instance],
     ss_routing := [(''w'', [(''i'', 1000)])], ss_actions := [],
     ss_options := [\<lparr>op_instance = decide_instance, op_compatibleUIDs = [''w'']\<rparr>],
     ss_baselines := [idle_baseline ''low'' 5, idle_baseline ''high'' 10]\<rparr>"

definition decide_row :: CapacityRow where
  "decide_row = \<lparr>cr_key = ''shared-cpu/'',
     cr_input = NewCapacityInput decide_settings [] \<lparr>op_instance = decide_instance, op_compatibleUIDs = [''w'']\<rparr> decide_definition,
     cr_status = CapacityBuilt, cr_reason = [], cr_mu = f_of_int 4, cr_kappa = Some (f_of_int 4), cr_grid = [],
     cr_bisection = [], cr_previous = False\<rparr>"

text \<open>One worker; the deadline falls after the first sweep.\<close>

definition decide_sweeps :: sweepEnvs where
  "decide_sweeps m n = \<lparr>en_workers = [if m = 0 then ([0..<n], None) else ([], Some 0)], en_cancelled = False\<rparr>"

definition decide_env :: evaluationEnv where
  "decide_env = \<lparr>eo_oor = (\<lambda>_. 0), eo_keyOf = (\<lambda>_. []), eo_digest = (\<lambda>s. s), eo_error = (\<lambda>_. ''settings''),
     eo_sweeps = decide_sweeps\<rparr>"

text \<open>The whole decision on it.\<close>

lemma decide_values:
  "map_option (map_option (\<lambda>d. (de_status d, map_option (\<lambda>x. (map sn_powerMode (sc_nodes (dc_candidate x)), dc_expectedJoules x,
        map (\<lambda>a. (ac_kind a, ac_to a)) (sc_actions (dc_candidate x)))) (de_target d),
      (map sn_powerMode (sc_nodes (dc_candidate (de_keep d))), sc_status (dc_candidate (de_keep d)), dc_expectedJoules (de_keep d)),
      map_option (\<lambda>c. (sy_gainUncertainty c, map (\<lambda>x. (yw_judgment x, yw_weights x)) (sy_workloads c))) (de_capacity d))))
    (EvaluateScheduler decide_env decide_settings decide_snapshot [decide_row])
   = Some (Some (schedulerStatusFeasible,
       Some ([''low'', ''low''], Some (f_of_int 43), [(schedulerActionPower, ''low''), (schedulerActionRoute, ''[iup::60[w] [1000] 1 1 0s u/low v/low]'')]),
       ([''low'', ''high''], schedulerStatusFeasible, Some (f_of_int 88)),
       Some (f_zero, [(Some \<lparr>jd_backlog = f_zero, jd_wait = Some f_zero, jd_drain = Some f_zero,
         jd_final = Some (Fin True (3 / 4)), jd_transition = Some f_zero, jd_satisfied = True\<rparr>, [(''i'', schedulerRouteUnits)])])))"
  by code_simp

end
