(* ===== verification/TableProps.thy ===== *)
theory TableProps
  imports CapacityTable DecideSamples
begin

text \<open>
  The capacity table over every interleaving of its operations: no key is built and being built
  at once, a row never changes, a cancelled build reports nothing, and after \<open>Ensure\<close> exactly the
  wanted keys are built or being built.
\<close>

section \<open>Steps\<close>

text \<open>
  Any snapshot, any result of the load, and a report of any task at any time: the guards of the
  operations, not the environment, have to keep the table in order.
\<close>

inductive table_step :: "(CapacityInput \<Rightarrow> string) \<Rightarrow> CapacityTable \<Rightarrow> CapacityTable \<Rightarrow> bool" for keyOf where
  ensured: "table_step keyOf t (fst (Ensure keyOf st s t))"
| loaded: "table_step keyOf t (load_done rows t)"
| finished: "table_step keyOf t (task_done task ctx_done row err t)"
| dropped: "table_step keyOf t (task_dropped task t)"

inductive reachable_table :: "(CapacityInput \<Rightarrow> string) \<Rightarrow> CapacityTable \<Rightarrow> bool" for keyOf where
  new: "reachable_table keyOf NewCapacityTable"
| step: "reachable_table keyOf t \<Longrightarrow> table_step keyOf t u \<Longrightarrow> reachable_table keyOf u"

section \<open>The invariant\<close>

definition task_ok :: "CapacityTable \<Rightarrow> string \<times> capacityTask \<Rightarrow> bool" where
  "task_ok t kt \<longleftrightarrow> tk_key (snd kt) = fst kt \<and> tk_id (snd kt) < tb_next t \<and> tk_id (snd kt) \<notin> set (tb_cancelled t)
     \<and> map_of (tb_rows t) (fst kt) = None"

definition table_ok :: "CapacityTable \<Rightarrow> bool" where
  "table_ok t \<longleftrightarrow> distinct (map fst (tb_running t)) \<and> inj_on (\<lambda>kt. tk_id (snd kt)) (set (tb_running t))
     \<and> (\<forall>kt \<in> set (tb_running t). task_ok t kt) \<and> (\<forall>i \<in> set (tb_cancelled t). i < tb_next t)"

lemmas table_ok_defs = table_ok_def task_ok_def

lemma map_of_put [simp]: "map_of (put k v m) = (map_of m)(k \<mapsto> v)"
  by (induction m) (auto simp: put_def fun_eq_iff split: if_splits)

lemma drop_key_none: "map_of (drop_key k m) k = None"
  by (induction m) (auto simp: drop_key_def)

lemma in_drop_key [simp]: "x \<in> set (drop_key k m) \<longleftrightarrow> x \<in> set m \<and> fst x \<noteq> k"
  by (auto simp: drop_key_def)

lemma distinct_filter_keys: "distinct (map fst m) \<Longrightarrow> distinct (map fst (filter P m))"
  by (induction m) auto

lemma distinct_drop_key: "distinct (map fst m) \<Longrightarrow> distinct (map fst (drop_key k m))"
  by (simp add: drop_key_def distinct_filter_keys)

lemma drop_running_ok: "table_ok t \<Longrightarrow> table_ok (t\<lparr>tb_running := drop_key k (tb_running t)\<rparr>)"
  by (auto simp: table_ok_defs distinct_drop_key intro: inj_on_subset)

lemma start_task_ok: "table_ok t \<Longrightarrow> table_ok (start_task keyOf st s t wx)"
proof -
  let ?k = "CapacityInput_Key keyOf (wanted_input st s wx)"
  let ?x = "(?k, \<lparr>tk_id = tb_next t, tk_option = snd wx, tk_workload = fst wx, tk_key = ?k\<rparr>)"
  assume ok: "table_ok t"
  show ?thesis
  proof (cases "map_of (tb_rows t) ?k \<noteq> None \<or> map_of (tb_running t) ?k \<noteq> None")
    case False
    then have none: "map_of (tb_rows t) ?k = None" "?k \<notin> fst ` set (tb_running t)"
      by (auto simp: map_of_eq_None_iff)
    then have "filter (\<lambda>x. fst x \<noteq> ?k) (tb_running t) = tb_running t" by (intro filter_True) force
    then have eq: "start_task keyOf st s t wx = t\<lparr>tb_running := ?x # tb_running t, tb_next := Suc (tb_next t)\<rparr>"
      using False by (simp add: start_task_def Let_def put_def)
    have "tk_id (snd kt) \<noteq> tb_next t" if "kt \<in> set (tb_running t)" for kt
      using ok that by (fastforce simp: table_ok_defs)
    then have "inj_on (\<lambda>kt. tk_id (snd kt)) (insert ?x (set (tb_running t)))"
      using ok none by (subst inj_on_insert) (force simp: table_ok_def)
    moreover have "tb_next t \<notin> set (tb_cancelled t)" using ok by (auto simp: table_ok_def)
    ultimately show ?thesis using ok none unfolding eq by (force simp: table_ok_defs)
  qed (use ok in \<open>auto simp: start_task_def Let_def\<close>)
qed

lemma start_tasks_ok: "table_ok t \<Longrightarrow> table_ok (foldl (start_task keyOf st s) t pairs)"
  by (induction pairs arbitrary: t) (simp_all add: start_task_ok)

lemma cancel_unwanted_ok:
  assumes "table_ok t"
  shows "table_ok (cancel_unwanted keys t)"
proof -
  have "tk_id (snd a) \<noteq> tk_id (snd b)" if "a \<in> set (tb_running t)" "b \<in> set (tb_running t)" "fst a \<noteq> fst b" for a b
    using assms that unfolding table_ok_def inj_on_def by blast
  moreover have "inj_on (\<lambda>kt. tk_id (snd kt)) {x \<in> set (tb_running t). fst x \<in> set keys}"
    using assms by (auto simp: table_ok_def intro: inj_on_subset)
  ultimately show ?thesis using assms
    by (fastforce simp: table_ok_defs cancel_unwanted_def distinct_filter_keys)
qed

lemma ask_steps: "\<exists>a. fst (foldl ask_step acc keys) = (fst acc)\<lparr>tb_asked := a\<rparr>"
proof (induction keys arbitrary: acc)
  case Nil
  show ?case by (rule exI [of _ "tb_asked (fst acc)"]) simp
next
  case (Cons k keys)
  from Cons.IH [of "ask_step acc k"] show ?case by (auto simp: ask_step_def)
qed

lemma asked_ok [simp]: "table_ok (t\<lparr>tb_asked := a\<rparr>) = table_ok t" "table_ok (t\<lparr>tb_wanted := w\<rparr>) = table_ok t"
  "table_ok (t\<lparr>tb_previous := p\<rparr>) = table_ok t"
  by (simp_all add: table_ok_defs)

text \<open>What \<open>Ensure\<close> makes of the table, up to the keys it has asked for.\<close>

lemma Ensure_table:
  obtains a where "fst (Ensure keyOf st s t) =
    (cancel_unwanted (map (CapacityInput_Key keyOf) (map (wanted_input st s) (wanted_pairs st s)))
      ((foldl (start_task keyOf st s) t (wanted_pairs st s))\<lparr>tb_wanted := map (wanted_input st s) (wanted_pairs st s)\<rparr>))
      \<lparr>tb_asked := a\<rparr>"
  using ask_steps unfolding Ensure_def Let_def by (metis fst_conv)

lemma Ensure_ok: "table_ok t \<Longrightarrow> table_ok (fst (Ensure keyOf st s t))"
  by (rule Ensure_table [of keyOf st s t]) (simp add: cancel_unwanted_ok start_tasks_ok)

lemma task_done_ok:
  assumes "table_ok t"
  shows "table_ok (task_done task c row err t)"
proof -
  have "table_ok (t\<lparr>tb_running := drop_key k (tb_running t), tb_rows := put k r (tb_rows t)\<rparr>)" for k r
    using drop_running_ok [OF assms, of k] by (auto simp: table_ok_defs)
  then show ?thesis using assms drop_running_ok [OF assms] by (auto simp: task_done_def Let_def)
qed

lemma table_step_ok: "table_step keyOf t u \<Longrightarrow> table_ok t \<Longrightarrow> table_ok u"
  by (induction rule: table_step.induct)
    (auto simp: Ensure_ok task_done_ok task_dropped_def drop_running_ok load_done_def split: option.split)

lemma reachable_ok: "reachable_table keyOf t \<Longrightarrow> table_ok t"
  by (induction rule: reachable_table.induct)
    (auto simp: table_step_ok, simp add: table_ok_def NewCapacityTable_def)

lemma running_member: "table_ok t \<Longrightarrow> map_of (tb_running t) k = Some task \<longleftrightarrow> (k, task) \<in> set (tb_running t)"
  by (simp add: table_ok_def)

section \<open>Rows\<close>

lemma start_tasks_rows [simp]: "tb_rows (foldl (start_task keyOf st s) t pairs) = tb_rows t"
  by (induction pairs arbitrary: t) (simp_all add: start_task_def Let_def)

lemma Ensure_rows: "tb_rows (fst (Ensure keyOf st s t)) = tb_rows t"
  by (rule Ensure_table [of keyOf st s t]) (simp add: cancel_unwanted_def)

lemma step_keeps_row:
  assumes "table_step keyOf t u" "table_ok t" "map_of (tb_rows t) k = Some r"
  shows "map_of (tb_rows u) k = Some r"
  using assms
proof (cases rule: table_step.cases)
  case (finished task c row err)
  have "tk_key task \<noteq> k" if "map_of (tb_running t) (tk_key task) \<noteq> None"
    using that assms(2,3) running_member [OF assms(2)] by (fastforce simp: table_ok_defs)
  then show ?thesis using finished assms(3) by (auto simp: task_done_def Let_def)
qed (auto simp: Ensure_rows load_done_def task_dropped_def split: option.split)

section \<open>After Ensure\<close>

lemma start_task_running:
  "map_of (tb_running t) k \<noteq> None \<Longrightarrow> map_of (tb_running (start_task keyOf st s t wx)) k \<noteq> None"
  by (auto simp: start_task_def Let_def)

lemma start_tasks_running:
  "map_of (tb_running t) k \<noteq> None \<Longrightarrow> map_of (tb_running (foldl (start_task keyOf st s) t pairs)) k \<noteq> None"
proof (induction pairs arbitrary: t)
  case (Cons x pairs)
  from Cons.IH [OF start_task_running [OF Cons.prems]] show ?case by simp
qed simp

lemma start_tasks_cover:
  assumes "wx \<in> set pairs"
  shows "map_of (tb_rows t) (CapacityInput_Key keyOf (wanted_input st s wx)) \<noteq> None
    \<or> map_of (tb_running (foldl (start_task keyOf st s) t pairs)) (CapacityInput_Key keyOf (wanted_input st s wx)) \<noteq> None"
  using assms
proof (induction pairs arbitrary: t)
  case (Cons x pairs)
  show ?case
  proof (cases "x = wx")
    case True
    let ?k = "CapacityInput_Key keyOf (wanted_input st s wx)"
    have "map_of (tb_rows t) ?k \<noteq> None \<or> map_of (tb_running (start_task keyOf st s t wx)) ?k \<noteq> None"
      by (auto simp: start_task_def Let_def)
    then show ?thesis using True start_tasks_running [of "start_task keyOf st s t wx" ?k keyOf st s pairs] by auto
  next
    case False
    with Cons.prems Cons.IH [of "start_task keyOf st s t x"] show ?thesis
      using start_tasks_rows [of keyOf st s t "[x]"] by simp
  qed
qed simp

lemma map_of_filter_member: "map_of (filter (\<lambda>x. fst x \<in> K) m) k = (if k \<in> K then map_of m k else None)"
  by (induction m) auto

lemma Ensure_covers:
  fixes keyOf st s t
  defines "u \<equiv> fst (Ensure keyOf st s t)" and "keys \<equiv> map (CapacityInput_Key keyOf) (map (wanted_input st s) (wanted_pairs st s))"
  shows "k \<in> set keys \<Longrightarrow> map_of (tb_rows u) k \<noteq> None \<or> map_of (tb_running u) k \<noteq> None"
    and "map_of (tb_running u) k \<noteq> None \<Longrightarrow> k \<in> set keys"
    and "tb_wanted u = map (wanted_input st s) (wanted_pairs st s)"
proof -
  let ?t1 = "foldl (start_task keyOf st s) t (wanted_pairs st s)"
  have run: "map_of (tb_running u) k = (if k \<in> set keys then map_of (tb_running ?t1) k else None)"
    unfolding u_def by (rule Ensure_table [of keyOf st s t])
      (simp add: cancel_unwanted_def keys_def map_of_filter_member)
  show "map_of (tb_rows u) k \<noteq> None \<or> map_of (tb_running u) k \<noteq> None" if "k \<in> set keys"
    using that start_tasks_cover [of _ "wanted_pairs st s" t keyOf st s] run
    by (auto simp: keys_def u_def Ensure_rows)
  show "k \<in> set keys" if "map_of (tb_running u) k \<noteq> None"
    using that run by (simp split: if_splits)
  show "tb_wanted u = map (wanted_input st s) (wanted_pairs st s)"
    unfolding u_def by (rule Ensure_table [of keyOf st s t]) (simp add: cancel_unwanted_def)
qed

section \<open>A run of the table\<close>

text \<open>The one row that \<open>decide_snapshot\<close> wants is started, forgotten by a snapshot without workloads, and started again.\<close>

definition sample_digest :: "CapacityInput \<Rightarrow> string" where "sample_digest i = ci_profileID i"

definition idle_snapshot :: SchedulerSnapshot where "idle_snapshot = decide_snapshot\<lparr>ss_workloads := []\<rparr>"

definition sample_key :: string where
  "sample_key = CapacityInput_Key sample_digest (wanted_input decide_settings decide_snapshot
     (hd (wanted_pairs decide_settings decide_snapshot)))"

definition sample_task :: "nat \<Rightarrow> capacityTask" where
  "sample_task i = \<lparr>tk_id = i, tk_option = \<lparr>op_instance = decide_instance, op_compatibleUIDs = [''w'']\<rparr>,
     tk_workload = decide_definition, tk_key = sample_key\<rparr>"

definition busy_table :: CapacityTable where
  "busy_table = fst (Ensure sample_digest decide_settings decide_snapshot NewCapacityTable)"

definition built_table :: CapacityTable where
  "built_table = task_done (sample_task 0) False decide_row None busy_table"

definition again_table :: CapacityTable where
  "again_table = fst (Ensure sample_digest decide_settings decide_snapshot
     (fst (Ensure sample_digest decide_settings idle_snapshot busy_table)))"

lemma busy_reachable: "reachable_table sample_digest busy_table"
  unfolding busy_table_def by (rule reachable_table.step [OF reachable_table.new table_step.ensured])

lemma built_reachable: "reachable_table sample_digest built_table"
  unfolding built_table_def by (rule reachable_table.step [OF busy_reachable table_step.finished])

lemma again_reachable: "reachable_table sample_digest again_table"
  unfolding again_table_def
  by (rule reachable_table.step [OF reachable_table.step [OF busy_reachable table_step.ensured] table_step.ensured])

lemma table_values:
  "map_of (tb_running again_table) sample_key = Some (sample_task 1)" "tk_id (sample_task 0) \<in> set (tb_cancelled again_table)"
  "map_of (tb_running busy_table) sample_key = Some (sample_task 0)" "map_of (tb_rows built_table) sample_key = Some decide_row"
  "sample_key \<in> set (map (\<lambda>wx. CapacityInput_Key sample_digest (wanted_input decide_settings decide_snapshot wx))
     (wanted_pairs decide_settings decide_snapshot))"
  by code_simp+

section \<open>The claims\<close>

text \<open>C39: In every reachable table no key is both built and being built, a running task runs under its own key,
  and the report of a cancelled task changes nothing, even when its key was wanted again and restarted.\<close>

theorem table_invariant:
  assumes "reachable_table keyOf t"
  shows "(map_of (tb_running t) k = Some task \<longrightarrow> map_of (tb_rows t) k = None \<and> tk_key task = k)
    \<and> (tk_id late \<in> set (tb_cancelled t) \<longrightarrow> task_done late ctx_done row err t = t \<and> task_dropped late t = t)"
proof (intro conjI impI)
  note ok = reachable_ok [OF assms]
  show "map_of (tb_rows t) k = None" "tk_key task = k" if "map_of (tb_running t) k = Some task"
    using that ok running_member [OF ok] by (force simp: table_ok_defs)+
  assume "tk_id late \<in> set (tb_cancelled t)"
  then have "map_option tk_id (map_of (tb_running t) (tk_key late)) \<noteq> Some (tk_id late)"
    using ok running_member [OF ok] by (force simp: table_ok_defs)
  then show "task_done late ctx_done row err t = t" "task_dropped late t = t"
    by (simp_all add: task_done_def task_dropped_def)
qed

theorem table_invariant_witness:
  "map_of (tb_running again_table) sample_key = Some (sample_task 1) \<and> map_of (tb_rows again_table) sample_key = None
     \<and> task_done (sample_task 0) False decide_row None again_table = again_table"
  using table_invariant [OF again_reachable, of sample_key "sample_task 1" "sample_task 0" False decide_row None]
    table_values by simp

text \<open>A row is final: once a key is built, no later operation of the table, in any order, changes its row.\<close>

lemma rows_are_final:
  assumes "reachable_table keyOf t" "(table_step keyOf)\<^sup>*\<^sup>* t u" "map_of (tb_rows t) k = Some r"
  shows "map_of (tb_rows u) k = Some r"
proof -
  from assms(2) have "reachable_table keyOf u \<and> map_of (tb_rows u) k = Some r"
    by (induction rule: rtranclp_induct)
      (use assms reachable_ok step_keeps_row in \<open>blast intro: reachable_table.step\<close>)+
  then show ?thesis ..
qed

lemma rows_are_final_witness:
  "map_of (tb_rows (fst (Ensure sample_digest decide_settings idle_snapshot built_table))) sample_key = Some decide_row"
  using rows_are_final [OF built_reachable _ table_values(4)]
    table_step.ensured [of sample_digest built_table decide_settings idle_snapshot] by blast

text \<open>C40: After \<open>Ensure\<close> on any reachable table every wanted key is either built or being built and not both,
  only wanted keys are being built, no row has changed, and \<open>Rows\<close> reports one row for every wanted input, in order.\<close>

theorem ensure_covers:
  assumes "reachable_table keyOf t" "Ensure keyOf st s t = (u, asked)"
  defines "keys \<equiv> map (\<lambda>wx. CapacityInput_Key keyOf (wanted_input st s wx)) (wanted_pairs st s)"
  shows "(if k \<in> set keys then (map_of (tb_rows u) k = None) \<noteq> (map_of (tb_running u) k = None)
      else map_of (tb_running u) k = None)
    \<and> tb_rows u = tb_rows t \<and> map cr_input (Rows keyOf u) = map (wanted_input st s) (wanted_pairs st s)"
proof -
  have u: "u = fst (Ensure keyOf st s t)" using assms(2) by simp
  have keys: "set keys = set (map (CapacityInput_Key keyOf) (map (wanted_input st s) (wanted_pairs st s)))"
    by (simp add: keys_def image_image)
  have ok: "table_ok u" unfolding u by (rule Ensure_ok) (rule reachable_ok [OF assms(1)])
  have "(map_of (tb_rows u) k = None) \<noteq> (map_of (tb_running u) k = None)" if "k \<in> set keys"
    using Ensure_covers(1) [of k keyOf st s t] that ok running_member [OF ok]
    unfolding keys u [symmetric] by (fastforce simp: table_ok_defs)
  moreover have "map_of (tb_running u) k = None" if "k \<notin> set keys"
    using Ensure_covers(2) [of keyOf st s t k] that unfolding keys u [symmetric] by blast
  moreover have "map cr_input (Rows keyOf u) = tb_wanted u"
    by (simp add: Rows_def row_of_def Let_def o_def)
  ultimately show ?thesis
    using Ensure_covers(3) [of keyOf st s t] by (simp add: u Ensure_rows)
qed

theorem ensure_covers_witness:
  "map_of (tb_running (fst (Ensure sample_digest decide_settings decide_snapshot built_table))) sample_key = None
     \<and> tb_rows (fst (Ensure sample_digest decide_settings decide_snapshot built_table)) = tb_rows built_table"
proof -
  obtain u asked where run: "Ensure sample_digest decide_settings decide_snapshot built_table = (u, asked)" by (metis surj_pair)
  from ensure_covers [OF built_reachable run, of sample_key] table_values(4,5) run show ?thesis by auto
qed

end
