(* ===== verification/BridgeProps.thy ===== *)
theory BridgeProps
  imports CapacityBridge
begin

text \<open>
  The fuel of the loops over the actions of a plan is enough: the search for what a route waits for
  finds exactly the IDs reachable over dependencies, \<open>resolve\<close> ends where nothing more can be
  scheduled, and the rounds of handoffs end for want of a blocked stop or of a possible handoff,
  never for want of fuel.
\<close>

section \<open>What a route waits for\<close>

definition waits :: "(string \<Rightarrow> string list) \<Rightarrow> (string \<times> string) set" where
  "waits deps = {(a, d). d \<in> set (deps a)}"

lemma visit_step_exact:
  assumes IH: "\<And>before idn. finite W \<Longrightarrow> card (W - set before) \<le> fuel \<Longrightarrow>
      set before \<subseteq> set (visit fuel deps before idn) \<and> set (deps idn) \<subseteq> set (visit fuel deps before idn)
      \<and> (\<forall>x \<in> set (visit fuel deps before idn) - set before. set (deps x) \<subseteq> set (visit fuel deps before idn))
      \<and> (\<forall>x \<in> set (visit fuel deps before idn) - set before. (idn, x) \<in> (waits deps)\<^sup>+)"
    and W: "finite W" "set ds \<subseteq> W" and fuel: "card (W - set b) \<le> Suc fuel" and ds: "set ds \<subseteq> set (deps idn)"
  defines "r \<equiv> foldl (\<lambda>b d. if d \<in> set b then b else visit fuel deps (d # b) d) b ds"
  shows "set b \<subseteq> set r \<and> set ds \<subseteq> set r \<and> (\<forall>x \<in> set r - set b. set (deps x) \<subseteq> set r)
    \<and> (\<forall>x \<in> set r - set b. (idn, x) \<in> (waits deps)\<^sup>+)"
  using W(2) fuel ds unfolding r_def
proof (induction ds arbitrary: b)
  case (Cons d ds)
  let ?f = "\<lambda>b d. if d \<in> set b then b else visit fuel deps (d # b) d"
  show ?case
  proof (cases "d \<in> set b")
    case True
    with Cons.IH [of b] Cons.prems show ?thesis by auto
  next
    case False
    let ?b1 = "visit fuel deps (d # b) d" and ?r = "foldl ?f (visit fuel deps (d # b) d) ds"
    have d: "(idn, d) \<in> waits deps" using Cons.prems(3) by (simp add: waits_def)
    have "W - set (d # b) \<subset> W - set b" using False Cons.prems(1) by auto
    then have "card (W - set (d # b)) < card (W - set b)" by (rule psubset_card_mono [rotated]) (simp add: W(1))
    with Cons.prems(2) have "card (W - set (d # b)) \<le> fuel" by simp
    note one = IH [OF W(1) this, of d]
    have "W - set ?b1 \<subseteq> W - set b" using one by auto
    then have "card (W - set ?b1) \<le> card (W - set b)" by (rule card_mono [rotated]) (simp add: W(1))
    with Cons.prems have rest: "set ?b1 \<subseteq> set ?r \<and> set ds \<subseteq> set ?r
        \<and> (\<forall>x \<in> set ?r - set ?b1. set (deps x) \<subseteq> set ?r) \<and> (\<forall>x \<in> set ?r - set ?b1. (idn, x) \<in> (waits deps)\<^sup>+)"
      by (intro Cons.IH) auto
    have first: "set (deps x) \<subseteq> set ?b1" "(idn, x) \<in> (waits deps)\<^sup>+" if "x \<in> set ?b1 - set b" for x
      using one that d by (cases "x = d"; auto intro: trancl_into_trancl2)+
    have "foldl ?f b (d # ds) = ?r" using False by simp
    moreover have "set b \<subseteq> set ?r" "set (d # ds) \<subseteq> set ?r" using one rest by auto
    moreover have "set (deps x) \<subseteq> set ?r \<and> (idn, x) \<in> (waits deps)\<^sup>+" if "x \<in> set ?r - set b" for x
    proof (cases "x \<in> set ?b1")
      case True
      with first [of x] that rest show ?thesis by blast
    qed (use rest that in blast)
    ultimately show ?thesis by auto
  qed
qed simp

lemma visit_exact:
  assumes "\<And>x. set (deps x) \<subseteq> W"
  shows "finite W \<Longrightarrow> card (W - set before) \<le> fuel \<Longrightarrow>
    set before \<subseteq> set (visit fuel deps before idn) \<and> set (deps idn) \<subseteq> set (visit fuel deps before idn)
    \<and> (\<forall>x \<in> set (visit fuel deps before idn) - set before. set (deps x) \<subseteq> set (visit fuel deps before idn))
    \<and> (\<forall>x \<in> set (visit fuel deps before idn) - set before. (idn, x) \<in> (waits deps)\<^sup>+)"
proof (induction fuel arbitrary: before idn)
  case 0
  then have "W \<subseteq> set before" by auto
  then show ?case using assms by auto
next
  case (Suc fuel)
  from visit_step_exact [OF Suc.IH Suc.prems(1) assms Suc.prems(2) order_refl] show ?case by simp
qed

lemma visit_reaches:
  assumes "\<And>x. set (deps x) \<subseteq> set W" and "length W \<le> fuel"
  shows "set (visit fuel deps [] idn) = {x. (idn, x) \<in> (waits deps)\<^sup>+}"
proof -
  let ?r = "visit fuel deps [] idn"
  have "card (set W - set []) \<le> fuel" using card_length [of W] assms(2) by simp
  note exact = visit_exact [where idn = idn and deps = deps, OF assms(1) _ this, simplified]
  have "x \<in> set ?r" if "(idn, x) \<in> (waits deps)\<^sup>+" for x
    using that
  proof (induction rule: trancl_induct)
    case (base y)
    with exact show ?case by (auto simp: waits_def)
  next
    case (step y z)
    with exact show ?case by (auto simp: waits_def)
  qed
  with exact show ?thesis by blast
qed

lemma find_member: "find P xs = Some x \<Longrightarrow> x \<in> set xs"
  by (induction xs) (auto split: if_splits)

lemma depends_waited: "set (depends_on actions idn) \<subseteq> set (waited_for actions)"
  using find_member [of _ "rev actions"] by (fastforce simp: depends_on_def waited_for_def split: option.splits)

lemma before_route_reaches:
  "set (before_route actions) = {x. (route_id actions, x) \<in> (waits (depends_on actions))\<^sup>+}"
  unfolding before_route_def by (rule visit_reaches [OF depends_waited]) simp

lemma bridge_waited: "set (depends_at actions idn) \<subseteq> set (waited_for actions)"
  using find_member [of _ "rev actions"]
  by (fastforce simp: depends_at_def waited_for_def split: option.splits list.splits)

lemma bridge_start_before:
  "set (bk_before (bridge_start p choice)) =
    {x. (route_id (bs_actions (bk_out (bridge_start p choice))), x)
      \<in> (waits (depends_at (bs_actions (bk_out (bridge_start p choice)))))\<^sup>+}"
  unfolding bridge_start_def Let_def schedulerBridgeCompiler.simps schedulerBridgeSchedule.simps
  by (rule visit_reaches [OF bridge_waited]) simp

section \<open>The frontier is a fixed point\<close>

definition unscheduled :: "schedulerBridgeCompiler \<Rightarrow> nat" where
  "unscheduled b = length (filter (\<lambda>a. map_of (bk_ends b) (ac_id a) = None) (bs_actions (bk_out b)))"

lemma resolve_step_keeps [simp]:
  "bk_out (fst (resolve_step p acc a)) = bk_out (fst acc)" "bk_blocked (fst (resolve_step p acc a)) = bk_blocked (fst acc)"
  "bk_before (fst (resolve_step p acc a)) = bk_before (fst acc)"
  by (simp_all add: resolve_step_def Let_def)

lemma resolve_pass_keeps [simp]:
  "bk_out (fst (foldl (resolve_step p) acc as)) = bk_out (fst acc)"
  "bk_blocked (fst (foldl (resolve_step p) acc as)) = bk_blocked (fst acc)"
  by (induction as arbitrary: acc) simp_all

lemma map_of_put_bridge: "map_of (put k v m) x = (if x = k then Some v else map_of m x)"
  by (induction m) (auto simp: put_def)

lemma resolve_step_ends:
  "bk_ends (fst (resolve_step p acc a)) = bk_ends (fst acc) \<and> resolve_step p acc a = acc \<and> \<not> schedulable (fst acc) a
    \<or> (\<exists>t. bk_ends (fst (resolve_step p acc a)) = put (ac_id a) t (bk_ends (fst acc))) \<and> schedulable (fst acc) a
      \<and> snd (resolve_step p acc a)"
  by (auto simp: resolve_step_def Let_def)

lemma resolve_pass_mono:
  "map_of (bk_ends (fst acc)) x \<noteq> None \<Longrightarrow> map_of (bk_ends (fst (foldl (resolve_step p) acc as))) x \<noteq> None"
proof (induction as arbitrary: acc)
  case (Cons a as)
  from resolve_step_ends [of p acc a] Cons.prems
  have "map_of (bk_ends (fst (resolve_step p acc a))) x \<noteq> None" by (auto simp: map_of_put_bridge)
  from Cons.IH [OF this] show ?case by simp
qed simp

lemma resolve_pass_flag: "snd acc \<Longrightarrow> snd (foldl (resolve_step p) acc as)"
proof (induction as arbitrary: acc)
  case (Cons a as)
  then have "snd (resolve_step p acc a)" using resolve_step_ends [of p acc a] by auto
  from Cons.IH [OF this] show ?case by simp
qed simp

lemma resolve_pass_stuck:
  "\<not> snd (foldl (resolve_step p) acc as) \<Longrightarrow>
    foldl (resolve_step p) acc as = acc \<and> (\<forall>a \<in> set as. \<not> schedulable (fst acc) a)"
proof (induction as arbitrary: acc)
  case (Cons a as)
  have "\<not> snd (resolve_step p acc a)" using Cons.prems resolve_pass_flag [of "resolve_step p acc a" p as] by auto
  then have "resolve_step p acc a = acc" "\<not> schedulable (fst acc) a" using resolve_step_ends [of p acc a] by auto
  with Cons.IH [of acc] Cons.prems show ?case by simp
qed simp

lemma resolve_pass_progress:
  "snd (foldl (resolve_step p) acc as) \<Longrightarrow> \<not> snd acc \<Longrightarrow>
    \<exists>a \<in> set as. map_of (bk_ends (fst acc)) (ac_id a) = None
      \<and> map_of (bk_ends (fst (foldl (resolve_step p) acc as))) (ac_id a) \<noteq> None"
proof (induction as arbitrary: acc)
  case (Cons a as)
  show ?case
  proof (cases "resolve_step p acc a = acc")
    case True
    with Cons.IH [of acc] Cons.prems show ?thesis by auto
  next
    case False
    then have "schedulable (fst acc) a" "map_of (bk_ends (fst (resolve_step p acc a))) (ac_id a) \<noteq> None"
      using resolve_step_ends [of p acc a] by (auto simp: map_of_put_bridge)
    then show ?thesis
      using resolve_pass_mono [of "resolve_step p acc a" "ac_id a" p as] by (auto simp: schedulable_def)
  qed
qed simp

lemma fewer_left:
  assumes "a \<in> set as" "P a" "\<not> Q a" "\<And>x. Q x \<Longrightarrow> P x"
  shows "length (filter Q as) < length (filter P as)"
  using assms(1)
proof (induction as)
  case (Cons x xs)
  have le: "length (filter Q xs) \<le> length (filter P xs)"
    by (induction xs) (auto dest: assms(4))
  show ?case
  proof (cases "x = a")
    case True
    then show ?thesis using assms(2,3) le by simp
  next
    case False
    then show ?thesis using Cons assms(4) [of x] by auto
  qed
qed simp

lemma resolve_ends:
  "unscheduled b < fuel \<Longrightarrow> a \<in> set (bs_actions (bk_out b)) \<Longrightarrow> \<not> schedulable (resolve fuel p b) a"
proof (induction fuel arbitrary: b)
  case (Suc fuel)
  let ?as = "bs_actions (bk_out b)"
  obtain b1 progress where pass: "foldl (resolve_step p) (b, False) ?as = (b1, progress)" by (metis surj_pair)
  have out: "bk_out b1 = bk_out b" using resolve_pass_keeps(1) [of p "(b, False)" ?as] pass by simp
  show ?case
  proof (cases progress)
    case False
    with resolve_pass_stuck [of p "(b, False)" ?as] pass Suc.prems(2) show ?thesis by auto
  next
    case True
    with resolve_pass_progress [of p "(b, False)" ?as] pass obtain x where
      x: "x \<in> set ?as" "map_of (bk_ends b) (ac_id x) = None" "map_of (bk_ends b1) (ac_id x) \<noteq> None" by auto
    have mono: "map_of (bk_ends b) y = None" if "map_of (bk_ends b1) y = None" for y
      using resolve_pass_mono [of "(b, False)" y p ?as] pass that by (cases "map_of (bk_ends b) y") auto
    have "unscheduled b1 < unscheduled b"
      unfolding unscheduled_def out by (rule fewer_left [where a = x]) (use x mono in blast)+
    with Suc.prems Suc.IH [of b1] out pass True show ?thesis by simp
  qed
qed simp

lemma resolve_keeps: "bk_out (resolve fuel p b) = bk_out b \<and> bk_blocked (resolve fuel p b) = bk_blocked b"
proof (induction fuel arbitrary: b)
  case (Suc fuel)
  obtain b1 progress where pass: "foldl (resolve_step p) (b, False) (bs_actions (bk_out b)) = (b1, progress)" by (metis surj_pair)
  have "bk_out b1 = bk_out b" "bk_blocked b1 = bk_blocked b"
    using resolve_pass_keeps [of p "(b, False)" "bs_actions (bk_out b)"] pass by simp_all
  with Suc.IH [of b1] pass show ?case by simp
qed simp

text \<open>\<open>resolve\<close> ends exactly where the loop of the source ends: a full pass would schedule nothing more.\<close>

lemma resolve_all_done:
  assumes "a \<in> set (bs_actions (bk_out b))"
  shows "\<not> schedulable (resolve_all p b) a"
  unfolding resolve_all_def
  by (rule resolve_ends [OF _ assms]) (simp add: unscheduled_def le_imp_less_Suc)

section \<open>Handoffs\<close>

text \<open>Every blocked stop is an action of the schedule.\<close>

definition stops_known :: "schedulerBridgeCompiler \<Rightarrow> bool" where
  "stops_known b \<longleftrightarrow> fst ` set (bk_blocked b) \<subseteq> ac_id ` set (bs_actions (bk_out b))"

lemma attach_stop_id [simp]: "ac_id (attach_stop blocked uid bridge a) = ac_id a"
  by (simp add: attach_stop_def)

lemma attach_known: "stops_known b \<Longrightarrow> stops_known (attach b uid action start rts stage)"
  by (auto simp: stops_known_def attach_def Let_def image_image)

lemma attach_fewer:
  assumes "stops_known b" "pending_handoff b w"
  shows "length (bk_blocked (attach b (df_uid (cw_d w)) action start rts stage)) < length (bk_blocked b)"
proof -
  obtain x where x: "x \<in> set (bk_blocked b)" "snd x = df_uid (cw_d w)"
    using assms(2) by (auto simp: pending_handoff_def list_ex_iff)
  then have "fst x \<in> ac_id ` set (bs_actions (bk_out b))" using assms(1) by (auto simp: stops_known_def)
  with x show ?thesis by (simp add: attach_def Let_def length_filter_less)
qed

lemma handoff_attaches:
  assumes "handoff p choice b w = Some b1"
  shows "\<exists>action start rts stage. b1 = attach b (df_uid (cw_d w)) action start rts stage"
  using assms by (auto simp: handoff_def Let_def split: prod.splits if_splits option.splits)

lemma first_handoff_frees:
  assumes "first_handoff p choice b ws = Some b1" "stops_known b"
  shows "stops_known b1" "length (bk_blocked b1) < length (bk_blocked b)"
proof -
  have "stops_known b1 \<and> length (bk_blocked b1) < length (bk_blocked b)"
    using assms(1)
  proof (induction ws)
    case (Cons w ws)
    show ?case
    proof (cases "if pending_handoff b w then handoff p choice b w else None")
      case None
      with Cons show ?thesis by simp
    next
      case (Some b2)
      then have "pending_handoff b w" "handoff p choice b w = Some b1" using Cons.prems by (auto split: if_splits)
      with handoff_attaches attach_known attach_fewer assms(2) show ?thesis by metis
    qed
  qed simp
  then show "stops_known b1" "length (bk_blocked b1) < length (bk_blocked b)" by simp_all
qed

lemma resolve_all_keeps [simp]: "bk_out (resolve_all p b) = bk_out b" "bk_blocked (resolve_all p b) = bk_blocked b"
  unfolding resolve_all_def using resolve_keeps by blast+

lemma resolve_all_known [simp]: "stops_known (resolve_all p b) = stops_known b"
  by (simp add: stops_known_def)

text \<open>As many rounds as blocked stops are enough: more fuel changes nothing.\<close>

lemma compile_loop_fuel:
  assumes "stops_known b" "length (bk_blocked b) \<le> fuel"
  shows "compile_loop (Suc fuel) p choice b = compile_loop fuel p choice b"
  using assms
proof (induction fuel arbitrary: b)
  case (Suc fuel)
  show ?case
  proof (cases "bk_blocked b = []")
    case False
    show ?thesis
    proof (cases "first_handoff p choice (resolve_all p b) (cp_ws p)")
      case (Some b1)
      from first_handoff_frees [OF this] Suc.prems have "stops_known b1" "length (bk_blocked b1) \<le> fuel" by auto
      from Suc.IH [OF this] show ?thesis using False Some by simp
    qed (use False in simp)
  qed simp
qed simp

lemma compile_loop_enough:
  assumes "stops_known b"
  shows "compile_loop (length (bk_blocked b) + n) p choice b = compile_loop (length (bk_blocked b)) p choice b"
  using assms by (induction n) (simp_all add: compile_loop_fuel del: compile_loop.simps)

lemma compile_loop_done:
  assumes "compile_loop fuel p choice b = Some r"
  shows "bk_blocked r = [] \<and> (\<forall>a \<in> set (bs_actions (bk_out r)). \<not> schedulable r a)"
  using assms
proof (induction fuel arbitrary: b)
  case 0
  then show ?case by (auto simp: resolve_all_done split: if_splits)
next
  case (Suc fuel)
  show ?case
  proof (cases "bk_blocked b = []")
    case True
    with Suc.prems show ?thesis by (auto simp: resolve_all_done)
  next
    case False
    with Suc show ?thesis by (auto split: option.splits)
  qed
qed

lemma block_step_blocked:
  assumes "block_step p (Some b) a = Some b2"
  shows "bk_blocked b2 = bk_blocked b \<or> (\<exists>uid. bk_blocked b2 = put (ac_id a) uid (bk_blocked b))"
proof -
  let ?uid = "case schedule_instance (bk_out b) (ac_instance a) of None \<Rightarrow> [] | Some i \<Rightarrow> si_workloadUID i"
  have "bk_blocked b2 = bk_blocked b \<or> bk_blocked b2 = put (ac_id a) ?uid (bk_blocked b)"
    using assms unfolding block_step_def Let_def by (simp only: option.case split: if_split_asm) (drule sym, simp)+
  then show ?thesis by blast
qed

lemma block_step_known:
  assumes "foldl (block_step p) (Some b) as = Some b1" "stops_known b" "set as \<subseteq> set (bs_actions (bk_out b))"
  shows "stops_known b1"
proof -
  have none: "foldl (block_step p) None as = None" for as by (induction as) (simp_all add: block_step_def)
  show ?thesis using assms
  proof (induction as arbitrary: b)
    case (Cons a as)
    then obtain b2 where b2: "block_step p (Some b) a = Some b2" using none by (cases "block_step p (Some b) a") auto
    have out: "bk_out b2 = bk_out b" using b2 by (auto simp: block_step_def Let_def split: if_splits)
    obtain uid where "bk_blocked b2 = bk_blocked b \<or> bk_blocked b2 = put (ac_id a) uid (bk_blocked b)"
      using block_step_blocked [OF b2] by blast
    then have "fst ` set (bk_blocked b2) \<subseteq> insert (ac_id a) (fst ` set (bk_blocked b))"
      by (elim disjE) (auto simp: put_def)
    also have "\<dots> \<subseteq> ac_id ` set (bs_actions (bk_out b))" using Cons.prems(2,3) by (simp add: stops_known_def)
    finally have "stops_known b2" unfolding stops_known_def out .
    moreover have "foldl (block_step p) (Some b2) as = Some b1" using Cons.prems(1) unfolding foldl.simps b2 .
    ultimately show ?case using Cons.prems(3) out by (intro Cons.IH [of b2]) simp_all
  qed (use assms in simp)
qed

lemma initialize_known:
  assumes "initialize p choice = Some (b, final)"
  shows "stops_known b"
proof -
  have "foldl (block_step p) (Some (bridge_start p choice)) (bs_actions (bk_out (bridge_start p choice))) = Some b"
    using assms unfolding initialize_def Let_def by (simp split: if_splits)
  moreover have "stops_known (bridge_start p choice)" by (simp add: stops_known_def bridge_start_def Let_def)
  ultimately show ?thesis using block_step_known by blast
qed

text \<open>
  The schedule of a transition: whatever fuel above the number of blocked stops gives the same
  compilation, and when it succeeds no stop is blocked and nothing is left that could be scheduled.
\<close>

lemma bridge_compiles:
  assumes "initialize p choice = Some (b, final)"
  shows "compile_loop (length (bk_blocked b) + n) p choice b = compile_loop (length (bk_blocked b)) p choice b
    \<and> (\<forall>r. compile_loop (length (bk_blocked b)) p choice b = Some r
        \<longrightarrow> bk_blocked r = [] \<and> (\<forall>a \<in> set (bs_actions (bk_out r)). \<not> schedulable r a))"
  using compile_loop_enough [OF initialize_known [OF assms]] compile_loop_done by blast

end
