(* ===== verification/CapacityPrefer.thy ===== *)
theory CapacityPrefer
  imports CapacitySearch "HOL-Library.List_Lexorder" "HOL-Library.Product_Lexorder"
begin

text \<open>
  The preference between evaluated plan sets: a strict partial order on all results, and a strict
  weak order on those whose gain is a number, so the library's lemmas on selecting the best element
  apply to the sweeps.
\<close>

section \<open>Comparison of floats and of excesses\<close>

text \<open>\<open>cmp.Compare\<close> is the order of these keys.\<close>

definition cmp_key :: "f64 \<Rightarrow> int \<times> rat" where
  "cmp_key a = (if is_nan a then (- 2, 0) else (f_rank a, f_val a))"

lemma f_rank_range: "- 1 \<le> f_rank a"
  by (cases a) auto

lemma f_cmp_less_key: "f_cmp_less a b \<longleftrightarrow> cmp_key a < cmp_key b"
  using f_rank_range [of a] f_rank_range [of b]
  by (auto simp: f_cmp_less_def cmp_key_def f_less_def less_prod_def)

lemma f_cmp_zero: "f_cmp a b = 0 \<longleftrightarrow> cmp_key a = cmp_key b"
  by (auto simp: f_cmp_def f_cmp_less_key)

lemma f_cmp_neg: "f_cmp a b < 0 \<longleftrightarrow> cmp_key a < cmp_key b"
  by (auto simp: f_cmp_def f_cmp_less_key)

lemma compare_excesses_zero: "compare_excesses xs ys = 0 \<longleftrightarrow> map cmp_key xs = map cmp_key ys"
  by (induction xs ys rule: compare_excesses.induct) (auto simp: f_cmp_zero)

lemma compare_excesses_neg: "compare_excesses xs ys < 0 \<longleftrightarrow> map cmp_key xs < map cmp_key ys"
proof (induction xs ys rule: compare_excesses.induct)
  case (1 ys)
  then show ?case by (cases ys) simp_all
qed (auto simp: f_cmp_zero f_cmp_neg)

lemmas excess_order = compare_excesses_zero compare_excesses_neg

section \<open>The preference is a strict partial order\<close>

text \<open>First the class of a result, a linear order; then its gain, keep and the key.\<close>

definition result_class :: "capacityResult \<Rightarrow> bool \<times> bool \<times> (int \<times> rat) list" where
  "result_class a = (\<not> ev_feasible a,
     if ev_feasible a then (False, []) else (\<not> ev_final a, map cmp_key (ev_excesses a)))"

definition prefers :: "capacityResult \<Rightarrow> capacityResult \<Rightarrow> bool" where
  "prefers a b = (if \<not> f_eq (gain a) (gain b) then f_less (gain a) (gain b)
     else if ev_keep a \<noteq> ev_keep b then ev_keep a else string_lt (ev_key a) (ev_key b))"

lemma better_result_iff:
  "better_result a b \<longleftrightarrow> result_class a < result_class b \<or> result_class a = result_class b \<and> prefers a b"
  by (auto simp: better_result_def prefers_def result_class_def excess_order less_prod_def)

lemma prefers_irrefl: "\<not> prefers a a"
  by (simp add: prefers_def)

lemma f_less_neq: "f_less a b \<Longrightarrow> \<not> f_eq a b"
  by (auto simp: f_order_defs)

lemma prefers_trans:
  assumes "prefers a b" and "prefers b c"
  shows "prefers a c"
proof -
  consider (less) "f_less (gain a) (gain b)" | (eq) "f_eq (gain a) (gain b)"
    using assms(1) by (auto simp: prefers_def split: if_splits)
  then show ?thesis
  proof cases
    case less
    have "f_eq (gain b) (gain c) \<or> f_less (gain b) (gain c)"
      using assms(2) by (auto simp: prefers_def split: if_splits)
    then have "f_less (gain a) (gain c)" using less f_less_trans f_less_eq_trans by blast
    then show ?thesis by (simp add: prefers_def f_less_neq)
  next
    case eq
    show ?thesis
    proof (cases "f_eq (gain b) (gain c)")
      case True
      then have "f_eq (gain a) (gain c)" using eq by (rule f_eq_trans [rotated])
      then show ?thesis using assms eq True string_lt_trans [of "ev_key a" "ev_key b" "ev_key c"]
        by (auto simp: prefers_def split: if_splits)
    next
      case False
      then have "f_less (gain b) (gain c)" using assms(2) by (simp add: prefers_def)
      then have "f_less (gain a) (gain c)" by (rule f_eq_less_trans [OF eq])
      then show ?thesis by (simp add: prefers_def f_less_neq)
    qed
  qed
qed

lemma better_result_irrefl: "\<not> better_result a a"
  by (simp add: better_result_iff prefers_irrefl)

lemma better_result_trans: "better_result a b \<Longrightarrow> better_result b c \<Longrightarrow> better_result a c"
  unfolding better_result_iff using prefers_trans [of a b c] by (metis less_trans)

lemma better_result_asym: "better_result a b \<Longrightarrow> \<not> better_result b a"
  using better_result_trans better_result_irrefl by blast

section \<open>A strict weak order on numbers\<close>

definition gain_is_number :: "capacityResult \<Rightarrow> bool" where
  "gain_is_number r \<longleftrightarrow> \<not> is_nan (gain r)"

text \<open>Results that no criterion tells apart.\<close>

definition tied :: "capacityResult \<Rightarrow> capacityResult \<Rightarrow> bool" where
  "tied a b \<longleftrightarrow> result_class a = result_class b \<and> f_eq (gain a) (gain b) \<and> ev_keep a = ev_keep b \<and> ev_key a = ev_key b"

lemma better_or_tied:
  assumes "gain_is_number a" and "gain_is_number b"
  shows "better_result a b \<or> better_result b a \<or> tied a b"
proof (cases "result_class a = result_class b")
  case True
  from assms consider "f_less (gain a) (gain b)" | "f_eq (gain a) (gain b)" | "f_less (gain b) (gain a)"
    unfolding gain_is_number_def using f_less_total by blast
  then show ?thesis
    using True f_eq_sym [of "gain a" "gain b"] string_lt_linear [of "ev_key a" "ev_key b"]
    by cases (auto simp: better_result_iff prefers_def tied_def f_less_neq)
next
  case False
  then show ?thesis using linorder_neq_iff [of "result_class a" "result_class b"] by (auto simp: better_result_iff)
qed

lemma tied_better:
  assumes "tied a b" and "better_result a c"
  shows "better_result b c"
proof -
  have "f_eq (gain a) (gain c) \<longleftrightarrow> f_eq (gain b) (gain c)" "f_less (gain a) (gain c) \<longleftrightarrow> f_less (gain b) (gain c)"
    using assms(1) f_eq_sym f_eq_trans f_eq_less_trans unfolding tied_def by blast+
  with assms show ?thesis by (auto simp: better_result_iff prefers_def tied_def split: if_splits)
qed

interpretation plan_choice: selection gain_is_number better_result
proof
  show "better_result x y \<Longrightarrow> \<not> better_result y x" for x y by (rule better_result_asym)
  show "gain_is_number x \<Longrightarrow> gain_is_number y \<Longrightarrow> gain_is_number z \<Longrightarrow> \<not> better_result x y
    \<Longrightarrow> \<not> better_result y z \<Longrightarrow> \<not> better_result x z" for x y z
    using better_or_tied [of x y] better_result_trans [of y x z] tied_better [of x y z] by blast
qed

end
