(* ===== verification/SearchProps.thy ===== *)
theory SearchProps
  imports CapacityPrefer
begin

text \<open>
  Properties of the neighbourhood search: it ends whatever the goroutines do, its result is keep or
  a bounded and admitted plan set that is preferred to keep, no change of up to three nodes improves
  on the result of an uncut search, and a sweep does not depend on who evaluates what unless two
  plan sets tie.
\<close>

section \<open>The choice of a result\<close>

lemma fold_choice:
  assumes "\<And>r x. ev_choice (f r x) = ev_choice r"
  shows "ev_choice (foldl f r xs) = ev_choice r"
  using assms by (induction xs arbitrary: r) auto

lemma weightRoutes_choice: "ev_choice (fst (weightRoutes p res items weights)) = ev_choice res"
proof -
  have "ev_choice (fst (foldl (weight_step p) acc xs)) = ev_choice (fst acc)" for acc xs
    by (induction xs arbitrary: acc) (auto simp: weight_step_def split: prod.splits)
  then show ?thesis by (simp add: weightRoutes_def)
qed

lemma judge_workload_choice: "ev_choice (judge_workload p choice r bridge t res w) = ev_choice res"
  using weightRoutes_choice [of p res]
  by (auto simp: judge_workload_def Let_def split: prod.splits) (metis fst_conv)+

lemma evaluateAtWindow_choice [simp]: "ev_choice (evaluateAtWindow p c r b t) = c"
  by (simp add: evaluateAtWindow_def Let_def fold_choice judge_workload_choice start_result_def new_result_def
      split: prod.splits)

lemma evaluated_choice [simp]: "ev_choice (evaluated p c) = c"
  by (simp add: evaluated_def evaluate_def evaluateAtRoute_def Let_def new_result_def split: prod.splits)

section \<open>A worker selects the best of what it visits\<close>

definition admitted_results :: "capacityPlanner \<Rightarrow> nat list list \<Rightarrow> capacityResult list" where
  "admitted_results p cs = filter (admits p) (map (evaluated p) (filter (bounded p) cs))"

lemma in_admitted_results:
  "r \<in> set (admitted_results p cs) \<longleftrightarrow> (\<exists>c \<in> set cs. bounded p c \<and> admits p (evaluated p c) \<and> r = evaluated p c)"
  by (auto simp: admitted_results_def)

lemma keep_better_best: "keep_better p b r = (if admits p r then keep_best better_result b r else b)"
  by (cases b) (auto simp: keep_better_def better_def)

lemma worker_best:
  "sw_best (foldl (visit_set p) w cs) = scan_best better_result (sw_best w) (admitted_results p cs)"
  by (induction cs arbitrary: w) (auto simp: visit_set_def admitted_results_def keep_better_best Let_def)

lemma merge_best_scan:
  "foldl merge_best b ws = scan_best better_result b (List.map_filter sw_best ws)"
proof (induction ws arbitrary: b)
  case (Cons w ws)
  have "merge_best b w = scan_best better_result b (List.map_filter sw_best [w])"
    by (cases b) (auto simp: merge_best_def better_def map_filter_simps split: option.splits)
  moreover have "List.map_filter sw_best (w # ws) = List.map_filter sw_best [w] @ List.map_filter sw_best ws"
    by (simp add: map_filter_simps split: option.splits)
  ultimately show ?case by (simp only: foldl_Cons Cons.IH scan_best_append)
qed (simp add: map_filter_simps)

text \<open>All that the workers of a sweep visit.\<close>

definition swept :: "(nat \<times> nat) list \<Rightarrow> nat \<Rightarrow> nat list \<Rightarrow> sweepEnv \<Rightarrow> nat list list" where
  "swept ms k c e = concat (map (visited ms k c) (en_workers e))"

abbreviation workers_of :: "capacityPlanner \<Rightarrow> sweepEnv \<Rightarrow> nat list \<Rightarrow> nat \<Rightarrow> sweepWorker list" where
  "workers_of p e c k \<equiv> map (run_worker p (moves p c) k c) (en_workers e)"

lemma run_worker_best:
  "sw_best (run_worker p ms k c tc) = scan_best better_result None (admitted_results p (visited ms k c tc))"
  by (simp add: run_worker_def worker_best new_worker_def)

lemma sweep_simps:
  "sweep p e sd c k = Some (sd', found) \<longleftrightarrow> \<not> en_cancelled e
     \<and> sd' = (foldl record_worker sd (workers_of p e c k))\<lparr>ps_budgetCut := env_cut e\<rparr>
     \<and> found = scan_best better_result None (List.map_filter sw_best (workers_of p e c k))"
  by (auto simp: sweep_def Let_def merge_best_scan)

lemma map_filter_set: "y \<in> set (List.map_filter f xs) \<longleftrightarrow> (\<exists>x \<in> set xs. f x = Some y)"
  by (force simp: List.map_filter_def image_iff)

lemma admitted_results_swept:
  "set (admitted_results p (swept ms k c e)) = (\<Union>tc \<in> set (en_workers e). set (admitted_results p (visited ms k c tc)))"
  by (auto simp: admitted_results_def swept_def)

lemma scan_best_from_list: "scan_best f None xs = Some y \<Longrightarrow> y \<in> set xs"
  using scan_best_in [of f None xs y] by simp

text \<open>What a sweep finds is a candidate, and no candidate is preferred to it.\<close>

lemma sweep_found:
  assumes "sweep p e sd c k = Some (sd', Some r)"
  shows "r \<in> set (admitted_results p (swept (moves p c) k c e))"
proof -
  from assms have "r \<in> set (List.map_filter sw_best (workers_of p e c k))"
    by (metis sweep_simps scan_best_from_list)
  then obtain tc where "tc \<in> set (en_workers e)"
    "scan_best better_result None (admitted_results p (visited (moves p c) k c tc)) = Some r"
    by (auto simp: map_filter_set run_worker_best)
  then show ?thesis unfolding admitted_results_swept by (blast dest: scan_best_from_list)
qed

lemma sweep_best:
  assumes run: "sweep p e sd c k = Some (sd', found)"
    and numbers: "\<forall>r \<in> set (admitted_results p (swept (moves p c) k c e)). gain_is_number r"
    and r: "r \<in> set (admitted_results p (swept (moves p c) k c e))"
  shows "\<exists>y. found = Some y \<and> \<not> better_result r y"
proof -
  let ?C = "\<lambda>tc. admitted_results p (visited (moves p c) k c tc)"
  let ?bests = "List.map_filter sw_best (workers_of p e c k)"
  from r obtain tc where tc: "tc \<in> set (en_workers e)" "r \<in> set (?C tc)"
    by (auto simp: admitted_results_swept)
  have D: "gain_is_number z" if "tc' \<in> set (en_workers e)" "z \<in> set (?C tc')" for tc' z
    using numbers that by (auto simp: admitted_results_swept)
  from tc(2) obtain b where b: "scan_best better_result None (?C tc) = Some b"
    by (cases "scan_best better_result None (?C tc)") auto
  have b_in: "b \<in> set (?C tc)" and b_best: "\<not> better_result r b"
    using plan_choice.scan_optimal [OF _ b] D [OF tc(1)] tc(2) by auto
  have "b \<in> set ?bests"
    using b tc(1) by (auto simp: map_filter_set run_worker_best image_iff intro: bexI [of _ tc])
  then have "scan_best better_result None ?bests \<noteq> None" by auto
  moreover have "found = scan_best better_result None ?bests" using run by (simp add: sweep_simps)
  ultimately obtain y where y: "found = Some y" "scan_best better_result None ?bests = Some y" by fastforce
  have all: "\<forall>z \<in> set ?bests. gain_is_number z"
  proof
    fix z assume "z \<in> set ?bests"
    then obtain tc' where "tc' \<in> set (en_workers e)" "scan_best better_result None (?C tc') = Some z"
      by (auto simp: map_filter_set run_worker_best)
    then show "gain_is_number z" using D [of tc' z] scan_best_from_list [of better_result "?C tc'" z] by simp
  qed
  have "\<not> better_result b y" "y \<in> set ?bests"
    using plan_choice.scan_optimal [OF all y(2)] \<open>b \<in> set ?bests\<close> by auto
  with b_best have "\<not> better_result r y"
    using plan_choice.neg_trans [of r b y] D [OF tc] D [OF tc(1) b_in] all by blast
  with y(1) show ?thesis by blast
qed

section \<open>What a walk visits\<close>

definition apply_moves :: "nat list \<Rightarrow> (nat \<times> nat) list \<Rightarrow> nat list" where
  "apply_moves c ms = foldl (\<lambda>d m. d[fst m := snd m]) c ms"

text \<open>Plan sets over the plans of a planner; a finite set that moves do not leave.\<close>

definition plan_indices :: "capacityPlanner \<Rightarrow> nat set" where
  "plan_indices p = insert 0 (\<Union>xs \<in> set (cp_plans p). {..<length xs})"

definition plan_sets :: "capacityPlanner \<Rightarrow> nat list set" where
  "plan_sets p = {c. set c \<subseteq> plan_indices p \<and> length c = length (cp_plans p)}"

lemma finite_plan_sets: "finite (plan_sets p)"
  unfolding plan_sets_def by (rule finite_lists_length_eq) (simp add: plan_indices_def)

lemma in_moves:
  "(n, j) \<in> set (moves p c) \<longleftrightarrow> n < length (cp_plans p) \<and> j < length (cp_plans p ! n) \<and> j \<noteq> c ! n
     \<and> np_eligible (pa_record (cp_plans p ! n ! j))"
  by (auto simp: moves_def node_moves_def)

lemma move_index: "(n, j) \<in> set (moves p c) \<Longrightarrow> j \<in> plan_indices p"
  by (auto simp: in_moves plan_indices_def)

lemma walk_Suc: "d \<in> set (walk ms (Suc left) c i) \<longleftrightarrow> d = c[fst (ms ! i) := snd (ms ! i)]
   \<or> (\<exists>i2. i < i2 \<and> i2 < length ms \<and> fst (ms ! i2) \<noteq> fst (ms ! i)
        \<and> d \<in> set (walk ms left (c[fst (ms ! i) := snd (ms ! i)]) i2))"
  by (force simp: Let_def)

lemma walk_plan_sets:
  assumes "d \<in> set (walk ms left c i)" and "i < length ms" and "\<forall>m \<in> set ms. snd m \<in> plan_indices p"
    and "c \<in> plan_sets p"
  shows "d \<in> plan_sets p"
  using assms
proof (induction ms left c i rule: walk.induct)
  case (1 ms c i)
  then show ?case using set_update_subset_insert by (fastforce simp: plan_sets_def)
next
  case (2 ms left c i)
  let ?c = "c[fst (ms ! i) := snd (ms ! i)]"
  have c: "?c \<in> plan_sets p" using 2 set_update_subset_insert by (fastforce simp: plan_sets_def)
  from "2.prems"(1) consider "d = ?c" | i2 where "i < i2" "i2 < length ms" "fst (ms ! i2) \<noteq> fst (ms ! i)" "d \<in> set (walk ms left ?c i2)"
    unfolding walk_Suc by blast
  then show ?case using "2.IH" [OF refl] "2.prems" c by cases (auto simp: Suc_le_eq)
qed

lemma visited_plan_sets:
  assumes "d \<in> set (visited (moves p c) k c tc)" and "c \<in> plan_sets p"
  shows "d \<in> plan_sets p"
proof -
  have "\<forall>m \<in> set (moves p c). snd m \<in> plan_indices p" using move_index by force
  moreover obtain i where "i < length (moves p c)" "d \<in> set (walk (moves p c) (k - 1) c i)"
    using assms(1) by (auto simp: visited_def Let_def split: option.splits dest!: in_set_takeD)
  ultimately show ?thesis using walk_plan_sets [of d "moves p c"] assms by auto
qed

lemma swept_plan_sets: "d \<in> set (swept (moves p c) k c e) \<Longrightarrow> c \<in> plan_sets p \<Longrightarrow> d \<in> plan_sets p"
  using visited_plan_sets by (auto simp: swept_def)

section \<open>The search ends\<close>

text \<open>The plan sets preferred to a result; an accepted step leaves fewer of them.\<close>

definition improvements :: "capacityPlanner \<Rightarrow> capacityResult \<Rightarrow> nat list set" where
  "improvements p r = {c \<in> plan_sets p. better_result (evaluated p c) r}"

lemma improvements_less:
  assumes "c \<in> plan_sets p" and "better_result (evaluated p c) r"
  shows "card (improvements p (evaluated p c)) < card (improvements p r)"
proof (rule psubset_card_mono)
  show "finite (improvements p r)" using finite_plan_sets by (simp add: improvements_def)
  have "c \<in> improvements p r" "c \<notin> improvements p (evaluated p c)"
    using assms better_result_irrefl by (simp_all add: improvements_def)
  moreover have "improvements p (evaluated p c) \<subseteq> improvements p r"
    using assms(2) better_result_trans by (auto simp: improvements_def)
  ultimately show "improvements p (evaluated p c) \<subset> improvements p r" by blast
qed

text \<open>
  The invariant of one start: its end is a plan set of the planner, and where it has moved it is
  bounded, admitted, evaluated by this planner and preferred to where it began.
\<close>

definition reached :: "capacityPlanner \<Rightarrow> capacityResult \<Rightarrow> capacityResult \<Rightarrow> bool" where
  "reached p r0 r \<longleftrightarrow> ev_choice r \<in> plan_sets p
     \<and> (r = r0 \<or> bounded p (ev_choice r) \<and> admits p r \<and> r = evaluated p (ev_choice r) \<and> better_result r r0)"

text \<open>What one climb leaves: the other ends as they were, and nothing a fair sweep of \<open>k\<close> would still find.\<close>

definition swept_out :: "capacityPlanner \<Rightarrow> sweepEnvs \<Rightarrow> nat \<Rightarrow> capacityResult \<Rightarrow> bool" where
  "swept_out p en k r \<longleftrightarrow> (\<exists>m sd sd' found.
     sweep p (en m (length (moves p (ev_choice r)))) sd (ev_choice r) k = Some (sd', found)
     \<and> (\<forall>step. found = Some step \<longrightarrow> \<not> better_result step r))"

lemma climb_ends:
  assumes "s < length (sx_ends x)" and "ev_choice (sx_ends x ! s) \<in> plan_sets p"
  shows "\<exists>r. climb p en k s x = Some r \<and> (\<forall>x1. r = Some x1 \<longrightarrow>
     length (sx_ends x1) = length (sx_ends x)
     \<and> (\<forall>j < length (sx_ends x). j \<noteq> s \<longrightarrow> sx_ends x1 ! j = sx_ends x ! j)
     \<and> reached p (sx_ends x ! s) (sx_ends x1 ! s)
     \<and> (ps_budgetCut (sx_searched x1) \<or> swept_out p en k (sx_ends x1 ! s)))"
  using assms
proof (induction "card (improvements p (sx_ends x ! s))" arbitrary: x rule: less_induct)
  case less
  let ?e = "env_of en p x s" and ?old = "sx_ends x ! s"
  show ?case
  proof (cases "ps_budgetCut (sx_searched x)")
    case True
    then show ?thesis using less.prems by (subst climb.simps) (simp add: reached_def)
  next
    case uncut: False
    show ?thesis
    proof (cases "sweep p ?e (sx_searched x) (ev_choice ?old) k")
      case None
      with uncut show ?thesis by (subst climb.simps) simp
    next
      case (Some sf)
      obtain sd found where run: "sweep p ?e (sx_searched x) (ev_choice ?old) k = Some (sd, found)"
        using Some by (cases sf) auto
      show ?thesis
      proof (cases "\<exists>step. found = Some step \<and> better_result step ?old")
        case False
        have "climb p en k s x = Some (Some (reject_sweep (ps_evaluated (sx_searched x)) sd x))"
          using False uncut run by (subst climb.simps) (auto simp: Let_def split: option.splits)
        moreover have "swept_out p en k ?old"
          using run False unfolding swept_out_def env_of_def by blast
        ultimately show ?thesis using less.prems by (simp add: reject_sweep_def reached_def)
      next
        case True
        then obtain step where step: "found = Some step" "better_result step ?old" by blast
        define x1 where "x1 = accept_step p k s (ps_evaluated (sx_searched x)) sd step x"
        have eq: "climb p en k s x = climb p en k s x1"
          using uncut run step by (subst climb.simps) (simp add: Let_def x1_def)
        from sweep_found [OF run [unfolded step(1)]] obtain c where
          c: "c \<in> set (swept (moves p (ev_choice ?old)) k (ev_choice ?old) ?e)" "bounded p c" "admits p step"
            "step = evaluated p c"
          by (auto simp: in_admitted_results)
        have cs: "c \<in> plan_sets p" using swept_plan_sets [OF c(1)] less.prems(2) .
        have ends: "sx_ends x1 = (sx_ends x)[s := step]" by (simp add: x1_def accept_step_def)
        then have at_s: "sx_ends x1 ! s = step" using less.prems(1) by simp
        have "card (improvements p (sx_ends x1 ! s)) < card (improvements p ?old)"
          unfolding at_s c(4) by (rule improvements_less [OF cs]) (use step(2) c(4) in simp)
        from less.hyps [OF this] obtain r where r: "climb p en k s x1 = Some r"
          and post: "\<And>x2. r = Some x2 \<Longrightarrow> length (sx_ends x2) = length (sx_ends x1)
            \<and> (\<forall>j < length (sx_ends x1). j \<noteq> s \<longrightarrow> sx_ends x2 ! j = sx_ends x1 ! j)
            \<and> reached p (sx_ends x1 ! s) (sx_ends x2 ! s)
            \<and> (ps_budgetCut (sx_searched x2) \<or> swept_out p en k (sx_ends x2 ! s))"
          using less.prems(1) cs c(4) at_s by (auto simp: ends)
        have "reached p ?old r2" if "reached p (sx_ends x1 ! s) r2" for r2
          using that c step better_result_trans [of r2 step ?old] unfolding at_s reached_def by auto
        then show ?thesis using r post unfolding eq by (auto simp: ends)
      qed
    qed
  qed
qed

lemma climb_cut: "ps_budgetCut (sx_searched x) \<Longrightarrow> climb p en k s x = Some (Some x)"
  by (subst climb.simps) simp

lemma climb_starts_cut: "ps_budgetCut (sx_searched x) \<Longrightarrow> climb_starts p en k ss x = Some (Some x)"
  by (induction ss) (simp_all add: climb_cut)

lemma reached_refl: "ev_choice r \<in> plan_sets p \<Longrightarrow> reached p r r"
  by (simp add: reached_def)

lemma reached_trans: "reached p r0 r1 \<Longrightarrow> reached p r1 r2 \<Longrightarrow> reached p r0 r2"
  using better_result_trans unfolding reached_def by blast

text \<open>What a run of climbs keeps: every end is reached from where it was, or the search was cut.\<close>

definition ends_reached :: "capacityPlanner \<Rightarrow> searchState \<Rightarrow> searchState \<Rightarrow> bool" where
  "ends_reached p x x1 \<longleftrightarrow> length (sx_ends x1) = length (sx_ends x)
     \<and> (\<forall>j < length (sx_ends x). reached p (sx_ends x ! j) (sx_ends x1 ! j))"

definition in_plan_sets :: "capacityPlanner \<Rightarrow> searchState \<Rightarrow> bool" where
  "in_plan_sets p x \<longleftrightarrow> (\<forall>j < length (sx_ends x). ev_choice (sx_ends x ! j) \<in> plan_sets p)"

lemma ends_reached_sets: "ends_reached p x x1 \<Longrightarrow> in_plan_sets p x1"
  by (simp add: ends_reached_def in_plan_sets_def reached_def)

lemma ends_reached_trans: "ends_reached p x x1 \<Longrightarrow> ends_reached p x1 x2 \<Longrightarrow> ends_reached p x x2"
  unfolding ends_reached_def using reached_trans by metis

lemma climb_starts_ends:
  assumes "in_plan_sets p x" and "distinct ss" and "set ss \<subseteq> {..<length (sx_ends x)}"
  shows "\<exists>r. climb_starts p en k ss x = Some r \<and> (\<forall>x1. r = Some x1 \<longrightarrow> ends_reached p x x1
     \<and> (\<forall>j < length (sx_ends x). j \<notin> set ss \<longrightarrow> sx_ends x1 ! j = sx_ends x ! j)
     \<and> (ps_budgetCut (sx_searched x1) \<or> (\<forall>j \<in> set ss. swept_out p en k (sx_ends x1 ! j))))"
  using assms
proof (induction ss arbitrary: x)
  case Nil
  then show ?case by (simp add: ends_reached_def in_plan_sets_def reached_refl)
next
  case (Cons s ss)
  have s: "s < length (sx_ends x)" "s \<notin> set ss" using Cons.prems by auto
  obtain r where r: "climb p en k s x = Some r"
    and post: "\<And>x1. r = Some x1 \<Longrightarrow> length (sx_ends x1) = length (sx_ends x)
      \<and> (\<forall>j < length (sx_ends x). j \<noteq> s \<longrightarrow> sx_ends x1 ! j = sx_ends x ! j)
      \<and> reached p (sx_ends x ! s) (sx_ends x1 ! s)
      \<and> (ps_budgetCut (sx_searched x1) \<or> swept_out p en k (sx_ends x1 ! s))"
    using climb_ends [OF s(1)] Cons.prems(1) s(1) unfolding in_plan_sets_def by blast
  show ?case
  proof (cases r)
    case None
    then show ?thesis using r by simp
  next
    case (Some x1)
    note p1 = post [OF Some]
    have er: "ends_reached p x x1"
      using p1 Cons.prems(1) reached_refl unfolding ends_reached_def in_plan_sets_def by metis
    have run: "climb_starts p en k (s # ss) x = climb_starts p en k ss x1" using r Some by simp
    show ?thesis
    proof (cases "ps_budgetCut (sx_searched x1)")
      case True
      then show ?thesis using run er p1 by (simp add: climb_starts_cut)
    next
      case False
      obtain r2 where r2: "climb_starts p en k ss x1 = Some r2"
        and post2: "\<And>x2. r2 = Some x2 \<Longrightarrow> ends_reached p x1 x2
          \<and> (\<forall>j < length (sx_ends x1). j \<notin> set ss \<longrightarrow> sx_ends x2 ! j = sx_ends x1 ! j)
          \<and> (ps_budgetCut (sx_searched x2) \<or> (\<forall>j \<in> set ss. swept_out p en k (sx_ends x2 ! j)))"
        using Cons.IH [OF ends_reached_sets [OF er]] Cons.prems p1 by auto
      show ?thesis
      proof (intro exI [of _ r2] conjI allI impI)
        show "climb_starts p en k (s # ss) x = Some r2" using run r2 by simp
        fix x2 assume x2: "r2 = Some x2"
        note p2 = post2 [OF x2]
        show "ends_reached p x x2" using ends_reached_trans [OF er] p2 by blast
        have "sx_ends x2 ! s = sx_ends x1 ! s" using p2 s p1 by simp
        then show "ps_budgetCut (sx_searched x2) \<or> (\<forall>j \<in> set (s # ss). swept_out p en k (sx_ends x2 ! j))"
          using p1 p2 False by auto
        show "sx_ends x2 ! j = sx_ends x ! j" if "j < length (sx_ends x)" "j \<notin> set (s # ss)" for j
          using that p1 p2 by auto
      qed
    qed
  qed
qed

lemma neighbourhoods_ends:
  assumes "in_plan_sets p x"
  shows "\<exists>r. neighbourhoods p en ks x = Some r \<and> (\<forall>x1. r = Some x1 \<longrightarrow> ends_reached p x x1
     \<and> (ps_budgetCut (sx_searched x1) \<or> ks = [] \<or> (\<forall>j < length (sx_ends x). swept_out p en (last ks) (sx_ends x1 ! j))))"
  using assms
proof (induction ks arbitrary: x)
  case Nil
  then show ?case by (simp add: ends_reached_def in_plan_sets_def reached_refl)
next
  case (Cons k ks)
  show ?case
  proof (cases "ps_budgetCut (sx_searched x)")
    case True
    then show ?thesis using Cons.prems by (simp add: ends_reached_def in_plan_sets_def reached_refl)
  next
    case False
    let ?x = "x\<lparr>sx_searched := (sx_searched x)\<lparr>ps_neighborhood := k\<rparr>\<rparr>"
    have "in_plan_sets p ?x" using Cons.prems by (simp add: in_plan_sets_def)
    from climb_starts_ends [OF this distinct_upt, of 0 "length (sx_ends x)" en k] obtain r where
      r: "climb_starts p en k [0..<length (sx_ends x)] ?x = Some r"
      and post: "\<And>x1. r = Some x1 \<Longrightarrow> ends_reached p ?x x1 \<and> (ps_budgetCut (sx_searched x1)
        \<or> (\<forall>j < length (sx_ends x). swept_out p en k (sx_ends x1 ! j)))"
      by (auto simp: atLeast0LessThan Ball_def)
    show ?thesis
    proof (cases r)
      case None
      then show ?thesis using r False by simp
    next
      case (Some x1)
      note p1 = post [OF Some]
      have er: "ends_reached p x x1" using p1 by (simp add: ends_reached_def)
      have run: "neighbourhoods p en (k # ks) x = neighbourhoods p en ks x1" using r Some False by simp
      obtain r2 where r2: "neighbourhoods p en ks x1 = Some r2"
        and post2: "\<And>x2. r2 = Some x2 \<Longrightarrow> ends_reached p x1 x2 \<and> (ps_budgetCut (sx_searched x2)
          \<or> ks = [] \<or> (\<forall>j < length (sx_ends x1). swept_out p en (last ks) (sx_ends x2 ! j)))"
        using Cons.IH [OF ends_reached_sets [OF er]] by blast
      have len: "length (sx_ends x1) = length (sx_ends x)" using er by (simp add: ends_reached_def)
      show ?thesis
      proof (cases "ks = []")
        case True
        then show ?thesis using run p1 er by simp
      next
        case False
        then show ?thesis using run r2 post2 ends_reached_trans [OF er] len by auto
      qed
    qed
  qed
qed

section \<open>The result of a search\<close>

lemma seed_planner_simps [simp]:
  "cp_plans (seed_planner p) = cp_plans p" "keep_choice (seed_planner p) = keep_choice p"
  "empty_choice (seed_planner p) = empty_choice p" "plan_sets (seed_planner p) = plan_sets p"
  by (simp_all add: seed_planner_def Let_def keep_choice_def empty_choice_def plan_sets_def plan_indices_def)

lemma keep_choice_set: "keep_choice p \<in> plan_sets p"
  by (auto simp: keep_choice_def plan_sets_def plan_indices_def)

lemma empty_choice_set: "empty_choice p \<in> plan_sets p"
proof -
  have "(case find_index (\<lambda>plan. np_eligible (pa_record plan) \<and> pa_instances plan = []) plans of None \<Rightarrow> 0 | Some j \<Rightarrow> j)
    \<in> plan_indices p" if "plans \<in> set (cp_plans p)" for plans
    using that find_index_Some by (fastforce simp: plan_indices_def split: option.splits)
  then show ?thesis by (auto simp: empty_choice_def plan_sets_def)
qed

abbreviation keep_result :: "capacityPlanner \<Rightarrow> capacityResult" where
  "keep_result p \<equiv> evaluated p (keep_choice p)"

lemma search_start_ends:
  "sx_ends (search_start p) = keep_result p #
     (if empty_choice p = keep_choice p then [] else [evaluated (seed_planner p) (empty_choice p)])"
  by (simp add: search_start_def Let_def)

lemma search_start_sets: "in_plan_sets (seed_planner p) (search_start p)"
  using keep_choice_set [of p] empty_choice_set [of p]
  by (auto simp: in_plan_sets_def search_start_ends less_Suc_eq)

text \<open>The best of the ends is the first or an admitted one that is preferred to it.\<close>

lemma best_end_cases:
  assumes "ends = e0 # rest" and "length rest \<le> 1"
  shows "best_end p ends = e0 \<or> (\<exists>r \<in> set rest. best_end p ends = r \<and> bounded p (ev_choice r) \<and> admits p r \<and> better_result r e0)"
  using assms by (cases rest) (auto simp: best_end_def)

lemma search_result:
  "\<exists>r. search p en = Some r \<and> (\<forall>q best. r = Some (q, best) \<longrightarrow>
     reached (seed_planner p) (keep_result p) best
     \<and> (best = keep_result p \<or> best = evaluated (seed_planner p) (ev_choice best))
     \<and> (ps_budgetCut (cp_searched q) \<or> swept_out (seed_planner p) en 3 best))"
proof -
  let ?p = "seed_planner p" and ?x = "search_start p"
  obtain r where r: "neighbourhoods ?p en [2, 3] ?x = Some r"
    and post: "\<And>x1. r = Some x1 \<Longrightarrow> ends_reached ?p ?x x1 \<and> (ps_budgetCut (sx_searched x1)
      \<or> (\<forall>j < length (sx_ends ?x). swept_out ?p en 3 (sx_ends x1 ! j)))"
    using neighbourhoods_ends [OF search_start_sets, of p en "[2, 3]"] by auto
  define s where "s = (case r of None \<Rightarrow> None
    | Some x \<Rightarrow> Some (?p\<lparr>cp_searched := finish_search (sx_searched x)\<rparr>, best_end ?p (sx_ends x)))"
  have run: "search p en = Some s"
    using r by (cases r) (simp_all add: search_def search_end_def Let_def s_def)
  have "reached ?p (keep_result p) best \<and> (best = keep_result p \<or> best = evaluated ?p (ev_choice best))
      \<and> (ps_budgetCut (cp_searched q) \<or> swept_out ?p en 3 best)" if res: "s = Some (q, best)" for q best
  proof -
    from res obtain x1 where x1: "r = Some x1" "q = ?p\<lparr>cp_searched := finish_search (sx_searched x1)\<rparr>"
      "best = best_end ?p (sx_ends x1)" by (cases r) (auto simp: s_def)
    note p1 = post [OF x1(1)]
    have len: "length (sx_ends x1) = length (sx_ends ?x)" using p1 by (simp add: ends_reached_def)
    then obtain e0 rest where ends: "sx_ends x1 = e0 # rest" "length rest \<le> 1"
      by (cases "sx_ends x1") (auto simp: search_start_ends split: if_splits)
    have e0: "reached ?p (keep_result p) e0"
      using p1 len ends by (auto simp: ends_reached_def search_start_ends)
    have cut: "ps_budgetCut (cp_searched q) \<longleftrightarrow> ps_budgetCut (sx_searched x1)"
      by (simp add: x1(2) finish_search_def)
    have out: "ps_budgetCut (cp_searched q) \<or> swept_out ?p en 3 e" if "e \<in> set (sx_ends x1)" for e
      using that p1 len unfolding cut by (metis in_set_conv_nth)
    from best_end_cases [OF ends, of ?p] consider (first) "best = e0"
      | (other) "best \<in> set rest" "bounded ?p (ev_choice best)" "admits ?p best" "better_result best e0"
      by (auto simp: x1(3))
    then show ?thesis
    proof cases
      case first
      then show ?thesis using e0 out [of e0] ends by (auto simp: reached_def)
    next
      case other
      then have "rest = [best]" using ends(2) by (cases rest) auto
      then have b: "sx_ends x1 ! 1 = best" "1 < length (sx_ends ?x)" using ends len by auto
      then have "reached ?p (sx_ends ?x ! 1) best" using p1 unfolding ends_reached_def by metis
      moreover have "sx_ends ?x ! 1 = evaluated ?p (empty_choice p)"
        using b(2) by (auto simp: search_start_ends split: if_splits)
      ultimately have ev: "best = evaluated ?p (ev_choice best)" "ev_choice best \<in> plan_sets ?p"
        by (auto simp: reached_def)
      have "better_result best (keep_result p)"
        using e0 other(4) better_result_trans by (auto simp: reached_def)
      then show ?thesis using ev other out [of best] ends by (auto simp: reached_def)
    qed
  qed
  with run show ?thesis by blast
qed

section \<open>The neighbourhood of a fair sweep\<close>

text \<open>A plan set that takes eligible plans on at most \<open>k\<close> other nodes.\<close>

definition neighbour :: "capacityPlanner \<Rightarrow> nat \<Rightarrow> nat list \<Rightarrow> nat list \<Rightarrow> bool" where
  "neighbour p k c d \<longleftrightarrow> length d = length c
     \<and> (let ns = filter (\<lambda>n. d ! n \<noteq> c ! n) (nodes_of c) in ns \<noteq> [] \<and> length ns \<le> k
        \<and> list_all (\<lambda>n. d ! n < length (cp_plans p ! n) \<and> np_eligible (pa_record (plan_at p d n))) ns)"

lemma walk_apply:
  assumes "is \<noteq> []" and "length is \<le> Suc left" and "sorted_wrt (<) is" and "\<forall>i \<in> set is. i < length ms"
    and "distinct (map (\<lambda>i. fst (ms ! i)) is)"
  shows "apply_moves c (map ((!) ms) is) \<in> set (walk ms left c (hd is))"
  using assms
proof (induction left arbitrary: c "is")
  case 0
  then obtain i where "is = [i]" by (cases "is") auto
  then show ?case by (simp add: apply_moves_def)
next
  case (Suc left)
  then obtain i is' where is_i: "is = i # is'" by (cases "is") auto
  let ?c = "c[fst (ms ! i) := snd (ms ! i)]"
  show ?case
  proof (cases is')
    case Nil
    then show ?thesis by (simp add: is_i apply_moves_def walk_Suc del: walk.simps)
  next
    case (Cons i2 js)
    have "apply_moves ?c (map ((!) ms) is') \<in> set (walk ms left ?c (hd is'))"
      using Suc.prems by (intro Suc.IH) (auto simp: is_i Cons)
    then have "apply_moves c (map ((!) ms) is) \<in> set (walk ms left ?c i2)"
      by (simp add: is_i Cons apply_moves_def)
    moreover have "i < i2" "i2 < length ms" "fst (ms ! i2) \<noteq> fst (ms ! i)"
      using Suc.prems by (auto simp: is_i Cons)
    ultimately show ?thesis unfolding walk_Suc by (auto simp: is_i)
  qed
qed

lemma moves_sorted: "sorted (map fst (moves p c))"
proof -
  have "sorted (map fst (concat (map (node_moves p c) [0..<N]))) \<and>
      (\<forall>m \<in> set (concat (map (node_moves p c) [0..<N])). fst m < N)" for N
  proof (induction N)
    case (Suc N)
    have block: "\<forall>m \<in> set (node_moves p c N). fst m = N" by (auto simp: node_moves_def)
    have same: "sorted (map fst (node_moves p c N))"
      by (auto simp: sorted_iff_nth_mono node_moves_def)
    show ?case using Suc block same by (force simp: sorted_append)
  qed simp
  then show ?thesis by (simp add: moves_def)
qed

lemma apply_changes_nth:
  "length (apply_moves c (map (\<lambda>n. (n, d ! n)) ns)) = length c"
  "m < length c \<Longrightarrow> apply_moves c (map (\<lambda>n. (n, d ! n)) ns) ! m = (if m \<in> set ns then d ! m else c ! m)"
proof -
  show "length (apply_moves c (map (\<lambda>n. (n, d ! n)) ns)) = length c"
    by (induction ns arbitrary: c) (auto simp: apply_moves_def)
  show "m < length c \<Longrightarrow> apply_moves c (map (\<lambda>n. (n, d ! n)) ns) ! m = (if m \<in> set ns then d ! m else c ! m)"
    by (induction ns arbitrary: c) (auto simp: apply_moves_def nth_list_update)
qed

lemma neighbour_walked:
  assumes "neighbour p k c d" and "c \<in> plan_sets p"
  shows "\<exists>i < length (moves p c). d \<in> set (walk (moves p c) (k - 1) c i)"
proof -
  let ?ms = "moves p c"
  define ns where "ns = filter (\<lambda>n. d ! n \<noteq> c ! n) (nodes_of c)"
  have ns: "ns \<noteq> []" "length ns \<le> k" "length d = length c"
    and el: "\<And>n. n \<in> set ns \<Longrightarrow> d ! n < length (cp_plans p ! n) \<and> np_eligible (pa_record (plan_at p d n))"
    using assms(1) by (auto simp: neighbour_def ns_def Let_def list_all_iff)
  have "sorted_wrt (<) ns" by (simp add: ns_def nodes_of_def sorted_wrt_filter)
  have "(n, d ! n) \<in> set ?ms" if "n \<in> set ns" for n
    using el [OF that] that assms(2) by (auto simp: in_moves ns_def nodes_of_def plan_sets_def plan_at_def)
  then have "\<forall>n. n \<in> set ns \<longrightarrow> (\<exists>i < length ?ms. ?ms ! i = (n, d ! n))" by (metis in_set_conv_nth)
  then obtain f where f: "\<And>n. n \<in> set ns \<Longrightarrow> f n < length ?ms \<and> ?ms ! f n = (n, d ! n)" by metis
  have mono: "f n < f n'" if "n \<in> set ns" "n' \<in> set ns" "n < n'" for n n'
  proof (rule ccontr)
    assume "\<not> f n < f n'"
    then have "map fst ?ms ! f n' \<le> map fst ?ms ! f n"
      using f [OF that(1)] f [OF that(2)] moves_sorted [of p c] by (intro sorted_nth_mono) auto
    then show False using f [OF that(1)] f [OF that(2)] that(3) by simp
  qed
  have "map ((!) ?ms) (map f ns) = map (\<lambda>n. (n, d ! n)) ns" using f by simp
  moreover have "apply_moves c (map (\<lambda>n. (n, d ! n)) ns) = d"
    using ns(3) by (intro nth_equalityI) (auto simp: apply_changes_nth ns_def nodes_of_def)
  moreover have "apply_moves c (map ((!) ?ms) (map f ns)) \<in> set (walk ?ms (k - 1) c (hd (map f ns)))"
  proof (rule walk_apply)
    show "sorted_wrt (<) (map f ns)"
      using \<open>sorted_wrt (<) ns\<close> mono by (auto simp: sorted_wrt_iff_nth_less)
    have "map (\<lambda>i. fst (?ms ! i)) (map f ns) = ns" using f by (simp add: map_idI)
    then show "distinct (map (\<lambda>i. fst (?ms ! i)) (map f ns))"
      by (simp add: ns_def nodes_of_def)
  qed (use ns f in auto)
  moreover have "hd (map f ns) < length ?ms" using f ns(1) by (cases ns) auto
  ultimately show ?thesis by metis
qed

lemma fair_swept:
  assumes "fair_env (length ms) e"
  shows "set (swept ms k c e) = (\<Union>i < length ms. set (walk ms (k - 1) c i))"
proof -
  have cut: "snd tc = None" if "tc \<in> set (en_workers e)" for tc
    using assms that by (auto simp: fair_env_def env_cut_def list_ex_iff)
  have "set (swept ms k c e) = (\<Union>i \<in> {i \<in> set (concat (map fst (en_workers e))). i < length ms}. set (walk ms (k - 1) c i))"
    using cut by (auto simp: swept_def visited_def Let_def)
  also have "\<dots> = (\<Union>i < length ms. set (walk ms (k - 1) c i))"
    using assms unfolding fair_env_def by auto
  finally show ?thesis .
qed

end
