(* ===== verification/CapacitySamples.thy ===== *)
theory CapacitySamples
  imports CapacitySearch SchedSamples
begin

text \<open>
  A planner on which the properties of the search are evaluated: one node that draws 10 W as it is,
  and two plans of it that draw 5 W and have the same key (as two allocations of one option have).
\<close>

definition sample_plan_of :: "string \<Rightarrow> capacityPlan" where
  "sample_plan_of key = (new_capacity_plan ((new_node_plan sample_node)\<lparr>np_key := key, np_eligible := True\<rparr>) ''low'')
     \<lparr>pa_after := f_of_int 5\<rparr>"

definition sample_keep_plan :: capacityPlan where
  "sample_keep_plan = (new_capacity_plan ((new_node_plan sample_node)\<lparr>np_key := ''keep'', np_eligible := True\<rparr>) ''low'')
     \<lparr>pa_keep := True, pa_before := f_of_int 10\<rparr>"

definition sample_planner :: capacityPlanner where
  "sample_planner = \<lparr>cp_oor = (\<lambda>_. 0), cp_keyOf = (\<lambda>_. []), cp_digest = (\<lambda>s. s), cp_settings = sample_settings,
     cp_snapshot = sample_snapshot, cp_keep = sample_candidate, cp_rows = [], cp_options = [], cp_pending = [],
     cp_ws = [], cp_index = [], cp_plans = [[sample_keep_plan, sample_plan_of ''p'', sample_plan_of ''p'']],
     cp_compared = [True], cp_period = f_of_int 4, cp_keepWatts = f_of_int 10, cp_keepFeasible = True, cp_examined = 3,
     cp_searched = no_search, cp_variants = [], cp_optionCapacity = [], cp_currentCapacity = [], cp_partial = False\<rparr>"

text \<open>One worker that takes every move, in order or in the opposite order.\<close>

definition in_order :: "nat \<Rightarrow> sweepEnv" where
  "in_order n = \<lparr>en_workers = [([0..<n], None)], en_cancelled = False\<rparr>"

definition in_reverse :: "nat \<Rightarrow> sweepEnv" where
  "in_reverse n = \<lparr>en_workers = [(rev [0..<n], None)], en_cancelled = False\<rparr>"

lemma in_order_fair: "fair_env n (in_order n)"
  by (auto simp: fair_env_def in_order_def env_cut_def)

lemma in_reverse_fair: "fair_env n (in_reverse n)"
  by (auto simp: fair_env_def in_reverse_def env_cut_def)

text \<open>One evaluation for all that the witnesses use.\<close>

lemma sample_values:
  "(map (\<lambda>j. gain (evaluated sample_planner [j])) [0, 1, 2],
    map_option (\<lambda>x. map_option ev_choice (snd x)) (sweep sample_planner (in_order 2) no_search [0] 2),
    map_option (\<lambda>x. map_option ev_choice (snd x)) (sweep sample_planner (in_reverse 2) no_search [0] 2),
    map_option (map_option (\<lambda>x. (ev_choice (snd x), ps_budgetCut (cp_searched (fst x)))))
      (search sample_planner (\<lambda>_. in_order)))
   = ([f_of_int 0, f_of_int (- 20), f_of_int (- 20)], Some (Some [1]), Some (Some [2]), Some (Some ([1], False)))"
  by code_simp

lemma sample_gains:
  "gain (evaluated sample_planner [0]) = f_of_int 0"
  "gain (evaluated sample_planner [1]) = f_of_int (- 20)"
  "gain (evaluated sample_planner [2]) = f_of_int (- 20)"
  using sample_values by simp_all

text \<open>The same with plans of different keys.\<close>

definition distinct_planner :: capacityPlanner where
  "distinct_planner = sample_planner\<lparr>cp_plans := [[sample_keep_plan, sample_plan_of ''p'', sample_plan_of ''q'']]\<rparr>"

lemma distinct_values:
  "list_all (\<lambda>j. \<not> is_nan (gain (evaluated distinct_planner [j]))) [0, 1, 2]"
  "list_all (\<lambda>(i, j). better_result (evaluated distinct_planner [i]) (evaluated distinct_planner [j]))
     [(1, 0), (2, 0), (1, 2)]"
  by code_simp+

end
