(* ===== verification/SearchClaims.thy ===== *)
theory SearchClaims
  imports SearchProps CapacitySamples
begin

text \<open>
  What the plan search promises its caller, over every environment of goroutines and deadline, with
  the evaluation of each promise on the sample planner.
\<close>

lemma sample_plan_sets: "plan_sets sample_planner = {[0], [1], [2]}"
proof -
  have "plan_indices sample_planner = {0, 1, 2}"
    by (auto simp: plan_indices_def sample_planner_def)
  then show ?thesis by (auto simp: plan_sets_def sample_planner_def length_Suc_conv)
qed

lemma sample_seed: "seed_planner sample_planner = sample_planner"
proof -
  have "ev_joules (keep_result sample_planner) = f_of_int 40 \<and> ev_period (keep_result sample_planner) = f_of_int 4"
    by code_simp
  then show ?thesis by (simp add: seed_planner_def Let_def sample_planner_def) code_simp
qed

lemma sample_numbers: "\<forall>c \<in> plan_sets sample_planner. gain_is_number (evaluated sample_planner c)"
  using sample_gains by (simp add: sample_plan_sets gain_is_number_def del: f_of_int_0)

text \<open>C11: The search for a plan set returns the evaluation of keep itself, or a plan set that respects
  the limits on replicas and instances, that nothing excludes and that is preferred to keep, whatever
  the workers and the deadline do.\<close>

theorem search_result_admitted:
  assumes "search p en = Some (Some (q, best))"
  shows "best = evaluated p (keep_choice p)
    \<or> best = evaluated (seed_planner p) (ev_choice best) \<and> bounded (seed_planner p) (ev_choice best)
      \<and> admits (seed_planner p) best \<and> better_result best (evaluated p (keep_choice p))"
proof -
  from search_result [of p en] assms
  have "reached (seed_planner p) (keep_result p) best"
    and "best = keep_result p \<or> best = evaluated (seed_planner p) (ev_choice best)"
    by auto
  then show ?thesis by (auto simp: reached_def)
qed

theorem search_result_admitted_witness:
  "\<exists>q best. search sample_planner (\<lambda>_. in_order) = Some (Some (q, best)) \<and> ev_choice best = [1]
     \<and> admits (seed_planner sample_planner) best"
proof -
  from sample_values obtain q best where run: "search sample_planner (\<lambda>_. in_order) = Some (Some (q, best))"
    and b: "ev_choice best = [1]" by auto
  have "keep_choice sample_planner = [0]" by code_simp
  then have "evaluated sample_planner (keep_choice sample_planner) \<noteq> best" using b by auto
  with search_result_admitted [OF run] run b show ?thesis by metis
qed

text \<open>C3: A search that the deadline did not cut ends in a local optimum: no bounded and admitted plan set
  that takes other eligible plans on up to three nodes is preferred to its result, when the workers
  of every sweep share out all first moves and the energies are numbers.\<close>

theorem search_local_optimum:
  assumes run: "search p en = Some (Some (q, best))" and uncut: "\<not> ps_budgetCut (cp_searched q)"
    and fair: "\<And>m n. fair_env n (en m n)"
    and numbers: "\<And>c. c \<in> plan_sets p \<Longrightarrow> gain_is_number (evaluated (seed_planner p) c)"
      "gain_is_number (evaluated p (keep_choice p))"
    and d: "neighbour (seed_planner p) 3 (ev_choice best) d" "bounded (seed_planner p) d"
      "admits (seed_planner p) (evaluated (seed_planner p) d)"
  shows "\<not> better_result (evaluated (seed_planner p) d) best"
proof -
  let ?p = "seed_planner p" and ?c = "ev_choice best" and ?d = "evaluated (seed_planner p) d"
  from search_result [of p en] run uncut
  have reach: "reached ?p (keep_result p) best" and out: "swept_out ?p en 3 best"
    and best: "best = keep_result p \<or> best = evaluated ?p ?c" by auto
  have c: "?c \<in> plan_sets ?p" using reach by (simp add: reached_def)
  from out obtain m sd sd' found where
    sw: "sweep ?p (en m (length (moves ?p ?c))) sd ?c 3 = Some (sd', found)"
    and none: "\<And>step. found = Some step \<Longrightarrow> \<not> better_result step best"
    unfolding swept_out_def by blast
  let ?sets = "swept (moves ?p ?c) 3 ?c (en m (length (moves ?p ?c)))"
  have Dset: "gain_is_number r" if "r \<in> set (admitted_results ?p ?sets)" for r
    using that numbers(1) swept_plan_sets [OF _ c] by (auto simp: in_admitted_results)
  have "d \<in> set ?sets"
    using neighbour_walked [OF d(1) c] by (auto simp: fair_swept [OF fair])
  then have cand: "?d \<in> set (admitted_results ?p ?sets)" using d by (auto simp: in_admitted_results)
  obtain y where y: "found = Some y" "\<not> better_result ?d y" using sweep_best [OF sw _ cand] Dset by blast
  have "y \<in> set (admitted_results ?p ?sets)" using sweep_found [OF sw [unfolded y(1)]] .
  then have "gain_is_number y" "gain_is_number ?d" using Dset cand by blast+
  moreover have "gain_is_number best" using best numbers c seed_planner_simps(4) by metis
  ultimately show ?thesis using plan_choice.neg_trans [of ?d y best] y(2) none [OF y(1)] by blast
qed

theorem search_local_optimum_witness:
  "\<exists>q best. search sample_planner (\<lambda>_. in_order) = Some (Some (q, best)) \<and> ev_choice best = [1]
     \<and> \<not> better_result (evaluated sample_planner [2]) best"
proof -
  from sample_values obtain q best where run: "search sample_planner (\<lambda>_. in_order) = Some (Some (q, best))"
    and b: "ev_choice best = [1]" and cut: "\<not> ps_budgetCut (cp_searched q)" by auto
  have "bounded sample_planner [2]" "admits sample_planner (evaluated sample_planner [2])"
    "neighbour sample_planner 3 [1] [2]" by code_simp+
  then have "\<not> better_result (evaluated sample_planner [2]) best"
    using search_local_optimum [OF run cut in_order_fair, of "[2]"] sample_numbers b keep_choice_set [of sample_planner]
    by (simp add: sample_seed)
  with run b show ?thesis by blast
qed

text \<open>C18: The best plan set of a sweep does not depend on how the workers share the plan sets out, as long
  as no two of them tie on every criterion: any two fair sweeps find the same result.\<close>

theorem sweep_timing_independent:
  assumes run: "sweep p e1 sd1 c k = Some (sd1', found1)" "sweep p e2 sd2 c k = Some (sd2', found2)"
    and fair: "fair_env (length (moves p c)) e1" "fair_env (length (moves p c)) e2" and c: "c \<in> plan_sets p"
    and numbers: "\<And>d. d \<in> plan_sets p \<Longrightarrow> gain_is_number (evaluated p d)"
    and total: "\<And>d d'. d \<in> plan_sets p \<Longrightarrow> d' \<in> plan_sets p \<Longrightarrow> admits p (evaluated p d) \<Longrightarrow> admits p (evaluated p d')
      \<Longrightarrow> d \<noteq> d' \<Longrightarrow> better_result (evaluated p d) (evaluated p d') \<or> better_result (evaluated p d') (evaluated p d)"
  shows "found1 = found2"
proof -
  let ?C = "\<lambda>e. set (admitted_results p (swept (moves p c) k c e))"
  have same: "?C e1 = ?C e2" using fair by (simp add: in_admitted_results fair_swept set_eq_iff)
  have D: "gain_is_number r" if "r \<in> ?C e" for r e
    using that numbers swept_plan_sets [OF _ c] by (auto simp: in_admitted_results)
  have tot: "better_result r r' \<or> better_result r' r" if "r \<in> ?C e" "r' \<in> ?C e" "r \<noteq> r'" for r r' e
    using that total swept_plan_sets [OF _ c] unfolding in_admitted_results by metis
  have pick: "found \<noteq> None \<Longrightarrow> found' = found"
    if s1: "sweep p e sd c k = Some (sd', found)" and s2: "sweep p e' sd'' c k = Some (sd3, found')" and eq: "?C e = ?C e'"
    for e e' sd sd' sd'' sd3 found found'
  proof -
    assume "found \<noteq> None"
    then obtain r where r: "found = Some r" by auto
    have rin: "r \<in> ?C e" using sweep_found s1 r by blast
    then obtain r' where r': "found' = Some r'" "\<not> better_result r r'"
      using sweep_best [OF s2] D eq by blast
    have r'in: "r' \<in> ?C e" using sweep_found s2 eq r'(1) by blast
    then have "\<not> better_result r' r" using sweep_best [OF s1] D r by blast
    then show "found' = found" using tot [OF rin r'in] r r' by blast
  qed
  show ?thesis using pick [OF run(1) run(2) same] pick [OF run(2) run(1) same [symmetric]]
    by (cases found1; cases found2) auto
qed

theorem sweep_timing_independent_witness:
  "snd (the (sweep distinct_planner (in_order 2) no_search [0] 2)) = snd (the (sweep distinct_planner (in_reverse 2) no_search [0] 2))"
proof -
  have two: "length (moves distinct_planner [0]) = 2" by code_simp
  have runs: "sweep distinct_planner e no_search [0] 2 \<noteq> None" if "e = in_order 2 \<or> e = in_reverse 2" for e
    using that by (auto simp: sweep_def in_order_def in_reverse_def)
  obtain sd1 f1 sd2 f2 where r: "sweep distinct_planner (in_order 2) no_search [0] 2 = Some (sd1, f1)"
    "sweep distinct_planner (in_reverse 2) no_search [0] 2 = Some (sd2, f2)"
    using runs [of "in_order 2"] runs [of "in_reverse 2"] by auto
  have sets: "plan_sets distinct_planner = {[0], [1], [2]}"
    using sample_plan_sets by (simp add: distinct_planner_def plan_sets_def plan_indices_def sample_planner_def)
  have "f1 = f2"
    using distinct_values in_order_fair [of 2] in_reverse_fair [of 2]
    by (intro sweep_timing_independent [OF r]) (auto simp: two sets gain_is_number_def)
  with r show ?thesis by simp
qed

text \<open>
  Two plans of a node may have the same key: \<open>planKey\<close> names a profile, a batch limit and a workload, but
  neither the allocation nor the longest wait. Such plan sets can tie, and then the workers' timing
  decides: \<open>better\<close> is no total order.
\<close>

lemma planKey_ignores_allocation:
  "planKey [i\<lparr>si_allocation := a, si_maxWait := d\<rparr>] = planKey [i]"
  by (simp add: planKey_def split: option.split)

lemma sweep_timing_decides_ties:
  "\<exists>e1 e2. fair_env (length (moves sample_planner [0])) e1 \<and> fair_env (length (moves sample_planner [0])) e2
     \<and> map_option snd (sweep sample_planner e1 no_search [0] 2) \<noteq> map_option snd (sweep sample_planner e2 no_search [0] 2)"
proof (intro exI conjI)
  have two: "length (moves sample_planner [0]) = 2" by code_simp
  show "fair_env (length (moves sample_planner [0])) (in_order 2)"
    "fair_env (length (moves sample_planner [0])) (in_reverse 2)"
    using in_order_fair in_reverse_fair by (simp_all add: two)
  show "map_option snd (sweep sample_planner (in_order 2) no_search [0] 2)
      \<noteq> map_option snd (sweep sample_planner (in_reverse 2) no_search [0] 2)"
    using sample_values by auto
qed

end
