(* ===== verification/WeightProps.thy ===== *)
theory WeightProps
  imports CapacityRoute
begin

text \<open>
  Properties of the integer weights of a route: for capacities in the normal range they are
  nonnegative and sum to exactly 1000 (the floors of the rounded shares never exceed 1000), every unit
  handed out goes to an item of positive capacity, and no other distribution has a largest ratio of
  weight to capacity that is smaller, up to the rounding of the shares.
\<close>

section \<open>Rounding errors\<close>

lemma pow2_ulp_bound:
  assumes "0 < x"
  shows "pow2 (ulp_exp x) \<le> x / 2 ^ 52 + pow2 (- 1074)"
proof (cases "floor_log2 x - 52 \<le> - 1074")
  case True
  then have "ulp_exp x = - 1074" by (simp add: ulp_exp_def)
  with assms show ?thesis by simp
next
  case False
  then have e: "ulp_exp x = floor_log2 x - 52" by (simp add: ulp_exp_def)
  have "pow2 (floor_log2 x - 52) = pow2 (floor_log2 x) / 2 ^ 52"
    using pow2_diff [of "floor_log2 x" 52] by (simp add: pow2_def [of 52])
  also have "\<dots> \<le> x / 2 ^ 52" using floor_log2_bounds(1) [OF assms] by (intro divide_right_mono) auto
  finally have "pow2 (ulp_exp x) \<le> x / 2 ^ 52" using e by simp
  moreover have "0 < pow2 (- 1074)" by simp
  ultimately show ?thesis by linarith
qed

lemma round_mag_error: "0 < x \<Longrightarrow> \<bar>round_mag x - x\<bar> \<le> pow2 (ulp_exp x) / 2"
proof -
  assume x: "0 < x"
  let ?u = "pow2 (ulp_exp x)"
  have "\<bar>of_int (round_even (x / ?u)) - x / ?u\<bar> * ?u \<le> 1 / 2 * ?u"
    by (rule mult_right_mono [OF round_even_near]) (simp add: less_imp_le)
  moreover have "\<bar>of_int (round_even (x / ?u)) - x / ?u\<bar> * ?u = \<bar>(of_int (round_even (x / ?u)) - x / ?u) * ?u\<bar>"
    by (simp add: abs_mult less_imp_le)
  moreover have "(of_int (round_even (x / ?u)) - x / ?u) * ?u = of_int (round_even (x / ?u)) * ?u - x"
    by (simp add: left_diff_distrib)
  ultimately show ?thesis using x by (simp add: round_mag_def)
qed

lemma round_mag_upper: "0 \<le> x \<Longrightarrow> round_mag x \<le> x * (1 + 1 / 2 ^ 53) + pow2 (- 1074)"
proof (cases "x = 0")
  case False
  moreover assume "0 \<le> x"
  ultimately have x: "0 < x" by simp
  have half: "x + (x / 2 ^ 52 + t) / 2 \<le> x * (1 + 1 / 2 ^ 53) + t" if "0 < t" for t
    using that by (simp add: field_simps)
  have "round_mag x \<le> x + pow2 (ulp_exp x) / 2" using round_mag_error [OF x] by linarith
  also have "\<dots> \<le> x + (x / 2 ^ 52 + pow2 (- 1074)) / 2" using pow2_ulp_bound [OF x] by simp
  also have "\<dots> \<le> x * (1 + 1 / 2 ^ 53) + pow2 (- 1074)"
    using half [of "pow2 (- 1074)"] by simp
  finally show ?thesis .
qed (simp add: round_mag_def less_imp_le)

text \<open>Without the absolute term for a normal number.\<close>

lemma round_mag_lower:
  assumes "pow2 (- 1022) \<le> x"
  shows "x * (1 - 1 / 2 ^ 53) \<le> round_mag x"
proof -
  have x: "0 < x" using assms less_le_trans [OF pow2_pos] by blast
  have "- 1022 \<le> floor_log2 x"
  proof (rule ccontr)
    assume "\<not> - 1022 \<le> floor_log2 x"
    then have "floor_log2 x + 1 \<le> - 1022" by simp
    then have "pow2 (floor_log2 x + 1) \<le> pow2 (- 1022)" by simp
    then show False using floor_log2_bounds(2) [OF x] assms by linarith
  qed
  then have e: "ulp_exp x = floor_log2 x - 52" by (simp add: ulp_exp_def)
  have "pow2 (ulp_exp x) = pow2 (floor_log2 x) / 2 ^ 52"
    unfolding e using pow2_diff [of "floor_log2 x" 52] by (simp add: pow2_def [of 52])
  also have "\<dots> \<le> x / 2 ^ 52" using floor_log2_bounds(1) [OF x] by (intro divide_right_mono) auto
  finally have "pow2 (ulp_exp x) \<le> x / 2 ^ 52" .
  moreover have "x - pow2 (ulp_exp x) / 2 \<le> round_mag x" using round_mag_error [OF x] by linarith
  ultimately have "x - x / 2 ^ 53 \<le> round_mag x" by simp
  then show ?thesis by (simp add: right_diff_distrib)
qed

section \<open>The sum of the capacities\<close>

text \<open>Capacities in the normal range, far from overflow.\<close>

definition normal_kappa :: "capacityItem \<Rightarrow> bool" where
  "normal_kappa x \<longleftrightarrow> (case ct_kappa x of
     Fin s m \<Rightarrow> \<not> s \<and> pow2 (- 1022) \<le> m \<and> m \<le> pow2 1000 | _ \<Rightarrow> False)"

definition kappas :: "capacityItem list \<Rightarrow> rat list" where
  "kappas items = map (\<lambda>x. mag (ct_kappa x)) items"

lemma normal_kappa_Fin: "normal_kappa x \<Longrightarrow> ct_kappa x = Fin False (mag (ct_kappa x))"
  by (cases "ct_kappa x") (auto simp: normal_kappa_def)

lemma normal_kappa_bounds:
  "normal_kappa x \<Longrightarrow> pow2 (- 1022) \<le> mag (ct_kappa x)" "normal_kappa x \<Longrightarrow> mag (ct_kappa x) \<le> pow2 1000"
  by (cases "ct_kappa x"; simp add: normal_kappa_def)+

lemma round_mag_upper_normal:
  assumes "pow2 (- 1022) \<le> x"
  shows "round_mag x \<le> x * (1 + 1 / 2 ^ 51)"
proof -
  have "0 \<le> x" using assms less_le_trans [OF pow2_pos] less_imp_le by blast
  then have "round_mag x \<le> x * (1 + 1 / 2 ^ 53) + pow2 (- 1074)" by (rule round_mag_upper)
  moreover have "pow2 (- 1074) = pow2 (- 1022) / 2 ^ 52"
    using pow2_diff [of "- 1022" 52] by (simp add: pow2_def [of 52])
  ultimately show ?thesis using assms \<open>0 \<le> x\<close> by (simp add: field_simps)
qed

lemma f_add_positive:
  assumes "0 \<le> a" and "0 < m" and "round_mag (a + m) < pow2 1024"
  shows "f_add (Fin False a) (Fin False m) = Fin False (round_mag (a + m))"
  using assms by (simp add: Let_def round_f64_def)

lemma kappas_bounds:
  assumes "list_all normal_kappa items"
  shows "0 \<le> sum_list (kappas items)" and "sum_list (kappas items) \<le> of_nat (length items) * pow2 1000"
proof -
  have pos: "0 \<le> mag (ct_kappa x)" if "normal_kappa x" for x
    using normal_kappa_bounds(1) [OF that] pow2_pos [of "- 1022"] by linarith
  show "0 \<le> sum_list (kappas items)"
    using assms pos by (intro sum_list_nonneg) (auto simp: kappas_def list_all_iff)
  show "sum_list (kappas items) \<le> of_nat (length items) * pow2 1000"
    using assms by (induction items) (auto simp: kappas_def algebra_simps dest!: normal_kappa_bounds(2) intro: add_mono)
qed

lemma many_kappas: "n \<le> 2 ^ 20 \<Longrightarrow> of_nat n \<le> (1048576 :: rat)"
  using of_nat_le_iff [of n "2 ^ 20", where ?'a = rat] by simp

lemma kappa_sum_bounds:
  assumes "list_all normal_kappa items" and "length items \<le> 2 ^ 20"
  shows "\<exists>a. kappa_sum items = Fin False a
    \<and> sum_list (kappas items) * (1 - of_nat (length items) / 2 ^ 53) \<le> a
    \<and> a \<le> sum_list (kappas items) * (1 + of_nat (length items) / 2 ^ 50)"
  using assms
proof (induction items rule: rev_induct)
  case Nil
  then show ?case by (simp add: kappa_sum_def kappas_def)
next
  case (snoc x items)
  define n :: rat where "n = of_nat (length items)"
  define S where "S = sum_list (kappas items)"
  define m where "m = mag (ct_kappa x)"
  have n: "0 \<le> n" "n + 1 \<le> 1048576" using snoc.prems(2) many_kappas [of "Suc (length items)"] by (auto simp: n_def)
  obtain a where a: "kappa_sum items = Fin False a" "S * (1 - n / 2 ^ 53) \<le> a" "a \<le> S * (1 + n / 2 ^ 50)"
    using snoc by (auto simp: n_def S_def)
  have x: "ct_kappa x = Fin False m" "pow2 (- 1022) \<le> m" "m \<le> pow2 1000"
    using snoc.prems(1) normal_kappa_Fin normal_kappa_bounds by (auto simp: m_def)
  have m: "0 < m" using x(2) pow2_pos [of "- 1022"] by linarith
  have S: "0 \<le> S" "S \<le> n * pow2 1000" using kappas_bounds [of items] snoc.prems(1) by (auto simp: S_def n_def)
  have "0 \<le> S * (1 - n / 2 ^ 53)" using S(1) n by (intro mult_nonneg_nonneg) (auto simp: field_simps)
  then have a0: "0 \<le> a" using a(2) by linarith
  have normal: "pow2 (- 1022) \<le> a + m" using a0 x(2) by linarith
  have up: "round_mag (a + m) \<le> (a + m) * (1 + 1 / 2 ^ 51)" by (rule round_mag_upper_normal [OF normal])
  have low: "(a + m) * (1 - 1 / 2 ^ 53) \<le> round_mag (a + m)" by (rule round_mag_lower [OF normal])
  have am_up: "a + m \<le> (S + m) * (1 + n / 2 ^ 50)"
  proof -
    have "m \<le> m * (1 + n / 2 ^ 50)" using m n by (simp add: mult_le_cancel_left1)
    then show ?thesis using a(3) by (simp add: distrib_right)
  qed
  have am_low: "(S + m) * (1 - n / 2 ^ 53) \<le> a + m"
  proof -
    have "m * (1 - n / 2 ^ 53) \<le> m" using m n by (simp add: mult_le_cancel_left1)
    then show ?thesis using a(2) by (simp add: distrib_right)
  qed
  have Sm: "0 < S + m" using S(1) m by linarith
  have "(1 + n / 2 ^ 50) * (1 + 1 / 2 ^ 51) \<le> 1 + (n + 1) / (2 ^ 50 :: rat)"
    using n by (simp add: field_simps)
  then have "(S + m) * ((1 + n / 2 ^ 50) * (1 + 1 / 2 ^ 51)) \<le> (S + m) * (1 + (n + 1) / 2 ^ 50)"
    using Sm by (intro mult_left_mono) auto
  moreover have "(a + m) * (1 + 1 / 2 ^ 51) \<le> (S + m) * (1 + n / 2 ^ 50) * (1 + 1 / 2 ^ 51)"
    using am_up by (rule mult_right_mono) simp
  ultimately have upper: "round_mag (a + m) \<le> (S + m) * (1 + (n + 1) / 2 ^ 50)"
    using up unfolding mult.assoc by linarith
  have "1 - (n + 1) / (2 ^ 53 :: rat) \<le> (1 - n / 2 ^ 53) * (1 - 1 / 2 ^ 53)"
    using n by (simp add: field_simps)
  then have "(S + m) * (1 - (n + 1) / 2 ^ 53) \<le> (S + m) * ((1 - n / 2 ^ 53) * (1 - 1 / 2 ^ 53))"
    using Sm by (intro mult_left_mono) auto
  moreover have "(S + m) * (1 - n / 2 ^ 53) * (1 - 1 / 2 ^ 53) \<le> (a + m) * (1 - 1 / 2 ^ 53)"
    using am_low by (rule mult_right_mono) simp
  ultimately have lower: "(S + m) * (1 - (n + 1) / 2 ^ 53) \<le> round_mag (a + m)"
    using low unfolding mult.assoc by linarith
  have "round_mag (a + m) < pow2 1024"
  proof -
    have "S + m \<le> (n + 1) * pow2 1000" using S(2) x(3) by (simp add: distrib_right)
    also have "\<dots> \<le> 1048576 * pow2 1000" using n(2) by (intro mult_right_mono) (auto simp: less_imp_le)
    also have "\<dots> = pow2 1020" using pow2_add [of 20 1000] by (simp add: pow2_def [of 20])
    finally have "S + m \<le> pow2 1020" .
    moreover have "1 + (n + 1) / (2 ^ 50 :: rat) \<le> 2" using n by simp
    ultimately have "(S + m) * (1 + (n + 1) / 2 ^ 50) \<le> pow2 1020 * 2"
      using n(1) Sm by (intro mult_mono) (auto simp: less_imp_le)
    also have "\<dots> = pow2 1021" using pow2_double [of 1020] by simp
    also have "\<dots> < pow2 1024" by simp
    finally show ?thesis using upper by linarith
  qed
  then have "kappa_sum (items @ [x]) = Fin False (round_mag (a + m))"
    using f_add_positive [OF a0 m] a(1) x(1) by (simp add: kappa_sum_def)
  with upper lower show ?case by (simp add: S_def n_def m_def kappas_def add.commute)
qed

section \<open>The floors\<close>

text \<open>The floor of an item is at most its share of 1000 units, up to the rounding of the share.\<close>

lemma units_Fin: "units = Fin False 1000"
  by (simp add: f_of_int_small )

lemma round_f64_Fin: "round_mag x < pow2 1024 \<Longrightarrow> round_f64 s x = Fin s (round_mag x)"
  by (simp add: round_f64_def Let_def)

lemma round_mag_small: "0 \<le> x \<Longrightarrow> x \<le> 4096 \<Longrightarrow> round_mag x < pow2 1024"
proof -
  assume "0 \<le> x" "x \<le> 4096"
  then have "round_mag x \<le> round_mag (of_int 4096)" by (intro round_mag_mono) simp
  also have "\<dots> = 4096" using round_mag_of_int [of 4096] by simp
  also have "\<dots> < pow2 1024" using pow2_strict_mono [of 12 1024] by (simp add: pow2_def [of 12])
  finally show ?thesis .
qed

lemma f_to_int32_small: "0 \<le> k \<Longrightarrow> k \<le> 4096 \<Longrightarrow> f_to_int32 oor (Fin False (of_int k)) = k"
  by (simp add: f_to_int32_def Let_def max_int32_def)

lemma floor_weight_bounds:
  assumes "ct_kappa x = Fin False m" and "0 < m" and "0 < a" and "m \<le> 2 * a"
  shows "0 \<le> floor_weight oor (Fin False a) n x"
    and "of_int (floor_weight oor (Fin False a) n x) \<le> m / a * (1000 * (1 + 1 / 2 ^ 53) ^ 2) + 1 / 2 ^ 50"
proof -
  define q where "q = m / a"
  define t where "t = pow2 (- 1074)"
  define r where "r = round_mag q"
  have q: "0 \<le> q" "q \<le> 2" using assms by (simp_all add: q_def divide_le_eq)
  have "pow2 (- 1074) \<le> pow2 (- 62)" by (subst pow2_le_iff) simp
  also have "pow2 (- 62) = 1 / 2 ^ 62" by (simp add: pow2_def)
  finally have t: "0 < t" "t \<le> 1 / 2 ^ 62" by (simp_all add: t_def)
  have r: "0 \<le> r" "r \<le> q * (1 + 1 / 2 ^ 53) + t" using round_mag_upper [OF q(1)] by (simp_all add: r_def t_def)
  then have r4: "r \<le> 4" using q t by (simp add: field_simps)
  have "f_div (ct_kappa x) (Fin False a) = Fin False r"
    using assms round_f64_Fin [OF round_mag_small] q by (simp add: q_def r_def)
  then have fw: "floor_weight oor (Fin False a) n x = f_to_int32 oor (Fin False (of_int \<lfloor>round_mag (r * 1000)\<rfloor>))"
    using assms(3) r r4 round_f64_Fin [OF round_mag_small, of "r * 1000"]
    by (simp add: floor_weight_def units_Fin f_order_defs)
  have up: "round_mag (r * 1000) \<le> r * 1000 * (1 + 1 / 2 ^ 53) + t"
    using round_mag_upper [of "r * 1000"] r(1) by (simp add: t_def)
  then have "round_mag (r * 1000) \<le> 4096" using r4 t by (simp add: field_simps)
  then have range: "0 \<le> \<lfloor>round_mag (r * 1000)\<rfloor>" "\<lfloor>round_mag (r * 1000)\<rfloor> \<le> 4096"
    using floor_mono [of "round_mag (r * 1000)" 4096] by simp_all
  then have w: "floor_weight oor (Fin False a) n x = \<lfloor>round_mag (r * 1000)\<rfloor>"
    unfolding fw by (rule f_to_int32_small)
  show "0 \<le> floor_weight oor (Fin False a) n x" using range w by simp
  have "of_int (floor_weight oor (Fin False a) n x) \<le> round_mag (r * 1000)" unfolding w by simp
  also note up
  also have "r * 1000 * (1 + 1 / 2 ^ 53) + t \<le> (q * (1 + 1 / 2 ^ 53) + t) * 1000 * (1 + 1 / 2 ^ 53) + t"
    using r(2) by (intro add_mono mult_right_mono) auto
  also have "\<dots> \<le> q * (1000 * (1 + 1 / 2 ^ 53) ^ 2) + 1 / 2 ^ 50"
    using t by (simp add: field_simps power2_eq_square)
  finally show "of_int (floor_weight oor (Fin False a) n x) \<le> m / a * (1000 * (1 + 1 / 2 ^ 53) ^ 2) + 1 / 2 ^ 50"
    by (simp add: q_def)
qed

lemma sum_list_bound:
  assumes "\<And>x. x \<in> set xs \<Longrightarrow> of_int (f x) \<le> g x * c + d"
  shows "of_int (sum_list (map f xs)) \<le> sum_list (map g xs) * c + of_nat (length xs) * (d :: rat)"
  using assms by (induction xs) (fastforce simp: algebra_simps)+

lemma sum_list_divide: "sum_list (map (\<lambda>x. f x / (a :: rat)) xs) = sum_list (map f xs) / a"
  by (induction xs) (simp_all add: add_divide_distrib)

text \<open>The floors are nonnegative and never exceed the units there are.\<close>

lemma floor_weights_sum:
  assumes "list_all normal_kappa items" and "items \<noteq> []" and "length items \<le> 2 ^ 20"
  shows "list_all (\<lambda>w. 0 \<le> w) (floor_weights oor items)" and "sum_list (floor_weights oor items) \<le> 1000"
proof -
  define n :: rat where "n = of_nat (length items)"
  define S where "S = sum_list (kappas items)"
  have n: "0 \<le> n" "n \<le> 1048576" using many_kappas assms(3) by (auto simp: n_def)
  obtain a where a: "kappa_sum items = Fin False a" "S * (1 - n / 2 ^ 53) \<le> a"
    using kappa_sum_bounds [OF assms(1,3)] by (auto simp: S_def n_def)
  have each: "0 < mag (ct_kappa x) \<and> mag (ct_kappa x) \<le> S" if "x \<in> set items" for x
  proof -
    have "normal_kappa y \<Longrightarrow> 0 < mag (ct_kappa y)" for y
      using normal_kappa_bounds(1) [of y] pow2_pos [of "- 1022"] by linarith
    then have "\<forall>y \<in> set items. 0 < mag (ct_kappa y)" using assms(1) by (auto simp: list_all_iff)
    then show ?thesis unfolding S_def kappas_def
      using that by (auto intro!: member_le_sum_list simp: less_imp_le)
  qed
  have S: "0 < S" using each assms(2) by (cases items) (auto intro: less_le_trans)
  have "S * (1 - 1 / 2 ^ 33) \<le> S * (1 - n / 2 ^ 53)"
    using S n by (intro mult_left_mono) (auto simp: field_simps)
  then have aS: "S * (1 - 1 / 2 ^ 33) \<le> a" using a(2) by linarith
  have half: "S / 2 \<le> S * (1 - 1 / 2 ^ 33)" using S by (simp add: field_simps)
  then have a0: "0 < a" "S \<le> 2 * a" using S aS by linarith+
  have bounds: "0 \<le> floor_weight oor (Fin False a) (length items) x"
    "of_int (floor_weight oor (Fin False a) (length items) x)
      \<le> mag (ct_kappa x) / a * (1000 * (1 + 1 / 2 ^ 53) ^ 2) + 1 / 2 ^ 50" if "x \<in> set items" for x
  proof -
    have k: "ct_kappa x = Fin False (mag (ct_kappa x))"
      using assms(1) that normal_kappa_Fin by (auto simp: list_all_iff)
    have m: "0 < mag (ct_kappa x)" "mag (ct_kappa x) \<le> 2 * a" using each [OF that] a0 by linarith+
    show "0 \<le> floor_weight oor (Fin False a) (length items) x"
      and "of_int (floor_weight oor (Fin False a) (length items) x)
        \<le> mag (ct_kappa x) / a * (1000 * (1 + 1 / 2 ^ 53) ^ 2) + 1 / 2 ^ 50"
      using floor_weight_bounds [OF k m(1) a0(1) m(2)] by blast+
  qed
  show "list_all (\<lambda>w. 0 \<le> w) (floor_weights oor items)"
    using bounds(1) by (auto simp: floor_weights_def a(1) list_all_iff)
  have "of_int (sum_list (floor_weights oor items))
      \<le> sum_list (map (\<lambda>x. mag (ct_kappa x) / a) items) * (1000 * (1 + 1 / 2 ^ 53) ^ 2) + n * (1 / 2 ^ 50)"
    unfolding floor_weights_def a(1) n_def by (rule sum_list_bound) (rule bounds(2))
  also have "sum_list (map (\<lambda>x. mag (ct_kappa x) / a) items) = S / a"
    by (simp add: S_def kappas_def sum_list_divide)
  also have "S / a * (1000 * (1 + 1 / 2 ^ 53) ^ 2) + n * (1 / 2 ^ 50)
      \<le> 1 / (1 - 1 / 2 ^ 33) * (1000 * (1 + 1 / 2 ^ 53) ^ 2) + 1048576 * (1 / 2 ^ 50)"
  proof (rule add_mono)
    have "S / a \<le> 1 / (1 - 1 / 2 ^ 33)" using aS a0(1) by (simp add: field_simps)
    then show "S / a * (1000 * (1 + 1 / 2 ^ 53) ^ 2) \<le> 1 / (1 - 1 / 2 ^ 33) * (1000 * (1 + 1 / 2 ^ 53) ^ 2)"
      by (rule mult_right_mono) simp
    show "n * (1 / 2 ^ 50) \<le> 1048576 * (1 / 2 ^ 50)" using n(2) by (rule mult_right_mono) simp
  qed
  also have "\<dots> < (1001 :: rat)" by (simp add: power2_eq_square)
  finally have "(of_int (sum_list (floor_weights oor items)) :: rat) < of_int 1001" by simp
  then show "sum_list (floor_weights oor items) \<le> 1000" by (simp only: of_int_less_iff)
qed

section \<open>Handing out the rest\<close>

definition ratio :: "f64 \<Rightarrow> int \<Rightarrow> capacityItem \<Rightarrow> f64" where
  "ratio tot w x = f_div (f_of_int w) (unit_kappa tot x)"

definition usable_items :: "f64 \<Rightarrow> capacityItem list \<Rightarrow> bool" where
  "usable_items tot items \<longleftrightarrow> (\<forall>x \<in> set items. \<exists>m > 0. unit_kappa tot x = Fin False m)"

lemma ratio_mono:
  assumes "usable_items tot items" and "x \<in> set items" and "v \<le> w" and "\<bar>v\<bar> \<le> 9007199254740992" and "\<bar>w\<bar> \<le> 9007199254740992"
  shows "f_leq (ratio tot v x) (ratio tot w x)"
proof -
  obtain m where m: "0 < m" "unit_kappa tot x = Fin False m" using assms(1,2) unfolding usable_items_def by blast
  have "f_leq (f_of_int v) (f_of_int w)" using assms(3-5) by (simp add: f_leq_of_int)
  then show ?thesis unfolding ratio_def m(2) by (rule f_div_mono_wf [OF _ _ _ m(1)]) simp_all
qed

definition lower_ratio :: "nat \<times> f64 \<Rightarrow> nat \<times> f64 \<Rightarrow> bool" where
  "lower_ratio a b \<longleftrightarrow> f_less (snd a) (snd b)"

interpretation ratio_choice: selection "\<lambda>a. \<not> is_nan (snd a)" lower_ratio
  by unfold_locales (auto simp: lower_ratio_def f_less_asym dest: f_less_neg_trans)

lemma ratio_number:
  assumes "usable_items tot items" and "k < length items"
  shows "\<not> is_nan (next_ratio tot w (items ! k))"
proof -
  obtain m where "0 < m" "unit_kappa tot (items ! k) = Fin False m"
    using assms nth_mem [OF assms(2)] unfolding usable_items_def by blast
  then show ?thesis by (auto simp: next_ratio_def f_of_int_def round_f64_def Let_def)
qed

lemma least_ratio_scan:
  assumes "usable_items tot items" and "set ks \<subseteq> {..<length items}"
  shows "foldl (ratio_step tot weights items) b ks
    = scan_best lower_ratio b (map (\<lambda>k. (k, next_ratio tot (weights ! k) (items ! k))) ks)"
  using assms(2)
proof (induction ks arbitrary: b)
  case (Cons k ks)
  then have "items ! k \<in> set items" by simp
  then obtain m where "0 < m" "unit_kappa tot (items ! k) = Fin False m"
    using assms(1) unfolding usable_items_def by blast
  then have "\<not> f_leq (unit_kappa tot (items ! k)) f_zero" by (auto simp: f_order_defs)
  then show ?case using Cons by (cases b) (auto simp: ratio_step_def Let_def lower_ratio_def)
qed simp

lemma least_ratio_least:
  assumes "usable_items tot items" and "items \<noteq> []"
  shows "\<exists>k. least_ratio tot weights items = Some (k, next_ratio tot (weights ! k) (items ! k)) \<and> k < length items
    \<and> (\<forall>j < length items. f_leq (next_ratio tot (weights ! k) (items ! k)) (next_ratio tot (weights ! j) (items ! j)))"
proof -
  let ?xs = "map (\<lambda>k. (k, next_ratio tot (weights ! k) (items ! k))) [0..<length items]"
  have scan: "least_ratio tot weights items = scan_best lower_ratio None ?xs"
    unfolding least_ratio_def by (rule least_ratio_scan [OF assms(1)]) auto
  obtain y where y: "scan_best lower_ratio None ?xs = Some y"
    using assms(2) by (cases "scan_best lower_ratio None ?xs") auto
  have D: "\<forall>z \<in> set ?xs. \<not> is_nan (snd z)" using ratio_number [OF assms(1)] by auto
  from ratio_choice.scan_optimal [OF D y] obtain k where k: "k < length items"
    "y = (k, next_ratio tot (weights ! k) (items ! k))" by auto
  have "f_leq (next_ratio tot (weights ! k) (items ! k)) (next_ratio tot (weights ! j) (items ! j))"
    if "j < length items" for j
  proof -
    have "(j, next_ratio tot (weights ! j) (items ! j)) \<in> set ?xs" using that by auto
    from ratio_choice.scan_optimal(2) [OF D y this]
    have "\<not> f_less (next_ratio tot (weights ! j) (items ! j)) (next_ratio tot (weights ! k) (items ! k))"
      unfolding lower_ratio_def k(2) snd_conv .
    then show ?thesis
      using f_not_less [OF ratio_number [OF assms(1) that] ratio_number [OF assms(1) k(1)]] by blast
  qed
  then show ?thesis unfolding scan y k(2) using k(1) by (intro exI [of _ k]) simp
qed

text \<open>
  What handing out keeps: weights only grow, they sum to what was handed out, and no unit that was
  handed out could lower the largest ratio elsewhere.
\<close>

definition balanced :: "f64 \<Rightarrow> capacityItem list \<Rightarrow> int list \<Rightarrow> int list \<Rightarrow> bool" where
  "balanced tot items base ws \<longleftrightarrow> length ws = length items \<and> list_all (\<lambda>w. 0 \<le> w) ws
     \<and> (\<forall>k < length items. base ! k \<le> ws ! k)
     \<and> (\<forall>k < length items. base ! k < ws ! k
         \<longrightarrow> (\<forall>j < length items. f_leq (ratio tot (ws ! k) (items ! k)) (ratio tot (ws ! j + 1) (items ! j))))"

lemma weight_le_sum: "list_all (\<lambda>w. 0 \<le> w) ws \<Longrightarrow> k < length ws \<Longrightarrow> ws ! k \<le> (sum_list ws :: int)"
  by (rule member_le_sum_list) (auto simp: list_all_iff)

lemma weight_range:
  assumes "list_all (\<lambda>w. 0 \<le> w) ws" and "k < length ws" and "sum_list ws \<le> 1000"
  shows "0 \<le> ws ! k" and "ws ! k \<le> 1000" and "wrap32 (ws ! k + 1) = ws ! k + 1"
proof -
  show b: "0 \<le> ws ! k" "ws ! k \<le> 1000" using assms weight_le_sum [OF assms(1,2)] by (auto simp: list_all_length)
  then show "wrap32 (ws ! k + 1) = ws ! k + 1" by (intro wrap32_id) (auto simp: max_int32_def)
qed

lemma sum_list_bump: "k < length ws \<Longrightarrow> sum_list (ws[k := ws ! k + 1]) = sum_list ws + (1 :: int)"
  by (induction ws arbitrary: k) (auto split: nat.split simp: nth_Cons)

lemma balanced_step:
  assumes bal: "balanced tot items base ws" and use: "usable_items tot items" and sum: "sum_list ws \<le> 1000"
    and k: "k < length items"
    and least: "\<forall>j < length items. f_leq (next_ratio tot (ws ! k) (items ! k)) (next_ratio tot (ws ! j) (items ! j))"
  shows "balanced tot items base (ws[k := ws ! k + 1])"
proof -
  let ?ws = "ws[k := ws ! k + 1]"
  have len: "length ws = length items" and nn: "list_all (\<lambda>w. 0 \<le> w) ws" using bal by (auto simp: balanced_def)
  have rng: "0 \<le> ws ! j" "ws ! j \<le> 1000" "next_ratio tot (ws ! j) (items ! j) = ratio tot (ws ! j + 1) (items ! j)"
    if "j < length items" for j
    using weight_range [OF nn _ sum, of j] that len by (auto simp: next_ratio_def ratio_def)
  have grow: "f_leq (ratio tot (ws ! j + 1) (items ! j)) (ratio tot (?ws ! j + 1) (items ! j))" if "j < length items" for j
    using ratio_mono [OF use nth_mem [OF that], of "ws ! j + 1" "?ws ! j + 1"] rng [OF that] that k len
    by (cases "j = k") auto
  have "f_leq (ratio tot (?ws ! i) (items ! i)) (ratio tot (?ws ! j + 1) (items ! j))"
    if i: "i < length items" "base ! i < ?ws ! i" and j: "j < length items" for i j
  proof -
    have "f_leq (ratio tot (?ws ! i) (items ! i)) (ratio tot (ws ! j + 1) (items ! j))"
    proof (cases "i = k")
      case True
      then show ?thesis using least j rng [OF j] rng [OF k] k len by auto
    next
      case False
      then show ?thesis using bal i j by (auto simp: balanced_def)
    qed
    then show ?thesis using grow [OF j] by (rule f_leq_trans)
  qed
  moreover have "list_all (\<lambda>w. 0 \<le> w) ?ws"
    using nn rng [OF k] len k by (auto simp: list_all_length nth_list_update)
  moreover have "base ! i \<le> ?ws ! i" if "i < length items" for i
    using bal len that by (cases "i = k") (auto simp: balanced_def intro: add_increasing2)
  ultimately show ?thesis using len by (simp add: balanced_def)
qed

lemma hand_out_balanced:
  assumes "balanced tot items base ws" and "usable_items tot items" and "items \<noteq> []" and "sum_list ws + int n \<le> 1000"
  shows "\<exists>vs. hand_out n tot items ws = Some vs \<and> balanced tot items base vs \<and> sum_list vs = sum_list ws + int n"
  using assms
proof (induction n arbitrary: ws)
  case (Suc n)
  obtain k where k: "least_ratio tot ws items = Some (k, next_ratio tot (ws ! k) (items ! k))" "k < length items"
    "\<forall>j < length items. f_leq (next_ratio tot (ws ! k) (items ! k)) (next_ratio tot (ws ! j) (items ! j))"
    using least_ratio_least [OF Suc.prems(2,3)] by blast
  let ?ws = "ws[k := ws ! k + 1]"
  have len: "length ws = length items" "list_all (\<lambda>w. 0 \<le> w) ws" using Suc.prems(1) by (auto simp: balanced_def)
  have wrap: "wrap32 (ws ! k + 1) = ws ! k + 1" using weight_range(3) [OF len(2), of k] k(2) len Suc.prems(4) by auto
  have "balanced tot items base ?ws" using balanced_step [OF Suc.prems(1,2) _ k(2,3)] Suc.prems(4) by simp
  moreover have "sum_list ?ws = sum_list ws + 1" using sum_list_bump k(2) len by simp
  ultimately show ?case using Suc.IH [of ?ws] Suc.prems k(1) wrap by auto
qed simp

lemma wrapped_sum:
  assumes "list_all (\<lambda>w. 0 \<le> w) ws" and "0 \<le> t" and "t + sum_list ws \<le> 1000"
  shows "foldl (\<lambda>t w. wrap32 (t + w)) t ws = t + sum_list ws"
  using assms
proof (induction ws arbitrary: t)
  case (Cons w ws)
  have "0 \<le> sum_list ws" using Cons.prems by (auto intro: sum_list_nonneg simp: list_all_iff)
  with Cons.prems have "wrap32 (t + w) = t + w" by (intro wrap32_id) (auto simp: max_int32_def)
  then show ?case using Cons by (auto simp: add.assoc)
qed simp

section \<open>The weights\<close>

lemma capacityWeights_balanced:
  assumes "list_all normal_kappa items" and "items \<noteq> []" and "length items \<le> 2 ^ 20"
  shows "\<exists>ws ys ok. capacityWeights oor rate items = Some (ws, ys, ok)
    \<and> balanced (kappa_sum items) items (floor_weights oor items) ws \<and> sum_list ws = 1000
    \<and> (\<forall>x \<in> set items. unit_kappa (kappa_sum items) x = ct_kappa x)"
proof -
  let ?tot = "kappa_sum items" and ?base = "floor_weights oor items"
  note base = floor_weights_sum [OF assms, of oor]
  obtain a where a: "?tot = Fin False a" "sum_list (kappas items) * (1 - of_nat (length items) / 2 ^ 53) \<le> a"
    using kappa_sum_bounds [OF assms(1,3)] by auto
  have pos: "0 < mag (ct_kappa x)" if "x \<in> set items" for x
  proof -
    have "normal_kappa x" using assms(1) that by (auto simp: list_all_iff)
    then show ?thesis using normal_kappa_bounds(1) [of x] pow2_pos [of "- 1022"] by linarith
  qed
  have "0 < sum_list (kappas items)"
  proof -
    obtain x xs where "items = x # xs" using assms(2) by (cases items) auto
    then show ?thesis using pos by (auto simp: kappas_def intro!: add_pos_nonneg sum_list_nonneg simp: less_imp_le)
  qed
  moreover have "0 < 1 - of_nat (length items) / (2 ^ 53 :: rat)" using many_kappas [OF assms(3)] by (simp add: field_simps)
  ultimately have "0 < a" using a(2) by (meson mult_pos_pos less_le_trans)
  then have unit: "unit_kappa ?tot x = ct_kappa x" for x by (simp add: unit_kappa_def a(1) f_eq_def)
  have "\<exists>m > 0. ct_kappa x = Fin False m" if "x \<in> set items" for x
    using pos [OF that] assms(1) that normal_kappa_Fin by (metis list_all_iff)
  then have use: "usable_items ?tot items" by (simp add: usable_items_def unit)
  have bal: "balanced ?tot items ?base ?base" using base by (simp add: balanced_def floor_weights_def)
  have left: "left_over ?base = nat (1000 - sum_list ?base)"
    using wrapped_sum [of ?base 0] base by (simp add: left_over_def)
  obtain ws where "hand_out (left_over ?base) ?tot items ?base = Some ws" "balanced ?tot items ?base ws" "sum_list ws = 1000"
    using hand_out_balanced [OF bal use assms(2), of "left_over ?base"] base by (auto simp: left)
  then show ?thesis using assms(2) unit by (simp add: capacityWeights_def Let_def)
qed

lemma normal_usable: "normal_kappa x \<Longrightarrow> \<exists>m > 0. ct_kappa x = Fin False m"
  using normal_kappa_Fin [of x] normal_kappa_bounds(1) [of x] pow2_pos [of "- 1022"] by (meson less_le_trans)

lemma other_grows:
  assumes "length ws = length us" and "sum_list ws = (sum_list us :: int)" and "k < length ws" and "us ! k < ws ! k"
  shows "\<exists>j < length ws. ws ! j < us ! j"
proof (rule ccontr)
  assume "\<not> ?thesis"
  then have le: "us ! j \<le> ws ! j" if "j < length ws" for j using that by (meson not_le)
  have "(\<Sum>j < length us. us ! j) < (\<Sum>j < length us. ws ! j)"
    using le assms by (intro sum_strict_mono_ex1) auto
  then show False using assms(1,2) by (simp add: sum_list_sum_nth atLeast0LessThan)
qed

text \<open>Two instances that serve 1 and 2 requests per second.\<close>

definition weight_item :: "string \<Rightarrow> int \<Rightarrow> capacityItem" where
  "weight_item idn k = \<lparr>ct_id = idn, ct_kappa = f_of_int k, ct_e = f_of_int 1, ct_weight = 0, ct_row = [], ct_prepare = False\<rparr>"

definition weight_items :: "capacityItem list" where
  "weight_items = [weight_item ''a'' 1, weight_item ''b'' 2]"

lemma weight_items_normal:
  "list_all normal_kappa weight_items" "weight_items \<noteq> []" "length weight_items \<le> 2 ^ 20"
proof -
  have "pow2 (- 1022) \<le> pow2 0" "pow2 1 \<le> pow2 1000" by (simp_all only: pow2_le_iff)
  then have "pow2 (- 1022) \<le> 1" "2 \<le> pow2 1000" by (simp_all add: pow2_def [of 0] pow2_def [of 1])
  then have "pow2 (- 1022) \<le> 1" "pow2 (- 1022) \<le> 2" "1 \<le> pow2 1000" "2 \<le> pow2 1000" by linarith+
  then show "list_all normal_kappa weight_items"
    by (simp add: weight_items_def weight_item_def normal_kappa_def f_of_int_small)
qed (simp_all add: weight_items_def)

text \<open>C15: The integer weights of a route always exist and sum to exactly 1000: with capacities in the normal
  range and at most a million of them, the floors of the rounded shares are nonnegative and sum to
  at most 1000, and every unit that is left finds an item.\<close>

theorem capacityWeights_sum:
  assumes "list_all normal_kappa items" and "items \<noteq> []" and "length items \<le> 2 ^ 20"
  shows "\<exists>ws ys ok. capacityWeights oor rate items = Some (ws, ys, ok) \<and> length ws = length items
    \<and> list_all (\<lambda>w. 0 \<le> w) ws \<and> sum_list ws = 1000"
  using capacityWeights_balanced [OF assms] by (fastforce simp: balanced_def)

theorem capacityWeights_sum_witness:
  "\<exists>ws ys ok. capacityWeights (\<lambda>_. 0) (f_of_int 2) weight_items = Some (ws, ys, ok) \<and> sum_list ws = 1000"
  using capacityWeights_sum [OF weight_items_normal, of "\<lambda>_. 0" "f_of_int 2"] by blast

text \<open>
  An item that holds the floor of its share only: its ratio is at most 1000 units over the total, up to the
  rounding of the total and of the share, and every distribution has a ratio of at least that.
\<close>

lemma kappas_positive:
  assumes "list_all normal_kappa items" "x \<in> set items"
  shows "ct_kappa x = Fin False (mag (ct_kappa x))" "0 < mag (ct_kappa x)"
proof -
  have "normal_kappa x" using assms by (auto simp: list_all_iff)
  then show "ct_kappa x = Fin False (mag (ct_kappa x))" "0 < mag (ct_kappa x)"
    using normal_kappa_Fin normal_kappa_bounds(1) [of x] pow2_pos [of "- 1022"] by (blast, linarith)
qed

lemma some_ratio_large:
  assumes "list_all normal_kappa items" "items \<noteq> []" "length us = length items" "sum_list us = 1000"
  shows "\<exists>j < length items. 1000 / sum_list (kappas items) \<le> of_int (us ! j) / mag (ct_kappa (items ! j))"
proof (rule ccontr)
  let ?m = "\<lambda>j. mag (ct_kappa (items ! j))" and ?S = "sum_list (kappas items)"
  have S: "?S = (\<Sum>j < length items. ?m j)" by (simp add: kappas_def sum_list_sum_nth atLeast0LessThan)
  have m: "0 < ?m j" if "j < length items" for j using kappas_positive(2) [OF assms(1) nth_mem [OF that]] .
  then have S0: "0 < ?S" unfolding S using assms(2) by (intro sum_pos) auto
  assume "\<not> ?thesis"
  then have "of_int (us ! j) < 1000 / ?S * ?m j" if "j < length items" for j
    using that m [OF that] by (fastforce simp: not_le divide_less_eq)
  then have "(\<Sum>j < length items. of_int (us ! j) :: rat) < (\<Sum>j < length items. 1000 / ?S * ?m j)"
    using assms(2) by (intro sum_strict_mono) auto
  also have "\<dots> = 1000 / ?S * ?S" by (simp only: sum_distrib_left [symmetric] S [symmetric])
  also have "\<dots> = 1000" using S0 by simp
  finally have "of_int (\<Sum>j < length us. us ! j) < (1000 :: rat)" by (simp add: assms(3))
  moreover have "(\<Sum>j < length us. us ! j) = 1000" using assms(4) by (simp add: sum_list_sum_nth atLeast0LessThan)
  ultimately show False by simp
qed

lemma floor_ratio:
  assumes "list_all normal_kappa items" "length items \<le> 2 ^ 20" "k < length items"
  shows "of_int (floor_weights oor items ! k) / mag (ct_kappa (items ! k))
    \<le> (1 + 1 / 2 ^ 32) * (1000 / sum_list (kappas items))"
proof -
  define S m w where "S = sum_list (kappas items)" and "m = mag (ct_kappa (items ! k))"
    and "w = floor_weights oor items ! k"
  obtain a where a: "kappa_sum items = Fin False a" "S * (1 - of_nat (length items) / 2 ^ 53) \<le> a"
    using kappa_sum_bounds [OF assms(1,2)] by (auto simp: S_def)
  note pos = kappas_positive [OF assms(1)]
  have x: "items ! k \<in> set items" using assms(3) by simp
  have m: "0 < m" using pos(2) [OF x] by (simp add: m_def)
  have mS: "m \<le> S" unfolding S_def m_def kappas_def
    using x pos(2) by (auto intro!: member_le_sum_list simp: less_imp_le)
  then have S: "0 < S" using m by linarith
  have "S * (1 - 1 / 2 ^ 33) \<le> S * (1 - of_nat (length items) / 2 ^ 53)"
    using S many_kappas [OF assms(2)] by (intro mult_left_mono) (auto simp: field_simps)
  then have aS: "S * (1 - 1 / 2 ^ 33) \<le> a" using a(2) by linarith
  have "S / 2 \<le> S * (1 - 1 / 2 ^ 33)" using S by (simp add: field_simps)
  then have a0: "0 < a" "m \<le> 2 * a" using S aS mS by linarith+
  have w: "w = floor_weight oor (Fin False a) (length items) (items ! k)"
    using assms(3) by (simp add: w_def floor_weights_def a(1))
  from floor_weight_bounds [OF pos(1) [OF x, folded m_def] m a0]
  have w0: "0 \<le> w" and up: "of_int w \<le> m / a * (1000 * (1 + 1 / 2 ^ 53) ^ 2) + 1 / 2 ^ 50" unfolding w by blast+
  have "of_int w / m \<le> (1 + 1 / 2 ^ 32) * (1000 / S)"
  proof (cases "w = 0")
    case False
    then have w1: "(1 :: rat) \<le> of_int w" using w0 by simp
    define v :: rat where "v = of_int w"
    have "v * (1 - 1 / 2 ^ 50) \<le> m / a * (1000 * (1 + 1 / 2 ^ 53) ^ 2)"
    proof -
      have "1 / 2 ^ 50 \<le> v / 2 ^ 50" using w1 by (simp add: v_def)
      then show ?thesis using up by (simp add: v_def [symmetric] right_diff_distrib)
    qed
    then have "v * (1 - 1 / 2 ^ 50) * a \<le> m * (1000 * (1 + 1 / 2 ^ 53) ^ 2)"
      using a0(1) by (simp add: field_simps)
    moreover have "v * (1 - 1 / 2 ^ 50) * (S * (1 - 1 / 2 ^ 33)) \<le> v * (1 - 1 / 2 ^ 50) * a"
      using aS w1 by (intro mult_left_mono) (auto simp: v_def)
    ultimately have "(v * S) * ((1 - 1 / 2 ^ 50) * (1 - 1 / 2 ^ 33)) \<le> (m * 1000) * (1 + 1 / 2 ^ 53) ^ 2"
      by (simp add: ac_simps)
    moreover have "(m * 1000) * (1 + 1 / 2 ^ 53) ^ 2
        \<le> (m * 1000) * ((1 + 1 / 2 ^ 32) * ((1 - 1 / 2 ^ 50) * (1 - 1 / 2 ^ 33)))"
      using m by (intro mult_left_mono) (simp_all add: power2_eq_square field_simps)
    ultimately have "(v * S) * ((1 - 1 / 2 ^ 50) * (1 - 1 / 2 ^ 33))
        \<le> ((m * 1000) * (1 + 1 / 2 ^ 32)) * ((1 - 1 / 2 ^ 50) * (1 - 1 / 2 ^ 33))"
      by (simp only: mult.assoc)
    then have "v * S \<le> (m * 1000) * (1 + 1 / 2 ^ 32)"
      by (rule mult_right_le_imp_le) simp
    then show ?thesis using m S by (simp add: v_def field_simps)
  qed (use S in simp)
  then show ?thesis by (simp add: S_def m_def w_def)
qed

text \<open>An item that was handed a unit: in every other distribution some ratio is at least as large, as floats.\<close>

lemma handed_out_minimax:
  assumes items: "list_all normal_kappa items" "items \<noteq> []" "length items \<le> 2 ^ 20"
    and run: "capacityWeights oor rate items = Some (ws, ys, ok)"
    and us: "length us = length items" "list_all (\<lambda>u. 0 \<le> u) us" "sum_list us = 1000"
    and k: "k < length items" "floor_weights oor items ! k < ws ! k"
  shows "\<exists>j < length items. f_leq (f_div (f_of_int (ws ! k)) (ct_kappa (items ! k)))
    (f_div (f_of_int (us ! j)) (ct_kappa (items ! j)))"
proof -
  let ?tot = "kappa_sum items"
  from capacityWeights_balanced [OF items, of oor rate] run
  have bal: "balanced ?tot items (floor_weights oor items) ws" and sum: "sum_list ws = 1000"
    and unit: "\<And>x. x \<in> set items \<Longrightarrow> unit_kappa ?tot x = ct_kappa x" by auto
  have len: "length ws = length items" "list_all (\<lambda>w. 0 \<le> w) ws" using bal by (auto simp: balanced_def)
  have use: "usable_items ?tot items" using items(1) unit normal_usable by (auto simp: usable_items_def list_all_iff)
  have ratio: "f_div (f_of_int w) (ct_kappa (items ! j)) = ratio ?tot w (items ! j)" if "j < length items" for w j
    using that unit by (simp add: ratio_def)
  have rng: "0 \<le> ws ! j" "ws ! j \<le> 1000" "0 \<le> us ! j" "us ! j \<le> 1000" if "j < length items" for j
    using weight_range [OF len(2), of j] weight_range [OF us(2), of j] that len us sum by auto
  have mono: "f_leq (ratio ?tot v (items ! j)) (ratio ?tot w (items ! j))"
    if "j < length items" "v \<le> w" "0 \<le> v" "w \<le> 1000" for v w j
    using ratio_mono [OF use nth_mem [OF that(1)] that(2)] that by auto
  show ?thesis
  proof (cases "ws ! k \<le> us ! k")
    case True
    then show ?thesis using mono [OF k(1) True] rng [OF k(1)] ratio k(1) by auto
  next
    case False
    then obtain j where j: "j < length items" "ws ! j < us ! j"
      using other_grows [of ws us k] len us k sum by auto
    have "f_leq (ratio ?tot (ws ! k) (items ! k)) (ratio ?tot (ws ! j + 1) (items ! j))"
      using bal k j(1) by (auto simp: balanced_def)
    moreover have "f_leq (ratio ?tot (ws ! j + 1) (items ! j)) (ratio ?tot (us ! j) (items ! j))"
      using mono [OF j(1), of "ws ! j + 1" "us ! j"] j(2) rng [OF j(1)] by simp
    ultimately have "f_leq (ratio ?tot (ws ! k) (items ! k)) (ratio ?tot (us ! j) (items ! j))" by (rule f_leq_trans)
    then show ?thesis using j(1) k(1) ratio by auto
  qed
qed

text \<open>C4: The weights are a minimax distribution, for every item: against any other nonnegative distribution of the
  1000 units, an item that was handed a unit beyond the floor of its share has a ratio of weight to capacity that
  some ratio of the other distribution reaches, in the float arithmetic of the code; an item that holds the
  floor has a ratio that some ratio of the other distribution reaches up to a factor of 1 + 2^-32, the rounding
  of the shares. So no other distribution has a worst ratio that is smaller by more than that rounding.\<close>

theorem capacityWeights_minimax:
  assumes items: "list_all normal_kappa items" "items \<noteq> []" "length items \<le> 2 ^ 20"
    and run: "capacityWeights oor rate items = Some (ws, ys, ok)"
    and us: "length us = length items" "list_all (\<lambda>u. 0 \<le> u) us" "sum_list us = 1000"
    and k: "k < length items"
  shows "floor_weights oor items ! k \<le> ws ! k \<and> (\<exists>j < length items.
    if floor_weights oor items ! k < ws ! k
    then f_leq (f_div (f_of_int (ws ! k)) (ct_kappa (items ! k))) (f_div (f_of_int (us ! j)) (ct_kappa (items ! j)))
    else of_int (ws ! k) / mag (ct_kappa (items ! k))
      \<le> (1 + 1 / 2 ^ 32) * (of_int (us ! j) / mag (ct_kappa (items ! j))))"
proof -
  from capacityWeights_balanced [OF items, of oor rate] run k
  have base: "floor_weights oor items ! k \<le> ws ! k" by (auto simp: balanced_def)
  show ?thesis
  proof (cases "floor_weights oor items ! k < ws ! k")
    case True
    with handed_out_minimax [OF items run us k] base show ?thesis by auto
  next
    case False
    then have same: "ws ! k = floor_weights oor items ! k" using base by simp
    obtain j where j: "j < length items" "1000 / sum_list (kappas items) \<le> of_int (us ! j) / mag (ct_kappa (items ! j))"
      using some_ratio_large [OF items(1,2) us(1,3)] by blast
    have "of_int (ws ! k) / mag (ct_kappa (items ! k)) \<le> (1 + 1 / 2 ^ 32) * (1000 / sum_list (kappas items))"
      unfolding same by (rule floor_ratio [OF items(1,3) k])
    also have "\<dots> \<le> (1 + 1 / 2 ^ 32) * (of_int (us ! j) / mag (ct_kappa (items ! j)))"
      by (rule mult_left_mono [OF j(2)]) simp
    finally show ?thesis using False base j(1) by auto
  qed
qed

theorem capacityWeights_minimax_witness:
  "capacityWeights (\<lambda>_. 0) (f_of_int 2) weight_items = Some ([333, 667], map (\<lambda>w. f_div (f_of_int w) (f_of_int 500)) [333, 667], True)
    \<and> (\<exists>j < 2. f_leq (f_div (f_of_int 667) (ct_kappa (weight_items ! 1))) (f_div (f_of_int ([500, 500] ! j)) (ct_kappa (weight_items ! j))))
    \<and> (\<exists>j < 2. 333 / mag (ct_kappa (weight_items ! 0)) \<le> (1 + 1 / 2 ^ 32) * (of_int ([500, 500] ! j) / mag (ct_kappa (weight_items ! j))))"
proof -
  have run: "capacityWeights (\<lambda>_. 0) (f_of_int 2) weight_items
    = Some ([333, 667], map (\<lambda>w. f_div (f_of_int w) (f_of_int 500)) [333, 667], True)" by code_simp
  have fl: "floor_weights (\<lambda>_. 0) weight_items = [333, 666]" by code_simp
  show ?thesis
    using capacityWeights_minimax [OF weight_items_normal run, of "[500, 500]" 1]
      capacityWeights_minimax [OF weight_items_normal run, of "[500, 500]" 0] run fl
    by (simp add: weight_items_def numeral_2_eq_2)
qed

end
