(* ===== verification/RowProps.thy ===== *)
theory RowProps
  imports CapacityRows SchedSamples
begin

text \<open>
  Properties of a capacity row: judging a rate stops early but decides what all its windows would
  decide, the bisection always ends, so building a row returns for every profile, workload and
  replay, and the capacity of a built row is a rate that was judged met, below one that was not.
\<close>

section \<open>Judging\<close>

definition window_ok :: "capacityBuilder \<Rightarrow> f64 \<Rightarrow> int \<Rightarrow> int \<Rightarrow> bool" where
  "window_ok b lam n seed \<longleftrightarrow> (case cb_replay b lam n seed of Inl _ \<Rightarrow> False | Inr (_, ok) \<Rightarrow> ok)"

text \<open>How many of the windows \<open>1..capacityWindows\<close> a rate passes, and whether that is enough.\<close>

definition passing_windows :: "(f64 \<Rightarrow> int) \<Rightarrow> capacityBuilder \<Rightarrow> f64 \<Rightarrow> nat" where
  "passing_windows oor b lam =
     length (filter (window_ok b lam (window_requests oor b lam)) [1..st_capacityWindows (cb_settings b)])"

definition meets :: "(f64 \<Rightarrow> int) \<Rightarrow> capacityBuilder \<Rightarrow> f64 \<Rightarrow> bool" where
  "meets oor b lam \<longleftrightarrow> st_capacityPassingWindows (cb_settings b) \<le> int (passing_windows oor b lam)"

lemma judge_loop_counts:
  assumes "s \<le> W + 1" and "st_capacityWindows (cb_settings b) = W"
    and "judge_loop b j [s..W] = (j', None)"
  shows "st_capacityPassingWindows (cb_settings b) \<le> cj_passed j'
       \<longleftrightarrow> st_capacityPassingWindows (cb_settings b)
            \<le> cj_passed j + int (length (filter (window_ok b (cj_rate j) (cj_requests j)) [s..W]))"
  using assms
proof (induction "nat (W + 1 - s)" arbitrary: s j)
  case 0
  then have "[s..W] = []" by simp
  with 0 show ?case by simp
next
  case (Suc n)
  let ?need = "st_capacityPassingWindows (cb_settings b)" and ?ok = "window_ok b (cj_rate j) (cj_requests j)"
  have s: "s \<le> W" using Suc by linarith
  then have seeds: "[s..W] = s # [s + 1..W]" by (rule upto_rec1)
  have "length (filter ?ok [s..W]) \<le> nat (W - s + 1)"
    using length_filter_le [of ?ok "[s..W]"] by simp
  then have few: "int (length (filter ?ok [s..W])) \<le> W - s + 1" using s by linarith
  show ?case
  proof (cases "cj_passed j < ?need \<and> ?need \<le> cj_passed j + W - s + 1")
    case True
    with Suc.prems obtain l ok where r: "cb_replay b (cj_rate j) (cj_requests j) s = Inr (l, ok)"
      by (auto simp: seeds judge_window_def split: sum.splits)
    let ?j = "j\<lparr>cj_percentileMS := cj_percentileMS j @ [l], cj_passed := (if ok then cj_passed j + 1 else cj_passed j)\<rparr>"
    have run: "judge_loop b ?j [s + 1..W] = (j', None)"
      using True Suc.prems by (simp add: seeds judge_window_def r Let_def)
    have "?need \<le> cj_passed j' \<longleftrightarrow> ?need \<le> cj_passed ?j
        + int (length (filter (window_ok b (cj_rate ?j) (cj_requests ?j)) [s + 1..W]))"
      by (rule Suc.hyps(1)) (use Suc.hyps(2) Suc.prems s run in auto)
    then show ?thesis by (cases ok) (simp_all add: seeds window_ok_def r algebra_simps)
  next
    case False
    then have "j' = j" using Suc.prems(2,3) by (auto simp: seeds Let_def)
    then show ?thesis using False few by auto
  qed
qed

lemma judge_meets:
  assumes "judge oor b lam = (j, None)" and "0 \<le> st_capacityWindows (cb_settings b)"
  shows "cj_met j \<longleftrightarrow> meets oor b lam"
proof -
  let ?j0 = "\<lparr>cj_rate = lam, cj_requests = window_requests oor b lam, cj_passed = 0, cj_met = False, cj_percentileMS = []\<rparr>"
  from assms(1) obtain j1 where "judge_loop b ?j0 [1..st_capacityWindows (cb_settings b)] = (j1, None)"
    "j = j1\<lparr>cj_met := st_capacityPassingWindows (cb_settings b) \<le> cj_passed j1\<rparr>"
    by (auto simp: judge_def Let_def split: prod.splits option.splits)
  with judge_loop_counts [of 1 _ b ?j0 j1] assms(2) show ?thesis by (simp add: meets_def passing_windows_def)
qed

lemma judge_loop_no_error:
  assumes "\<forall>seed. \<not> isl (cb_replay b (cj_rate j) (cj_requests j) seed)"
  shows "snd (judge_loop b j seeds) = None"
  using assms
proof (induction seeds arbitrary: j)
  case (Cons seed seeds)
  then obtain l ok where r: "cb_replay b (cj_rate j) (cj_requests j) seed = Inr (l, ok)" by (metis obj_sumE sum.disc(1) surj_pair)
  show ?case by (simp add: Let_def judge_window_def r) (use Cons in simp)
qed simp

lemma judge_no_error:
  assumes "\<forall>lam n seed. \<not> isl (cb_replay b lam n seed)"
  shows "snd (judge oor b lam) = None"
  using judge_loop_no_error [of b] assms
  by (auto simp: judge_def Let_def split: prod.splits option.splits) (metis option.distinct(1) snd_conv)

section \<open>Rounded numbers\<close>

definition representable :: "rat \<Rightarrow> bool" where
  "representable m \<longleftrightarrow> 0 \<le> m \<and> round_mag m = m"

lemma representable_0 [simp]: "representable 0"
  by (simp add: representable_def round_mag_def)

lemma representable_form:
  assumes "representable m" and "0 < m"
  shows "m = of_int (round_even (m / pow2 (ulp_exp m))) * pow2 (ulp_exp m)"
proof -
  have "round_mag m = of_int (round_even (m / pow2 (ulp_exp m))) * pow2 (ulp_exp m)" using assms(2) by (simp add: round_mag_def)
  then show ?thesis using assms(1) by (simp add: representable_def)
qed

lemma ulp_exp_mono: "0 < x \<Longrightarrow> x \<le> y \<Longrightarrow> ulp_exp x \<le> ulp_exp y"
  using floor_log2_mono [of x y] by (simp add: ulp_exp_def)

lemma representable_round: "representable (round_mag x)"
proof (cases "0 < x")
  case True
  let ?e = "ulp_exp x" and ?r = "round_mag x"
  show ?thesis
  proof (cases "0 < ?r")
    case r: True
    have form: "?r = of_int (round_even (x / pow2 ?e)) * pow2 ?e" using True by (simp add: round_mag_def)
    show ?thesis
    proof (cases "?r < pow2 (?e + 53)")
      case False
      then have eq: "?r = pow2 (?e + 53)" using round_mag_le [OF True] by linarith
      have "floor_log2 (pow2 (?e + 53)) = ?e + 53" by (rule floor_log2_unique) simp_all
      then have "ulp_exp ?r \<le> ?e + 53" unfolding eq by (auto simp: ulp_exp_def)
      then have "round_mag ?r = ?r" using round_mag_exact [OF r, of 1 "?e + 53"] eq by simp
      then show ?thesis by (simp add: representable_def)
    next
      case small: True
      have "pow2 (floor_log2 ?r) < pow2 (?e + 53)"
        using floor_log2_bounds(1) [OF r] small by (rule le_less_trans)
      then have "ulp_exp ?r \<le> ?e" by (auto simp: ulp_exp_def)
      then have "round_mag ?r = ?r" by (rule round_mag_exact [OF r form])
      then show ?thesis by (simp add: representable_def)
    qed
  next
    case False
    then have "?r = 0" using round_mag_nonneg [of x] by linarith
    then show ?thesis by simp
  qed
qed (simp add: round_mag_def representable_def)

lemma representable_double:
  assumes "representable m"
  shows "round_mag (2 * m) = 2 * m"
proof (cases "m = 0")
  case False
  then have m: "0 < m" using assms by (simp add: representable_def)
  have "2 * m = of_int (round_even (m / pow2 (ulp_exp m))) * pow2 (ulp_exp m + 1)"
    using representable_form [OF assms m] pow2_double [of "ulp_exp m"] by simp
  moreover have "floor_log2 (2 * m) = floor_log2 m + 1"
    using floor_log2_bounds [OF m] m pow2_double [of "floor_log2 m"] pow2_double [of "floor_log2 m + 1"]
    by (intro floor_log2_unique) simp_all
  then have "ulp_exp (2 * m) \<le> ulp_exp m + 1" by (auto simp: ulp_exp_def)
  ultimately show ?thesis using m by (intro round_mag_exact) simp_all
qed (simp add: round_mag_def)

text \<open>Every representable number is a multiple of the smallest one.\<close>

lemma representable_grid:
  assumes "representable m"
  shows "m * pow2 1074 \<in> \<int>"
proof (cases "m = 0")
  case False
  then have m: "0 < m" using assms by (simp add: representable_def)
  define n where "n = nat (ulp_exp m + 1074)"
  have "ulp_exp m + 1074 = int n" by (simp add: n_def ulp_exp_def)
  then have "pow2 (ulp_exp m) * pow2 1074 = 2 ^ n" by (metis pow2_add pow2_of_nat)
  then have "m * pow2 1074 = of_int (round_even (m / pow2 (ulp_exp m)) * 2 ^ n)"
    by (subst representable_form [OF assms m]) simp
  then show ?thesis by (metis Ints_of_int)
qed simp

section \<open>The bisection ends\<close>

text \<open>The rates a bisection works on: no negative number, every finite one a float.\<close>

fun rate :: "f64 \<Rightarrow> bool" where
  "rate NaN = True"
| "rate (Inf s) = (\<not> s)"
| "rate (Fin s m) = (\<not> s \<and> representable m)"

lemma rate_round: "rate (round_f64 False x)"
  by (simp add: round_f64_def Let_def representable_round)

definition midpoint :: "f64 \<Rightarrow> f64 \<Rightarrow> f64" where
  "midpoint a b = f_div (f_add a b) f_two"

lemma two_fin: "f_two = Fin False 2"
  by (simp add: f_of_int_small)

lemma midpoint_fin:
  assumes "representable a" "representable c"
  shows "midpoint (Fin False a) (Fin False c) = Inf False
    \<or> (\<exists>m. midpoint (Fin False a) (Fin False c) = Fin False m \<and> representable m \<and> min a c \<le> m \<and> m \<le> max a c)"
proof (cases "a + c = 0")
  case True
  then have "a = 0" "c = 0" using assms by (auto simp: representable_def)
  then show ?thesis by (simp add: midpoint_def two_fin round_f64_def round_mag_def)
next
  case False
  let ?s = "round_mag (a + c)" let ?m = "round_mag (?s / 2)"
  have pos: "0 \<le> a" "0 \<le> c" using assms by (auto simp: representable_def)
  have sum: "f_add (Fin False a) (Fin False c) = round_f64 False (a + c)" using False pos by simp
  have self: "round_mag (min a c) = min a c" "round_mag (max a c) = max a c"
    using assms by (auto simp: representable_def min_def max_def)
  have "round_mag (2 * min a c) = 2 * min a c" "round_mag (2 * max a c) = 2 * max a c"
    using assms representable_double by (auto simp: min_def max_def)
  moreover have "2 * min a c \<le> a + c" "a + c \<le> 2 * max a c" by (auto simp: min_def max_def)
  ultimately have "2 * min a c \<le> ?s" "?s \<le> 2 * max a c" by (metis round_mag_mono)+
  then have "min a c \<le> ?s / 2" "?s / 2 \<le> max a c" by linarith+
  then have bounds: "min a c \<le> ?m" "?m \<le> max a c" using round_mag_mono self by metis+
  show ?thesis
  proof (cases "?s < pow2 1024")
    case True
    then have "midpoint (Fin False a) (Fin False c) = round_f64 False (?s / 2)"
      by (simp only: midpoint_def sum two_fin) (simp add: round_f64_def)
    then show ?thesis using bounds representable_round by (auto simp: round_f64_def Let_def)
  next
    case False
    then show ?thesis by (simp only: midpoint_def sum two_fin) (simp add: round_f64_def)
  qed
qed

lemma bisect_stops:
  "\<not> f_less (f_mul (st_capacityBisectionWidth (cb_settings b)) (cr_mu row)) (f_sub hi kappa)
    \<or> f_eq (midpoint kappa hi) kappa \<or> f_eq (midpoint kappa hi) hi
    \<Longrightarrow> bisect oor b row kappa hi = Some (row, kappa, hi, None)"
  by (subst bisect.simps) (auto simp: midpoint_def Let_def)

lemma bisect_step:
  assumes "\<And>row'. \<exists>r. bisect oor b row' (midpoint kappa hi) hi = Some r"
    and "\<And>row'. \<exists>r. bisect oor b row' kappa (midpoint kappa hi) = Some r"
  shows "\<exists>r. bisect oor b row kappa hi = Some r"
  by (subst bisect.simps)
    (use assms in \<open>auto simp: midpoint_def Let_def split: prod.splits option.splits\<close>)

lemma bisect_inf: "rate kappa \<Longrightarrow> bisect oor b row kappa (Inf False) = Some (row, kappa, Inf False, None)"
  by (cases kappa) (auto intro!: bisect_stops simp: midpoint_def two_fin f_sub_def f_order_defs)

lemma bisect_from_inf: "rate hi \<Longrightarrow> bisect oor b row (Inf False) hi = Some (row, Inf False, hi, None)"
  by (cases hi) (auto intro!: bisect_stops simp: midpoint_def two_fin f_sub_def f_order_defs)

lemma bisect_nan: "bisect oor b row NaN hi = Some (row, NaN, hi, None)"
  by (rule bisect_stops, cases hi) (simp_all add: f_sub_def f_less_def)

lemma bisect_to_nan: "bisect oor b row kappa NaN = Some (row, kappa, NaN, None)"
  by (rule bisect_stops, cases kappa) (simp_all add: f_sub_def f_less_def)

text \<open>The distance of two finite rates, in units of the smallest float.\<close>

definition float_steps :: "rat \<Rightarrow> rat \<Rightarrow> nat" where
  "float_steps a c = nat \<lfloor>\<bar>c - a\<bar> * pow2 1074\<rfloor>"

lemma float_steps_eq:
  assumes "representable a" "representable c"
  shows "rat_of_nat (float_steps a c) = \<bar>c - a\<bar> * pow2 1074"
proof -
  have "(c - a) * pow2 1074 \<in> \<int>"
    using Ints_diff [OF representable_grid [OF assms(2)] representable_grid [OF assms(1)]] by (simp only: left_diff_distrib)
  then obtain k where "(c - a) * pow2 1074 = of_int k" by (elim Ints_cases)
  then have "\<bar>c - a\<bar> * pow2 1074 = of_int \<bar>k\<bar>" by (metis abs_mult abs_of_pos of_int_abs pow2_pos)
  then show ?thesis by (simp only: float_steps_def) simp
qed

lemma float_steps_less:
  assumes "representable a" "representable c" "representable d" "representable e"
    and "\<bar>c - a\<bar> < \<bar>e - d\<bar>"
  shows "float_steps a c < float_steps d e"
proof -
  have "\<bar>c - a\<bar> * pow2 1074 < \<bar>e - d\<bar> * pow2 1074" using assms(5) by (intro mult_strict_right_mono) simp_all
  then show ?thesis by (simp only: float_steps_eq [OF assms(1,2), symmetric] float_steps_eq [OF assms(3,4), symmetric] of_nat_less_iff)
qed

lemma bisect_fin_ends:
  assumes "representable a" "representable c"
  shows "\<exists>r. bisect oor b row (Fin False a) (Fin False c) = Some r"
  using assms
proof (induction "float_steps a c" arbitrary: a c row rule: less_induct)
  case less
  let ?m = "midpoint (Fin False a) (Fin False c)"
  from midpoint_fin [OF less.prems] show ?case
  proof (elim disjE exE conjE)
    assume "?m = Inf False"
    then have "\<exists>r. bisect oor b row ?m (Fin False c) = Some r" "\<exists>r. bisect oor b row (Fin False a) ?m = Some r" for row
      using less.prems bisect_inf [of "Fin False a"] bisect_from_inf [of "Fin False c"] rate.simps(3) by metis+
    then show ?case by (rule bisect_step)
  next
    fix m
    assume m: "?m = Fin False m" "representable m" "min a c \<le> m" "m \<le> max a c"
    show ?case
    proof (cases "m = a \<or> m = c")
      case True
      then have "f_eq ?m (Fin False a) \<or> f_eq ?m (Fin False c)" using m(1) by (auto simp: f_eq_def)
      then show ?thesis using bisect_stops by blast
    next
      case False
      then have "\<bar>c - m\<bar> < \<bar>c - a\<bar>" "\<bar>m - a\<bar> < \<bar>c - a\<bar>" using m(3,4) by (auto simp: min_def max_def split: if_splits)
      then have "float_steps m c < float_steps a c" "float_steps a m < float_steps a c" using less.prems m(2) float_steps_less by blast+
      then have "\<exists>r. bisect oor b row (Fin False m) (Fin False c) = Some r"
          "\<exists>r. bisect oor b row (Fin False a) (Fin False m) = Some r" for row
        using less.hyps less.prems m(2) by blast+
      then show ?thesis unfolding m(1) [symmetric] by (rule bisect_step)
    qed
  qed
qed

lemma bisect_ends:
  assumes "rate kappa" "rate hi"
  shows "\<exists>r. bisect oor b row kappa hi = Some r"
proof (cases kappa)
  case NaN
  then show ?thesis by (simp add: bisect_nan)
next
  case (Inf s)
  then show ?thesis using assms by (simp add: bisect_from_inf)
next
  case k: (Fin s a)
  show ?thesis
  proof (cases hi)
    case (Fin t c)
    then show ?thesis using assms k bisect_fin_ends by auto
  qed (use assms k in \<open>simp_all add: bisect_to_nan bisect_inf\<close>)
qed


section \<open>Building a row\<close>

text \<open>The throughput and every grid rate are such rates.\<close>

fun rounded :: "f64 \<Rightarrow> bool" where
  "rounded NaN = True"
| "rounded (Inf s) = True"
| "rounded (Fin s m) = representable m"

lemma rounded_round [simp]: "rounded (round_f64 s x)"
  by (simp add: round_f64_def Let_def representable_round)

lemma rounded_mul [simp]: "rounded (f_mul a b)"
  by (cases a; cases b) auto

lemma rate_max: "rate a \<Longrightarrow> rounded b \<Longrightarrow> rate (f_max a b)"
  by (cases a; cases b) (auto simp: f_max_def f_order_defs representable_def split: if_splits)

lemma rate_of_int: "0 \<le> n \<Longrightarrow> rate (f_of_int n)"
  using rate_round [of "of_int \<bar>n\<bar>"] by (simp add: f_of_int_def)

lemma rate_mul: "rate a \<Longrightarrow> rate b \<Longrightarrow> rate (f_mul a b)"
  by (cases a; cases b) (auto simp: rate_round)

lemma rate_div: "rate a \<Longrightarrow> rate b \<Longrightarrow> rate (f_div a b)"
  by (cases a; cases b) (auto simp: rate_round)

lemma capacityThroughput_rate: "rate (capacityThroughput p limit)"
proof -
  have "rate (foldl (throughput_step limit) mu bs)" if "rate mu" for mu bs
    using that by (induction bs arbitrary: mu) (simp_all add: throughput_step_def rate_max)
  then show ?thesis by (simp add: capacityThroughput_def)
qed

lemma gridStep_rate: "0 \<le> k \<Longrightarrow> 0 \<le> st_capacityGridSteps (cb_settings b) \<Longrightarrow> rate mu \<Longrightarrow> rate (gridStep b k mu)"
  by (simp add: gridStep_def rate_mul rate_div rate_of_int)

text \<open>The grid loop counts the rates met before the first one that is not, and changes no throughput.\<close>

lemma grid_loop_mu: "cr_mu (fst (fst (grid_loop oor b row met ks))) = cr_mu row"
  by (induction oor b row met ks rule: grid_loop.induct) (simp_all add: Let_def split: prod.splits option.splits)

lemma grid_loop_rejected:
  "cr_status row \<noteq> [] \<Longrightarrow> cr_status (fst (fst (grid_loop oor b row met ks))) \<noteq> []"
  by (induction oor b row met ks rule: grid_loop.induct) (simp_all add: Let_def split: prod.splits option.splits)

lemma grid_loop_status:
  "cr_status row \<in> {[], CapacityRejected} \<Longrightarrow> cr_status (fst (fst (grid_loop oor b row met ks))) \<in> {[], CapacityRejected}"
  by (induction oor b row met ks rule: grid_loop.induct) (simp_all add: Let_def split: prod.splits option.splits)

lemma grid_loop_met:
  "0 \<le> met \<Longrightarrow> \<forall>k \<in> set ks. 0 \<le> k \<Longrightarrow> 0 \<le> snd (fst (grid_loop oor b row met ks))"
  by (induction oor b row met ks rule: grid_loop.induct) (auto simp: Let_def split: prod.splits option.splits)

lemma grid_loop_result:
  assumes "grid_loop oor b row met [k..S] = ((r, n), None)" "met < k" "0 \<le> st_capacityWindows (cb_settings b)"
    and "\<And>i. i \<in> {1..k - 1} \<Longrightarrow> meets oor b (gridStep b i (cr_mu row)) \<longleftrightarrow> i \<le> met" "cr_status r = []"
    and "i \<in> {1..S}"
  shows "meets oor b (gridStep b i (cr_mu row)) \<longleftrightarrow> i \<le> n"
  using assms
proof (induction "nat (S + 1 - k)" arbitrary: k row met)
  case 0
  then have "[k..S] = []" by simp
  with 0 show ?case by auto
next
  case (Suc m)
  then have k: "k \<le> S" and seeds: "[k..S] = k # [k + 1..S]" by (auto simp: upto_rec1)
  obtain j where j: "judge oor b (gridStep b k (cr_mu row)) = (j, None)"
    using Suc.prems(1) by (auto simp: seeds split: prod.splits option.splits)
  let ?row = "row\<lparr>cr_grid := cr_grid row @ [j]\<rparr>"
  have met: "cj_met j \<longleftrightarrow> meets oor b (gridStep b k (cr_mu row))" using judge_meets [OF j] Suc.prems(3) by simp
  have upto: "i' \<in> {1..k + 1 - 1} \<longleftrightarrow> i' \<in> {1..k - 1} \<or> i' = k \<and> 1 \<le> k" for i' by auto
  have go: "meets oor b (gridStep b i (cr_mu row)) \<longleftrightarrow> i \<le> n"
    if "grid_loop oor b ?row met' [k + 1..S] = ((r, n), None)" "met' < k + 1"
      "\<And>i. i \<in> {1..k - 1} \<Longrightarrow> meets oor b (gridStep b i (cr_mu row)) \<longleftrightarrow> i \<le> met'"
      "meets oor b (gridStep b k (cr_mu row)) \<longleftrightarrow> k \<le> met'" for met'
  proof -
    have "meets oor b (gridStep b i (cr_mu ?row)) \<longleftrightarrow> i \<le> n"
    proof (rule Suc.hyps(1) [of "k + 1" ?row met'])
      show "m = nat (S + 1 - (k + 1))" using Suc.hyps(2) by linarith
      show "meets oor b (gridStep b i' (cr_mu ?row)) \<longleftrightarrow> i' \<le> met'" if "i' \<in> {1..k + 1 - 1}" for i'
        using that \<open>\<And>i. i \<in> {1..k - 1} \<Longrightarrow> meets oor b (gridStep b i (cr_mu row)) \<longleftrightarrow> i \<le> met'\<close>
          \<open>meets oor b (gridStep b k (cr_mu row)) \<longleftrightarrow> k \<le> met'\<close> unfolding upto by auto
    qed (use that Suc.prems in simp_all)
    then show ?thesis by simp
  qed
  consider "cj_met j" "met = k - 1" | "cj_met j" "met \<noteq> k - 1" | "\<not> cj_met j" by blast
  then show ?case
  proof cases
    case 1
    then show ?thesis using Suc.prems met by (intro go [of k]) (auto simp: seeds j Let_def)
  next
    case 2
    then have "cr_status r \<noteq> []"
      using Suc.prems(1) grid_loop_rejected [of "?row\<lparr>cr_status := CapacityRejected, cr_reason := CapacityNonMonotone\<rparr>" oor b met "[k + 1..S]"]
      by (simp add: seeds j Let_def)
    then show ?thesis using Suc.prems by simp
  next
    case 3
    then show ?thesis using Suc.prems met by (intro go [of met]) (auto simp: seeds j Let_def)
  qed
qed

text \<open>Two float rates in order, so small that their sum does not overflow.\<close>

definition ordered_rates :: "f64 \<Rightarrow> f64 \<Rightarrow> bool" where
  "ordered_rates lo hi \<longleftrightarrow> (\<exists>a c. lo = Fin False a \<and> hi = Fin False c \<and> representable a \<and> representable c
     \<and> a < c \<and> c \<le> pow2 1000)"

lemma ordered_less: "ordered_rates lo hi \<Longrightarrow> f_less lo hi"
  by (auto simp: ordered_rates_def f_less_def)

lemma round_below:
  assumes "x \<le> pow2 n" "n < 1024" "- 1022 \<le> n"
  shows "round_mag x \<le> pow2 n" "round_mag x < pow2 1024"
proof -
  have "floor_log2 (pow2 n) = n" using pow2_double [of n] by (intro floor_log2_unique) simp_all
  then have "round_mag (pow2 n) = pow2 n"
    using assms(3) round_mag_exact [of "pow2 n" 1 n] by (simp add: ulp_exp_def)
  then show le: "round_mag x \<le> pow2 n" using round_mag_mono [OF assms(1)] by simp
  have "pow2 n < pow2 1024" using assms(2) by simp
  with le show "round_mag x < pow2 1024" by linarith
qed

text \<open>A midpoint that is neither end lies strictly between them.\<close>

lemma midpoint_ordered:
  assumes "ordered_rates lo hi" "\<not> f_eq (midpoint lo hi) lo" "\<not> f_eq (midpoint lo hi) hi"
  shows "ordered_rates lo (midpoint lo hi) \<and> ordered_rates (midpoint lo hi) hi"
proof -
  obtain a c where e: "lo = Fin False a" "hi = Fin False c" "representable a" "representable c" "a < c" "c \<le> pow2 1000"
    using assms(1) by (auto simp: ordered_rates_def)
  have pos: "0 \<le> a" "0 < a + c" using e by (auto simp: representable_def)
  have "a + c \<le> pow2 1001" using e(5,6) pow2_double [of 1000] by simp
  from round_below [OF this] have s: "round_mag (a + c) \<le> pow2 1001" "round_mag (a + c) < pow2 1024" by simp_all
  have "0 \<le> round_mag (a + c)" by simp
  with s(1) have "round_mag (a + c) / 2 \<le> pow2 1001" by linarith
  then have h: "round_mag (round_mag (a + c) / 2) < pow2 1024" by (rule round_below(2)) simp_all
  have "f_add lo hi = Fin False (round_mag (a + c))" using pos s(2) by (simp add: e round_f64_def)
  then have "midpoint lo hi = Fin False (round_mag (round_mag (a + c) / 2))"
    using h by (simp add: midpoint_def two_fin round_f64_def)
  with midpoint_fin [OF e(3,4)] obtain m where m: "midpoint lo hi = Fin False m" "representable m" "a \<le> m" "m \<le> c"
    using e(1,2,5) by auto
  moreover have "m \<noteq> a" "m \<noteq> c" using assms(2,3) m(1) by (auto simp: e f_eq_def)
  ultimately show ?thesis using e by (auto simp: ordered_rates_def)
qed

text \<open>The bisection keeps a rate that is met below one that is not, and ends when they are close.\<close>

definition close_rates :: "capacityBuilder \<Rightarrow> f64 \<Rightarrow> f64 \<Rightarrow> f64 \<Rightarrow> bool" where
  "close_rates b mu kappa hi \<longleftrightarrow>
     \<not> f_less (f_mul (st_capacityBisectionWidth (cb_settings b)) mu) (f_sub hi kappa)
     \<or> f_eq (midpoint kappa hi) kappa \<or> f_eq (midpoint kappa hi) hi"

definition bracket :: "(f64 \<Rightarrow> int) \<Rightarrow> capacityBuilder \<Rightarrow> f64 \<Rightarrow> f64 \<Rightarrow> bool" where
  "bracket oor b kappa hi \<longleftrightarrow> meets oor b kappa \<and> \<not> meets oor b hi \<and> ordered_rates kappa hi"

lemma bisect_result:
  assumes "bisect oor b row kappa hi = Some res"
  shows "fst (snd (snd res)) = h \<longrightarrow> snd (snd (snd res)) = None \<longrightarrow> 0 \<le> st_capacityWindows (cb_settings b)
    \<longrightarrow> bracket oor b kappa hi
    \<longrightarrow> bracket oor b (fst (snd res)) h \<and> close_rates b (cr_mu row) (fst (snd res)) h"
proof (rule bisect.raw_induct [where P = "\<lambda>oor b row kappa hi res.
    fst (snd (snd res)) = h \<longrightarrow> snd (snd (snd res)) = None \<longrightarrow> 0 \<le> st_capacityWindows (cb_settings b)
    \<longrightarrow> bracket oor b kappa hi
    \<longrightarrow> bracket oor b (fst (snd res)) h \<and> close_rates b (cr_mu row) (fst (snd res)) h", OF _ assms])
  fix self oor b row kappa hi and res :: "CapacityRow \<times> f64 \<times> f64 \<times> string option"
  assume IH: "\<And>oor b row kappa hi res. self oor b row kappa hi = Some res \<Longrightarrow>
      fst (snd (snd res)) = h \<longrightarrow> snd (snd (snd res)) = None \<longrightarrow> 0 \<le> st_capacityWindows (cb_settings b)
      \<longrightarrow> bracket oor b kappa hi
      \<longrightarrow> bracket oor b (fst (snd res)) h \<and> close_rates b (cr_mu row) (fst (snd res)) h"
    and run: "(if \<not> f_less (f_mul (st_capacityBisectionWidth (cb_settings b)) (cr_mu row)) (f_sub hi kappa)
      then Some (row, kappa, hi, None)
      else
        (let mid = f_div (f_add kappa hi) f_two in
         if f_eq mid kappa \<or> f_eq mid hi then Some (row, kappa, hi, None)
         else
           (case judge oor b mid of
              (j, Some e) \<Rightarrow> Some (row, kappa, hi, Some e)
            | (j, None) \<Rightarrow>
                (let row1 = row\<lparr>cr_bisection := cr_bisection row @ [j]\<rparr> in
                 if cj_met j then self oor b row1 mid hi else self oor b row1 kappa mid)))) = Some res"
  have more: "bracket oor b (fst (snd res)) h \<and> close_rates b (cr_mu row) (fst (snd res)) h"
    if "self oor b (row\<lparr>cr_bisection := x\<rparr>) lo up = Some res" "fst (snd (snd res)) = h" "snd (snd (snd res)) = None"
      "0 \<le> st_capacityWindows (cb_settings b)" "bracket oor b lo up" for x lo up
    using IH [OF that(1)] that(2-) by simp
  show "fst (snd (snd res)) = h \<longrightarrow> snd (snd (snd res)) = None \<longrightarrow> 0 \<le> st_capacityWindows (cb_settings b)
      \<longrightarrow> bracket oor b kappa hi
      \<longrightarrow> bracket oor b (fst (snd res)) h \<and> close_rates b (cr_mu row) (fst (snd res)) h"
    using run midpoint_ordered [of kappa hi]
    by (auto simp: close_rates_def midpoint_def Let_def judge_meets bracket_def
      split: if_splits prod.splits option.splits dest!: more)
qed

section \<open>What building a row promises\<close>

definition row_builder :: "SchedulerSettings \<Rightarrow> Definition \<Rightarrow> (f64 \<Rightarrow> int \<Rightarrow> int \<Rightarrow> string + (f64 \<times> bool)) \<Rightarrow> capacityBuilder" where
  "row_builder st w replay = \<lparr>cb_settings = st, cb_percentile = sl_percentile (df_slo w), cb_replay = replay\<rparr>"

lemma build_row_returns:
  assumes "rate (cr_mu row)"
  shows "\<exists>r. build_row oor b row = Some r"
proof -
  let ?steps = "st_capacityGridSteps (cb_settings b)"
  obtain r met e where grid: "grid_loop oor b row 0 [1..?steps] = ((r, met), e)" by (metis surj_pair)
  have mu: "cr_mu r = cr_mu row" and met: "0 \<le> met"
    using grid_loop_mu [of oor b row 0 "[1..?steps]"] grid_loop_met [of 0 "[1..?steps]" oor b row] by (simp_all add: grid)
  have "\<exists>x. bisect oor b r (gridStep b met (cr_mu r)) (gridStep b (met + 1) (cr_mu r)) = Some x" if "0 < met" "met < ?steps"
    using that met assms mu by (intro bisect_ends gridStep_rate) simp_all
  then show ?thesis
    by (cases e) (auto simp: build_row_def Let_def grid finish_row_def split: prod.splits)
qed

text \<open>C17: Building a capacity row always returns: whatever the profile, the workload, the settings and the
  replay of a window, the bisection between two rates ends in finitely many judgments.\<close>

theorem BuildCapacityRow_returns: "\<exists>r. BuildCapacityRow oor keyOf st occupancy x w replay = Some r"
proof -
  have "\<exists>r. build_row oor b (start_row keyOf st occupancy x w) = Some r" for b
    by (rule build_row_returns) (simp add: start_row_def Let_def capacityThroughput_rate)
  then show ?thesis by (auto simp: BuildCapacityRow_def Let_def)
qed

text \<open>
  What makes \<open>kappa\<close> the capacity of a row of throughput \<open>mu\<close>: the grid rates that pass enough windows are the
  first ones up to a step \<open>met\<close>; between that step and the next, \<open>kappa\<close> passes and a greater rate close to it does not.
\<close>

definition bracketed :: "(f64 \<Rightarrow> int) \<Rightarrow> capacityBuilder \<Rightarrow> f64 \<Rightarrow> f64 \<Rightarrow> bool" where
  "bracketed oor b mu kappa \<longleftrightarrow>
     (\<exists>met. (\<forall>k \<in> {1..st_capacityGridSteps (cb_settings b)}. meets oor b (gridStep b k mu) \<longleftrightarrow> k \<le> met)
       \<and> (if 0 < met \<and> met < st_capacityGridSteps (cb_settings b)
          then meets oor b kappa \<and> (\<exists>hi. f_less kappa hi \<and> \<not> meets oor b hi \<and> close_rates b mu kappa hi)
          else kappa = gridStep b met mu))"

text \<open>The grid rates of a moderate throughput grow with the step and never exceed it.\<close>

lemma int_rate:
  assumes "1 \<le> k" "k \<le> max_int64"
  shows "f_of_int k = Fin False (round_mag (of_int k))" "1 \<le> round_mag (of_int k)"
proof -
  have "(of_int k :: rat) \<le> of_int (2 ^ 63)" using assms(2) unfolding of_int_le_iff by (simp add: max_int64_def)
  then have "(of_int k :: rat) \<le> pow2 63" by (simp add: pow2_def)
  then have "round_mag (of_int k) < pow2 1024" by (rule round_below(2)) simp_all
  then show "f_of_int k = Fin False (round_mag (of_int k))" using assms(1) by (simp add: f_of_int_def round_f64_def)
  show "1 \<le> round_mag (of_int k)" using round_mag_mono [of 1 "of_int k"] round_mag_of_int [of 1] assms(1) by simp
qed

lemma gridStep_fin:
  assumes "1 \<le> k" "k \<le> st_capacityGridSteps (cb_settings b)" "st_capacityGridSteps (cb_settings b) \<le> max_int64"
    and "0 \<le> m" "m \<le> pow2 1000"
  defines "g \<equiv> \<lambda>k. round_mag (round_mag (round_mag (of_int k) / round_mag (of_int (st_capacityGridSteps (cb_settings b)))) * m)"
  shows "gridStep b k (Fin False m) = Fin False (g k)" "g k \<le> pow2 1000" "k' \<le> k \<Longrightarrow> g k' \<le> g k"
proof -
  let ?r = "\<lambda>k. round_mag (of_int k)" and ?s = "st_capacityGridSteps (cb_settings b)"
  note rk = int_rate [OF assms(1), OF order_trans [OF assms(2,3)]] and rs = int_rate [of ?s, OF _ assms(3)]
  have s: "1 \<le> ?s" using assms(1,2) by simp
  have le: "?r k \<le> ?r ?s" using assms(2) by (intro round_mag_mono) simp
  have "?r k / ?r ?s \<le> 1" using le rs(2) [OF s] by (simp add: divide_le_eq)
  then have q: "round_mag (?r k / ?r ?s) \<le> 1" using round_mag_mono [of _ 1] round_mag_of_int [of 1] by force
  have "round_mag (?r k / ?r ?s) * m \<le> 1 * m" by (rule mult_right_mono [OF q assms(4)])
  then have qm: "round_mag (?r k / ?r ?s) * m \<le> pow2 1000" using assms(5) by simp
  from round_below [OF this] show "g k \<le> pow2 1000" by (simp add: g_def)
  have "round_mag (?r k / ?r ?s) < pow2 1024" using q small_lt_pow2_1024 [of 1] by simp
  then show "gridStep b k (Fin False m) = Fin False (g k)"
    using rk rs [OF s] round_below(2) [OF qm] by (simp add: gridStep_def g_def round_f64_def)
  show "g k' \<le> g k" if "k' \<le> k"
    unfolding g_def using that rs(2) [OF s] assms(4)
    by (intro round_mag_mono mult_right_mono divide_right_mono) simp_all
qed

lemma gridStep_ordered:
  assumes "rate mu" "f_leq mu (Fin False (pow2 1000))" "st_capacityGridSteps (cb_settings b) \<le> max_int64"
    and "1 \<le> k" "k < st_capacityGridSteps (cb_settings b)" "gridStep b k mu \<noteq> gridStep b (k + 1) mu"
  shows "ordered_rates (gridStep b k mu) (gridStep b (k + 1) mu)"
proof -
  obtain m where m: "mu = Fin False m" "0 \<le> m" "m \<le> pow2 1000"
    using assms(1,2) by (cases mu) (auto simp: f_order_defs representable_def)
  note g = gridStep_fin [of _ b m, OF _ _ assms(3) m(2,3)]
  have "1 \<le> k + 1" "k + 1 \<le> st_capacityGridSteps (cb_settings b)" using assms(4,5) by simp_all
  then show ?thesis
    using g(1) [of k] g(1) [of "k + 1"] g(2) [of "k + 1"] g(3) [of "k + 1" k] assms(4,5,6) m(1)
    by (auto simp: ordered_rates_def representable_round)
qed

lemma build_row_capacity:
  assumes "build_row oor b row0 = Some (row, None)" "cr_status row = CapacityBuilt" "cr_status row0 = []"
    and windows: "0 \<le> st_capacityWindows (cb_settings b)" and grid: "st_capacityGridSteps (cb_settings b) \<le> max_int64"
    and mu0: "rate (cr_mu row0)" "f_leq (cr_mu row0) (Fin False (pow2 1000))"
  shows "\<exists>kappa. cr_kappa row = Some kappa \<and> bracketed oor b (cr_mu row0) kappa"
proof -
  let ?steps = "st_capacityGridSteps (cb_settings b)" and ?g = "\<lambda>k. gridStep b k (cr_mu row0)"
  obtain r met where run: "grid_loop oor b row0 0 [1..?steps] = ((r, met), None)"
    using assms(1) by (auto simp: build_row_def Let_def split: prod.splits option.splits)
  have mu: "cr_mu r = cr_mu row0" using grid_loop_mu [of oor b row0 0 "[1..?steps]"] by (simp add: run)
  have "cr_status r \<in> {[], CapacityRejected}"
    using grid_loop_status [of row0 oor b 0 "[1..?steps]"] assms(3) by (simp add: run)
  then have status: "cr_status r = []" using assms(1,2) by (auto simp: build_row_def Let_def run)
  have steps: "meets oor b (?g k) \<longleftrightarrow> k \<le> met" if "k \<in> {1..?steps}" for k
    using grid_loop_result [OF run _ windows _ status that] by simp
  show ?thesis
  proof (cases "0 < met \<and> met < ?steps")
    case True
    then obtain r2 k h where bis: "bisect oor b r (?g met) (?g (met + 1)) = Some (r2, k, h, None)"
      and row: "row = r2\<lparr>cr_status := CapacityBuilt, cr_kappa := Some k\<rparr>"
      using assms(1) status mu
      by (auto simp: build_row_def Let_def run finish_row_def split: prod.splits if_splits)
    have ends: "meets oor b (?g met)" "\<not> meets oor b (?g (met + 1))" using steps [of met] steps [of "met + 1"] True by simp_all
    then have "?g met \<noteq> ?g (met + 1)" by auto
    then have "ordered_rates (?g met) (?g (met + 1))" using gridStep_ordered [OF mu0 grid, of met] True by simp
    then have "bracket oor b (?g met) (?g (met + 1))" using ends by (simp add: bracket_def)
    with bisect_result [OF bis, of h] windows mu have "bracket oor b k h" "close_rates b (cr_mu row0) k h" by simp_all
    then show ?thesis using True row steps by (auto simp: bracket_def bracketed_def ordered_less intro!: exI [of _ met] exI [of _ h])
  next
    case False
    then have "row = r\<lparr>cr_status := CapacityBuilt, cr_kappa := Some (?g met)\<rparr>"
      using assms(1) status mu by (auto simp: build_row_def Let_def run split: if_splits)
    then show ?thesis using False steps by (auto simp: bracketed_def intro!: exI [of _ met])
  qed
qed

text \<open>C9: The capacity of a built row is bracketed: unless the fastest service alone exceeds the SLO (capacity 0),
  the grid rates that pass enough of all the windows are the first ones up to some step; between that step
  and the next, the capacity passes enough windows and a greater rate does not, which lies within the bisection
  width above it (or no float lies between them). Before the first and at the last step it is the grid rate
  itself. The throughput of the profile is at most 2^1000 requests per second, so that no midpoint overflows.\<close>

theorem BuildCapacityRow_capacity:
  assumes "BuildCapacityRow oor keyOf st occupancy x w replay = Some (row, None)" "cr_status row = CapacityBuilt"
    and "0 \<le> st_capacityWindows st" "st_capacityGridSteps st \<le> max_int64"
    and "f_leq (capacityThroughput (the (si_profile (op_instance x))) (si_maxBatch (op_instance x))) (Fin False (pow2 1000))"
  shows "cr_reason row = CapacityServiceExceedsSLO \<and> cr_kappa row = Some f_zero
    \<or> (\<exists>kappa. cr_kappa row = Some kappa \<and> bracketed oor (row_builder st w replay)
          (capacityThroughput (the (si_profile (op_instance x))) (si_maxBatch (op_instance x))) kappa)"
proof (cases "cr_reason row = CapacityServiceExceedsSLO \<and> cr_kappa row = Some f_zero")
  case False
  then have "build_row oor (row_builder st w replay) (start_row keyOf st occupancy x w) = Some (row, None)"
    using assms(1) by (auto simp: BuildCapacityRow_def Let_def row_builder_def split: if_splits)
  from build_row_capacity [OF this assms(2)] assms(3-5) capacityThroughput_rate show ?thesis
    by (simp add: start_row_def row_builder_def Let_def)
qed simp

text \<open>One option of a thousand million requests a second, and a replay in which the rates up to 600 million pass.\<close>

definition sample_option :: SchedulerOption where
  "sample_option = \<lparr>op_instance = (sample_instance ''i'' ''p'')\<lparr>si_profile := Some ((sample_profile ''p'')\<lparr>pl_batches :=
       [\<lparr>sb_batch = 1, sb_serviceSamples = [\<lparr>ss_serviceDurationNanos = 1, ss_precedingIdleNanos = None, ss_trialID = []\<rparr>],
         sb_serviceDistribution = None, sb_energyPerInputJoules = f_of_int 1, sb_memoryBytes = 0\<rparr>]\<rparr>)\<rparr>,
     op_compatibleUIDs = [''w'']\<rparr>"

definition sample_definition :: Definition where
  "sample_definition = \<lparr>df_name = ''w'', df_uid = ''w'', df_generation = 1,
     df_model = \<lparr>mo_name = [], mo_uid = [], mo_generation = 0, mo_paths = []\<rparr>,
     df_preprocessor = \<lparr>pp_name = [], pp_uid = [], pp_generation = 0, pp_input = [], pp_output = [], pp_maxNewTokens = 0\<rparr>,
     df_dataset = None, df_slo = \<lparr>sl_percentile = f_of_int 100, sl_targetLatency = 200000000\<rparr>, df_requestLifetime = None\<rparr>"

definition sample_windows :: "f64 \<Rightarrow> int \<Rightarrow> int \<Rightarrow> string + (f64 \<times> bool)" where
  "sample_windows lam n seed = Inr (f_zero, f_leq lam (f_of_int 600000000))"

definition bisecting_settings :: SchedulerSettings where
  "bisecting_settings = sample_settings\<lparr>st_capacityGridSteps := 2, st_capacityBisectionWidth := Fin False (1/4), st_capacityWindow := 1000000000\<rparr>"

lemma sample_row:
  "map_option (\<lambda>(row, e). (cr_status row, cr_kappa row, length (cr_grid row), length (cr_bisection row), e))
     (BuildCapacityRow (\<lambda>_. 0) (\<lambda>_. []) bisecting_settings [] sample_option sample_definition sample_windows)
   = Some (CapacityBuilt, Some (f_of_int 500000000), 2, 1, None)"
  by code_simp

theorem BuildCapacityRow_capacity_witness:
  "bracketed (\<lambda>_. 0) (row_builder bisecting_settings sample_definition sample_windows) (f_of_int 1000000000) (f_of_int 500000000)"
proof -
  from sample_row obtain row where run: "BuildCapacityRow (\<lambda>_. 0) (\<lambda>_. []) bisecting_settings [] sample_option sample_definition
      sample_windows = Some (row, None)" and row: "cr_status row = CapacityBuilt" "cr_kappa row = Some (f_of_int 500000000)"
    by auto
  have mu: "capacityThroughput (the (si_profile (op_instance sample_option))) (si_maxBatch (op_instance sample_option)) = f_of_int 1000000000"
    by code_simp
  have st: "0 \<le> st_capacityWindows bisecting_settings" "st_capacityGridSteps bisecting_settings \<le> max_int64"
    by (simp_all add: bisecting_settings_def sample_settings_def max_int64_def)
  have "(1000000000 :: rat) \<le> pow2 30" by (simp add: pow2_def)
  also have "\<dots> < pow2 1000" by simp
  finally have "f_leq (f_of_int 1000000000) (Fin False (pow2 1000))" by (auto simp: f_of_int_small f_order_defs)
  moreover have "f_of_int 500000000 \<noteq> f_zero" by (simp add: f_of_int_small)
  ultimately show ?thesis using BuildCapacityRow_capacity [OF run row(1) st] row(2) mu by (simp only: option.inject) auto
qed

end
