(* ===== verification/DecideProps.thy ===== *)
theory DecideProps
  imports CapacityDecide SearchProps
begin

text \<open>
  Properties of a decision: it is always reached, a decision that acts on the pool or keeps it is within the
  SLO of every workload it judged, and a change of power modes pays for itself.
\<close>

section \<open>Evaluated plan sets\<close>

text \<open>A judgment within the SLO, after the transition and during it.\<close>

definition within_slo :: "capacityJudgment \<Rightarrow> bool" where
  "within_slo j \<longleftrightarrow> (\<exists>x y. jd_final j = Some x \<and> jd_transition j = Some y \<and> f_leq x f_zero \<and> f_leq y f_zero)"

definition served_by :: "route \<Rightarrow> bool" where
  "served_by r \<longleftrightarrow> r \<noteq> [] \<and> (\<forall>x \<in> set r. 0 < snd x)"

lemma capacityJudge_satisfied: "jd_satisfied (capacityJudge w knew kret present r) \<Longrightarrow> within_slo (capacityJudge w knew kret present r) \<and> present"
  by (auto simp: capacityJudge_def within_slo_def Let_def split: option.splits if_splits)

text \<open>A feasible result has judged every workload, each within its SLO and served by positive weights.\<close>

definition sound_upto :: "nat \<Rightarrow> capacityResult \<Rightarrow> bool" where
  "sound_upto k res \<longleftrightarrow> (ev_feasible res \<longrightarrow> length (ev_judgments res) = k \<and> length (ev_weights res) = k
     \<and> (\<forall>i < k. within_slo (ev_judgments res ! i) \<and> served_by (ev_weights res ! i)))"

text \<open>A result that keeps has chosen keep on every node.\<close>

definition true_keep :: "capacityPlanner \<Rightarrow> capacityResult \<Rightarrow> bool" where
  "true_keep p res \<longleftrightarrow> (ev_keep res \<longrightarrow> (\<forall>n < length (ev_choice res). pa_keep (plan_at p (ev_choice res) n)))"

definition sound :: "capacityPlanner \<Rightarrow> capacityResult \<Rightarrow> bool" where
  "sound p res \<longleftrightarrow> sound_upto (length (cp_ws p)) res \<and> true_keep p res"

lemmas sound_defs = sound_def sound_upto_def true_keep_def

lemma fold_keeps:
  assumes "\<And>a x. f (g a x) = f a"
  shows "f (foldl g a xs) = f a"
  using assms by (induction xs arbitrary: a) simp_all

lemma put_positive: "\<forall>x \<in> set m. 0 < snd x \<Longrightarrow> 0 < w \<Longrightarrow> \<forall>x \<in> set (put k w m). 0 < snd x" for w :: int
  by (auto simp: put_def)

lemma weightRoutes_fold:
  assumes "\<forall>x \<in> set (snd acc). 0 < snd x"
  shows "(\<forall>x \<in> set (snd (foldl (weight_step p) acc iws)). 0 < snd x)
    \<and> ev_feasible (fst (foldl (weight_step p) acc iws)) = ev_feasible (fst acc)
    \<and> ev_judgments (fst (foldl (weight_step p) acc iws)) = ev_judgments (fst acc)
    \<and> ev_weights (fst (foldl (weight_step p) acc iws)) = ev_weights (fst acc)"
  using assms
proof (induction iws arbitrary: acc)
  case (Cons iw iws)
  have "\<forall>x \<in> set (snd (weight_step p acc iw)). 0 < snd x"
    using Cons.prems put_positive by (auto simp: weight_step_def split: prod.splits)
  moreover have "ev_feasible (fst (weight_step p acc iw)) = ev_feasible (fst acc)"
      "ev_judgments (fst (weight_step p acc iw)) = ev_judgments (fst acc)"
      "ev_weights (fst (weight_step p acc iw)) = ev_weights (fst acc)"
    by (auto simp: weight_step_def split: prod.splits)
  ultimately show ?case using Cons.IH [of "weight_step p acc iw"] by simp
qed simp

lemma weightRoutes_result:
  assumes "weightRoutes p res items weights = (res1, routes)"
  shows "(\<forall>x \<in> set routes. 0 < snd x) \<and> ev_feasible res1 = ev_feasible res
    \<and> ev_judgments res1 = ev_judgments res \<and> ev_weights res1 = ev_weights res"
  using weightRoutes_fold [of "(res, [])" p "zip items weights"] assms by (simp add: weightRoutes_def)

lemma judge_workload_sound:
  assumes "sound_upto k res"
  shows "sound_upto (Suc k) (judge_workload p choice r bridge t res w)"
proof -
  let ?ws = "cp_ws p ! w" and ?items = "set_items p choice w" and ?ret = "set_retained p choice w"
  obtain demand slow recovery protected where d: "admissionDemand p ?ws choice (kappa_sum ?ret) = (demand, slow, recovery, protected)"
    by (metis surj_pair)
  obtain weights ys ok where w: "planner_weights p protected ?items = (weights, ys, ok)" by (metis surj_pair)
  obtain res1 routes where rt: "weightRoutes p res ?items weights = (res1, routes)" by (metis surj_pair)
  obtain knew margin where m: "capacityPositiveSupply ?items weights protected (cw_rate demand) = (knew, margin)" by (metis surj_pair)
  let ?j = "capacityJudge demand knew (kappa_sum ?ret) (routes \<noteq> []) r"
  let ?j1 = "if ok \<and> margin then ?j else ?j\<lparr>jd_satisfied := False\<rparr>"
  let ?res = "judge_workload p choice r bridge t res w"
  have res: "ev_feasible ?res = (ev_feasible res1 \<and> jd_satisfied ?j1)"
    "ev_judgments ?res = ev_judgments res1 @ [?j1]" "ev_weights ?res = ev_weights res1 @ [routes]"
    by (simp_all add: judge_workload_def Let_def d w rt m split: prod.splits)
  from weightRoutes_result [OF rt] have same: "\<forall>x \<in> set routes. 0 < snd x" "ev_feasible res1 = ev_feasible res"
    "ev_judgments res1 = ev_judgments res" "ev_weights res1 = ev_weights res" by auto
  have "jd_satisfied ?j1 \<Longrightarrow> within_slo ?j1 \<and> served_by routes"
    using capacityJudge_satisfied [of demand knew _ "routes \<noteq> []" r] same(1) by (auto simp: served_by_def split: if_splits)
  then show ?thesis using assms unfolding sound_upto_def res same by (auto simp: nth_append less_Suc_eq)
qed

lemma weightRoutes_keep: "ev_keep (fst (weightRoutes p res items weights)) = ev_keep res"
  using fold_keeps [of "\<lambda>acc. ev_keep (fst acc)" "weight_step p" "(res, [])" "zip items weights"]
  by (auto simp: weightRoutes_def weight_step_def split: prod.splits)

lemma judge_workload_keep: "ev_keep (judge_workload p choice r bridge t res w) = ev_keep res"
  using weightRoutes_keep [of p res]
  by (auto simp: judge_workload_def Let_def split: prod.splits) (metis fst_conv)+

lemma evaluateAtWindow_keep:
  "ev_keep (evaluateAtWindow p choice r bridge t) = list_all (\<lambda>n. pa_keep (plan_at p choice n)) (nodes_of choice)"
  by (simp add: evaluateAtWindow_def Let_def fold_keeps judge_workload_keep start_result_def split: prod.splits)

lemma evaluateAtWindow_sound: "sound p (evaluateAtWindow p choice r bridge t)"
proof -
  have "sound_upto (length ws) (foldl (judge_workload p choice r bridge t) (start_result p choice r bridge t) ws)" for ws
  proof (induction ws rule: rev_induct)
    case Nil
    show ?case by (simp add: sound_upto_def start_result_def new_result_def)
  next
    case (snoc w ws)
    then show ?case by (simp add: judge_workload_sound)
  qed
  from this [of "[0..<length (cp_ws p)]"] have "sound_upto (length (cp_ws p)) (evaluateAtWindow p choice r bridge t)"
    by (simp add: evaluateAtWindow_def Let_def sound_upto_def split: prod.splits)
  then show ?thesis
    by (simp add: sound_def true_keep_def evaluateAtWindow_keep list_all_iff nodes_of_def)
qed

lemma evaluate_sound: "sound p (evaluate p choice r)"
proof -
  obtain bridge reason where b: "bridgeSchedule p choice = (bridge, reason)" by fastforce
  let ?r = "case bridge of None \<Rightarrow> r | Some o1 \<Rightarrow> bs_route o1"
  show ?thesis
  proof (cases "reason = []")
    case True
    then have "evaluate p choice r = evaluateAtRoute p choice ?r bridge" by (simp add: evaluate_def b Let_def)
    then show ?thesis using evaluateAtWindow_sound [of p choice ?r bridge "cp_period p"]
      by (simp add: evaluateAtRoute_def Let_def sound_defs)
  next
    case False
    then show ?thesis by (simp add: evaluate_def b Let_def sound_defs new_result_def)
  qed
qed

lemma evaluated_sound: "sound p (evaluated p c)"
  by (simp add: evaluated_def evaluate_sound)

lemma sound_cong: "cp_ws q = cp_ws p \<Longrightarrow> cp_plans q = cp_plans p \<Longrightarrow> sound q r = sound p r"
  by (simp add: sound_defs plan_at_def)

section \<open>From the search to the decision\<close>

lemma payback_step_sound: "sound p best \<Longrightarrow> sound p (payback_step p best n)"
  using evaluate_sound [of p "(ev_choice best)[n := 0]" "routeOf p ((ev_choice best)[n := 0])"]
  by (simp add: payback_step_def Let_def sound_defs)

lemma payback_sound: "sound p best \<Longrightarrow> sound p (payback p best)"
proof -
  have "sound p best \<Longrightarrow> sound p (foldl (payback_step p) best ns)" for ns
    by (induction ns arbitrary: best) (simp_all add: payback_step_sound)
  then show "sound p best \<Longrightarrow> sound p (payback p best)" by (simp add: payback_def)
qed

lemma keep_window_sound: "sound p (keep_window p t)"
  by (simp add: keep_window_def evaluateAtWindow_sound)

lemma minimumGain_sound: "sound p best \<Longrightarrow> sound p (minimumGain p best)"
  using keep_window_sound [of p "ev_period best"] by (simp add: minimumGain_def Let_def sound_defs)

lemma search_sound:
  assumes "search p en = Some (Some (q, best))"
  shows "sound q best"
proof -
  obtain x where q: "q = (seed_planner p)\<lparr>cp_searched := x\<rparr>"
    using assms by (auto simp: search_def search_end_def Let_def)
  from search_result [of p en] assms
  have "best = keep_result p \<or> best = evaluated (seed_planner p) (ev_choice best)" by auto
  moreover have "cp_ws q = cp_ws p" "cp_ws (seed_planner p) = cp_ws p" by (simp_all add: q seed_planner_def Let_def)
  moreover have "cp_plans q = cp_plans p" "cp_plans (seed_planner p) = cp_plans p" by (simp_all add: q seed_planner_def Let_def)
  ultimately show ?thesis using evaluated_sound sound_cong by metis
qed

text \<open>The first plan of every node is to keep it.\<close>

definition keeps_first :: "capacityPlanner \<Rightarrow> bool" where
  "keeps_first p \<longleftrightarrow> (\<forall>plans \<in> set (cp_plans p). plans \<noteq> [] \<and> pa_keep (hd plans))"

lemma keep_plan_keeps: "pa_keep (keep_plan p node common current)"
proof -
  have "pa_keep (annotate p chosen plan) = pa_keep plan" for chosen plan
    using fold_keeps [of pa_keep "annotate_step p chosen"]
    by (simp add: annotate_def Let_def annotate_step_def split: option.splits)
  then show ?thesis by (simp add: keep_plan_def sum_plan_def Let_def split: prod.splits)
qed

lemma planner_build_keeps: "keeps_first (planner_build p)" "cp_keep (planner_build p) = cp_keep p"
proof -
  have "built_plans x t n \<noteq> [] \<and> pa_keep (hd (built_plans x t n))" for x t n
    by (auto simp: built_plans_def nodePlans_def Let_def keep_plan_keeps split: list.splits)
  then show "keeps_first (planner_build p)" by (auto simp: keeps_first_def planner_build_def Let_def)
qed (simp add: planner_build_def Let_def)

lemma newCapacityPlanner_keep: "cp_keep (newCapacityPlanner oor keyOf digest st s keep rows states se) = keep"
proof -
  have "cp_keep (foldl resolve_instance p is) = cp_keep p" "cp_keep (foldl count_pending p is) = cp_keep p" for p "is"
    by (rule fold_keeps, simp add: resolve_instance_def count_pending_def Let_def split: option.splits prod.splits)+
  then show ?thesis by (simp add: newCapacityPlanner_def resolveCapacity_def Let_def)
qed

text \<open>
  What a decision after the search rests on: a sound result of a planner whose first plans keep, for the
  candidate that keep is in the decision.
\<close>

definition decided :: "capacityPlanner \<Rightarrow> SchedulerDecision \<Rightarrow> capacityResult \<Rightarrow> bool" where
  "decided q d best \<longleftrightarrow> sound q best \<and> keeps_first q \<and> cp_keep q = dc_candidate (de_keep d)"

text \<open>A decision either ends before the plan search, with no capacity record but the evidence, or decides on what the search found.\<close>

lemma plan_decision_cases:
  assumes "plan_decision e d p = Some (Some d')" "de_capacity d = None" "de_status d = schedulerStatusPending"
    and keep: "cp_keep p = dc_candidate (de_keep d)"
  shows "de_capacity d' = None \<and> de_status d' \<noteq> schedulerStatusFeasible
    \<or> (\<exists>q best. decided q d best \<and> d' = markFixedEstimates (decide q d (minimumGain q best)))"
proof -
  have "\<exists>q best. decided q d best \<and> d' = markFixedEstimates (decide q d (minimumGain q best))"
    if run: "search (planner_build (p\<lparr>cp_partial := b\<rparr>)) en = Some (Some (q, best))"
      and d: "d' = markFixedEstimates (decide q d (minimumGain q (payback q best)))" for b en q best
  proof -
    have "cp_plans q = cp_plans (planner_build (p\<lparr>cp_partial := b\<rparr>))" "cp_keep q = cp_keep p"
      using run by (auto simp: search_def search_end_def Let_def seed_planner_def planner_build_keeps)
    then have "decided q d (payback q best)"
      using planner_build_keeps(1) [of "p\<lparr>cp_partial := b\<rparr>"] payback_sound [OF search_sound [OF run]] keep
      by (simp add: decided_def keeps_first_def)
    then show ?thesis using d by blast
  qed
  moreover have "de_capacity (empty_decision d) = None" "de_status (empty_decision d) = schedulerStatusKeep"
    using assms(2) by (simp_all add: empty_decision_def markFixedEstimates_def Let_def)
  ultimately show ?thesis using assms
    by (auto simp: plan_decision_def conclude_def Let_def split: if_splits)
qed

lemma first_decision_capacity [simp]: "de_capacity (first_decision st s rows) = None"
  by (simp add: first_decision_def fixSchedulerWorkloads_def Let_def split: prod.splits)

lemma first_decision_status: "de_status (first_decision st s rows) = schedulerStatusPending"
  by (simp add: first_decision_def fixSchedulerWorkloads_def Let_def split: prod.splits)

lemma decide_capacity: "\<exists>c. de_capacity (markFixedEstimates (decide p d best)) = Some c
    \<and> sy_workloads c = map (decision_workload p best) [0..<length (cp_ws p)] \<and> sy_gainUncertainty c = ev_gainUncertainty best"
  by (simp add: decide_def markFixedEstimates_def decision_capacity_def Let_def)

lemma EvaluateScheduler_cases:
  assumes run: "EvaluateScheduler e st s0 rows = Some (Some d)"
  obtains s d' where "de_capacity d' = None" "de_status d' \<noteq> schedulerStatusFeasible" "d = with_evidence st s d'"
  | q d0 best where "decided q d0 best" "d = markFixedEstimates (decide q d0 (minimumGain q best))"
proof -
  define s where "s = canonical_snapshot st s0"
  define s1 where "s1 = observed_snapshot e st s rows"
  define keep where "keep = authorized_keep st s1 (keep_candidate s)"
  define d1 where "d1 = (first_decision st s rows)\<lparr>de_keep := unscored keep\<rparr>"
  define planner where "planner = decision_planner e st s1 keep rows (de_search (first_decision st s rows))"
  define b where "b = schedulerBootstrap (planner (map restore_state (de_workloads d1)))"
  have shape: "EvaluateScheduler e st s0 rows = (case ValidateSettings st of
      Some err \<Rightarrow> Some (Some (with_evidence st s
        ((first_decision st s rows)\<lparr>de_reasons := [eo_error e err], de_keep := unscored (keep_candidate s)\<rparr>)))
    | None \<Rightarrow> if snapshot_reasons st s1 \<noteq> []
        then Some (Some (with_evidence st s1 (d1\<lparr>de_keep := unscored (keep\<lparr>sc_reasons := snapshot_reasons st s1\<rparr>),
          de_reasons := snapshot_reasons st s1\<rparr>)))
        else if bootstrap_waits b
        then Some (Some (with_evidence st s1 (d1\<lparr>de_bootstrap := b\<rparr>\<lparr>de_status := CapacityPending,
          de_reasons := [''BootstrapCapacityPending''], de_keep := unscored (keep\<lparr>sc_actions := []\<rparr>)\<rparr>)))
        else map_option (map_option (with_evidence st s1))
          (plan_decision e (d1\<lparr>de_bootstrap := b\<rparr>) (planner (de_workloads (d1\<lparr>de_bootstrap := b\<rparr>)))))"
    by (simp only: EvaluateScheduler_def Let_def s_def s1_def keep_def d1_def planner_def b_def)
  have none: "de_capacity d1 = None" "de_status d1 = schedulerStatusPending"
    by (simp_all add: d1_def first_decision_status)
  consider err where "ValidateSettings st = Some err"
    | "ValidateSettings st = None" "snapshot_reasons st s1 \<noteq> [] \<or> bootstrap_waits b"
    | "ValidateSettings st = None" "snapshot_reasons st s1 = []" "\<not> bootstrap_waits b" by fastforce
  then show thesis
  proof cases
    case 1
    then have "d = with_evidence st s
        ((first_decision st s rows)\<lparr>de_reasons := [eo_error e err], de_keep := unscored (keep_candidate s)\<rparr>)"
      using run shape by simp
    then show thesis by (intro that(1)) (simp_all add: first_decision_status)
  next
    case 2
    then have "\<exists>d'. d = with_evidence st s1 d' \<and> de_capacity d' = None \<and> de_status d' \<noteq> schedulerStatusFeasible"
      using run shape none by (auto split: if_splits)
    then show thesis using that(1) by blast
  next
    case 3
    then obtain d2 where d2: "plan_decision e (d1\<lparr>de_bootstrap := b\<rparr>) (planner (de_workloads (d1\<lparr>de_bootstrap := b\<rparr>))) = Some (Some d2)"
      and d: "d = with_evidence st s1 d2"
      using run shape by auto
    have "cp_keep (planner (de_workloads (d1\<lparr>de_bootstrap := b\<rparr>))) = dc_candidate (de_keep (d1\<lparr>de_bootstrap := b\<rparr>))"
      by (simp add: planner_def decision_planner_def newCapacityPlanner_keep d1_def unscored_def)
    with plan_decision_cases [OF d2] none
    have "de_capacity d2 = None \<and> de_status d2 \<noteq> schedulerStatusFeasible
        \<or> (\<exists>q best. decided q (d1\<lparr>de_bootstrap := b\<rparr>) best
          \<and> d2 = markFixedEstimates (decide q (d1\<lparr>de_bootstrap := b\<rparr>) (minimumGain q best)))"
      by simp
    then show thesis
    proof (elim disjE exE conjE)
      assume "de_capacity d2 = None" "de_status d2 \<noteq> schedulerStatusFeasible"
      then show thesis using that(1) d by blast
    next
      fix q best
      assume r: "decided q (d1\<lparr>de_bootstrap := b\<rparr>) best" "d2 = markFixedEstimates (decide q (d1\<lparr>de_bootstrap := b\<rparr>) (minimumGain q best))"
      then have "de_capacity d2 \<noteq> None" using decide_capacity by fastforce
      then have "d = d2" by (auto simp: d with_evidence_def)
      then show thesis using that(2) r by blast
    qed
  qed
qed

text \<open>C16: A decision is always reached: for every settings, snapshot, capacity rows and behaviour of the search
  workers \<open>EvaluateScheduler\<close> returns (a decision, or nothing when the context was cancelled).\<close>

theorem EvaluateScheduler_returns: "\<exists>r. EvaluateScheduler e st s0 rows = Some r"
proof -
  have "\<exists>r. plan_decision e d p = Some r" for d p
  proof -
    have "\<exists>r. search x en = Some r" for x en using search_result by blast
    then show ?thesis by (auto simp: plan_decision_def Let_def)
  qed
  then show ?thesis unfolding EvaluateScheduler_def Let_def by (simp split: option.split)
qed

lemma keep_window_keeps: "keeps_first p \<Longrightarrow> ev_keep (keep_window p t)"
proof -
  assume keeps: "keeps_first p"
  have "pa_keep (plan_at p (keep_choice p) n)" if n: "n < length (cp_plans p)" for n
    using keeps nth_mem [OF n] n by (auto simp: keeps_first_def plan_at_def keep_choice_def hd_conv_nth [symmetric])
  then show ?thesis by (simp add: keep_window_def evaluateAtWindow_keep list_all_iff nodes_of_def) (simp add: keep_choice_def)
qed

lemma minimumGain_gain:
  assumes "keeps_first p" "ev_feasible (minimumGain p best)" "\<not> ev_keep (minimumGain p best)"
    and "ev_feasible (keep_window p (ev_period (minimumGain p best)))"
  shows "f_less (ev_gainUncertainty (minimumGain p best))
    (f_sub (ev_joules (keep_window p (ev_period (minimumGain p best)))) (ev_joules (minimumGain p best)))"
  using assms keep_window_keeps [OF assms(1), of "ev_period best"]
  by (auto simp: minimumGain_def Let_def split: if_splits)

end
