(* ===== verification/DecideClaims.thy ===== *)
theory DecideClaims
  imports DecideProps DecideSamples
begin

text \<open>
  What every decision of the scheduler promises: it respects the SLO of the workloads it judged, and a
  change of power modes pays for itself. The witness is a whole decision, evaluated: the empty node of
  \<open>DecideSamples\<close> is lowered from 10 W to 5 W.
\<close>

text \<open>The parts of that decision.\<close>

lemma decide_sample:
  obtains d t c x j where "EvaluateScheduler decide_env decide_settings decide_snapshot [decide_row] = Some (Some d)"
    "de_status d = schedulerStatusFeasible" "de_target d = Some t" "map sn_powerMode (sc_nodes (dc_candidate t)) = [''low'', ''low'']"
    "map sn_powerMode (sc_nodes (dc_candidate (de_keep d))) = [''low'', ''high'']"
    "sc_status (dc_candidate (de_keep d)) = schedulerStatusFeasible" "dc_expectedJoules t = Some (f_of_int 43)"
    "dc_expectedJoules (de_keep d) = Some (f_of_int 88)" "de_capacity d = Some c" "sy_gainUncertainty c = f_zero"
    "sy_workloads c = [x]" "yw_judgment x = Some j" "yw_weights x = [(''i'', 1000)]"
  using decide_values by (auto simp: map_eq_Cons_conv)

section \<open>The claims\<close>

text \<open>C1: A decision that keeps the pool or acts on it (status Feasible or Keep) is within the SLO of every workload
  it judged: the final rate and the transition both leave no excess, and the workload is served by at least one
  instance, with positive weights.\<close>

theorem decision_meets_slo:
  assumes "EvaluateScheduler e st s rows = Some (Some d)" "de_status d \<in> {schedulerStatusFeasible, schedulerStatusKeep}"
    and "de_capacity d = Some c" "x \<in> set (sy_workloads c)" "yw_judgment x = Some j"
  shows "within_slo j \<and> served_by (yw_weights x)"
  using assms(1)
proof (cases rule: EvaluateScheduler_cases)
  case (1 s' d')
  then have "schedulerDownCapacity st s' = Some c" using assms(3) by (simp add: with_evidence_def split: if_splits)
  then have "yw_judgment x = None" using assms(4)
    by (auto simp: schedulerDownCapacity_def split: option.splits list.splits)
  then show ?thesis using assms(5) by simp
next
  case (2 q d0 best)
  let ?best = "minimumGain q best"
  have "ev_feasible ?best" using assms(2) 2(2)
    by (auto simp: decide_def markFixedEstimates_def decision_target_def Let_def split: if_splits)
  moreover obtain w where "x = decision_workload q ?best w" "w < length (cp_ws q)"
    using decide_capacity [of q d0 ?best] assms(3,4) 2(2) by auto
  ultimately show ?thesis using minimumGain_sound [of q best] 2(1) assms(5)
    by (auto simp: sound_defs decided_def decision_workload_def Let_def)
qed

theorem decision_meets_slo_witness:
  "\<exists>d c x j. EvaluateScheduler decide_env decide_settings decide_snapshot [decide_row] = Some (Some d)
    \<and> de_capacity d = Some c \<and> sy_workloads c = [x] \<and> yw_judgment x = Some j \<and> within_slo j \<and> served_by (yw_weights x)"
proof -
  obtain d t c x j where d: "EvaluateScheduler decide_env decide_settings decide_snapshot [decide_row] = Some (Some d)"
    "de_status d = schedulerStatusFeasible" "de_capacity d = Some c" "sy_workloads c = [x]" "yw_judgment x = Some j"
    by (rule decide_sample)
  with decision_meets_slo [OF d(1) _ d(3) _ d(5)] show ?thesis by auto
qed

text \<open>C2: A change of power modes pays for itself: when the decision is to act with other power modes, and keep is
  feasible as well, the energy expected of the target is below that of keep by more than the uncertainty of the
  measured transition costs.\<close>

theorem power_change_pays:
  assumes "EvaluateScheduler e st s rows = Some (Some d)" "de_status d = schedulerStatusFeasible"
    and "de_target d = Some x" "sc_nodes (dc_candidate x) \<noteq> sc_nodes (dc_candidate (de_keep d))"
    and "sc_status (dc_candidate (de_keep d)) = schedulerStatusFeasible"
    and "dc_expectedJoules x = Some target" "dc_expectedJoules (de_keep d) = Some keep" "de_capacity d = Some c"
  shows "f_less (sy_gainUncertainty c) (f_sub keep target)"
  using assms(1)
proof (cases rule: EvaluateScheduler_cases)
  case (1 s' d')
  then have "de_status d = de_status d'" by (simp add: with_evidence_def)
  with 1 assms(2) show ?thesis by simp
next
  case (2 q d0 best)
  let ?best = "minimumGain q best" and ?keep = "keep_window q (ev_period (minimumGain q best))"
  have change: "ev_feasible ?best" "\<not> keeps_all q ?best"
    using assms(2) 2(2) by (auto simp: decide_def markFixedEstimates_def decision_target_def Let_def split: if_splits)
  have d: "dc_expectedJoules x = Some (ev_joules ?best)" "dc_expectedJoules (de_keep d) = Some (ev_joules ?keep)"
    "ev_feasible ?keep" "sc_nodes (dc_candidate x) = target_nodes q (ev_choice ?best)"
    "sc_nodes (dc_candidate (de_keep d)) = sc_nodes (dc_candidate (de_keep d0))"
    using assms(3,5,6,7) 2(2) change
    by (auto simp: decide_def markFixedEstimates_def decision_target_def scored_keep_def with_status_def named_target_def
      unverified_def Let_def split: if_splits)
  have r: "sound q ?best" "keeps_first q" "cp_keep q = dc_candidate (de_keep d0)"
    using 2(1) minimumGain_sound by (auto simp: decided_def)
  have "\<not> ev_keep ?best"
  proof
    assume "ev_keep ?best"
    then have "target_nodes q (ev_choice ?best) = sc_nodes (cp_keep q)"
      using r(1) by (intro nth_equalityI) (auto simp: target_nodes_def sound_def true_keep_def Let_def)
    then show False using assms(4) d(4,5) r(3) by simp
  qed
  with minimumGain_gain [OF r(2), of best] change(1) d(3)
  have gain: "f_less (ev_gainUncertainty ?best) (f_sub (ev_joules ?keep) (ev_joules ?best))" by simp
  moreover have "sy_gainUncertainty c = ev_gainUncertainty ?best"
    using decide_capacity [of q d0 ?best] assms(8) 2(2) by auto
  ultimately show ?thesis using d(1,2) assms(6,7) by simp
qed

theorem power_change_pays_witness:
  "\<exists>d t c. EvaluateScheduler decide_env decide_settings decide_snapshot [decide_row] = Some (Some d)
    \<and> de_target d = Some t \<and> dc_expectedJoules t = Some (f_of_int 43) \<and> dc_expectedJoules (de_keep d) = Some (f_of_int 88)
    \<and> de_capacity d = Some c \<and> f_less (sy_gainUncertainty c) (f_sub (f_of_int 88) (f_of_int 43))"
proof -
  obtain d t c where d: "EvaluateScheduler decide_env decide_settings decide_snapshot [decide_row] = Some (Some d)"
    "de_status d = schedulerStatusFeasible" "de_target d = Some t" "map sn_powerMode (sc_nodes (dc_candidate t)) = [''low'', ''low'']"
    "map sn_powerMode (sc_nodes (dc_candidate (de_keep d))) = [''low'', ''high'']"
    "sc_status (dc_candidate (de_keep d)) = schedulerStatusFeasible" "dc_expectedJoules t = Some (f_of_int 43)"
    "dc_expectedJoules (de_keep d) = Some (f_of_int 88)" "de_capacity d = Some c"
    by (rule decide_sample)
  from d(4,5) have "sc_nodes (dc_candidate t) \<noteq> sc_nodes (dc_candidate (de_keep d))" by auto
  with power_change_pays [OF d(1,2,3) _ d(6,7,8,9)] d show ?thesis by auto
qed

end
