(* ===== verification/Spec2Isabelle.thy ===== *)
theory Spec2Isabelle
  imports FFLifecycle PlanComplete NodeBudget CostChoice DemandProps
    TableProps BridgeProps SearchClaims WeightProps RowProps DecideClaims
begin

text \<open>
  Chill serves inference requests on a pool of small GPU nodes. Two parts decide what happens to a
  request, and this development models both.

  \<^bold>\<open>The native executor\<close> (\<open>internal/firstfloor\<close>) runs one model on one device. An HTTP handler
  checks a request and hands it to an actor; the actor queues it, asks the batching policy what to
  start, sends a batch to a runner process over a framed pipe, and answers the requests of the batch.

  \<^bold>\<open>The serving scheduler\<close> (\<open>internal/serving\<close>) decides which instances the pool runs. It validates
  an observed snapshot and its settings, measures demand, selects the measured cost of every
  operation, searches the plan sets of the nodes for one that meets the SLO of every workload with the
  least energy, turns it into a graph of actions, and routes the requests of a workload over its
  instances by weight.

  They share the data of a measured profile; the actions of a plan create and remove the executors.

  \<^bold>\<open>The native executor, theory by theory\<close>

  \<^item> \<open>Float64\<close>: IEEE binary64 as Go computes with it (values are NaN, infinities or a sign, a mantissa
    and an exponent; every operation is exact and then rounded to nearest even). No fused
    multiply-add, as on amd64. The conversion of a float outside int64 is implementation-defined in
    Go, so it is the parameter \<open>oor\<close> wherever it can be reached.
  \<^item> \<open>Prelude\<close>: generic lemmas, int64 wrap-around, insertion sort as Go's stable sort, the locale
    \<open>selection\<close> (a loop that keeps the best element so far) and other shared contracts.
  \<^item> \<open>FFTypes\<close>: \<open>types.go\<close>. \<open>FFDistribution\<close> and \<open>FFSampling\<close>: \<open>service_distribution.go\<close>; hydration
    of measured rows into trials, nearest groups, quantiles and both samplers. The draws of
    \<open>math/rand\<close> are arguments.
  \<^item> \<open>FFPolicy\<close> and \<open>FFChoice\<close>: \<open>policy.go\<close>; one definition per function, \<open>ChooseBatch\<close> composed as the
    code composes it.
  \<^item> \<open>FFWire\<close>: \<open>ipc.go\<close> and the input framing of \<open>server.go\<close>; a pipe is a byte string, a frame is a
    length, a JSON header and a payload. The JSON encoder and decoder are parameters; the only law
    used of them is that a header that is read keeps the payload length that was written.
  \<^item> \<open>FFConfig\<close>: \<open>config.go\<close>, \<open>recipe.go\<close>, \<open>container.go\<close>, and the handler of \<open>server.go\<close>; every error of the source is
    a constructor.
  \<^item> \<open>FFActor\<close> and \<open>FFScheduling\<close>: \<open>scheduler.go\<close>; the record \<open>schedulerActor\<close> is the state of \<open>run\<close>, one
    iteration of its loop is \<open>loop_head\<close> (expire, then start) followed by \<open>handle\<close> on the event
    the \<open>select\<close> receives. Channels, timers and goroutines are the events.
  \<^item> \<open>FFLifecycle\<close>: the states that loop reaches, their invariant and what follows from it.

  \<^bold>\<open>The serving scheduler, theory by theory\<close>

  \<^item> \<open>Routing\<close>: \<open>SmoothWeightedRoute\<close> and \<open>scheduler_routing.go\<close>.
  \<^item> \<open>SchedTypes\<close>: the records of \<open>scheduler.go\<close> and \<open>types.go\<close>, with the fields the modelled
    operations read.
  \<^item> \<open>SchedState\<close>, \<open>SchedValidate\<close>: predicates on the pool and all of \<open>scheduler_validate.go\<close>.
  \<^item> \<open>SchedSettings\<close>: settings, their validation, and the dispatch occupancy of a cell.
  \<^item> \<open>SchedDemand\<close>: workload states, arrival population, the demand window of \<open>scheduler_tempo.go\<close> and
    \<open>scheduler_preparation.go\<close>.
  \<^item> \<open>SchedCost\<close>: \<open>scheduler_operation_cost.go\<close>, \<open>scheduler_cost_baseline.go\<close>, lowest power modes.
  \<^item> \<open>SchedPlan\<close>: \<open>scheduler_plan.go\<close>, the record \<open>schedulerPlanState\<close> and one definition per method.
  \<^item> \<open>CapacityRows\<close> and \<open>CapacityTable\<close>: \<open>capacity.go\<close>; how the capacity of an instance is bracketed by a
    grid and a bisection, and the table of rows and running builds, a state with one definition per step.
  \<^item> \<open>CapacityPlanner\<close>, \<open>CapacityNodes\<close>, \<open>CapacityRoute\<close>: \<open>scheduler_capacity.go\<close>, \<open>scheduler_capacity_nodes.go\<close>,
    \<open>scheduler_capacity_cost.go\<close>; the record \<open>capacityPlanner\<close>, the plans of a node with their chains of actions
    and energy bounds, and the integer weights of a route.
  \<^item> \<open>CapacityDemand\<close>, \<open>CapacityTempo\<close>: \<open>scheduler_idle_gate.go\<close>, \<open>scheduler_reserve.go\<close>, \<open>scheduler_tempo.go\<close>; the
    demand a plan set must serve and the state that gates scaling down.
  \<^item> \<open>CapacityBridge\<close>: \<open>scheduler_bridge.go\<close>; the handoff stages of a transition.
  \<^item> \<open>CapacityEval\<close>, \<open>CapacitySearch\<close>: \<open>scheduler_capacity_evaluate.go\<close>, \<open>scheduler_capacity_search.go\<close>; one plan
    set evaluated exactly, the preference among evaluated sets, and the search for the best one.
  \<^item> \<open>CapacityDecide\<close>: \<open>scheduler_capacity_decision.go\<close> and \<open>EvaluateScheduler\<close>, from a snapshot to a decision.
  \<^item> \<open>SchedSamples\<close>, \<open>CapacitySamples\<close>, \<open>DecideSamples\<close>: small pools, the input of the witnesses.
\<close>

text \<open>
  \<^bold>\<open>What the lemmas show\<close>

  \<^item> Executor: the actor's books balance and no request is answered twice; its loop head ends;
    batches have the chosen size and fit the queue; a batch that is chosen leaves slack to
    everyone in it and none is cheaper; waiting is bounded and safe; a request is dropped only when
    it is hopeless; a frame read has the payload that was written, and each request gets its own output.
  \<^item> Service times: hydration loses nothing, quantiles are the inverse of the measured distribution,
    samples are measured. The lemma \<open>residual_panic\<close> is a concrete run of the residual sampler into its panic.
  \<^item> Scheduler: \<open>PlanSafety\<close> shows that a plan is executable in its order, touches only nodes it may
    change and removes an instance only after draining it; \<open>PlanComplete\<close> that a plan without
    reasons against it reaches its candidate; \<open>NodeBudget\<close> that validated resources fit their nodes;
    \<open>CostChoice\<close> that the selected measurement is the best one; \<open>DemandProps\<close> what the demand window,
    the failure evidence and the occupancy lookup return.
  \<^item> Capacity: \<open>RowProps\<close> shows that building a row ends for every profile and that its capacity passes its
    windows while a greater rate close to it fails; \<open>TableProps\<close> that in every interleaving of its
    operations the table builds each wanted key once and never changes a row; \<open>WeightProps\<close> that the weights
    of a route sum to 1000 and are a minimax distribution; \<open>BridgeProps\<close> that the search for what a
    route waits for is exact and that the fuel of the bridge compiler is enough; \<open>CapacityPrefer\<close>
    and \<open>SearchProps\<close> that the preference is an order, that the climb ends because it improves among
    finitely many plan sets, and, in \<open>SearchClaims\<close>, that its result is admitted, locally optimal and
    independent of the timing of the workers; \<open>DecideProps\<close> and \<open>DecideClaims\<close> that a decision is always reached, respects
    every SLO it judged, and changes a power mode only for more than the uncertainty of its cost.

  \<^bold>\<open>Assumptions and bounds\<close>

  There is one time line: an instant is an integer of nanoseconds and the monotonic clock agrees with
  it. A Go map is an association list with distinct keys in some iteration order, and the statements
  hold for each order. Go draws a new order for every loop over a map, the model keeps one per map: where
  the source adds floats over a map (\<open>halfWidth\<close>, the weights and powers of a bridge route) the sum of the code is that
  of some order, and two runs may differ from it and from each other by rounding. Contexts are never cancelled inside a modelled operation. The loops of the
  executor that are not structural take fuel (the length of the queue for \<open>start_loop\<close>: each round
  removes a request or ends); \<open>loop_head_terminates\<close> shows that it is enough. \<open>int\<close> values of the
  source are 64 bits wide and wrap where they can overflow; memory sizes are 64-bit words.

  In the capacity search the goroutines of a sweep and its deadline are an argument: which first moves each
  worker took, and after how many plan sets it saw the cut. Sorting with \<open>sort.Slice\<close> is modelled as stable
  sorting, which agrees with it because the keys compared are unique or equal keys are interchangeable.
  Profiles are shared by pointer in the source; two pointers are equal in the model when the profiles
  are. The loops over the actions of a plan take fuel: \<open>visit\<close> the number of dependencies, \<open>resolve\<close> the number of
  actions, \<open>compile_loop\<close> the number of blocked stops. \<open>BridgeProps\<close> proves that each is enough (\<open>before_route_reaches\<close>,
  \<open>resolve_all_done\<close>, \<open>bridge_compiles\<close>). \<open>climb\<close> and \<open>bisect\<close> have no fuel: they are proved to end.
  The hash of a key (\<open>cp_digest\<close>), the JSON identity of a capacity input (\<open>cp_keyOf\<close>), the texts of settings
  errors (\<open>eo_error\<close>) and the replay of one window are parameters. An accepted settings record has a
  default idle power, so a missing measurement falls back to it.

  \<^bold>\<open>Not modelled\<close>

  The discrete-event replay of the scheduler (\<open>capacityReplay\<close> and \<open>scheduler_replay*.go\<close>) and the occupancy
  estimator; wall-clock statistics of a search; the Kubernetes layers
  (\<open>kube\<close>, \<open>runtime.go\<close>), management, HTTP API and observation storage, which are input and output
  around the modelled decisions; profiling, the operator and the node actuator; generated code.
\<close>

end
